(* ===== verification/Prelude.thy ===== *)
theory Prelude
  imports
    Main
    "HOL-Library.Word"
    "HOL-Library.AList"
    "HOL-Library.List_Lexorder"
    "HOL-Library.Char_ord"
    "HOL-Library.Code_Target_Nat"
    "HOL-Library.Code_Target_Int"
begin

text \<open>
  Shared vocabulary of the development: machine integers and their checked and
  saturating arithmetic, the result type of fallible operations and its
  sequencing (the source's \<open>?\<close> operator), hash maps as association lists
  with distinct keys, and the JSON values that the persisted records carry.
  The collections \<open>result_simps\<close>, \<open>checked_arith\<close> and \<open>map_laws\<close> hold
  the facts that the component theories hand to the simplifier.
\<close>

named_theorems result_simps \<open>inversion of sequenced fallible computations\<close>
named_theorems checked_arith \<open>checked and saturating machine arithmetic\<close>
named_theorems map_laws \<open>lookup after update, removal and filtering of hash maps\<close>

section \<open>Machine integers\<close>

type_synonym u32 = "32 word"
type_synonym u64 = "64 word"
type_synonym uuid = "128 word"
type_synonym bytes = "8 word list"

text \<open>
  Signed 64-bit values (all of them timestamps in milliseconds) are \<open>int\<close>
  with the range written out where the source's arithmetic can leave it.
\<close>

type_synonym i64 = int

definition i64_min :: int where
  "i64_min = - (2 ^ 63)"

definition i64_max :: int where
  "i64_max = 2 ^ 63 - 1"

definition i64_checked_add :: "i64 \<Rightarrow> i64 \<Rightarrow> i64 option" where
  "i64_checked_add a b =
     (if i64_min \<le> a + b \<and> a + b \<le> i64_max then Some (a + b) else None)"

definition i64_saturating_sub :: "i64 \<Rightarrow> i64 \<Rightarrow> i64" where
  "i64_saturating_sub a b = max i64_min (min i64_max (a - b))"

definition i64_saturating_add :: "i64 \<Rightarrow> i64 \<Rightarrow> i64" where
  "i64_saturating_add a b = max i64_min (min i64_max (a + b))"

text \<open>Unchecked \<open>+\<close> on \<open>i64\<close>, as an optimised build computes it (two's complement).\<close>

definition i64_wrapping_add :: "i64 \<Rightarrow> i64 \<Rightarrow> i64" where
  "i64_wrapping_add a b = (a + b + 2 ^ 63) mod 2 ^ 64 - 2 ^ 63"

text \<open>\<open>usize\<close> counts are \<open>nat\<close>, bounded by the 64-bit width where they are added.\<close>

definition usize_checked_add :: "nat \<Rightarrow> nat \<Rightarrow> nat option" where
  "usize_checked_add a b = (if a + b < 2 ^ 64 then Some (a + b) else None)"

definition checked_add :: "'a::len word \<Rightarrow> 'a word \<Rightarrow> 'a word option" where
  "checked_add a b =
     (if unat a + unat b < 2 ^ LENGTH('a) then Some (a + b) else None)"

definition checked_sub :: "'a::len word \<Rightarrow> 'a word \<Rightarrow> 'a word option" where
  "checked_sub a b = (if b \<le> a then Some (a - b) else None)"

definition saturating_add :: "'a::len word \<Rightarrow> 'a word \<Rightarrow> 'a word" where
  "saturating_add a b = (case checked_add a b of Some c \<Rightarrow> c | None \<Rightarrow> - 1)"

definition saturating_sub :: "'a::len word \<Rightarrow> 'a word \<Rightarrow> 'a word" where
  "saturating_sub a b = (if b \<le> a then a - b else 0)"

lemma unat_lt_pow [simp]: "unat (a :: 'a::len word) < 2 ^ LENGTH('a)"
  by (rule unsigned_less)

lemma checked_add_Some [checked_arith]:
  "checked_add a b = Some c \<longleftrightarrow>
     c = a + b \<and> unat c = unat a + unat b \<and> unat a + unat b < 2 ^ LENGTH('a)"
  for a b :: "'a::len word"
  by (auto simp: checked_add_def unat_word_ariths)

lemma checked_add_None [checked_arith]:
  "checked_add a b = None \<longleftrightarrow> 2 ^ LENGTH('a) \<le> unat a + unat b"
  for a b :: "'a::len word"
  by (auto simp: checked_add_def)

lemma checked_sub_Some [checked_arith]:
  "checked_sub a b = Some c \<longleftrightarrow> c = a - b \<and> b \<le> a \<and> unat c = unat a - unat b"
  by (auto simp: checked_sub_def word_le_nat_alt unat_sub)

lemma checked_sub_None [checked_arith]: "checked_sub a b = None \<longleftrightarrow> a < b"
  by (auto simp: checked_sub_def)

lemma unat_saturating_sub [checked_arith]:
  "unat (saturating_sub a b) = unat a - unat b"
  by (auto simp: saturating_sub_def word_le_nat_alt unat_sub)

lemma unat_saturating_add [checked_arith]:
  "unat (saturating_add a b) = min (unat a + unat b) (2 ^ LENGTH('a) - 1)"
  for a b :: "'a::len word"
  by (auto simp: saturating_add_def checked_add_def unat_word_ariths
      unsigned_minus_1_eq_mask mask_eq_exp_minus_1)

lemma usize_checked_add_Some [checked_arith]:
  "usize_checked_add a b = Some c \<longleftrightarrow> c = a + b \<and> a + b < 2 ^ 64"
  by (auto simp: usize_checked_add_def)

lemma i64_checked_add_Some [checked_arith]:
  "i64_checked_add a b = Some c \<longleftrightarrow> c = a + b \<and> i64_min \<le> c \<and> c \<le> i64_max"
  by (auto simp: i64_checked_add_def)

lemma i64_wrapping_add_range:
  "i64_min \<le> i64_wrapping_add a b \<and> i64_wrapping_add a b \<le> i64_max"
proof -
  have "0 \<le> (a + b + 2 ^ 63) mod 2 ^ 64" "(a + b + 2 ^ 63) mod 2 ^ 64 < 2 ^ 64"
    by (rule pos_mod_sign pos_mod_bound, simp)+
  then show ?thesis
    by (simp add: i64_wrapping_add_def i64_min_def i64_max_def)
qed

lemma i64_wrapping_add_exact:
  assumes "i64_min \<le> a + b" "a + b \<le> i64_max"
  shows "i64_wrapping_add a b = a + b"
proof -
  have "(a + b + 2 ^ 63) mod 2 ^ 64 = a + b + 2 ^ 63"
    using assms by (intro mod_pos_pos_trivial) (auto simp: i64_min_def i64_max_def)
  then show ?thesis by (simp add: i64_wrapping_add_def)
qed

text \<open>Evaluation reduces a word to one of the widths of the model by a literal modulus.\<close>

lemma take_bit_widths [code]:
  "take_bit n (k :: int) =
     (if n = 64 then (if 0 \<le> k \<and> k < 18446744073709551616 then k else k mod 18446744073709551616)
      else if n = 8 then k mod 256
      else if n = 32 then k mod 4294967296
      else if n = 128 then
        (if 0 \<le> k \<and> k < 340282366920938463463374607431768211456 then k
         else k mod 340282366920938463463374607431768211456)
      else k mod 2 ^ n)"
  by (simp add: take_bit_eq_mod)

section \<open>Fallible computations\<close>

text \<open>\<open>Inl\<close> is the source's \<open>Err\<close>, \<open>Inr\<close> its \<open>Ok\<close>.\<close>

definition and_then :: "'e + 'a \<Rightarrow> ('a \<Rightarrow> 'e + 'b) \<Rightarrow> 'e + 'b" where
  "and_then r f = (case r of Inl e \<Rightarrow> Inl e | Inr x \<Rightarrow> f x)"

definition ok_or :: "'e \<Rightarrow> 'a option \<Rightarrow> 'e + 'a" where
  "ok_or e x = (case x of None \<Rightarrow> Inl e | Some y \<Rightarrow> Inr y)"

lemma and_then_simps [simp]:
  "and_then (Inl e) f = Inl e"
  "and_then (Inr x) f = f x"
  by (simp_all add: and_then_def)

lemma and_then_Inr [result_simps]:
  "and_then r f = Inr y \<longleftrightarrow> (\<exists>x. r = Inr x \<and> f x = Inr y)"
  by (auto simp: and_then_def split: sum.splits)

lemma and_then_Inl [result_simps]:
  "and_then r f = Inl e \<longleftrightarrow> r = Inl e \<or> (\<exists>x. r = Inr x \<and> f x = Inl e)"
  by (auto simp: and_then_def split: sum.splits)

lemma ok_or_simps [simp]:
  "ok_or e None = Inl e"
  "ok_or e (Some x) = Inr x"
  by (simp_all add: ok_or_def)

lemma ok_or_Inr [result_simps]: "ok_or e x = Inr y \<longleftrightarrow> x = Some y"
  by (auto simp: ok_or_def split: option.splits)

lemma ok_or_Inl [result_simps]: "ok_or e x = Inl e' \<longleftrightarrow> x = None \<and> e' = e"
  by (auto simp: ok_or_def split: option.splits)

lemma if_Inl_Inr [result_simps]:
  "(if c then Inl e else r) = Inr y \<longleftrightarrow> \<not> c \<and> r = Inr y"
  "(if c then r else Inl e) = Inr y \<longleftrightarrow> c \<and> r = Inr y"
  by auto

text \<open>Folding a fallible step over a list stops at the first error.\<close>

fun try_fold :: "('b \<Rightarrow> 'a \<Rightarrow> 'e + 'b) \<Rightarrow> 'b \<Rightarrow> 'a list \<Rightarrow> 'e + 'b" where
  "try_fold f b [] = Inr b"
| "try_fold f b (x # xs) = and_then (f b x) (\<lambda>b'. try_fold f b' xs)"

lemma try_fold_append:
  "try_fold f b (xs @ ys) = and_then (try_fold f b xs) (\<lambda>b'. try_fold f b' ys)"
  by (induction xs arbitrary: b) (auto simp: and_then_def split: sum.splits)

lemma try_fold_invariant:
  assumes "try_fold f b xs = Inr c" and "P b"
    and "\<And>b x b'. x \<in> set xs \<Longrightarrow> P b \<Longrightarrow> f b x = Inr b' \<Longrightarrow> P b'"
  shows "P c"
  using assms by (induction xs arbitrary: b) (auto simp: result_simps)

section \<open>Vectors\<close>

fun position :: "('a \<Rightarrow> bool) \<Rightarrow> 'a list \<Rightarrow> nat option" where
  "position P [] = None"
| "position P (x # xs) = (if P x then Some 0 else map_option Suc (position P xs))"

definition remove_at :: "nat \<Rightarrow> 'a list \<Rightarrow> 'a list" where
  "remove_at i xs = take i xs @ drop (Suc i) xs"

lemma position_Some:
  "position P xs = Some i \<longleftrightarrow> i < length xs \<and> P (xs ! i) \<and> (\<forall>j < i. \<not> P (xs ! j))"
proof (induction xs arbitrary: i)
  case (Cons x xs)
  show ?case
    by (cases i) (auto simp: Cons.IH less_Suc_eq_0_disj)
qed simp

lemma position_None: "position P xs = None \<longleftrightarrow> (\<forall>x \<in> set xs. \<not> P x)"
  by (induction xs) auto

lemma remove_at_split:
  "i < length xs \<Longrightarrow> \<exists>ys zs. xs = ys @ xs ! i # zs \<and> length ys = i \<and> remove_at i xs = ys @ zs"
  by (intro exI [of _ "take i xs"] exI [of _ "drop (Suc i) xs"])
     (simp add: remove_at_def id_take_nth_drop [symmetric])

lemma set_remove_at_subset: "set (remove_at i xs) \<subseteq> set xs"
  by (auto simp: remove_at_def dest: in_set_takeD in_set_dropD)

section \<open>Hash maps\<close>

text \<open>
  A hash map is an association list with distinct keys; the list order is its
  (unspecified) iteration order. Insertion replaces the value of a present key
  in place and appends an absent one, removal keeps the other entries in order.
\<close>

type_synonym ('k, 'v) hash_map = "('k \<times> 'v) list"

definition hm_wf :: "('k, 'v) hash_map \<Rightarrow> bool" where
  "hm_wf m \<longleftrightarrow> distinct (map fst m)"

definition hm_get :: "('k, 'v) hash_map \<Rightarrow> 'k \<Rightarrow> 'v option" where
  "hm_get m k = map_of m k"

definition hm_insert :: "'k \<Rightarrow> 'v \<Rightarrow> ('k, 'v) hash_map \<Rightarrow> ('k, 'v) hash_map" where
  "hm_insert k v m = AList.update k v m"

definition hm_remove :: "'k \<Rightarrow> ('k, 'v) hash_map \<Rightarrow> ('k, 'v) hash_map" where
  "hm_remove k m = AList.delete k m"

definition hm_values :: "('k, 'v) hash_map \<Rightarrow> 'v list" where
  "hm_values m = map snd m"

definition hm_retain :: "('k \<Rightarrow> 'v \<Rightarrow> bool) \<Rightarrow> ('k, 'v) hash_map \<Rightarrow> ('k, 'v) hash_map" where
  "hm_retain P m = filter (\<lambda>(k, v). P k v) m"

lemma hm_get_Nil [simp]: "hm_get [] k = None"
  by (simp add: hm_get_def)

lemma hm_wf_Nil [simp]: "hm_wf []"
  by (simp add: hm_wf_def)

lemma hm_get_insert [map_laws]:
  "hm_get (hm_insert k v m) k' = (if k' = k then Some v else hm_get m k')"
  by (simp add: hm_get_def hm_insert_def update_conv')

lemma hm_get_remove [map_laws]:
  "hm_get (hm_remove k m) k' = (if k' = k then None else hm_get m k')"
  by (simp add: hm_get_def hm_remove_def delete_conv')

lemma hm_get_retain [map_laws]:
  "hm_wf m \<Longrightarrow> hm_get (hm_retain P m) k =
     (case hm_get m k of Some v \<Rightarrow> if P k v then Some v else None | None \<Rightarrow> None)"
  unfolding hm_wf_def hm_get_def hm_retain_def
proof (induction m)
  case (Cons kv m)
  obtain k' v where kv: "kv = (k', v)" by (cases kv)
  have "k' \<notin> dom (map_of (filter (\<lambda>(k, v). P k v) m))"
    using Cons.prems kv by (auto simp: dom_map_of_conv_image_fst)
  then have "map_of (filter (\<lambda>(k, v). P k v) m) k' = None"
    by (simp add: domIff)
  with Cons kv show ?case by (auto split: option.splits)
qed simp

lemma hm_wf_insert [map_laws, intro]: "hm_wf m \<Longrightarrow> hm_wf (hm_insert k v m)"
  by (simp add: hm_wf_def hm_insert_def distinct_update)

lemma hm_wf_remove [map_laws, intro]: "hm_wf m \<Longrightarrow> hm_wf (hm_remove k m)"
  by (simp add: hm_wf_def hm_remove_def distinct_delete)

lemma hm_wf_retain [map_laws, intro]: "hm_wf m \<Longrightarrow> hm_wf (hm_retain P m)"
  by (auto simp: hm_wf_def hm_retain_def distinct_map intro: inj_on_subset)

lemma hm_values_get: "hm_wf m \<Longrightarrow> v \<in> set (hm_values m) \<longleftrightarrow> (\<exists>k. hm_get m k = Some v)"
  by (force simp: hm_wf_def hm_values_def hm_get_def dest: map_of_SomeD)

lemma hm_get_mem: "hm_wf m \<Longrightarrow> (k, v) \<in> set m \<Longrightarrow> hm_get m k = Some v"
  by (simp add: hm_wf_def hm_get_def)

lemma hm_get_set: "hm_get m k = Some v \<Longrightarrow> (k, v) \<in> set m"
  by (simp add: hm_get_def map_of_SomeD)

lemma hm_insert_twice: "hm_insert i v (hm_insert i w m) = hm_insert i v m"
  by (induction m) (auto simp: hm_insert_def)

lemma hm_get_map: "hm_get (map (\<lambda>(i, d). (i, f i d)) D) i = map_option (f i) (hm_get D i)"
  by (induction D) (auto simp: hm_get_def)

lemma hm_wf_map: "hm_wf (map (\<lambda>(i, d). (i, f i d)) D) = hm_wf D"
  by (simp add: hm_wf_def case_prod_unfold comp_def)

text \<open>\<open>entry(k).or_insert(v)\<close>: a present value is kept.\<close>

definition hm_or_insert :: "'k \<Rightarrow> 'v \<Rightarrow> ('k, 'v) hash_map \<Rightarrow> ('k, 'v) hash_map" where
  "hm_or_insert k v m = (case hm_get m k of None \<Rightarrow> hm_insert k v m | Some _ \<Rightarrow> m)"

lemma hm_get_or_insert [map_laws]:
  "hm_get (hm_or_insert k v m) k' =
     (if k' = k then Some (case hm_get m k of Some w \<Rightarrow> w | None \<Rightarrow> v) else hm_get m k')"
  by (auto simp: hm_or_insert_def hm_get_insert split: option.splits)

lemma hm_wf_or_insert [map_laws, intro]: "hm_wf m \<Longrightarrow> hm_wf (hm_or_insert k v m)"
  by (auto simp: hm_or_insert_def split: option.splits)

section \<open>Sums over a map\<close>

definition hm_sum :: "('v \<Rightarrow> nat) \<Rightarrow> ('k, 'v) hash_map \<Rightarrow> nat" where
  "hm_sum f m = sum_list (map (\<lambda>(k, v). f v) m)"

lemma hm_sum_simps [simp]:
  "hm_sum f [] = 0"
  "hm_sum f ((k, v) # m) = f v + hm_sum f m"
  by (simp_all add: hm_sum_def)

lemma hm_sum_insert:
  "hm_sum f (hm_insert k v m) + (case hm_get m k of None \<Rightarrow> 0 | Some w \<Rightarrow> f w) = hm_sum f m + f v"
  by (induction m) (auto simp: hm_insert_def hm_get_def split: option.splits)

lemma hm_sum_remove:
  assumes "hm_wf m"
  shows "hm_sum f (hm_remove k m) + (case hm_get m k of None \<Rightarrow> 0 | Some w \<Rightarrow> f w) = hm_sum f m"
  using assms
proof (induction m)
  case (Cons x m)
  obtain k' v where x: "x = (k', v)" by (cases x)
  have "hm_remove k m = m" if "k \<notin> fst ` set m"
    using that by (induction m) (auto simp: hm_remove_def)
  moreover have "hm_get m k = None" if "k \<notin> fst ` set m"
    using that by (simp add: hm_get_def map_of_eq_None_iff)
  ultimately show ?case
    using Cons x by (auto simp: hm_wf_def hm_remove_def hm_get_def)
qed (simp add: hm_remove_def)

lemma hm_sum_insert_fresh: "hm_get m k = None \<Longrightarrow> hm_sum f (hm_insert k v m) = hm_sum f m + f v"
  using hm_sum_insert [of f k v m] by simp

lemma hm_sum_member: "hm_get m k = Some v \<Longrightarrow> f v \<le> hm_sum f m"
  by (induction m) (auto simp: hm_get_def split: if_splits)

lemma hm_sum_insert_le:
  "hm_get m k = Some w \<Longrightarrow> f v \<le> f w \<Longrightarrow> hm_sum f (hm_insert k v m) \<le> hm_sum f m"
  using hm_sum_insert [of f k v m] by simp

lemma hm_sum_insert_same:
  "hm_get m k = Some w \<Longrightarrow> f v = f w \<Longrightarrow> hm_sum f (hm_insert k v m) = hm_sum f m"
  using hm_sum_insert [of f k v m] by simp

lemma hm_sum_remove_le: "hm_wf m \<Longrightarrow> hm_sum f (hm_remove k m) \<le> hm_sum f m"
  using hm_sum_remove [of m f k] by linarith

lemma hm_sum_remove_zero:
  "hm_wf m \<Longrightarrow> (\<And>w. hm_get m k = Some w \<Longrightarrow> f w = 0) \<Longrightarrow> hm_sum f (hm_remove k m) = hm_sum f m"
  using hm_sum_remove [of m f k] by (cases "hm_get m k") auto

lemma hm_sum_zero: "\<forall>x \<in> set m. f (snd x) = 0 \<Longrightarrow> hm_sum f m = 0"
  by (induction m) auto

lemma hm_sum_map: "hm_sum f (map (\<lambda>(k, v). (k, g k v)) m) = sum_list (map (\<lambda>(k, v). f (g k v)) m)"
  by (induction m) auto

lemma hm_sum_cong: "(\<And>k v. (k, v) \<in> set m \<Longrightarrow> f v = g v) \<Longrightarrow> hm_sum f m = hm_sum g m"
  unfolding hm_sum_def by (rule arg_cong [of _ _ sum_list], rule map_cong) auto

section \<open>Decimal numbers\<close>

fun decimal_nat :: "nat \<Rightarrow> string" where
  "decimal_nat n = (if n < 10 then [char_of (48 + n)] else decimal_nat (n div 10) @ [char_of (48 + n mod 10)])"

declare decimal_nat.simps [simp del]

definition decimal_i64 :: "i64 \<Rightarrow> string" where
  "decimal_i64 n = (if n < 0 then CHR ''-'' # decimal_nat (nat (- n)) else decimal_nat (nat n))"

definition digit_char :: "char \<Rightarrow> bool" where
  "digit_char c \<longleftrightarrow> 48 \<le> (of_char c :: nat) \<and> (of_char c :: nat) \<le> 57"

definition digits_value :: "string \<Rightarrow> nat" where
  "digits_value s = foldl (\<lambda>n c. 10 * n + (of_char c - 48)) 0 s"

definition parse_i64 :: "string \<Rightarrow> i64 option" where
  "parse_i64 s =
     (let (negative, digits) = (case s of c # t \<Rightarrow> if c = CHR ''-'' then (True, t) else (False, s) | [] \<Rightarrow> (False, s));
          n = (if negative then - int (digits_value digits) else int (digits_value digits))
      in if digits = [] \<or> \<not> list_all digit_char digits \<or> n < i64_min \<or> i64_max < n then None else Some n)"

lemma decimal_nat_digits: "list_all digit_char (decimal_nat n) \<and> decimal_nat n \<noteq> [] \<and> digits_value (decimal_nat n) = n"
proof (induction n rule: decimal_nat.induct)
  case (1 n)
  show ?case
  proof (cases "n < 10")
    case True
    then show ?thesis by (simp add: decimal_nat.simps [of n] digit_char_def digits_value_def)
  next
    case False
    then show ?thesis
      using 1 by (simp add: decimal_nat.simps [of n] digit_char_def digits_value_def)
  qed
qed

lemma parse_decimal_i64:
  assumes "i64_min \<le> n" "n \<le> i64_max"
  shows "parse_i64 (decimal_i64 n) = Some n"
proof (cases "n < 0")
  case True
  then show ?thesis
    using assms decimal_nat_digits [of "nat (- n)"] by (simp add: parse_i64_def decimal_i64_def Let_def)
next
  case False
  obtain c t where split: "decimal_nat (nat n) = c # t" using decimal_nat_digits by (cases "decimal_nat (nat n)") auto
  have "digit_char c" using decimal_nat_digits [of "nat n"] split by simp
  then have "c \<noteq> CHR ''-''" by (auto simp: digit_char_def)
  then show ?thesis
    using assms False decimal_nat_digits [of "nat n"] split by (simp add: parse_i64_def decimal_i64_def Let_def)
qed

section \<open>JSON values\<close>

text \<open>
  Numbers are kept as their decimal text; an object is the list of its members
  in key order.
\<close>

datatype json =
    JNull
  | JBool bool
  | JNumber string
  | JString string
  | JArray "json list"
  | JObject "(string \<times> json) list"

end
