(* ===== verification/Policy_Gate.thy ===== *)
theory Policy_Gate
  imports Prelude
begin

text \<open>
  The request-path policy gate (\<open>crates/gateway/src/policy_gate.rs\<close>) with the
  signed destination vocabulary it compares
  (\<open>crates/pipeline-config/src/effective_state.rs\<close>, \<open>policy.rs\<close>), the
  destination snapshot of backend resolution (\<open>backend.rs\<close>) and the session
  limits a verdict is turned into (\<open>plugin_registry.rs\<close>). A gate is a function
  from requests to verdicts; the hosted gate is not part of this repository, so
  it is an argument of \<open>enforce_policy\<close>.
\<close>

section \<open>Signed destination vocabulary\<close>

datatype storage_mode = Managed | S3Compatible | AwsRole | Presigned

datatype policy_operation =
    Put
  | ProcessedGet
  | RawGet
  | Head
  | List
  | Delete
  | MultipartCreate
  | MultipartUpload
  | MultipartComplete
  | MultipartAbort

datatype managed_placement_algorithm = WeightedRendezvous

record resolved_destination =
  rd_mode :: storage_mode
  rd_endpoint :: string
  rd_bucket :: string
  rd_region :: string
  rd_role_arn :: "string option"
  rd_configuration_version_id :: "string option"
  rd_configuration_sha256 :: string

record managed_backend =
  mb_backend_id :: string
  mb_provider_kind :: string
  mb_provider_instance_id :: string
  mb_provider_account_id :: string
  mb_endpoint :: string
  mb_region :: string
  mb_bucket :: string
  mb_placement_weight :: u64
  mb_placement_capacity_units :: u64
  mb_credential_epoch :: u64
  mb_configuration_sha256 :: string

datatype destination_binding =
    Concrete (destination: resolved_destination)
  | ManagedTopology
      (placement_version: u32)
      (algorithm: managed_placement_algorithm)
      (authority_sha256: string)
      (backends: "managed_backend list")

record policy_limits =
  pl_record_max_bytes :: u64
  pl_object_max_bytes :: u64
  pl_memory_bytes :: u64
  pl_fuel :: u64
  pl_deadline_ms :: u64

section \<open>Verdicts\<close>

record policy_binding =
  pb_workspace_id :: string
  pb_operation :: policy_operation
  pb_route_prefix :: string
  pb_envelope_digest :: string
  pb_envelope_version :: u64
  pb_effective_state_digest :: string
  pb_receipt_seq :: u64
  pb_receipt_body_digest :: string
  pb_authorization_epoch :: u64
  pb_destination :: destination_binding
  pb_managed_placement :: "(string \<times> string option) option"
  pb_limits :: policy_limits

record verified_policy =
  vp_schema_version :: u32
  vp_binding :: "policy_binding option"

definition VERIFIED_POLICY_SCHEMA_VERSION :: u32 where
  "VERIFIED_POLICY_SCHEMA_VERSION = 1"

definition unbound :: verified_policy where
  "unbound = \<lparr>vp_schema_version = VERIFIED_POLICY_SCHEMA_VERSION, vp_binding = None\<rparr>"

definition is_bound :: "verified_policy \<Rightarrow> bool" where
  "is_bound v = (vp_binding v \<noteq> None)"

record destination_selection_snapshot =
  ds_binding :: destination_binding
  ds_selected_primary_backend_id :: "string option"
  ds_selected_replica_backend_id :: "string option"

definition managed_placement ::
  "destination_selection_snapshot \<Rightarrow> (string \<times> string option) option" where
  "managed_placement s =
     map_option (\<lambda>p. (p, ds_selected_replica_backend_id s)) (ds_selected_primary_backend_id s)"

definition with_managed_placement ::
  "destination_selection_snapshot \<Rightarrow> string \<Rightarrow> string option \<Rightarrow> destination_selection_snapshot" where
  "with_managed_placement s primary replica =
     s\<lparr>ds_selected_primary_backend_id := Some primary,
       ds_selected_replica_backend_id := replica\<rparr>"

section \<open>Enforcement and check/use\<close>

datatype maskura_error = Generic (err_code: string) (err_message: string)

definition POLICY_TAMPERED :: string where
  "POLICY_TAMPERED = ''policy.tampered''"

definition POLICY_DENIED :: string where
  "POLICY_DENIED = ''policy.denied''"

definition CONFIG_INVALID :: string where
  "CONFIG_INVALID = ''config.invalid''"

definition noop_enforce :: "'req \<Rightarrow> maskura_error + verified_policy" where
  "noop_enforce request = Inr unbound"

definition enforce_policy ::
  "('req \<Rightarrow> maskura_error + verified_policy) option \<Rightarrow> 'req \<Rightarrow> maskura_error + verified_policy" where
  "enforce_policy gate request =
     (case gate of Some enforce \<Rightarrow> enforce request | None \<Rightarrow> Inr unbound)"

definition reject_future_evidence :: "verified_policy \<Rightarrow> maskura_error + unit" where
  "reject_future_evidence verdict =
     (if vp_schema_version verdict > VERIFIED_POLICY_SCHEMA_VERSION
      then Inl (Generic POLICY_TAMPERED
             ''verified policy evidence schema version is newer than this gateway'')
      else Inr ())"

definition concrete_identity_matches ::
  "resolved_destination \<Rightarrow> resolved_destination \<Rightarrow> bool" where
  "concrete_identity_matches approved resolved \<longleftrightarrow>
     rd_mode approved = rd_mode resolved
     \<and> rd_endpoint approved = rd_endpoint resolved
     \<and> rd_region approved = rd_region resolved
     \<and> rd_role_arn approved = rd_role_arn resolved
     \<and> rd_configuration_version_id approved = rd_configuration_version_id resolved
     \<and> rd_configuration_sha256 approved = rd_configuration_sha256 resolved"

fun destination_matches :: "destination_binding \<Rightarrow> destination_binding \<Rightarrow> bool" where
  "destination_matches (Concrete a) (Concrete b) = concrete_identity_matches a b"
| "destination_matches (ManagedTopology av aa ash ab) (ManagedTopology bv ba bsh bb) =
     (av = bv \<and> aa = ba \<and> ash = bsh \<and> ab = bb)"
| "destination_matches _ _ = False"

definition binding_matches_selection ::
  "policy_binding \<Rightarrow> destination_selection_snapshot \<Rightarrow> bool" where
  "binding_matches_selection binding snapshot \<longleftrightarrow>
     destination_matches (pb_destination binding) (ds_binding snapshot)
     \<and> pb_managed_placement binding = managed_placement snapshot"

definition consume_policy ::
  "verified_policy \<Rightarrow> destination_selection_snapshot \<Rightarrow> maskura_error + policy_binding option" where
  "consume_policy verdict snapshot =
     and_then (reject_future_evidence verdict) (\<lambda>_.
       case vp_binding verdict of
         None \<Rightarrow> Inr None
       | Some binding \<Rightarrow>
           if \<not> binding_matches_selection binding snapshot
           then Inl (Generic POLICY_DENIED
                  ''policy binding does not match the resolved storage destination'')
           else Inr (Some binding))"

definition consume_frozen_policy ::
  "verified_policy option \<Rightarrow> destination_selection_snapshot
     \<Rightarrow> maskura_error + policy_binding option" where
  "consume_frozen_policy frozen snapshot =
     (case frozen of
        Some verdict \<Rightarrow>
          and_then (reject_future_evidence verdict) (\<lambda>_. consume_policy verdict snapshot)
      | None \<Rightarrow> Inr None)"

section \<open>Limits\<close>

definition min_policy_limits :: "policy_limits \<Rightarrow> policy_limits \<Rightarrow> policy_limits" where
  "min_policy_limits a b =
     \<lparr>pl_record_max_bytes = min (pl_record_max_bytes a) (pl_record_max_bytes b),
      pl_object_max_bytes = min (pl_object_max_bytes a) (pl_object_max_bytes b),
      pl_memory_bytes = min (pl_memory_bytes a) (pl_memory_bytes b),
      pl_fuel = min (pl_fuel a) (pl_fuel b),
      pl_deadline_ms = min (pl_deadline_ms a) (pl_deadline_ms b)\<rparr>"

text \<open>
  \<open>usize\<close> is 64 bits wide on the supported targets. The wall time is a
  duration in milliseconds; a \<open>u64\<close> count of milliseconds always fits.
\<close>

record pipeline_limits =
  max_intermediate_record_bytes :: u64
  max_plugin_finish_bytes :: u64
  max_input_bytes :: u64
  max_output_bytes :: u64
  max_expansion_factor :: u64
  max_expansion_slack_bytes :: u64
  max_plugins :: u64
  max_cumulative_fuel :: u64
  max_wall_time_ms :: nat

definition pipeline_limits_validate :: "pipeline_limits \<Rightarrow> maskura_error + pipeline_limits" where
  "pipeline_limits_validate l =
     (if max_intermediate_record_bytes l = 0
        \<or> max_plugin_finish_bytes l = 0
        \<or> max_input_bytes l = 0
        \<or> max_output_bytes l = 0
        \<or> max_expansion_factor l = 0
        \<or> max_plugins l = 0
        \<or> max_cumulative_fuel l = 0
        \<or> max_wall_time_ms l = 0
      then Inl (Generic CONFIG_INVALID
             ''pipeline limits except expansion slack must be greater than zero'')
      else Inr l)"

definition constrained :: "pipeline_limits \<Rightarrow> pipeline_limits \<Rightarrow> maskura_error + pipeline_limits" where
  "constrained limits constraints =
     and_then (pipeline_limits_validate constraints) (\<lambda>c. Inr
       \<lparr>max_intermediate_record_bytes =
          min (max_intermediate_record_bytes limits) (max_intermediate_record_bytes c),
        max_plugin_finish_bytes =
          min (max_plugin_finish_bytes limits) (max_plugin_finish_bytes c),
        max_input_bytes = min (max_input_bytes limits) (max_input_bytes c),
        max_output_bytes = min (max_output_bytes limits) (max_output_bytes c),
        max_expansion_factor = min (max_expansion_factor limits) (max_expansion_factor c),
        max_expansion_slack_bytes =
          min (max_expansion_slack_bytes limits) (max_expansion_slack_bytes c),
        max_plugins = min (max_plugins limits) (max_plugins c),
        max_cumulative_fuel = min (max_cumulative_fuel limits) (max_cumulative_fuel c),
        max_wall_time_ms = min (max_wall_time_ms limits) (max_wall_time_ms c)\<rparr>)"

definition policy_session_limits :: "policy_limits \<Rightarrow> pipeline_limits" where
  "policy_session_limits policy =
     \<lparr>max_intermediate_record_bytes = min (pl_record_max_bytes policy) (- 1),
      max_plugin_finish_bytes = - 1,
      max_input_bytes = pl_object_max_bytes policy,
      max_output_bytes = - 1,
      max_expansion_factor = - 1,
      max_expansion_slack_bytes = - 1,
      max_plugins = - 1,
      max_cumulative_fuel = pl_fuel policy,
      max_wall_time_ms = unat (pl_deadline_ms policy)\<rparr>"

section \<open>Facts about the gate\<close>

lemma concrete_identity_matches_iff:
  "concrete_identity_matches a b \<longleftrightarrow> a\<lparr>rd_bucket := x\<rparr> = b\<lparr>rd_bucket := x\<rparr>"
  by (cases a, cases b) (auto simp: concrete_identity_matches_def)

text \<open>
  The comparison ignores the bucket of a concrete destination and nothing else:
  two bindings match exactly when they agree once that field is blanked.
\<close>

definition binding_identity :: "destination_binding \<Rightarrow> destination_binding" where
  "binding_identity b =
     (case b of Concrete d \<Rightarrow> Concrete (d\<lparr>rd_bucket := []\<rparr>) | ManagedTopology _ _ _ _ \<Rightarrow> b)"

lemma destination_matches_iff:
  "destination_matches a b \<longleftrightarrow> binding_identity a = binding_identity b"
  by (cases a; cases b)
     (auto simp: binding_identity_def concrete_identity_matches_iff [where x = "[]"])

lemma reject_future_evidence_Inr [result_simps]:
  "reject_future_evidence v = Inr u \<longleftrightarrow> vp_schema_version v \<le> VERIFIED_POLICY_SCHEMA_VERSION"
  by (auto simp: reject_future_evidence_def)

lemma consume_frozen_policy_Some:
  "consume_frozen_policy (Some v) s = consume_policy v s"
  by (cases "reject_future_evidence v") (simp_all add: consume_frozen_policy_def consume_policy_def)

text \<open>
  Every outcome of consuming a verdict: the error code of a rejection, no
  binding for an unbound verdict, and the verdict's own binding when it matches
  the selection.
\<close>

lemma consume_policy_cases:
  "consume_policy v s =
     (if VERIFIED_POLICY_SCHEMA_VERSION < vp_schema_version v
      then Inl (Generic POLICY_TAMPERED
             ''verified policy evidence schema version is newer than this gateway'')
      else case vp_binding v of
        None \<Rightarrow> Inr None
      | Some b \<Rightarrow>
          if binding_matches_selection b s then Inr (Some b)
          else Inl (Generic POLICY_DENIED
                 ''policy binding does not match the resolved storage destination''))"
  by (auto simp: consume_policy_def reject_future_evidence_def split: option.splits)

lemma constrained_Inr:
  "constrained l c = Inr l' \<longleftrightarrow>
     pipeline_limits_validate c = Inr c
     \<and> max_intermediate_record_bytes l' = min (max_intermediate_record_bytes l) (max_intermediate_record_bytes c)
     \<and> max_plugin_finish_bytes l' = min (max_plugin_finish_bytes l) (max_plugin_finish_bytes c)
     \<and> max_input_bytes l' = min (max_input_bytes l) (max_input_bytes c)
     \<and> max_output_bytes l' = min (max_output_bytes l) (max_output_bytes c)
     \<and> max_expansion_factor l' = min (max_expansion_factor l) (max_expansion_factor c)
     \<and> max_expansion_slack_bytes l' = min (max_expansion_slack_bytes l) (max_expansion_slack_bytes c)
     \<and> max_plugins l' = min (max_plugins l) (max_plugins c)
     \<and> max_cumulative_fuel l' = min (max_cumulative_fuel l) (max_cumulative_fuel c)
     \<and> max_wall_time_ms l' = min (max_wall_time_ms l) (max_wall_time_ms c)"
  by (auto simp: constrained_def pipeline_limits_validate_def)

section \<open>Properties\<close>

text \<open>
  C17: Check/use of a frozen verdict. A later operation of an upload gets a
  binding back exactly when the frozen verdict is of a known schema version, is
  bound, agrees with the fresh selection on every identity field of the
  destination (the whole ring for a managed topology, all but the bucket for a
  concrete destination) and froze the same placement; it then gets that very
  binding.
\<close>

theorem frozen_binding_released_iff:
  "consume_frozen_policy frozen snapshot = Inr (Some binding) \<longleftrightarrow>
     (\<exists>verdict. frozen = Some verdict
        \<and> vp_schema_version verdict \<le> VERIFIED_POLICY_SCHEMA_VERSION
        \<and> vp_binding verdict = Some binding
        \<and> binding_identity (pb_destination binding) = binding_identity (ds_binding snapshot)
        \<and> pb_managed_placement binding = managed_placement snapshot)"
proof (cases frozen)
  case None
  then show ?thesis by (simp add: consume_frozen_policy_def)
next
  case (Some verdict)
  then show ?thesis
    by (cases "vp_binding verdict")
       (auto simp: consume_frozen_policy_Some consume_policy_cases binding_matches_selection_def
          destination_matches_iff not_less)
qed

text \<open>
  Session limits only tighten. Completing an upload under a frozen and a
  fresh verdict runs the session with, for each of the four governed limits, the
  minimum of the operator's and both policies' values, and with the operator's
  value for every other limit; a zero in a governed limit is refused.
\<close>

theorem session_limits_are_minimum:
  "constrained op (policy_session_limits (min_policy_limits a b)) =
     (if pl_record_max_bytes a = 0 \<or> pl_record_max_bytes b = 0
         \<or> pl_object_max_bytes a = 0 \<or> pl_object_max_bytes b = 0
         \<or> pl_fuel a = 0 \<or> pl_fuel b = 0
         \<or> pl_deadline_ms a = 0 \<or> pl_deadline_ms b = 0
      then Inl (Generic CONFIG_INVALID
             ''pipeline limits except expansion slack must be greater than zero'')
      else Inr (op
        \<lparr>max_intermediate_record_bytes :=
           min (max_intermediate_record_bytes op) (min (pl_record_max_bytes a) (pl_record_max_bytes b)),
         max_input_bytes := min (max_input_bytes op) (min (pl_object_max_bytes a) (pl_object_max_bytes b)),
         max_cumulative_fuel := min (max_cumulative_fuel op) (min (pl_fuel a) (pl_fuel b)),
         max_wall_time_ms :=
           min (max_wall_time_ms op) (min (unat (pl_deadline_ms a)) (unat (pl_deadline_ms b)))\<rparr>))"
proof -
  have zero: "min x y = 0 \<longleftrightarrow> x = 0 \<or> y = 0" for x y :: u64
    by (auto simp: min_def)
  have top: "min x (- 1) = x" for x :: u64
    by (simp add: min_def)
  have unat: "unat (min x y) = min (unat x) (unat y)" for x y :: u64
    by (simp add: min_def word_le_nat_alt)
  have nat_zero: "min m n = 0 \<longleftrightarrow> m = 0 \<or> n = 0" for m n :: nat
    by (auto simp: min_def)
  show ?thesis
    by (simp add: constrained_def pipeline_limits_validate_def policy_session_limits_def
          min_policy_limits_def zero top unat nat_zero unat_eq_0)
qed

end
