(* ===== verification/Staging_Types.thy ===== *)
theory Staging_Types
  imports Policy_Gate
begin

text \<open>
  The vocabulary of staged multipart uploads shared by every repository
  implementation (\<open>crates/gateway/src/multipart_staging/types.rs\<close>,
  \<open>constants.rs\<close>) and the predicates of \<open>listing.rs\<close> on a single upload.
  \<open>DestinationCommitPermit::deterministic_operation_id\<close> hashes a serialised
  identity; the hash is an argument \<open>op_id\<close> of the operations that call it.
\<close>

section \<open>Constants\<close>

definition MAX_ACTIVE_UPLOADS :: nat where
  "MAX_ACTIVE_UPLOADS = 16"

definition MAX_PARTS :: u32 where
  "MAX_PARTS = 10000"

definition MAX_MULTIPART_UPLOADS_PAGE :: nat where
  "MAX_MULTIPART_UPLOADS_PAGE = 1000"

text \<open>Durations in milliseconds.\<close>

definition DEFAULT_EXPIRY_MS :: i64 where
  "DEFAULT_EXPIRY_MS = 24 * 60 * 60 * 1000"

definition RECONCILIATION_GRACE_MS :: i64 where
  "RECONCILIATION_GRACE_MS = 5 * 60 * 1000"

definition ARTIFACT_PREFIX :: string where
  "ARTIFACT_PREFIX = ''multipart/''"

section \<open>Records\<close>

record staging_quota_limits =
  ql_tenant_bytes :: u64
  ql_global_bytes :: u64

record pending_part =
  pp_upload_id :: string
  pp_part_number :: u32
  pp_attempt :: u32
  pp_artifact_key :: string
  pp_reserved_bytes :: u64

record cleanup_candidate =
  cc_upload_id :: string
  cc_artifact_key :: string

record multipart_identity =
  id_tenant_id :: string
  id_credential_policy_id :: string
  id_bucket :: string
  id_key :: string
  id_upload_id :: string

record multipart_snapshot =
  ms_metadata :: "(string \<times> string) list"
  ms_tags :: "(string \<times> string) list"
  ms_checksum_mode :: "string option"
  ms_destination :: json
  ms_plugin_snapshot :: json
  ms_max_staged_bytes :: u64
  ms_verified_policy :: "verified_policy option"

datatype multipart_lifecycle = Open | Completing | Publishing | Completed | Aborted | Expired

record pipeline_evidence =
  pe_revision :: string
  pe_fingerprint :: string
  pe_components :: string
  pe_fuel_consumed :: u64
  pe_duration_ms :: u64
  pe_spool_mode :: string

record multipart_completion_result =
  cr_etag :: "string option"
  cr_checksum_sha256 :: string
  cr_version_id :: "string option"
  cr_source_bytes :: u64
  cr_size_bytes :: u64
  cr_pipeline_evidence :: "pipeline_evidence option"

record destination_commit_record =
  dc_operation_id :: uuid
  dc_result :: multipart_completion_result
  dc_committed_at_ms :: i64

record multipart_upload =
  up_identity :: multipart_identity
  up_namespace_epoch :: "u64 option"
  up_snapshot :: multipart_snapshot
  up_lifecycle :: multipart_lifecycle
  up_staged_bytes :: u64
  up_reserved_bytes :: u64
  up_created_at_ms :: i64
  up_expires_at_ms :: i64
  up_updated_at_ms :: i64
  up_tombstone_until_ms :: "i64 option"
  up_complete_request_fingerprint :: "string option"
  up_completion_lease_owner :: "string option"
  up_completion_lease_expires_at_ms :: "i64 option"
  up_completion_fencing_token :: u64
  up_destination_operation_id :: "uuid option"
  up_publishing_started_at_ms :: "i64 option"
  up_destination_commit :: "destination_commit_record option"
  up_completion_result :: "multipart_completion_result option"

record multipart_part =
  mp_upload_id :: string
  mp_part_number :: u32
  mp_attempt :: u32
  mp_artifact_key :: string
  mp_etag :: string
  mp_checksum_sha256 :: string
  mp_size_bytes :: u64
  mp_created_at_ms :: i64

record complete_part =
  cp_part_number :: u32
  cp_etag :: string
  cp_checksum_sha256 :: "string option"

record completion_lease =
  cl_fencing_token :: u64
  cl_selected_parts :: "multipart_part list"
  cl_cleanup_parts :: "multipart_part list"

datatype completion_acquire =
    Acquired completion_lease
  | Replayed multipart_completion_result
  | Busy

record destination_commit_permit =
  pm_upload_id :: string
  pm_completion_fingerprint :: string
  pm_fencing_token :: u64
  pm_operation_id :: uuid

record publishing_multipart_upload =
  pu_identity :: multipart_identity
  pu_permit :: destination_commit_permit
  pu_publishing_started_at_ms :: i64
  pu_destination_commit :: "destination_commit_record option"

record cleanup_audit =
  ca_id :: uuid
  ca_upload_id :: string
  ca_kind :: string
  ca_detail :: json
  ca_created_at_ms :: i64

record retired_multipart_upload =
  ru_upload_id :: string
  ru_tenant_id :: string
  ru_namespace_epoch :: "u64 option"

datatype staging_error =
    Unavailable
  | NotFound
  | NotOpen
  | QuotaExceeded
  | InvalidPart
  | InvalidListing
  | CompletionConflict
  | Fenced
  | Persistence string
  | Crypto string

datatype abort_mutation_error =
    PreMutation staging_error
  | MutationUnknown staging_error

definition staging_quota_limits_new :: "u64 \<Rightarrow> u64 \<Rightarrow> staging_error + staging_quota_limits" where
  "staging_quota_limits_new tenant_bytes global_bytes =
     (if tenant_bytes = 0 \<or> global_bytes = 0 \<or> tenant_bytes > global_bytes
      then Inl QuotaExceeded
      else Inr \<lparr>ql_tenant_bytes = tenant_bytes, ql_global_bytes = global_bytes\<rparr>)"

section \<open>Predicates on one upload\<close>

definition same_identity :: "multipart_upload \<Rightarrow> multipart_identity \<Rightarrow> bool" where
  "same_identity upload identity \<longleftrightarrow>
     id_tenant_id (up_identity upload) = id_tenant_id identity
     \<and> id_credential_policy_id (up_identity upload) = id_credential_policy_id identity
     \<and> id_bucket (up_identity upload) = id_bucket identity
     \<and> id_key (up_identity upload) = id_key identity
     \<and> id_upload_id (up_identity upload) = id_upload_id identity"

lemma same_identity_iff [simp]: "same_identity u i \<longleftrightarrow> up_identity u = i"
  by (cases i, cases "up_identity u") (auto simp: same_identity_def)

definition permit_matches :: "multipart_upload \<Rightarrow> destination_commit_permit \<Rightarrow> bool" where
  "permit_matches upload permit \<longleftrightarrow>
     up_lifecycle upload = Publishing
     \<and> id_upload_id (up_identity upload) = pm_upload_id permit
     \<and> up_complete_request_fingerprint upload = Some (pm_completion_fingerprint permit)
     \<and> up_completion_fencing_token upload = pm_fencing_token permit
     \<and> up_destination_operation_id upload = Some (pm_operation_id permit)"

definition publishing_upload :: "multipart_upload \<Rightarrow> staging_error + publishing_multipart_upload" where
  "publishing_upload upload =
     and_then (ok_or (Persistence ''publishing upload is missing its fingerprint'')
                (up_complete_request_fingerprint upload)) (\<lambda>fingerprint.
     and_then (ok_or (Persistence ''publishing upload is missing its operation id'')
                (up_destination_operation_id upload)) (\<lambda>operation_id.
     and_then (ok_or (Persistence ''publishing upload is missing its start time'')
                (up_publishing_started_at_ms upload)) (\<lambda>started.
     Inr \<lparr>pu_identity = up_identity upload,
          pu_permit =
            \<lparr>pm_upload_id = id_upload_id (up_identity upload),
             pm_completion_fingerprint = fingerprint,
             pm_fencing_token = up_completion_fencing_token upload,
             pm_operation_id = operation_id\<rparr>,
          pu_publishing_started_at_ms = started,
          pu_destination_commit = up_destination_commit upload\<rparr>)))"

section \<open>Client part selection\<close>

definition part_matches_request :: "multipart_part \<Rightarrow> complete_part \<Rightarrow> bool" where
  "part_matches_request part request \<longleftrightarrow>
     mp_etag part = cp_etag request
     \<and> (case cp_checksum_sha256 request of
          None \<Rightarrow> True | Some checksum \<Rightarrow> checksum = mp_checksum_sha256 part)"

text \<open>The loop of \<open>validate_selected_parts\<close>, with \<open>previous\<close> and \<open>selected\<close> as its state.\<close>

fun select_parts ::
  "multipart_part list \<Rightarrow> u32 \<Rightarrow> multipart_part list \<Rightarrow> complete_part list
     \<Rightarrow> staging_error + multipart_part list" where
  "select_parts current previous selected [] = Inr selected"
| "select_parts current previous selected (request # requests) =
     (if cp_part_number request = 0 \<or> cp_part_number request \<le> previous then Inl InvalidPart
      else case find (\<lambda>part. mp_part_number part = cp_part_number request) current of
        None \<Rightarrow> Inl InvalidPart
      | Some part \<Rightarrow>
          if \<not> part_matches_request part request then Inl InvalidPart
          else select_parts current (cp_part_number request) (selected @ [part]) requests)"

definition validate_selected_parts ::
  "multipart_part list \<Rightarrow> complete_part list \<Rightarrow> staging_error + multipart_part list" where
  "validate_selected_parts current requested =
     (if requested = [] then Inl InvalidPart else select_parts current 0 [] requested)"

lemma select_parts_spec:
  "select_parts current previous selected requests = Inr result \<Longrightarrow>
     \<exists>parts. result = selected @ parts
       \<and> length parts = length requests
       \<and> map mp_part_number parts = map cp_part_number requests
       \<and> sorted_wrt (<) (map mp_part_number parts)
       \<and> (\<forall>part \<in> set parts. previous < mp_part_number part \<and> part \<in> set current)
       \<and> list_all2 part_matches_request parts requests"
proof (induction current previous selected requests arbitrary: result rule: select_parts.induct)
  case (2 current previous selected request requests)
  let ?found = "find (\<lambda>part. mp_part_number part = cp_part_number request) current"
  from "2.prems" obtain part where part: "?found = Some part"
      and fresh: "previous < cp_part_number request"
      and matches: "part_matches_request part request"
      and rest: "select_parts current (cp_part_number request) (selected @ [part]) requests
                   = Inr result"
    by (auto split: if_splits option.splits)
  have member: "part \<in> set current" "mp_part_number part = cp_part_number request"
    using part by (auto simp: find_Some_iff)
  from "2.IH" part fresh matches rest obtain parts where
      parts: "result = (selected @ [part]) @ parts" "length parts = length requests"
      and numbers: "map mp_part_number parts = map cp_part_number requests"
      and ascending: "sorted_wrt (<) (map mp_part_number parts)"
      and above: "\<forall>q \<in> set parts. cp_part_number request < mp_part_number q \<and> q \<in> set current"
      and pairs: "list_all2 part_matches_request parts requests"
    by (force simp: not_le)
  have "\<forall>n \<in> set (map cp_part_number requests). cp_part_number request < n"
    unfolding numbers [symmetric] using above by simp
  with member fresh matches parts numbers ascending above pairs show ?case
    by (intro exI [of _ "part # parts"]) (auto intro: order.strict_trans)
qed simp

text \<open>
  A successful selection returns one current part per request, in strictly
  ascending part order, with the requested etag and (when given) checksum.
\<close>

lemma validate_selected_parts_spec:
  assumes "validate_selected_parts current requested = Inr selected"
  shows "selected \<noteq> []"
    and "map mp_part_number selected = map cp_part_number requested"
    and "sorted_wrt (<) (map mp_part_number selected)"
    and "set selected \<subseteq> set current"
    and "list_all2 part_matches_request selected requested"
  using assms select_parts_spec [of current 0 "[]" requested selected]
  by (auto simp: validate_selected_parts_def split: if_splits)

end
