(* ===== verification/Multipart_Reducer.thy ===== *)
theory Multipart_Reducer
  imports Staging_Types
begin

text \<open>
  The durable local multipart repository keeps one event log per upload; this
  theory is the pure state reduction over it
  (\<open>crates/gateway/src/file_multipart_repository/types.rs\<close> and \<open>reducer.rs\<close>).
  Two functions of the source call other crates and are arguments here:
  \<open>op_id\<close> is \<open>DestinationCommitPermit::deterministic_operation_id\<close> (a UUIDv5
  hash) and \<open>encode\<close> is \<open>serde_json::to_vec\<close> on events.
\<close>

section \<open>Persisted vocabulary\<close>

definition FILE_MULTIPART_SCHEMA_VERSION :: u32 where
  "FILE_MULTIPART_SCHEMA_VERSION = 1"

definition MAX_FILE_MULTIPART_AUDITS :: nat where
  "MAX_FILE_MULTIPART_AUDITS = 256"

definition MAX_FILE_MULTIPART_EVIDENCE_RECORDS :: nat where
  "MAX_FILE_MULTIPART_EVIDENCE_RECORDS = 4096"

definition MAX_REPLAY_EVENTS :: nat where
  "MAX_REPLAY_EVENTS = 256"

datatype file_part_attempt_lifecycle = Pending | Current | Retired

record file_part_attempt =
  fa_lifecycle :: file_part_attempt_lifecycle
  fa_part :: multipart_part
  fa_reserved_bytes :: u64

record file_multipart_snapshot =
  fs_schema_version :: u32
  fs_final_event_sequence :: u64
  fs_identity :: "multipart_identity option"
  fs_upload :: "multipart_upload option"
  fs_attempts :: "file_part_attempt list"
  fs_cleanup_audits :: "cleanup_audit list"

definition file_multipart_snapshot_default :: file_multipart_snapshot where
  "file_multipart_snapshot_default =
     \<lparr>fs_schema_version = FILE_MULTIPART_SCHEMA_VERSION,
      fs_final_event_sequence = 0,
      fs_identity = None,
      fs_upload = None,
      fs_attempts = [],
      fs_cleanup_audits = []\<rparr>"

datatype file_multipart_transition =
    UploadCreated multipart_upload
  | PartReplaced multipart_part i64
  | PartReserved pending_part i64
  | PartCommitted pending_part multipart_part i64
  | ArtifactDeleted string i64
  | CompletionAcquired string "complete_part list" string i64 u64 i64
  | CompletionRenewed u64 i64 i64
  | DestinationCommitBegun destination_commit_permit i64
  | DestinationCommitRecorded destination_commit_permit destination_commit_record i64
  | DestinationCommitReleased destination_commit_permit i64
  | CompletionCompleted destination_commit_permit multipart_completion_result i64 i64
  | DestinationCommitReferenceCleared uuid i64
  | UploadAborted i64 i64
  | UploadExpired i64 i64
  | CleanupAudited cleanup_audit
  | TerminalUploadDeleted
  | TerminalUploadRetired i64

record file_multipart_event =
  fe_schema_version :: u32
  fe_sequence :: u64
  fe_event_id :: uuid
  fe_identity :: multipart_identity
  fe_transition :: file_multipart_transition

datatype reducer_apply = Applied | ExactDuplicate | CompactedDuplicate

datatype file_multipart_reducer_error =
    UnsupportedVersion u32
  | InvalidSequence
  | ConflictingDuplicate
  | IdentityConflict
  | UnknownReference
  | IllegalLifecycle
  | InvalidFence
  | InvalidPermit
  | InvalidPart
  | InvalidAccounting
  | CompletionConflict
  | InvalidExpiry
  | BoundExceeded
  | CorruptSnapshot

type_synonym 'a reduced = "file_multipart_reducer_error + 'a"

section \<open>Accounting and bounds\<close>

definition checked_add_bytes :: "u64 \<Rightarrow> u64 \<Rightarrow> u64 reduced" where
  "checked_add_bytes left right = ok_or InvalidAccounting (checked_add left right)"

definition account_attempt :: "u64 \<times> u64 \<Rightarrow> file_part_attempt \<Rightarrow> (u64 \<times> u64) reduced" where
  "account_attempt acc attempt =
     (case acc of (staged, reserved) \<Rightarrow>
        case fa_lifecycle attempt of
          Pending \<Rightarrow>
            and_then (checked_add_bytes reserved (fa_reserved_bytes attempt))
              (\<lambda>r. Inr (staged, r))
        | Current \<Rightarrow>
            and_then (checked_add_bytes staged (mp_size_bytes (fa_part attempt)))
              (\<lambda>s. Inr (s, reserved))
        | Retired \<Rightarrow>
            and_then (checked_add_bytes staged (mp_size_bytes (fa_part attempt)))
              (\<lambda>s. Inr (s, reserved)))"

definition calculate_accounting :: "file_part_attempt list \<Rightarrow> (u64 \<times> u64) reduced" where
  "calculate_accounting attempts = try_fold account_attempt (0, 0) attempts"

fun json_record_count :: "json \<Rightarrow> nat reduced"
  and json_count_values :: "nat \<Rightarrow> json list \<Rightarrow> nat reduced"
  and json_count_members :: "nat \<Rightarrow> (string \<times> json) list \<Rightarrow> nat reduced" where
  "json_record_count (JArray values) = json_count_values (length values) values"
| "json_record_count (JObject members) = json_count_members 1 members"
| "json_record_count JNull = Inr 0"
| "json_record_count (JBool b) = Inr 0"
| "json_record_count (JNumber n) = Inr 0"
| "json_record_count (JString s) = Inr 0"
| "json_count_values count [] = Inr count"
| "json_count_values count (v # vs) =
     and_then (json_record_count v) (\<lambda>n.
     and_then (ok_or BoundExceeded (usize_checked_add count n)) (\<lambda>count'.
     json_count_values count' vs))"
| "json_count_members count [] = Inr count"
| "json_count_members count ((key, v) # ms) =
     and_then (json_record_count v) (\<lambda>n.
     and_then (ok_or BoundExceeded (usize_checked_add count n)) (\<lambda>count'.
     json_count_members count' ms))"

definition is_terminal :: "multipart_lifecycle \<Rightarrow> bool" where
  "is_terminal lifecycle \<longleftrightarrow> lifecycle \<in> {Completed, Aborted, Expired}"

definition validate_tombstone :: "i64 \<Rightarrow> i64 \<Rightarrow> unit reduced" where
  "validate_tombstone at_ms tombstone_until_ms =
     and_then (ok_or InvalidExpiry (i64_checked_add at_ms DEFAULT_EXPIRY_MS)) (\<lambda>expected.
     if tombstone_until_ms \<noteq> expected then Inl InvalidExpiry else Inr ())"

section \<open>Lookups and field updates\<close>

definition require_upload :: "file_multipart_snapshot \<Rightarrow> multipart_upload reduced" where
  "require_upload snapshot = ok_or UnknownReference (fs_upload snapshot)"

definition require_open :: "file_multipart_snapshot \<Rightarrow> multipart_upload reduced" where
  "require_open snapshot =
     and_then (require_upload snapshot) (\<lambda>upload.
     if up_lifecycle upload \<noteq> Open then Inl IllegalLifecycle else Inr upload)"

text \<open>Writing through \<open>require_upload_mut\<close>: the upload in place is replaced.\<close>

definition set_upload :: "file_multipart_snapshot \<Rightarrow> multipart_upload \<Rightarrow> file_multipart_snapshot" where
  "set_upload snapshot upload = snapshot\<lparr>fs_upload := Some upload\<rparr>"

definition attempt_index :: "file_multipart_snapshot \<Rightarrow> string \<Rightarrow> nat reduced" where
  "attempt_index snapshot artifact_key =
     ok_or UnknownReference
       (position (\<lambda>attempt. mp_artifact_key (fa_part attempt) = artifact_key) (fs_attempts snapshot))"

definition max_attempt :: "file_multipart_snapshot \<Rightarrow> u32 \<Rightarrow> u32" where
  "max_attempt snapshot part_number =
     fold max
       (map (\<lambda>attempt. mp_attempt (fa_part attempt))
         (filter (\<lambda>attempt. mp_part_number (fa_part attempt) = part_number) (fs_attempts snapshot)))
       0"

definition retire_attempt :: "file_part_attempt \<Rightarrow> file_part_attempt" where
  "retire_attempt attempt =
     (if fa_lifecycle attempt = Current then attempt\<lparr>fa_lifecycle := Retired\<rparr> else attempt)"

definition retire_current_attempts :: "file_multipart_snapshot \<Rightarrow> file_multipart_snapshot" where
  "retire_current_attempts snapshot =
     snapshot\<lparr>fs_attempts := map retire_attempt (fs_attempts snapshot)\<rparr>"

definition set_updated_at :: "file_multipart_snapshot \<Rightarrow> i64 \<Rightarrow> file_multipart_snapshot reduced" where
  "set_updated_at snapshot updated_at_ms =
     and_then (require_upload snapshot) (\<lambda>upload.
     if updated_at_ms < up_updated_at_ms upload then Inl InvalidExpiry
     else and_then (calculate_accounting (fs_attempts snapshot)) (\<lambda>(staged, reserved).
     Inr (set_upload snapshot
       (upload\<lparr>up_staged_bytes := staged,
               up_reserved_bytes := reserved,
               up_updated_at_ms := updated_at_ms\<rparr>))))"

section \<open>Validation\<close>

definition validate_identity :: "multipart_identity \<Rightarrow> unit reduced" where
  "validate_identity identity =
     (if id_tenant_id identity = []
        \<or> id_credential_policy_id identity = []
        \<or> id_bucket identity = []
        \<or> id_key identity = []
        \<or> id_upload_id identity = []
      then Inl IdentityConflict else Inr ())"

definition validate_part_reference :: "multipart_part \<Rightarrow> multipart_identity \<Rightarrow> unit reduced" where
  "validate_part_reference part identity =
     (if mp_upload_id part \<noteq> id_upload_id identity
        \<or> mp_part_number part = 0
        \<or> mp_part_number part > MAX_PARTS
        \<or> mp_attempt part = 0
        \<or> mp_artifact_key part = []
      then Inl InvalidPart else Inr ())"

definition validate_lifecycle :: "multipart_upload \<Rightarrow> unit reduced" where
  "validate_lifecycle upload =
     (case up_lifecycle upload of
        Open \<Rightarrow>
          if up_complete_request_fingerprint upload \<noteq> None
             \<or> up_completion_lease_owner upload \<noteq> None
             \<or> up_completion_lease_expires_at_ms upload \<noteq> None
             \<or> up_completion_fencing_token upload \<noteq> 0
             \<or> up_destination_operation_id upload \<noteq> None
             \<or> up_publishing_started_at_ms upload \<noteq> None
             \<or> up_destination_commit upload \<noteq> None
             \<or> up_completion_result upload \<noteq> None
             \<or> up_tombstone_until_ms upload \<noteq> None
          then Inl CorruptSnapshot else Inr ()
      | Completing \<Rightarrow>
          if up_complete_request_fingerprint upload \<in> {None, Some []}
             \<or> up_completion_fencing_token upload = 0
             \<or> up_completion_lease_expires_at_ms upload = None
             \<or> up_destination_operation_id upload \<noteq> None
             \<or> up_publishing_started_at_ms upload \<noteq> None
             \<or> up_destination_commit upload \<noteq> None
             \<or> up_completion_result upload \<noteq> None
             \<or> up_tombstone_until_ms upload \<noteq> None
          then Inl CorruptSnapshot else Inr ()
      | Publishing \<Rightarrow>
          if up_complete_request_fingerprint upload \<in> {None, Some []}
             \<or> up_completion_fencing_token upload = 0
             \<or> up_completion_lease_owner upload \<noteq> None
             \<or> up_completion_lease_expires_at_ms upload \<noteq> None
             \<or> up_destination_operation_id upload = None
             \<or> up_publishing_started_at_ms upload = None
             \<or> up_completion_result upload \<noteq> None
             \<or> up_tombstone_until_ms upload \<noteq> None
          then Inl CorruptSnapshot else Inr ()
      | Completed \<Rightarrow>
          if up_complete_request_fingerprint upload \<in> {None, Some []}
             \<or> up_completion_result upload = None
             \<or> up_tombstone_until_ms upload = None
             \<or> (up_destination_operation_id upload \<noteq> None) \<noteq> (up_destination_commit upload \<noteq> None)
             \<or> (up_destination_operation_id upload \<noteq> None)
                 \<noteq> (up_publishing_started_at_ms upload \<noteq> None)
             \<or> up_completion_lease_owner upload \<noteq> None
             \<or> up_completion_lease_expires_at_ms upload \<noteq> None
          then Inl CorruptSnapshot else Inr ()
      | _ \<Rightarrow>
          if up_tombstone_until_ms upload = None
             \<or> up_complete_request_fingerprint upload \<noteq> None
             \<or> up_completion_lease_owner upload \<noteq> None
             \<or> up_completion_lease_expires_at_ms upload \<noteq> None
             \<or> up_completion_fencing_token upload \<noteq> 0
             \<or> up_destination_operation_id upload \<noteq> None
             \<or> up_publishing_started_at_ms upload \<noteq> None
             \<or> up_destination_commit upload \<noteq> None
             \<or> up_completion_result upload \<noteq> None
          then Inl CorruptSnapshot else Inr ())"

definition validate_destination_commit :: "multipart_upload \<Rightarrow> unit reduced" where
  "validate_destination_commit upload =
     (case up_destination_commit upload of
        None \<Rightarrow> Inr ()
      | Some commit \<Rightarrow>
          if up_destination_operation_id upload \<noteq> Some (dc_operation_id commit)
          then Inl CompletionConflict
          else if (case up_publishing_started_at_ms upload of
                     None \<Rightarrow> False | Some started \<Rightarrow> dc_committed_at_ms commit < started)
                  \<or> dc_committed_at_ms commit > up_updated_at_ms upload
          then Inl InvalidExpiry
          else if (case up_completion_result upload of
                     None \<Rightarrow> False | Some result \<Rightarrow> result \<noteq> dc_result commit)
          then Inl CompletionConflict
          else Inr ())"

definition validate_upload :: "multipart_upload \<Rightarrow> unit reduced" where
  "validate_upload upload =
     and_then (validate_identity (up_identity upload)) (\<lambda>_.
     if up_created_at_ms upload > up_updated_at_ms upload
        \<or> up_created_at_ms upload \<ge> up_expires_at_ms upload
        \<or> ms_max_staged_bytes (up_snapshot upload) = 0
     then Inl InvalidExpiry
     else and_then (validate_lifecycle upload) (\<lambda>_. validate_destination_commit upload))"

text \<open>The attempt loop of \<open>validate_snapshot\<close>, over its five local accumulators.\<close>

record attempt_scan =
  sc_artifacts :: "string set"
  sc_coordinates :: "(u32 \<times> u32) set"
  sc_current_parts :: "u32 set"
  sc_staged_bytes :: u64
  sc_reserved_bytes :: u64

definition attempt_scan_start :: attempt_scan where
  "attempt_scan_start =
     \<lparr>sc_artifacts = {}, sc_coordinates = {}, sc_current_parts = {},
      sc_staged_bytes = 0, sc_reserved_bytes = 0\<rparr>"

definition scan_attempt ::
  "multipart_identity \<Rightarrow> attempt_scan \<Rightarrow> file_part_attempt \<Rightarrow> attempt_scan reduced" where
  "scan_attempt identity sc attempt =
     and_then (validate_part_reference (fa_part attempt) identity) (\<lambda>_.
     let part = fa_part attempt;
         coordinate = (mp_part_number part, mp_attempt part)
     in if mp_artifact_key part \<in> sc_artifacts sc \<or> coordinate \<in> sc_coordinates sc
     then Inl InvalidPart
     else let sc = sc\<lparr>sc_artifacts := insert (mp_artifact_key part) (sc_artifacts sc),
                      sc_coordinates := insert coordinate (sc_coordinates sc)\<rparr>
     in case fa_lifecycle attempt of
          Pending \<Rightarrow>
            if mp_size_bytes part \<noteq> 0 \<or> mp_etag part \<noteq> [] \<or> mp_checksum_sha256 part \<noteq> []
            then Inl InvalidPart
            else and_then (checked_add_bytes (sc_reserved_bytes sc) (fa_reserved_bytes attempt))
                   (\<lambda>n. Inr (sc\<lparr>sc_reserved_bytes := n\<rparr>))
        | Current \<Rightarrow>
            if fa_reserved_bytes attempt \<noteq> 0
               \<or> mp_part_number part \<in> sc_current_parts sc
               \<or> mp_etag part = [] \<or> mp_checksum_sha256 part = []
            then Inl InvalidPart
            else and_then (checked_add_bytes (sc_staged_bytes sc) (mp_size_bytes part))
                   (\<lambda>n. Inr (sc\<lparr>sc_staged_bytes := n,
                                sc_current_parts := insert (mp_part_number part) (sc_current_parts sc)\<rparr>))
        | Retired \<Rightarrow>
            if fa_reserved_bytes attempt \<noteq> 0 \<or> mp_etag part = [] \<or> mp_checksum_sha256 part = []
            then Inl InvalidPart
            else and_then (checked_add_bytes (sc_staged_bytes sc) (mp_size_bytes part))
                   (\<lambda>n. Inr (sc\<lparr>sc_staged_bytes := n\<rparr>)))"

definition scan_audit :: "multipart_identity \<Rightarrow> uuid set \<Rightarrow> cleanup_audit \<Rightarrow> uuid set reduced" where
  "scan_audit identity audit_ids audit =
     (if ca_upload_id audit \<noteq> id_upload_id identity \<or> ca_id audit \<in> audit_ids
      then Inl BoundExceeded
      else and_then (json_record_count (ca_detail audit)) (\<lambda>n.
        if n > MAX_FILE_MULTIPART_EVIDENCE_RECORDS then Inl BoundExceeded
        else Inr (insert (ca_id audit) audit_ids)))"

definition validate_accounting ::
  "attempt_scan \<Rightarrow> multipart_upload option \<Rightarrow> unit reduced" where
  "validate_accounting sc upload_opt =
     (case upload_opt of
        None \<Rightarrow> Inr ()
      | Some upload \<Rightarrow>
          if up_staged_bytes upload \<noteq> sc_staged_bytes sc
             \<or> up_reserved_bytes upload \<noteq> sc_reserved_bytes sc
          then Inl InvalidAccounting
          else and_then (checked_add_bytes (sc_staged_bytes sc) (sc_reserved_bytes sc)) (\<lambda>total.
            if total > ms_max_staged_bytes (up_snapshot upload) then Inl InvalidAccounting
            else if is_terminal (up_lifecycle upload) \<and> sc_current_parts sc \<noteq> {}
            then Inl InvalidPart else Inr ()))"

definition validate_snapshot :: "file_multipart_snapshot \<Rightarrow> unit reduced" where
  "validate_snapshot snapshot =
     (if fs_schema_version snapshot \<noteq> FILE_MULTIPART_SCHEMA_VERSION
      then Inl (UnsupportedVersion (fs_schema_version snapshot))
      else if length (fs_cleanup_audits snapshot) > MAX_FILE_MULTIPART_AUDITS
              \<or> length (fs_attempts snapshot) > unat MAX_PARTS
      then Inl BoundExceeded
      else case fs_identity snapshot of
        None \<Rightarrow>
          if fs_upload snapshot = None \<and> fs_attempts snapshot = []
             \<and> fs_cleanup_audits snapshot = [] \<and> fs_final_event_sequence snapshot = 0
          then Inr () else Inl CorruptSnapshot
      | Some identity \<Rightarrow>
          and_then (validate_identity identity) (\<lambda>_.
          and_then
            (case fs_upload snapshot of
               Some upload \<Rightarrow>
                 if up_identity upload \<noteq> identity then Inl IdentityConflict
                 else validate_upload upload
             | None \<Rightarrow>
                 if fs_attempts snapshot \<noteq> [] \<or> fs_cleanup_audits snapshot \<noteq> []
                 then Inl CorruptSnapshot else Inr ()) (\<lambda>_.
          and_then (try_fold (scan_attempt identity) attempt_scan_start (fs_attempts snapshot)) (\<lambda>sc.
          and_then (validate_accounting sc (fs_upload snapshot)) (\<lambda>_.
          and_then (try_fold (scan_audit identity) {} (fs_cleanup_audits snapshot)) (\<lambda>_.
          Inr ()))))))"

section \<open>Completion protocol steps\<close>

text \<open>The loop of the reducer's \<open>validate_selected_parts\<close>, with \<open>previous\<close> as its state.\<close>

fun check_selected ::
  "file_part_attempt list \<Rightarrow> u32 \<Rightarrow> complete_part list \<Rightarrow> unit reduced" where
  "check_selected attempts previous [] = Inr ()"
| "check_selected attempts previous (requested # rest) =
     (if cp_part_number requested \<le> previous then Inl InvalidPart
      else and_then
        (ok_or UnknownReference
          (find (\<lambda>attempt. fa_lifecycle attempt = Current
                   \<and> mp_part_number (fa_part attempt) = cp_part_number requested) attempts))
        (\<lambda>current.
          if \<not> part_matches_request (fa_part current) requested then Inl InvalidPart
          else check_selected attempts (cp_part_number requested) rest))"

definition file_validate_selected_parts ::
  "file_multipart_snapshot \<Rightarrow> complete_part list \<Rightarrow> unit reduced" where
  "file_validate_selected_parts snapshot selected =
     (if selected = [] \<or> length selected > unat MAX_PARTS then Inl InvalidPart
      else check_selected (fs_attempts snapshot) 0 selected)"

definition validate_permit ::
  "(multipart_identity \<Rightarrow> string \<Rightarrow> uuid) \<Rightarrow> file_multipart_snapshot
     \<Rightarrow> destination_commit_permit \<Rightarrow> unit reduced" where
  "validate_permit op_id snapshot permit =
     and_then (require_upload snapshot) (\<lambda>upload.
     if up_lifecycle upload \<noteq> Publishing
        \<or> id_upload_id (up_identity upload) \<noteq> pm_upload_id permit
        \<or> up_complete_request_fingerprint upload \<noteq> Some (pm_completion_fingerprint permit)
        \<or> up_completion_fencing_token upload \<noteq> pm_fencing_token permit
        \<or> up_destination_operation_id upload \<noteq> Some (pm_operation_id permit)
        \<or> pm_operation_id permit
            \<noteq> op_id (up_identity upload) (pm_completion_fingerprint permit)
     then Inl InvalidPermit else Inr ())"

definition reduce_acquire_completion ::
  "file_multipart_snapshot \<Rightarrow> string \<Rightarrow> complete_part list \<Rightarrow> string \<Rightarrow> i64 \<Rightarrow> u64 \<Rightarrow> i64
     \<Rightarrow> file_multipart_snapshot reduced" where
  "reduce_acquire_completion snapshot fingerprint selected_parts owner
       lease_expires_at_ms fencing_token updated_at_ms =
     and_then (require_upload snapshot) (\<lambda>upload.
     if up_lifecycle upload \<notin> {Open, Completing} then Inl IllegalLifecycle
     else if up_lifecycle upload = Open \<and> up_expires_at_ms upload \<le> updated_at_ms
     then Inl InvalidExpiry
     else if (case up_complete_request_fingerprint upload of
                None \<Rightarrow> False | Some old \<Rightarrow> old \<noteq> fingerprint)
     then Inl CompletionConflict
     else if up_lifecycle upload = Completing
             \<and> (case up_completion_lease_expires_at_ms upload of
                  None \<Rightarrow> False | Some expires \<Rightarrow> expires > updated_at_ms)
     then Inl InvalidFence
     else and_then (ok_or InvalidFence (checked_add (up_completion_fencing_token upload) 1))
       (\<lambda>next_token.
     if fencing_token \<noteq> next_token
        \<or> lease_expires_at_ms \<le> updated_at_ms
        \<or> fingerprint = []
        \<or> owner = []
     then Inl InvalidFence
     else and_then (file_validate_selected_parts snapshot selected_parts) (\<lambda>_.
     set_updated_at
       (set_upload snapshot
         (upload\<lparr>up_lifecycle := Completing,
                 up_complete_request_fingerprint := Some fingerprint,
                 up_completion_lease_owner := Some owner,
                 up_completion_lease_expires_at_ms := Some lease_expires_at_ms,
                 up_completion_fencing_token := fencing_token\<rparr>))
       updated_at_ms)))"

definition reduce_begin_destination_commit ::
  "(multipart_identity \<Rightarrow> string \<Rightarrow> uuid) \<Rightarrow> file_multipart_snapshot \<Rightarrow> multipart_identity
     \<Rightarrow> destination_commit_permit \<Rightarrow> i64 \<Rightarrow> file_multipart_snapshot reduced" where
  "reduce_begin_destination_commit op_id snapshot identity permit now_ms =
     and_then (require_upload snapshot) (\<lambda>upload.
     if up_lifecycle upload \<noteq> Completing
        \<or> up_complete_request_fingerprint upload \<noteq> Some (pm_completion_fingerprint permit)
        \<or> up_completion_fencing_token upload \<noteq> pm_fencing_token permit
        \<or> (case up_completion_lease_expires_at_ms upload of
             None \<Rightarrow> True | Some expires \<Rightarrow> expires \<le> now_ms)
        \<or> pm_upload_id permit \<noteq> id_upload_id identity
        \<or> pm_operation_id permit \<noteq> op_id identity (pm_completion_fingerprint permit)
     then Inl InvalidPermit
     else set_updated_at
       (set_upload snapshot
         (upload\<lparr>up_lifecycle := Publishing,
                 up_destination_operation_id := Some (pm_operation_id permit),
                 up_publishing_started_at_ms := Some now_ms,
                 up_destination_commit := None,
                 up_completion_lease_owner := None,
                 up_completion_lease_expires_at_ms := None\<rparr>))
       now_ms)"

definition terminal_without_commit ::
  "file_multipart_snapshot \<Rightarrow> multipart_lifecycle \<Rightarrow> i64 \<Rightarrow> i64 \<Rightarrow> file_multipart_snapshot reduced" where
  "terminal_without_commit snapshot lifecycle at_ms tombstone_until_ms =
     and_then (validate_tombstone at_ms tombstone_until_ms) (\<lambda>_.
     and_then (require_upload snapshot) (\<lambda>upload.
     if up_lifecycle upload \<noteq> Open then Inl IllegalLifecycle
     else set_updated_at
       (retire_current_attempts
         (set_upload snapshot
           (upload\<lparr>up_lifecycle := lifecycle,
                   up_tombstone_until_ms := Some tombstone_until_ms\<rparr>)))
       at_ms))"

section \<open>The transition function\<close>

definition reserved_part :: "pending_part \<Rightarrow> i64 \<Rightarrow> multipart_part" where
  "reserved_part pending created_at_ms =
     \<lparr>mp_upload_id = pp_upload_id pending,
      mp_part_number = pp_part_number pending,
      mp_attempt = pp_attempt pending,
      mp_artifact_key = pp_artifact_key pending,
      mp_etag = [],
      mp_checksum_sha256 = [],
      mp_size_bytes = 0,
      mp_created_at_ms = created_at_ms\<rparr>"

text \<open>One equation per transition, the body of the corresponding match arm.\<close>

fun reduce_body ::
  "(multipart_identity \<Rightarrow> string \<Rightarrow> uuid) \<Rightarrow> file_multipart_snapshot \<Rightarrow> multipart_identity
     \<Rightarrow> file_multipart_transition \<Rightarrow> file_multipart_snapshot reduced" where
  "reduce_body op_id s identity (UploadCreated upload) =
     (if fs_identity s \<noteq> None \<or> fs_upload s \<noteq> None then Inl ConflictingDuplicate
      else if up_identity upload \<noteq> identity then Inl IdentityConflict
      else Inr (s\<lparr>fs_identity := Some identity, fs_upload := Some upload\<rparr>))"
| "reduce_body op_id s identity (PartReplaced part updated_at_ms) =
     and_then (require_open s) (\<lambda>_.
     and_then (validate_part_reference part identity) (\<lambda>_.
     if mp_part_number part = 0 \<or> mp_part_number part > MAX_PARTS then Inl InvalidPart
     else if mp_attempt part \<le> max_attempt s (mp_part_number part)
             \<or> length (fs_attempts s) \<ge> unat MAX_PARTS
     then Inl InvalidPart
     else set_updated_at
       (s\<lparr>fs_attempts :=
            filter (\<lambda>attempt. \<not> (mp_part_number (fa_part attempt) = mp_part_number part
                                   \<and> fa_lifecycle attempt = Current)) (fs_attempts s)
            @ [\<lparr>fa_lifecycle = Current, fa_part = part, fa_reserved_bytes = 0\<rparr>]\<rparr>)
       updated_at_ms))"
| "reduce_body op_id s identity (PartReserved pending created_at_ms) =
     and_then (require_open s) (\<lambda>upload.
     if up_expires_at_ms upload \<le> created_at_ms
        \<or> pp_upload_id pending \<noteq> id_upload_id identity
        \<or> pp_part_number pending = 0
        \<or> pp_part_number pending > MAX_PARTS
        \<or> length (fs_attempts s) \<ge> unat MAX_PARTS
     then Inl InvalidPart
     else and_then (ok_or InvalidPart (checked_add (max_attempt s (pp_part_number pending)) 1))
       (\<lambda>expected_attempt.
     if pp_attempt pending \<noteq> expected_attempt then Inl InvalidPart
     else set_updated_at
       (s\<lparr>fs_attempts := fs_attempts s @
            [\<lparr>fa_lifecycle = Pending,
              fa_part = reserved_part pending created_at_ms,
              fa_reserved_bytes = pp_reserved_bytes pending\<rparr>]\<rparr>)
       created_at_ms))"
| "reduce_body op_id s identity (PartCommitted pending part updated_at_ms) =
     and_then (require_open s) (\<lambda>_.
     and_then (validate_part_reference part identity) (\<lambda>_.
     and_then (attempt_index s (pp_artifact_key pending)) (\<lambda>index.
     if pp_upload_id pending \<noteq> id_upload_id identity
        \<or> mp_upload_id part \<noteq> pp_upload_id pending
        \<or> mp_part_number part \<noteq> pp_part_number pending
        \<or> mp_attempt part \<noteq> pp_attempt pending
        \<or> mp_artifact_key part \<noteq> pp_artifact_key pending
        \<or> mp_size_bytes part > pp_reserved_bytes pending
     then Inl InvalidPart
     else let attempt = fs_attempts s ! index in
     if fa_lifecycle attempt \<noteq> Pending
        \<or> fa_reserved_bytes attempt \<noteq> pp_reserved_bytes pending
        \<or> mp_part_number (fa_part attempt) \<noteq> pp_part_number pending
        \<or> mp_attempt (fa_part attempt) \<noteq> pp_attempt pending
     then Inl UnknownReference
     else set_updated_at
       (s\<lparr>fs_attempts :=
            (map (\<lambda>old. if mp_part_number (fa_part old) = mp_part_number part
                         then retire_attempt old else old) (fs_attempts s))
            [index := \<lparr>fa_lifecycle = Current, fa_part = part, fa_reserved_bytes = 0\<rparr>]\<rparr>)
       updated_at_ms)))"
| "reduce_body op_id s identity (ArtifactDeleted artifact_key updated_at_ms) =
     and_then (attempt_index s artifact_key) (\<lambda>index.
     if fa_lifecycle (fs_attempts s ! index) = Current
        \<and> (case fs_upload s of
             None \<Rightarrow> False
           | Some upload \<Rightarrow> up_lifecycle upload \<in> {Open, Completing, Publishing})
     then Inl IllegalLifecycle
     else set_updated_at (s\<lparr>fs_attempts := remove_at index (fs_attempts s)\<rparr>) updated_at_ms)"
| "reduce_body op_id s identity
       (CompletionAcquired fingerprint selected_parts owner lease_expires_at_ms fencing_token updated_at_ms) =
     reduce_acquire_completion s fingerprint selected_parts owner
       lease_expires_at_ms fencing_token updated_at_ms"
| "reduce_body op_id s identity (CompletionRenewed fencing_token lease_expires_at_ms updated_at_ms) =
     and_then (require_upload s) (\<lambda>upload.
     if up_lifecycle upload \<noteq> Completing \<or> up_completion_fencing_token upload \<noteq> fencing_token
     then Inl InvalidFence
     else if lease_expires_at_ms \<le> updated_at_ms then Inl InvalidExpiry
     else set_updated_at
       (set_upload s (upload\<lparr>up_completion_lease_expires_at_ms := Some lease_expires_at_ms\<rparr>))
       updated_at_ms)"
| "reduce_body op_id s identity (DestinationCommitBegun permit publishing_started_at_ms) =
     reduce_begin_destination_commit op_id s identity permit publishing_started_at_ms"
| "reduce_body op_id s identity (DestinationCommitRecorded permit commit updated_at_ms) =
     and_then (validate_permit op_id s permit) (\<lambda>_.
     if dc_operation_id commit \<noteq> pm_operation_id permit then Inl InvalidPermit
     else and_then (require_upload s) (\<lambda>upload.
     if up_destination_commit upload \<noteq> None then Inl CompletionConflict
     else set_updated_at
       (set_upload s (upload\<lparr>up_destination_commit := Some commit\<rparr>)) updated_at_ms))"
| "reduce_body op_id s identity (DestinationCommitReleased permit updated_at_ms) =
     and_then (validate_permit op_id s permit) (\<lambda>_.
     and_then (require_upload s) (\<lambda>upload.
     if up_destination_commit upload \<noteq> None then Inl InvalidPermit
     else set_updated_at
       (set_upload s
         (upload\<lparr>up_lifecycle := Completing,
                 up_destination_operation_id := None,
                 up_publishing_started_at_ms := None,
                 up_completion_lease_owner := None,
                 up_completion_lease_expires_at_ms := Some updated_at_ms\<rparr>))
       updated_at_ms))"
| "reduce_body op_id s identity
       (CompletionCompleted permit result completed_at_ms tombstone_until_ms) =
     and_then (validate_permit op_id s permit) (\<lambda>_.
     and_then (validate_tombstone completed_at_ms tombstone_until_ms) (\<lambda>_.
     and_then (require_upload s) (\<lambda>upload.
     if map_option dc_result (up_destination_commit upload) \<noteq> Some result
     then Inl CompletionConflict
     else set_updated_at
       (retire_current_attempts
         (set_upload s
           (upload\<lparr>up_lifecycle := Completed,
                   up_completion_result := Some result,
                   up_completion_lease_owner := None,
                   up_completion_lease_expires_at_ms := None,
                   up_tombstone_until_ms := Some tombstone_until_ms\<rparr>)))
       completed_at_ms)))"
| "reduce_body op_id s identity
       (DestinationCommitReferenceCleared expected_operation_id updated_at_ms) =
     and_then (require_upload s) (\<lambda>upload.
     if \<not> is_terminal (up_lifecycle upload)
        \<or> up_destination_operation_id upload \<noteq> Some expected_operation_id
     then Inl InvalidPermit
     else set_updated_at
       (set_upload s
         (upload\<lparr>up_destination_operation_id := None,
                 up_destination_commit := None,
                 up_publishing_started_at_ms := None\<rparr>))
       updated_at_ms)"
| "reduce_body op_id s identity (UploadAborted aborted_at_ms tombstone_until_ms) =
     terminal_without_commit s Aborted aborted_at_ms tombstone_until_ms"
| "reduce_body op_id s identity (UploadExpired expired_at_ms tombstone_until_ms) =
     and_then (require_open s) (\<lambda>upload.
     if up_expires_at_ms upload > expired_at_ms then Inl InvalidExpiry
     else terminal_without_commit s Expired expired_at_ms tombstone_until_ms)"
| "reduce_body op_id s identity (CleanupAudited audit) =
     and_then (require_upload s) (\<lambda>upload.
     if ca_upload_id audit \<noteq> id_upload_id identity then Inl IdentityConflict
     else if length (fs_cleanup_audits s) \<ge> MAX_FILE_MULTIPART_AUDITS
             \<or> (\<exists>old \<in> set (fs_cleanup_audits s). ca_id old = ca_id audit)
     then Inl BoundExceeded
     else and_then (json_record_count (ca_detail audit)) (\<lambda>count.
     if count > MAX_FILE_MULTIPART_EVIDENCE_RECORDS
        \<or> ca_created_at_ms audit < up_created_at_ms upload
     then Inl BoundExceeded
     else Inr (s\<lparr>fs_cleanup_audits := fs_cleanup_audits s @ [audit]\<rparr>)))"
| "reduce_body op_id s identity TerminalUploadDeleted =
     and_then (require_upload s) (\<lambda>upload.
     if up_lifecycle upload \<notin> {Aborted, Expired}
        \<or> fs_attempts s \<noteq> []
        \<or> up_destination_operation_id upload \<noteq> None
        \<or> up_destination_commit upload \<noteq> None
     then Inl IllegalLifecycle
     else Inr (s\<lparr>fs_upload := None, fs_cleanup_audits := []\<rparr>))"
| "reduce_body op_id s identity (TerminalUploadRetired retired_at_ms) =
     and_then (require_upload s) (\<lambda>upload.
     if \<not> is_terminal (up_lifecycle upload)
        \<or> fs_attempts s \<noteq> []
        \<or> up_destination_operation_id upload \<noteq> None
        \<or> up_destination_commit upload \<noteq> None
        \<or> (case up_tombstone_until_ms upload of
             None \<Rightarrow> True | Some until \<Rightarrow> until > retired_at_ms)
     then Inl IllegalLifecycle
     else Inr (s\<lparr>fs_upload := None, fs_cleanup_audits := []\<rparr>))"

definition reduce_transition ::
  "(multipart_identity \<Rightarrow> string \<Rightarrow> uuid) \<Rightarrow> file_multipart_snapshot \<Rightarrow> file_multipart_event
     \<Rightarrow> file_multipart_snapshot reduced" where
  "reduce_transition op_id snapshot event =
     (case fs_identity snapshot of
        Some identity \<Rightarrow>
          if identity \<noteq> fe_identity event then Inl IdentityConflict
          else reduce_body op_id snapshot (fe_identity event) (fe_transition event)
      | None \<Rightarrow>
          (case fe_transition event of
             UploadCreated _ \<Rightarrow> reduce_body op_id snapshot (fe_identity event) (fe_transition event)
           | _ \<Rightarrow> Inl UnknownReference))"

section \<open>The reducer\<close>

record file_multipart_reducer =
  fr_snapshot :: file_multipart_snapshot
  fr_replay_floor :: u64
  fr_replayed :: "(u64, bytes) hash_map"
  fr_event_ids :: "(uuid, u64) hash_map"

definition reducer_empty :: file_multipart_reducer where
  "reducer_empty =
     \<lparr>fr_snapshot = file_multipart_snapshot_default, fr_replay_floor = 0,
      fr_replayed = [], fr_event_ids = []\<rparr>"

definition reducer_from_snapshot :: "file_multipart_snapshot \<Rightarrow> file_multipart_reducer reduced" where
  "reducer_from_snapshot snapshot =
     and_then (validate_snapshot snapshot) (\<lambda>_. Inr
       \<lparr>fr_snapshot = snapshot, fr_replay_floor = fs_final_event_sequence snapshot,
        fr_replayed = [], fr_event_ids = []\<rparr>)"

definition compacted_snapshot :: "file_multipart_reducer \<Rightarrow> file_multipart_snapshot" where
  "compacted_snapshot r = fr_snapshot r"

text \<open>
  The state after the call and its result. The transition runs on a copy of the
  snapshot, so every error leaves the reducer as it was.
\<close>

definition apply_event ::
  "(multipart_identity \<Rightarrow> string \<Rightarrow> uuid) \<Rightarrow> (file_multipart_event \<Rightarrow> bytes option)
     \<Rightarrow> file_multipart_reducer \<Rightarrow> file_multipart_event
     \<Rightarrow> file_multipart_reducer \<times> reducer_apply reduced" where
  "apply_event op_id encode r event =
     (if fe_schema_version event \<noteq> FILE_MULTIPART_SCHEMA_VERSION
      then (r, Inl (UnsupportedVersion (fe_schema_version event)))
      else if fe_sequence event \<le> fr_replay_floor r then (r, Inr CompactedDuplicate)
      else case encode event of
        None \<Rightarrow> (r, Inl CorruptSnapshot)
      | Some canonical \<Rightarrow>
        (case hm_get (fr_replayed r) (fe_sequence event) of
           Some previous \<Rightarrow>
             (r, if previous = canonical then Inr ExactDuplicate else Inl ConflictingDuplicate)
         | None \<Rightarrow>
           if hm_get (fr_event_ids r) (fe_event_id event) \<noteq> None
           then (r, Inl ConflictingDuplicate)
           else if length (fr_replayed r) \<ge> MAX_REPLAY_EVENTS then (r, Inl BoundExceeded)
           else case checked_add (fs_final_event_sequence (fr_snapshot r)) 1 of
             None \<Rightarrow> (r, Inl InvalidSequence)
           | Some next \<Rightarrow>
             if fe_sequence event \<noteq> next then (r, Inl InvalidSequence)
             else case reduce_transition op_id (fr_snapshot r) event of
               Inl e \<Rightarrow> (r, Inl e)
             | Inr candidate \<Rightarrow>
               let candidate = candidate\<lparr>fs_final_event_sequence := fe_sequence event\<rparr>
               in case validate_snapshot candidate of
                 Inl e \<Rightarrow> (r, Inl e)
               | Inr _ \<Rightarrow>
                 (r\<lparr>fr_snapshot := candidate,
                    fr_replayed := hm_insert (fe_sequence event) canonical (fr_replayed r),
                    fr_event_ids := hm_insert (fe_event_id event) (fe_sequence event) (fr_event_ids r)\<rparr>,
                  Inr Applied)))"

section \<open>Quota reconstruction\<close>

record file_multipart_quota_usage =
  qu_staged_bytes :: u64
  qu_reserved_bytes :: u64
  qu_active_uploads :: nat

definition quota_usage_default :: file_multipart_quota_usage where
  "quota_usage_default = \<lparr>qu_staged_bytes = 0, qu_reserved_bytes = 0, qu_active_uploads = 0\<rparr>"

record file_multipart_aggregate_quotas =
  aq_tenants :: "(string, file_multipart_quota_usage) hash_map"
  aq_global :: file_multipart_quota_usage

definition validate_usage :: "file_multipart_quota_usage \<Rightarrow> u64 \<Rightarrow> unit reduced" where
  "validate_usage usage limit =
     and_then (checked_add_bytes (qu_staged_bytes usage) (qu_reserved_bytes usage)) (\<lambda>total.
     if total > limit then Inl InvalidAccounting else Inr ())"

text \<open>Adding one upload to a usage row; both rows of the loop body are updated this way.\<close>

definition add_usage ::
  "file_multipart_quota_usage \<Rightarrow> multipart_upload \<Rightarrow> file_multipart_quota_usage reduced" where
  "add_usage usage upload =
     and_then (checked_add_bytes (qu_staged_bytes usage) (up_staged_bytes upload)) (\<lambda>staged.
     and_then (checked_add_bytes (qu_reserved_bytes usage) (up_reserved_bytes upload)) (\<lambda>reserved.
     and_then (ok_or InvalidAccounting
                (usize_checked_add (qu_active_uploads usage)
                  (if up_lifecycle upload = Open then 1 else 0))) (\<lambda>active.
     Inr \<lparr>qu_staged_bytes = staged, qu_reserved_bytes = reserved, qu_active_uploads = active\<rparr>)))"

definition quota_step ::
  "file_multipart_aggregate_quotas \<times> string set \<Rightarrow> file_multipart_snapshot
     \<Rightarrow> (file_multipart_aggregate_quotas \<times> string set) reduced" where
  "quota_step acc snapshot =
     (case acc of (result, upload_ids) \<Rightarrow>
      and_then (validate_snapshot snapshot) (\<lambda>_.
      case fs_upload snapshot of
        None \<Rightarrow> Inr (result, upload_ids)
      | Some upload \<Rightarrow>
          if id_upload_id (up_identity upload) \<in> upload_ids then Inl IdentityConflict
          else
            let tenant_id = id_tenant_id (up_identity upload);
                tenant = (case hm_get (aq_tenants result) tenant_id of
                            None \<Rightarrow> quota_usage_default | Some usage \<Rightarrow> usage)
            in and_then (add_usage tenant upload) (\<lambda>tenant'.
               and_then (add_usage (aq_global result) upload) (\<lambda>global'.
               Inr (result\<lparr>aq_tenants := hm_insert tenant_id tenant' (aq_tenants result),
                           aq_global := global'\<rparr>,
                    insert (id_upload_id (up_identity upload)) upload_ids)))))"

definition validate_tenant_usage :: "u64 \<Rightarrow> unit \<Rightarrow> file_multipart_quota_usage \<Rightarrow> unit reduced" where
  "validate_tenant_usage limit u usage =
     and_then (validate_usage usage limit) (\<lambda>_.
     if qu_active_uploads usage > MAX_ACTIVE_UPLOADS then Inl InvalidAccounting else Inr ())"

definition reconstruct_file_multipart_quotas ::
  "file_multipart_snapshot list \<Rightarrow> staging_quota_limits \<Rightarrow> file_multipart_aggregate_quotas reduced" where
  "reconstruct_file_multipart_quotas snapshots limits =
     and_then
       (try_fold quota_step (\<lparr>aq_tenants = [], aq_global = quota_usage_default\<rparr>, {}) snapshots)
       (\<lambda>(result, upload_ids).
     and_then
       (try_fold (validate_tenant_usage (ql_tenant_bytes limits)) () (hm_values (aq_tenants result)))
       (\<lambda>_.
     and_then (validate_usage (aq_global result) (ql_global_bytes limits)) (\<lambda>_.
     Inr result)))"

end
