(* ===== verification/Upload_Lifecycle.thy ===== *)
theory Upload_Lifecycle
  imports Staging_Types
begin

text \<open>
  The abstract life of a multipart upload, which every repository
  implementation has to follow: the lifecycle state machine, the fields a step
  may never change, and the finality of a recorded destination commit. The
  locales state this as a contract on single steps and derive what holds over
  whole runs; the event reducer and the in-memory repository are instances.
\<close>

section \<open>The lifecycle state machine\<close>

inductive lifecycle_edge :: "multipart_lifecycle \<Rightarrow> multipart_lifecycle \<Rightarrow> bool" where
  stay: "lifecycle_edge l l"
| open_completing: "lifecycle_edge Open Completing"
| open_aborted: "lifecycle_edge Open Aborted"
| open_expired: "lifecycle_edge Open Expired"
| completing_publishing: "lifecycle_edge Completing Publishing"
| publishing_completing: "lifecycle_edge Publishing Completing"
| publishing_completed: "lifecycle_edge Publishing Completed"

code_pred lifecycle_edge .

inductive_simps lifecycle_edge_simps [simp]:
  "lifecycle_edge Open l" "lifecycle_edge Completing l" "lifecycle_edge Publishing l"
  "lifecycle_edge Completed l" "lifecycle_edge Aborted l" "lifecycle_edge Expired l"

lemma lifecycle_edge_refl [simp]: "lifecycle_edge l l"
  by (rule lifecycle_edge.stay)

definition lifecycle_final :: "multipart_lifecycle \<Rightarrow> bool" where
  "lifecycle_final l \<longleftrightarrow> l = Completed \<or> l = Aborted \<or> l = Expired"

lemma final_edge: "lifecycle_final l \<Longrightarrow> lifecycle_edge l l' \<Longrightarrow> l' = l"
  by (auto simp: lifecycle_final_def)

section \<open>Steps of one upload\<close>

text \<open>The fields every step keeps, and those that move in one direction only.\<close>

definition upload_step :: "multipart_upload \<Rightarrow> multipart_upload \<Rightarrow> bool" where
  "upload_step u u' \<longleftrightarrow>
     up_identity u' = up_identity u
     \<and> up_namespace_epoch u' = up_namespace_epoch u
     \<and> up_snapshot u' = up_snapshot u
     \<and> up_created_at_ms u' = up_created_at_ms u
     \<and> up_expires_at_ms u' = up_expires_at_ms u
     \<and> lifecycle_edge (up_lifecycle u) (up_lifecycle u')
     \<and> unat (up_completion_fencing_token u) \<le> unat (up_completion_fencing_token u')"

lemma upload_step_refl: "upload_step u u"
  by (simp add: upload_step_def)

definition upload_progress :: "multipart_upload \<Rightarrow> multipart_upload \<Rightarrow> bool" where
  "upload_progress u u' \<longleftrightarrow>
     up_identity u' = up_identity u
     \<and> up_namespace_epoch u' = up_namespace_epoch u
     \<and> up_snapshot u' = up_snapshot u
     \<and> up_created_at_ms u' = up_created_at_ms u
     \<and> up_expires_at_ms u' = up_expires_at_ms u
     \<and> lifecycle_edge\<^sup>*\<^sup>* (up_lifecycle u) (up_lifecycle u')
     \<and> (lifecycle_final (up_lifecycle u) \<longrightarrow> up_lifecycle u' = up_lifecycle u)
     \<and> unat (up_completion_fencing_token u) \<le> unat (up_completion_fencing_token u')"

lemma upload_progress_refl: "upload_progress u u"
  by (simp add: upload_progress_def)

lemma upload_progress_step: "upload_progress u v \<Longrightarrow> upload_step v w \<Longrightarrow> upload_progress u w"
  unfolding upload_progress_def upload_step_def
  by (auto dest: final_edge intro: rtranclp.rtrancl_into_rtrancl)

text \<open>A recorded destination commit.\<close>

definition settled_as :: "multipart_completion_result \<Rightarrow> multipart_upload \<Rightarrow> bool" where
  "settled_as result u \<longleftrightarrow>
     (up_lifecycle u = Publishing \<and> map_option dc_result (up_destination_commit u) = Some result)
     \<or> (up_lifecycle u = Completed \<and> up_completion_result u = Some result)"

section \<open>The contract of a repository\<close>

text \<open>
  \<open>upload_at\<close> looks up one upload; it may disappear (retirement), and the run
  lemmas speak about runs on which it stays.
\<close>

locale upload_machine =
  fixes step :: "'s \<Rightarrow> 's \<Rightarrow> bool"
    and upload_at :: "'s \<Rightarrow> multipart_upload option"
  assumes step_upload:
      "step s s' \<Longrightarrow> upload_at s = Some u \<Longrightarrow> upload_at s' = Some u' \<Longrightarrow> upload_step u u'"
    and step_settled:
      "step s s' \<Longrightarrow> upload_at s = Some u \<Longrightarrow> upload_at s' = Some u' \<Longrightarrow>
         settled_as result u \<Longrightarrow> settled_as result u'"
begin

lemma run_present:
  "(\<lambda>s s'. step s s' \<and> upload_at s' \<noteq> None)\<^sup>*\<^sup>* s t \<Longrightarrow> upload_at s = Some u \<Longrightarrow> \<exists>u'. upload_at t = Some u'"
  by (induction rule: rtranclp_induct) auto

lemma run_progress:
  assumes "(\<lambda>s s'. step s s' \<and> upload_at s' \<noteq> None)\<^sup>*\<^sup>* s t" "upload_at s = Some u" "upload_at t = Some u'"
  shows "upload_progress u u'"
  using assms
proof (induction arbitrary: u' rule: rtranclp_induct)
  case base
  then show ?case by (simp add: upload_progress_refl)
next
  case (step v w)
  from run_present [OF step.hyps(1) step.prems(1)] obtain x where x: "upload_at v = Some x" ..
  from step.hyps(2) step_upload [OF _ x step.prems(2)] have "upload_step x u'" by blast
  with step.IH [OF step.prems(1) x] show ?case by (rule upload_progress_step)
qed

lemma run_settled:
  assumes "(\<lambda>s s'. step s s' \<and> upload_at s' \<noteq> None)\<^sup>*\<^sup>* s t" "upload_at s = Some u" "upload_at t = Some u'"
    "settled_as result u"
  shows "settled_as result u'"
  using assms
proof (induction arbitrary: u' rule: rtranclp_induct)
  case (step v w)
  from run_present [OF step.hyps(1) step.prems(1)] obtain x where x: "upload_at v = Some x" ..
  from step.IH [OF step.prems(1) x step.prems(3)] step.hyps(2) step_settled [OF _ x step.prems(2)]
  show ?case by blast
qed simp

end

text \<open>A repository that also orders its timestamps.\<close>

locale clocked_upload_machine = upload_machine +
  assumes step_clock:
    "step s s' \<Longrightarrow> upload_at s = Some u \<Longrightarrow> upload_at s' = Some u' \<Longrightarrow>
       up_updated_at_ms u \<le> up_updated_at_ms u'"
begin

lemma run_clock:
  assumes "(\<lambda>s s'. step s s' \<and> upload_at s' \<noteq> None)\<^sup>*\<^sup>* s t" "upload_at s = Some u" "upload_at t = Some u'"
  shows "up_updated_at_ms u \<le> up_updated_at_ms u'"
  using assms
proof (induction arbitrary: u' rule: rtranclp_induct)
  case (step v w)
  from run_present [OF step.hyps(1) step.prems(1)] obtain x where x: "upload_at v = Some x" ..
  from step.IH [OF step.prems(1) x] step.hyps(2) step_clock [OF _ x step.prems(2)]
  show ?case by fastforce
qed simp

end

end
