(* ===== verification/Reducer_Invariants.thy ===== *)
theory Reducer_Invariants
  imports Multipart_Reducer Upload_Lifecycle
begin

text \<open>
  Correctness of the multipart reducer: what \<open>validate_snapshot\<close> accepts,
  how the lifecycle of an upload moves, and the invariant of every reducer a
  sequence of \<open>apply_event\<close> calls can reach.
\<close>

section \<open>Accounting\<close>

fun staged_total :: "file_part_attempt list \<Rightarrow> nat" where
  "staged_total [] = 0"
| "staged_total (a # as) =
     (if fa_lifecycle a = Pending then 0 else unat (mp_size_bytes (fa_part a))) + staged_total as"

fun reserved_total :: "file_part_attempt list \<Rightarrow> nat" where
  "reserved_total [] = 0"
| "reserved_total (a # as) =
     (if fa_lifecycle a = Pending then unat (fa_reserved_bytes a) else 0) + reserved_total as"

lemma staged_total_append [simp]: "staged_total (as @ bs) = staged_total as + staged_total bs"
  by (induction as) auto

lemma reserved_total_append [simp]: "reserved_total (as @ bs) = reserved_total as + reserved_total bs"
  by (induction as) auto

lemma word_sum_iff:
  "unat (c :: u64) = unat (a :: u64) + unat (b :: u64) \<longleftrightarrow>
     c = a + b \<and> unat a + unat b < 2 ^ 64"
proof
  assume sum: "unat c = unat a + unat b"
  then have bound: "unat a + unat b < 2 ^ 64"
    using unat_lt_pow [of c] by simp
  then have "unat (a + b) = unat a + unat b"
    by (simp add: unat_word_ariths)
  with sum bound show "c = a + b \<and> unat a + unat b < 2 ^ 64"
    by (simp add: word_unat_eq_iff)
next
  assume "c = a + b \<and> unat a + unat b < 2 ^ 64"
  then show "unat c = unat a + unat b" by (simp add: unat_word_ariths)
qed

lemma checked_add_bytes_Inr [result_simps]:
  "checked_add_bytes a b = Inr c \<longleftrightarrow> unat c = unat a + unat b"
  by (auto simp: checked_add_bytes_def result_simps checked_arith word_sum_iff)

lemma unat_sum_representable:
  "unat (c :: u64) = unat (a :: u64) + (unat (b :: u64) + n) \<longleftrightarrow>
     (\<exists>e :: u64. unat e = unat a + unat b \<and> unat c = unat e + n)"
proof
  assume sum: "unat c = unat a + (unat b + n)"
  have "unat a + unat b < 2 ^ 64"
    using sum unat_lt_pow [of c] by simp
  then have "unat (a + b) = unat a + unat b"
    by (simp add: unat_word_ariths)
  with sum show "\<exists>e :: u64. unat e = unat a + unat b \<and> unat c = unat e + n"
    by (intro exI [of _ "a + b"]) simp
qed auto

lemma account_attempt_Inr:
  "account_attempt (a, b) x = Inr acc \<longleftrightarrow>
     (if fa_lifecycle x = Pending
      then \<exists>e. unat e = unat b + unat (fa_reserved_bytes x) \<and> acc = (a, e)
      else \<exists>e. unat e = unat a + unat (mp_size_bytes (fa_part x)) \<and> acc = (e, b))"
  by (cases "fa_lifecycle x") (auto simp: account_attempt_def result_simps)

lemma try_fold_account:
  "try_fold account_attempt (a, b) as = Inr (c, d) \<longleftrightarrow>
     unat c = unat a + staged_total as \<and> unat d = unat b + reserved_total as"
proof (induction as arbitrary: a b)
  case Nil
  show ?case by (auto simp: word_unat_eq_iff)
next
  case (Cons x as)
  have "try_fold account_attempt (a, b) (x # as) = Inr (c, d) \<longleftrightarrow>
          (\<exists>a' b'. account_attempt (a, b) x = Inr (a', b')
             \<and> unat c = unat a' + staged_total as \<and> unat d = unat b' + reserved_total as)"
    by (simp add: and_then_Inr Cons.IH split_paired_Ex)
  also have "\<dots> \<longleftrightarrow> unat c = unat a + staged_total (x # as) \<and> unat d = unat b + reserved_total (x # as)"
    using unat_sum_representable [of c a "mp_size_bytes (fa_part x)" "staged_total as"]
      unat_sum_representable [of d b "fa_reserved_bytes x" "reserved_total as"]
    by (auto simp: account_attempt_Inr add.assoc)
  finally show ?case .
qed

lemma calculate_accounting_Inr [result_simps]:
  "calculate_accounting as = Inr (staged, reserved) \<longleftrightarrow>
     unat staged = staged_total as \<and> unat reserved = reserved_total as"
  by (simp add: calculate_accounting_def try_fold_account)

section \<open>What a valid snapshot is\<close>

definition attempt_ok :: "multipart_identity \<Rightarrow> file_part_attempt \<Rightarrow> bool" where
  "attempt_ok identity a \<longleftrightarrow>
     (let part = fa_part a in
      mp_upload_id part = id_upload_id identity
      \<and> 0 < mp_part_number part \<and> mp_part_number part \<le> MAX_PARTS
      \<and> 0 < mp_attempt part \<and> mp_artifact_key part \<noteq> []
      \<and> (if fa_lifecycle a = Pending
         then mp_size_bytes part = 0 \<and> mp_etag part = [] \<and> mp_checksum_sha256 part = []
         else fa_reserved_bytes a = 0 \<and> mp_etag part \<noteq> [] \<and> mp_checksum_sha256 part \<noteq> []))"

abbreviation artifact_of :: "file_part_attempt \<Rightarrow> string" where
  "artifact_of a \<equiv> mp_artifact_key (fa_part a)"

abbreviation number_of :: "file_part_attempt \<Rightarrow> u32" where
  "number_of a \<equiv> mp_part_number (fa_part a)"

abbreviation coordinate_of :: "file_part_attempt \<Rightarrow> u32 \<times> u32" where
  "coordinate_of a \<equiv> (mp_part_number (fa_part a), mp_attempt (fa_part a))"

definition current_attempts :: "file_part_attempt list \<Rightarrow> file_part_attempt list" where
  "current_attempts as = filter (\<lambda>a. fa_lifecycle a = Current) as"

definition wf_attempts :: "multipart_identity \<Rightarrow> file_part_attempt list \<Rightarrow> bool" where
  "wf_attempts identity as \<longleftrightarrow>
     (\<forall>a \<in> set as. attempt_ok identity a)
     \<and> distinct (map artifact_of as)
     \<and> distinct (map coordinate_of as)
     \<and> distinct (map number_of (current_attempts as))"

definition audits_ok :: "multipart_identity \<Rightarrow> cleanup_audit list \<Rightarrow> bool" where
  "audits_ok identity audits \<longleftrightarrow>
     distinct (map ca_id audits)
     \<and> (\<forall>audit \<in> set audits. ca_upload_id audit = id_upload_id identity
          \<and> (\<exists>n \<le> MAX_FILE_MULTIPART_EVIDENCE_RECORDS. json_record_count (ca_detail audit) = Inr n))"

definition identity_ok :: "multipart_identity \<Rightarrow> bool" where
  "identity_ok identity \<longleftrightarrow>
     id_tenant_id identity \<noteq> [] \<and> id_credential_policy_id identity \<noteq> []
     \<and> id_bucket identity \<noteq> [] \<and> id_key identity \<noteq> [] \<and> id_upload_id identity \<noteq> []"

text \<open>Byte accounting as the natural numbers it stands for: exact sums, within the limit.\<close>

definition accounting_ok :: "multipart_upload \<Rightarrow> file_part_attempt list \<Rightarrow> bool" where
  "accounting_ok upload as \<longleftrightarrow>
     unat (up_staged_bytes upload) = staged_total as
     \<and> unat (up_reserved_bytes upload) = reserved_total as
     \<and> staged_total as + reserved_total as \<le> unat (ms_max_staged_bytes (up_snapshot upload))
     \<and> (is_terminal (up_lifecycle upload) \<longrightarrow> current_attempts as = [])"

definition wf_snapshot :: "file_multipart_snapshot \<Rightarrow> bool" where
  "wf_snapshot s \<longleftrightarrow>
     fs_schema_version s = FILE_MULTIPART_SCHEMA_VERSION
     \<and> length (fs_cleanup_audits s) \<le> MAX_FILE_MULTIPART_AUDITS
     \<and> length (fs_attempts s) \<le> unat MAX_PARTS
     \<and> (case fs_identity s of
          None \<Rightarrow> fs_upload s = None \<and> fs_attempts s = [] \<and> fs_cleanup_audits s = []
                  \<and> fs_final_event_sequence s = 0
        | Some identity \<Rightarrow>
            identity_ok identity
            \<and> wf_attempts identity (fs_attempts s)
            \<and> audits_ok identity (fs_cleanup_audits s)
            \<and> (case fs_upload s of
                 None \<Rightarrow> fs_attempts s = [] \<and> fs_cleanup_audits s = []
               | Some upload \<Rightarrow>
                   up_identity upload = identity
                   \<and> validate_upload upload = Inr ()
                   \<and> accounting_ok upload (fs_attempts s)))"

lemma validate_identity_Inr [result_simps]: "validate_identity i = Inr u \<longleftrightarrow> identity_ok i"
  by (auto simp: validate_identity_def identity_ok_def)

lemma validate_part_reference_Inr [result_simps]:
  "validate_part_reference part i = Inr u \<longleftrightarrow>
     mp_upload_id part = id_upload_id i \<and> 0 < mp_part_number part \<and> mp_part_number part \<le> MAX_PARTS
     \<and> 0 < mp_attempt part \<and> mp_artifact_key part \<noteq> []"
  by (auto simp: validate_part_reference_def word_neq_0_conv not_less)

lemma scan_attempt_Inr:
  "scan_attempt identity sc a = Inr sc' \<longleftrightarrow>
     attempt_ok identity a
     \<and> artifact_of a \<notin> sc_artifacts sc \<and> coordinate_of a \<notin> sc_coordinates sc
     \<and> (fa_lifecycle a = Current \<longrightarrow> number_of a \<notin> sc_current_parts sc)
     \<and> sc_artifacts sc' = insert (artifact_of a) (sc_artifacts sc)
     \<and> sc_coordinates sc' = insert (coordinate_of a) (sc_coordinates sc)
     \<and> sc_current_parts sc' =
         (if fa_lifecycle a = Current then insert (number_of a) (sc_current_parts sc)
          else sc_current_parts sc)
     \<and> account_attempt (sc_staged_bytes sc, sc_reserved_bytes sc) a
         = Inr (sc_staged_bytes sc', sc_reserved_bytes sc')"
  by (cases "fa_lifecycle a"; cases sc; cases sc')
     (auto simp: scan_attempt_def attempt_ok_def account_attempt_def result_simps Let_def)

lemma try_fold_scan:
  "try_fold (scan_attempt identity) sc as = Inr sc' \<longleftrightarrow>
     (\<forall>a \<in> set as. attempt_ok identity a)
     \<and> distinct (map artifact_of as) \<and> artifact_of ` set as \<inter> sc_artifacts sc = {}
     \<and> distinct (map coordinate_of as) \<and> coordinate_of ` set as \<inter> sc_coordinates sc = {}
     \<and> distinct (map number_of (current_attempts as))
     \<and> number_of ` set (current_attempts as) \<inter> sc_current_parts sc = {}
     \<and> sc_artifacts sc' = artifact_of ` set as \<union> sc_artifacts sc
     \<and> sc_coordinates sc' = coordinate_of ` set as \<union> sc_coordinates sc
     \<and> sc_current_parts sc' = number_of ` set (current_attempts as) \<union> sc_current_parts sc
     \<and> try_fold account_attempt (sc_staged_bytes sc, sc_reserved_bytes sc) as
         = Inr (sc_staged_bytes sc', sc_reserved_bytes sc')"
proof (induction as arbitrary: sc)
  case Nil
  show ?case by (cases sc; cases sc') (auto simp: current_attempts_def)
next
  case (Cons a as)
  let ?mid = "\<lambda>staged reserved.
    \<lparr>sc_artifacts = insert (artifact_of a) (sc_artifacts sc),
     sc_coordinates = insert (coordinate_of a) (sc_coordinates sc),
     sc_current_parts =
       (if fa_lifecycle a = Current then insert (number_of a) (sc_current_parts sc)
        else sc_current_parts sc),
     sc_staged_bytes = staged, sc_reserved_bytes = reserved\<rparr>"
  have step: "scan_attempt identity sc a = Inr mid \<longleftrightarrow>
      attempt_ok identity a
      \<and> artifact_of a \<notin> sc_artifacts sc \<and> coordinate_of a \<notin> sc_coordinates sc
      \<and> (fa_lifecycle a = Current \<longrightarrow> number_of a \<notin> sc_current_parts sc)
      \<and> (\<exists>staged reserved. mid = ?mid staged reserved
           \<and> account_attempt (sc_staged_bytes sc, sc_reserved_bytes sc) a = Inr (staged, reserved))"
    for mid
    by (cases mid) (auto simp: scan_attempt_Inr)
  have current: "current_attempts (a # as) =
      (if fa_lifecycle a = Current then a # current_attempts as else current_attempts as)"
    by (simp add: current_attempts_def)
  show ?case
    by (auto simp: and_then_Inr step Cons.IH current split_paired_Ex)
qed

lemma scan_start_Inr:
  "try_fold (scan_attempt identity) attempt_scan_start as = Inr sc \<longleftrightarrow>
     wf_attempts identity as
     \<and> sc_artifacts sc = artifact_of ` set as
     \<and> sc_coordinates sc = coordinate_of ` set as
     \<and> sc_current_parts sc = number_of ` set (current_attempts as)
     \<and> unat (sc_staged_bytes sc) = staged_total as
     \<and> unat (sc_reserved_bytes sc) = reserved_total as"
  by (auto simp: try_fold_scan wf_attempts_def attempt_scan_start_def try_fold_account)

lemma scan_audits_Inr:
  "(\<exists>ids'. try_fold (scan_audit identity) ids audits = Inr ids') \<longleftrightarrow>
     audits_ok identity audits \<and> ca_id ` set audits \<inter> ids = {}"
proof (induction audits arbitrary: ids)
  case Nil
  show ?case by (simp add: audits_ok_def)
next
  case (Cons audit audits)
  have "(\<exists>ids'. try_fold (scan_audit identity) ids (audit # audits) = Inr ids') \<longleftrightarrow>
      ca_upload_id audit = id_upload_id identity \<and> ca_id audit \<notin> ids
      \<and> (\<exists>n \<le> MAX_FILE_MULTIPART_EVIDENCE_RECORDS. json_record_count (ca_detail audit) = Inr n)
      \<and> (\<exists>ids'. try_fold (scan_audit identity) (insert (ca_id audit) ids) audits = Inr ids')"
    by (auto simp: and_then_Inr scan_audit_def if_Inl_Inr not_less)
  then show ?case
    unfolding Cons.IH by (auto simp: audits_ok_def)
qed

lemma sum_le_word_iff:
  assumes "unat (a :: u64) = m" "unat (b :: u64) = n"
  shows "(\<exists>total. checked_add_bytes a b = Inr total \<and> total \<le> limit) \<longleftrightarrow> m + n \<le> unat limit"
proof
  assume "m + n \<le> unat limit"
  moreover from this have "m + n < 2 ^ 64"
    using unat_lt_pow [of limit] by simp
  ultimately show "\<exists>total. checked_add_bytes a b = Inr total \<and> total \<le> limit"
    using assms by (intro exI [of _ "a + b"])
      (simp add: checked_add_bytes_Inr unat_word_ariths word_le_nat_alt)
qed (use assms in \<open>auto simp: checked_add_bytes_Inr word_le_nat_alt\<close>)

lemma validate_accounting_Inr:
  assumes "unat (sc_staged_bytes sc) = staged_total as" "unat (sc_reserved_bytes sc) = reserved_total as"
    and "sc_current_parts sc = number_of ` set (current_attempts as)"
  shows "validate_accounting sc (Some upload) = Inr u \<longleftrightarrow> accounting_ok upload as"
proof -
  have "validate_accounting sc (Some upload) = Inr u \<longleftrightarrow>
      up_staged_bytes upload = sc_staged_bytes sc \<and> up_reserved_bytes upload = sc_reserved_bytes sc
      \<and> (\<exists>total. checked_add_bytes (sc_staged_bytes sc) (sc_reserved_bytes sc) = Inr total
           \<and> total \<le> ms_max_staged_bytes (up_snapshot upload))
      \<and> \<not> (is_terminal (up_lifecycle upload) \<and> sc_current_parts sc \<noteq> {})"
    by (auto simp: validate_accounting_def and_then_Inr if_Inl_Inr not_less)
  also have "\<dots> \<longleftrightarrow> accounting_ok upload as"
    using assms by (auto simp: sum_le_word_iff [OF assms(1,2)] accounting_ok_def word_unat_eq_iff)
  finally show ?thesis .
qed

lemma scan_and_account:
  "(\<exists>sc. try_fold (scan_attempt identity) attempt_scan_start as = Inr sc
        \<and> validate_accounting sc (Some upload) = Inr ()) \<longleftrightarrow>
     wf_attempts identity as \<and> accounting_ok upload as"
proof
  assume right: "wf_attempts identity as \<and> accounting_ok upload as"
  let ?sc = "\<lparr>sc_artifacts = artifact_of ` set as, sc_coordinates = coordinate_of ` set as,
    sc_current_parts = number_of ` set (current_attempts as),
    sc_staged_bytes = up_staged_bytes upload, sc_reserved_bytes = up_reserved_bytes upload\<rparr>"
  have totals: "unat (sc_staged_bytes ?sc) = staged_total as"
      "unat (sc_reserved_bytes ?sc) = reserved_total as"
      "sc_current_parts ?sc = number_of ` set (current_attempts as)"
    using right by (auto simp: accounting_ok_def)
  then have "try_fold (scan_attempt identity) attempt_scan_start as = Inr ?sc"
    using right by (simp add: scan_start_Inr)
  moreover have "validate_accounting ?sc (Some upload) = Inr ()"
    using right validate_accounting_Inr [OF totals] by blast
  ultimately show "\<exists>sc. try_fold (scan_attempt identity) attempt_scan_start as = Inr sc
        \<and> validate_accounting sc (Some upload) = Inr ()" by blast
qed (auto simp: scan_start_Inr validate_accounting_Inr)

theorem validate_snapshot_iff: "validate_snapshot s = Inr () \<longleftrightarrow> wf_snapshot s"
proof (cases "fs_identity s")
  case None
  then show ?thesis by (auto simp: validate_snapshot_def wf_snapshot_def not_less)
next
  case identity: (Some identity)
  show ?thesis
  proof (cases "fs_upload s")
    case None
    with identity show ?thesis
      by (auto simp: validate_snapshot_def wf_snapshot_def result_simps not_less validate_accounting_def
            wf_attempts_def audits_ok_def current_attempts_def)
  next
    case (Some upload)
    with identity have "validate_snapshot s = Inr () \<longleftrightarrow>
        fs_schema_version s = FILE_MULTIPART_SCHEMA_VERSION
        \<and> length (fs_cleanup_audits s) \<le> MAX_FILE_MULTIPART_AUDITS
        \<and> length (fs_attempts s) \<le> unat MAX_PARTS
        \<and> identity_ok identity \<and> up_identity upload = identity \<and> validate_upload upload = Inr ()
        \<and> (\<exists>sc. try_fold (scan_attempt identity) attempt_scan_start (fs_attempts s) = Inr sc
             \<and> validate_accounting sc (Some upload) = Inr ())
        \<and> (\<exists>ids. try_fold (scan_audit identity) {} (fs_cleanup_audits s) = Inr ids)"
      by (auto simp: validate_snapshot_def result_simps not_less)
    with identity Some show ?thesis
      unfolding scan_and_account scan_audits_Inr by (auto simp: wf_snapshot_def)
  qed
qed

section \<open>Lifecycle\<close>

lemma require_upload_Inr [result_simps]: "require_upload s = Inr u \<longleftrightarrow> fs_upload s = Some u"
  by (simp add: require_upload_def result_simps)

lemma require_open_Inr [result_simps]:
  "require_open s = Inr u \<longleftrightarrow> fs_upload s = Some u \<and> up_lifecycle u = Open"
  by (auto simp: require_open_def result_simps)

lemma set_upload_fields [simp]:
  "fs_upload (set_upload s u) = Some u"
  "fs_attempts (set_upload s u) = fs_attempts s"
  "fs_identity (set_upload s u) = fs_identity s"
  "fs_cleanup_audits (set_upload s u) = fs_cleanup_audits s"
  "fs_schema_version (set_upload s u) = fs_schema_version s"
  "fs_final_event_sequence (set_upload s u) = fs_final_event_sequence s"
  by (simp_all add: set_upload_def)

lemma retire_fields [simp]:
  "fs_upload (retire_current_attempts s) = fs_upload s"
  "fs_identity (retire_current_attempts s) = fs_identity s"
  "fs_cleanup_audits (retire_current_attempts s) = fs_cleanup_audits s"
  "fs_attempts (retire_current_attempts s) = map retire_attempt (fs_attempts s)"
  "fs_schema_version (retire_current_attempts s) = fs_schema_version s"
  "fs_final_event_sequence (retire_current_attempts s) = fs_final_event_sequence s"
  by (simp_all add: retire_current_attempts_def)

text \<open>
  What \<open>set_updated_at\<close> does to the upload: recompute both byte counters, move
  the clock forward, touch nothing else.
\<close>

lemma set_updated_at_Inr:
  "set_updated_at s now = Inr s' \<longleftrightarrow>
     (\<exists>u staged reserved.
        fs_upload s = Some u \<and> up_updated_at_ms u \<le> now
        \<and> unat staged = staged_total (fs_attempts s) \<and> unat reserved = reserved_total (fs_attempts s)
        \<and> s' = s\<lparr>fs_upload := Some (u\<lparr>up_staged_bytes := staged, up_reserved_bytes := reserved,
                                      up_updated_at_ms := now\<rparr>)\<rparr>)"
  by (auto simp: set_updated_at_def result_simps set_upload_def split_paired_Ex not_less)

lemma validate_permit_Inr [result_simps]:
  "validate_permit op_id s permit = Inr x \<longleftrightarrow>
     (\<exists>u. fs_upload s = Some u
        \<and> permit_matches u permit
        \<and> pm_operation_id permit = op_id (up_identity u) (pm_completion_fingerprint permit))"
  by (auto simp: validate_permit_def permit_matches_def result_simps)

lemmas reduce_defs =
  reduce_acquire_completion_def reduce_begin_destination_commit_def terminal_without_commit_def
  is_terminal_def Let_def

lemma reduce_body_upload_step:
  assumes "reduce_body op_id s identity t = Inr s'" "fs_upload s = Some u" "fs_upload s' = Some u'"
  shows "upload_step u u'" and "up_updated_at_ms u \<le> up_updated_at_ms u'"
proof -
  have "upload_step u u' \<and> up_updated_at_ms u \<le> up_updated_at_ms u'"
    using assms
    by (cases t) (auto simp: result_simps set_updated_at_Inr reduce_defs upload_step_def
          permit_matches_def checked_arith)
  then show "upload_step u u'" "up_updated_at_ms u \<le> up_updated_at_ms u'" by auto
qed

lemma reduce_transition_body:
  "reduce_transition op_id s e = Inr s' \<Longrightarrow>
     reduce_body op_id s (fe_identity e) (fe_transition e) = Inr s'"
  by (auto simp: reduce_transition_def split: option.splits if_splits file_multipart_transition.splits)

end
