(* ===== verification/Reducer_Runs.thy ===== *)
theory Reducer_Runs
  imports Reducer_Invariants
begin

text \<open>
  Runs of the multipart reducer: when \<open>apply_event\<close> accepts, what every
  reachable reducer satisfies, which facts about an upload never regress over a
  run, how duplicates and compaction behave, and what the quota reconstruction
  over many snapshots computes.
\<close>

section \<open>The reducer as a state machine\<close>

text \<open>The accepting case of \<open>apply_event\<close>, with every check that precedes it.\<close>

lemma apply_event_Applied:
  "apply_event op_id encode r e = (r', Inr Applied) \<longleftrightarrow>
     fe_schema_version e = FILE_MULTIPART_SCHEMA_VERSION
     \<and> fr_replay_floor r < fe_sequence e
     \<and> (\<exists>canonical nxt candidate.
          encode e = Some canonical
          \<and> hm_get (fr_replayed r) (fe_sequence e) = None
          \<and> hm_get (fr_event_ids r) (fe_event_id e) = None
          \<and> length (fr_replayed r) < MAX_REPLAY_EVENTS
          \<and> checked_add (fs_final_event_sequence (fr_snapshot r)) 1 = Some nxt
          \<and> fe_sequence e = nxt
          \<and> reduce_transition op_id (fr_snapshot r) e = Inr candidate
          \<and> wf_snapshot (candidate\<lparr>fs_final_event_sequence := fe_sequence e\<rparr>)
          \<and> r' = r\<lparr>fr_snapshot := candidate\<lparr>fs_final_event_sequence := fe_sequence e\<rparr>,
                   fr_replayed := hm_insert (fe_sequence e) canonical (fr_replayed r),
                   fr_event_ids := hm_insert (fe_event_id e) (fe_sequence e) (fr_event_ids r)\<rparr>)"
  by (auto simp: apply_event_def Let_def validate_snapshot_iff [symmetric] not_le
        split: if_splits option.splits sum.splits)

lemma apply_event_unchanged:
  assumes "apply_event op_id encode r e = (r', res)" "res \<noteq> Inr Applied"
  shows "r' = r"
  using assms by (auto simp: apply_event_def Let_def split: if_splits option.splits sum.splits)

lemma apply_event_ExactDuplicate:
  "apply_event op_id encode r e = (r', Inr ExactDuplicate) \<longleftrightarrow>
     r' = r \<and> fe_schema_version e = FILE_MULTIPART_SCHEMA_VERSION
     \<and> fr_replay_floor r < fe_sequence e
     \<and> (\<exists>canonical. encode e = Some canonical
          \<and> hm_get (fr_replayed r) (fe_sequence e) = Some canonical)"
  by (auto simp: apply_event_def Let_def not_le split: if_splits option.splits sum.splits)

lemma apply_event_CompactedDuplicate:
  "apply_event op_id encode r e = (r', Inr CompactedDuplicate) \<longleftrightarrow>
     r' = r \<and> fe_schema_version e = FILE_MULTIPART_SCHEMA_VERSION
     \<and> fe_sequence e \<le> fr_replay_floor r"
  by (auto simp: apply_event_def Let_def split: if_splits option.splits sum.splits)

text \<open>
  The invariant: a valid snapshot, and a replay window that holds exactly the
  sequence numbers after the compaction floor.
\<close>

definition reducer_inv :: "file_multipart_reducer \<Rightarrow> bool" where
  "reducer_inv r \<longleftrightarrow>
     wf_snapshot (fr_snapshot r)
     \<and> fr_replay_floor r \<le> fs_final_event_sequence (fr_snapshot r)
     \<and> (\<forall>q. hm_get (fr_replayed r) q \<noteq> None \<longleftrightarrow>
          fr_replay_floor r < q \<and> q \<le> fs_final_event_sequence (fr_snapshot r))
     \<and> length (fr_replayed r) \<le> MAX_REPLAY_EVENTS"

lemma wf_snapshot_default: "wf_snapshot file_multipart_snapshot_default"
  by (simp add: wf_snapshot_def file_multipart_snapshot_default_def)

lemma reducer_inv_empty: "reducer_inv reducer_empty"
  using wf_snapshot_default
  by (auto simp: reducer_inv_def reducer_empty_def file_multipart_snapshot_default_def)

lemma reducer_inv_from_snapshot: "reducer_from_snapshot s = Inr r \<Longrightarrow> reducer_inv r"
  by (auto simp: reducer_from_snapshot_def result_simps validate_snapshot_iff reducer_inv_def)

lemma succ_le_iff:
  fixes a q :: u64
  assumes "checked_add a 1 = Some b"
  shows "q \<le> b \<longleftrightarrow> q \<le> a \<or> q = b" and "a < b"
  using assms by (auto simp: checked_arith word_le_nat_alt word_less_nat_alt word_unat_eq_iff)

lemma length_hm_insert:
  "length (hm_insert k v m) = (if hm_get m k = None then Suc (length m) else length m)"
  by (induction m) (auto simp: hm_insert_def hm_get_def)

lemma reducer_inv_step:
  assumes "reducer_inv r" "apply_event op_id encode r e = (r', res)"
  shows "reducer_inv r'"
proof (cases "res = Inr Applied")
  case True
  with assms obtain canonical candidate nxt where
      floor: "fr_replay_floor r < fe_sequence e"
      and fresh: "hm_get (fr_replayed r) (fe_sequence e) = None"
      and bound: "length (fr_replayed r) < MAX_REPLAY_EVENTS"
      and succ: "checked_add (fs_final_event_sequence (fr_snapshot r)) 1 = Some nxt" "fe_sequence e = nxt"
      and wf: "wf_snapshot (candidate\<lparr>fs_final_event_sequence := fe_sequence e\<rparr>)"
      and r': "r' = r\<lparr>fr_snapshot := candidate\<lparr>fs_final_event_sequence := fe_sequence e\<rparr>,
                   fr_replayed := hm_insert (fe_sequence e) canonical (fr_replayed r),
                   fr_event_ids := hm_insert (fe_event_id e) (fe_sequence e) (fr_event_ids r)\<rparr>"
    by (auto simp: apply_event_Applied)
  show ?thesis
    using assms(1) floor fresh bound wf succ_le_iff [OF succ(1)] succ(2)
    by (auto simp: reducer_inv_def r' map_laws length_hm_insert)
next
  case False
  with assms show ?thesis using apply_event_unchanged by blast
qed

text \<open>Runs: any sequence of calls, whatever each of them returns.\<close>

inductive reducer_reachable ::
  "(multipart_identity \<Rightarrow> string \<Rightarrow> uuid) \<Rightarrow> (file_multipart_event \<Rightarrow> bytes option)
     \<Rightarrow> file_multipart_reducer \<Rightarrow> bool"
  for op_id encode where
  start: "reducer_reachable op_id encode reducer_empty"
| restore: "reducer_from_snapshot s = Inr r \<Longrightarrow> reducer_reachable op_id encode r"
| step: "reducer_reachable op_id encode r \<Longrightarrow> apply_event op_id encode r e = (r', res)
     \<Longrightarrow> reducer_reachable op_id encode r'"

lemma reducer_reachable_inv: "reducer_reachable op_id encode r \<Longrightarrow> reducer_inv r"
  by (induction rule: reducer_reachable.induct)
     (auto intro: reducer_inv_empty reducer_inv_from_snapshot reducer_inv_step)

section \<open>Runs\<close>

text \<open>Feeding a list of events to a reducer, as the file adapter replays its log.\<close>

fun replay_events ::
  "(multipart_identity \<Rightarrow> string \<Rightarrow> uuid) \<Rightarrow> (file_multipart_event \<Rightarrow> bytes option)
     \<Rightarrow> file_multipart_reducer \<Rightarrow> file_multipart_event list \<Rightarrow> file_multipart_reducer" where
  "replay_events op_id encode r [] = r"
| "replay_events op_id encode r (e # es) = replay_events op_id encode (fst (apply_event op_id encode r e)) es"

lemma replay_events_reachable:
  "reducer_reachable op_id encode r \<Longrightarrow> reducer_reachable op_id encode (replay_events op_id encode r es)"
proof (induction es arbitrary: r)
  case (Cons e es)
  have "apply_event op_id encode r e = (fst (apply_event op_id encode r e), snd (apply_event op_id encode r e))"
    by simp
  from reducer_reachable.step [OF Cons.prems this] show ?case
    using Cons.IH by simp
qed simp

lemma apply_event_accepts:
  assumes "apply_event op_id encode r e = (r', Inr Applied)"
  obtains candidate where
    "reduce_body op_id (fr_snapshot r) (fe_identity e) (fe_transition e) = Inr candidate"
    "fr_snapshot r' = candidate\<lparr>fs_final_event_sequence := fe_sequence e\<rparr>"
  using assms by (auto simp: apply_event_Applied dest: reduce_transition_body)

lemma reduce_body_identity:
  assumes "reduce_body op_id s i t = Inr s'" "fs_identity s = Some j"
  shows "fs_identity s' = Some j" and "fs_upload s = None \<Longrightarrow> fs_upload s' = None"
  using assms by (cases t; auto simp: result_simps set_updated_at_Inr reduce_defs)+

lemma apply_event_identity:
  assumes "apply_event op_id encode r e = (r', res)" "fs_identity (fr_snapshot r) = Some i"
  shows "fs_identity (fr_snapshot r') = Some i"
    and "fs_upload (fr_snapshot r) = None \<Longrightarrow> fs_upload (fr_snapshot r') = None"
proof -
  have "fs_identity (fr_snapshot r') = Some i
      \<and> (fs_upload (fr_snapshot r) = None \<longrightarrow> fs_upload (fr_snapshot r') = None)"
  proof (cases "res = Inr Applied")
    case True
    with assms(1) obtain candidate where
        "reduce_body op_id (fr_snapshot r) (fe_identity e) (fe_transition e) = Inr candidate"
        "fr_snapshot r' = candidate\<lparr>fs_final_event_sequence := fe_sequence e\<rparr>"
      using apply_event_accepts by blast
    with reduce_body_identity assms(2) show ?thesis by fastforce
  next
    case False
    with assms show ?thesis using apply_event_unchanged by blast
  qed
  then show "fs_identity (fr_snapshot r') = Some i"
    and "fs_upload (fr_snapshot r) = None \<Longrightarrow> fs_upload (fr_snapshot r') = None" by auto
qed

lemma replay_events_gone:
  assumes "fs_upload (fr_snapshot r) = None" "fs_identity (fr_snapshot r) = Some i"
  shows "fs_upload (fr_snapshot (replay_events op_id encode r es)) = None"
  using assms
proof (induction es arbitrary: r)
  case (Cons e es)
  have "apply_event op_id encode r e =
      (fst (apply_event op_id encode r e), snd (apply_event op_id encode r e))" by simp
  from apply_event_identity [OF this Cons.prems(2)] Cons.prems(1) show ?case
    using Cons.IH by simp
qed simp

lemma reducer_inv_identity:
  "reducer_inv r \<Longrightarrow> fs_upload (fr_snapshot r) = Some u
     \<Longrightarrow> fs_identity (fr_snapshot r) = Some (up_identity u)"
  by (auto simp: reducer_inv_def wf_snapshot_def split: option.splits)

section \<open>The reducer follows the upload contract\<close>

lemma reduce_body_settled:
  assumes "reduce_body op_id s i t = Inr s'" "fs_upload s = Some u" "fs_upload s' = Some u'"
    "settled_as result u"
  shows "settled_as result u'"
  using assms
  by (cases t) (simp_all add: result_simps set_updated_at_Inr reduce_defs settled_as_def
        permit_matches_def, auto)

definition reducer_step ::
  "(multipart_identity \<Rightarrow> string \<Rightarrow> uuid) \<Rightarrow> (file_multipart_event \<Rightarrow> bytes option)
     \<Rightarrow> file_multipart_reducer \<Rightarrow> file_multipart_reducer \<Rightarrow> bool" where
  "reducer_step op_id encode r r' \<longleftrightarrow> (\<exists>e. r' = fst (apply_event op_id encode r e))"

lemma reducer_step_upload:
  assumes "reducer_step op_id encode r r'"
    "fs_upload (fr_snapshot r) = Some u" "fs_upload (fr_snapshot r') = Some u'"
  shows "u' = u \<or> (\<exists>i t s'. reduce_body op_id (fr_snapshot r) i t = Inr s' \<and> fs_upload s' = Some u')"
proof -
  from assms(1) obtain e res where app: "apply_event op_id encode r e = (r', res)"
    unfolding reducer_step_def by (metis prod.collapse)
  show ?thesis
  proof (cases "res = Inr Applied")
    case True
    with app obtain candidate where
        "reduce_body op_id (fr_snapshot r) (fe_identity e) (fe_transition e) = Inr candidate"
        "fr_snapshot r' = candidate\<lparr>fs_final_event_sequence := fe_sequence e\<rparr>"
      using apply_event_accepts by blast
    with assms(3) show ?thesis by auto
  next
    case False
    with app have "r' = r" using apply_event_unchanged by blast
    with assms show ?thesis by simp
  qed
qed

interpretation red: clocked_upload_machine
  "reducer_step op_id encode" "\<lambda>r. fs_upload (fr_snapshot r)" for op_id encode
proof
  fix r r' u u'
  assume step: "reducer_step op_id encode r r'" "fs_upload (fr_snapshot r) = Some u"
    "fs_upload (fr_snapshot r') = Some u'"
  note cases = reducer_step_upload [OF this]
  show "upload_step u u'" "up_updated_at_ms u \<le> up_updated_at_ms u'"
    using cases reduce_body_upload_step [OF _ step(2)] upload_step_refl by blast+
  show "settled_as result u'" if "settled_as result u" for result
    using cases reduce_body_settled [OF _ step(2)] that by blast
qed

lemma replay_present:
  assumes "reducer_inv r" "fs_upload (fr_snapshot r) = Some u"
    "fs_upload (fr_snapshot (replay_events op_id encode r es)) = Some u'"
  shows "(\<lambda>r r'. reducer_step op_id encode r r' \<and> fs_upload (fr_snapshot r') \<noteq> None)\<^sup>*\<^sup>*
    r (replay_events op_id encode r es)"
  using assms
proof (induction es arbitrary: r u)
  case (Cons e es)
  let ?r1 = "fst (apply_event op_id encode r e)"
  have app: "apply_event op_id encode r e = (?r1, snd (apply_event op_id encode r e))" by simp
  have inv1: "reducer_inv ?r1" using reducer_inv_step [OF Cons.prems(1) app] .
  have end1: "fs_upload (fr_snapshot (replay_events op_id encode ?r1 es)) = Some u'"
    using Cons.prems(3) by simp
  have "fs_identity (fr_snapshot r) = Some (up_identity u)"
    using Cons.prems(1,2) by (rule reducer_inv_identity)
  from apply_event_identity(1) [OF app this] end1
  obtain u1 where u1: "fs_upload (fr_snapshot ?r1) = Some u1"
    using replay_events_gone by (cases "fs_upload (fr_snapshot ?r1)") fastforce+
  have "reducer_step op_id encode r ?r1" by (auto simp: reducer_step_def)
  with u1 Cons.IH [OF inv1 u1 end1] show ?case
    by (auto intro: converse_rtranclp_into_rtranclp)
qed simp

lemma replay_upload_progress:
  assumes "reducer_inv r" "fs_upload (fr_snapshot r) = Some u"
    "fs_upload (fr_snapshot (replay_events op_id encode r es)) = Some u'"
  shows "upload_progress u u'" and "up_updated_at_ms u \<le> up_updated_at_ms u'"
  using red.run_progress [OF replay_present [OF assms] assms(2,3)]
    red.run_clock [OF replay_present [OF assms] assms(2,3)] by auto

lemma replay_settled:
  assumes "reducer_inv r" "fs_upload (fr_snapshot r) = Some u"
    "fs_upload (fr_snapshot (replay_events op_id encode r es)) = Some u'" "settled_as result u"
  shows "settled_as result u'"
  using red.run_settled [OF replay_present [OF assms(1-3)] assms(2-4)] .

lemma is_terminal_final: "is_terminal l = lifecycle_final l"
  by (auto simp: is_terminal_def lifecycle_final_def)

section \<open>Duplicates and compaction\<close>

lemma apply_event_replayed_mono:
  assumes "apply_event op_id encode r e = (r', res)"
    "hm_get (fr_replayed r) q = Some c"
  shows "hm_get (fr_replayed r') q = Some c" and "fr_replay_floor r' = fr_replay_floor r"
proof -
  have "hm_get (fr_replayed r') q = Some c \<and> fr_replay_floor r' = fr_replay_floor r"
  proof (cases "res = Inr Applied")
    case True
    with assms show ?thesis by (auto simp: apply_event_Applied map_laws)
  next
    case False
    with assms show ?thesis using apply_event_unchanged by blast
  qed
  then show "hm_get (fr_replayed r') q = Some c" "fr_replay_floor r' = fr_replay_floor r" by auto
qed

lemma replay_events_replayed_mono:
  assumes "hm_get (fr_replayed r) q = Some c"
  shows "hm_get (fr_replayed (replay_events op_id encode r es)) q = Some c
    \<and> fr_replay_floor (replay_events op_id encode r es) = fr_replay_floor r"
  using assms
proof (induction es arbitrary: r)
  case (Cons e es)
  have "apply_event op_id encode r e =
      (fst (apply_event op_id encode r e), snd (apply_event op_id encode r e))" by simp
  from apply_event_replayed_mono [OF this Cons.prems] Cons.IH show ?case by simp
qed simp

text \<open>
  \<open>compacts r r'\<close>: \<open>r'\<close> is \<open>r\<close> restarted from a snapshot taken at some point of
  its run and fed the same later events.
\<close>

definition compacts :: "file_multipart_reducer \<Rightarrow> file_multipart_reducer \<Rightarrow> bool" where
  "compacts r r' \<longleftrightarrow>
     reducer_inv r \<and> reducer_inv r'
     \<and> fr_snapshot r' = fr_snapshot r
     \<and> fr_replay_floor r \<le> fr_replay_floor r'
     \<and> (\<forall>q. fr_replay_floor r' < q \<longrightarrow> hm_get (fr_replayed r') q = hm_get (fr_replayed r) q)
     \<and> (\<forall>i. hm_get (fr_event_ids r) i = None \<longrightarrow> hm_get (fr_event_ids r') i = None)
     \<and> length (fr_replayed r') \<le> length (fr_replayed r)"

lemma compacts_restart:
  assumes "reducer_inv r" "reducer_from_snapshot (compacted_snapshot r) = Inr r'"
  shows "compacts r r'"
proof -
  have inv': "reducer_inv r'" using assms(2) by (rule reducer_inv_from_snapshot)
  have r': "r' = \<lparr>fr_snapshot = fr_snapshot r, fr_replay_floor = fs_final_event_sequence (fr_snapshot r),
      fr_replayed = [], fr_event_ids = []\<rparr>"
    using assms(2) by (auto simp: reducer_from_snapshot_def compacted_snapshot_def result_simps)
  have "hm_get (fr_replayed r) q = None" if "fs_final_event_sequence (fr_snapshot r) < q" for q
    using assms(1) that unfolding reducer_inv_def by (metis leD)
  with assms(1) inv' show ?thesis by (auto simp: compacts_def r' reducer_inv_def)
qed

lemma compacts_step:
  assumes sim: "compacts r r'" and acc: "apply_event op_id encode r e = (r1, Inr a)"
  shows "\<exists>r1' a'. apply_event op_id encode r' e = (r1', Inr a') \<and> compacts r1 r1'
    \<and> (a' = Applied \<longleftrightarrow> a = Applied)"
proof (cases a)
  case Applied
  with acc obtain canonical nxt candidate where
      e: "fe_schema_version e = FILE_MULTIPART_SCHEMA_VERSION" "encode e = Some canonical"
      and fresh: "hm_get (fr_replayed r) (fe_sequence e) = None"
        "hm_get (fr_event_ids r) (fe_event_id e) = None" "length (fr_replayed r) < MAX_REPLAY_EVENTS"
      and nxt: "checked_add (fs_final_event_sequence (fr_snapshot r)) 1 = Some nxt" "fe_sequence e = nxt"
      and red: "reduce_transition op_id (fr_snapshot r) e = Inr candidate"
        "wf_snapshot (candidate\<lparr>fs_final_event_sequence := fe_sequence e\<rparr>)"
      and r1: "r1 = r\<lparr>fr_snapshot := candidate\<lparr>fs_final_event_sequence := fe_sequence e\<rparr>,
                   fr_replayed := hm_insert (fe_sequence e) canonical (fr_replayed r),
                   fr_event_ids := hm_insert (fe_event_id e) (fe_sequence e) (fr_event_ids r)\<rparr>"
    by (auto simp: apply_event_Applied)
  let ?r1' = "r'\<lparr>fr_snapshot := candidate\<lparr>fs_final_event_sequence := fe_sequence e\<rparr>,
                   fr_replayed := hm_insert (fe_sequence e) canonical (fr_replayed r'),
                   fr_event_ids := hm_insert (fe_event_id e) (fe_sequence e) (fr_event_ids r')\<rparr>"
  have above: "fr_replay_floor r' < fe_sequence e"
    using sim succ_le_iff(2) [OF nxt(1)] nxt(2) by (auto simp: compacts_def reducer_inv_def)
  then have fresh': "hm_get (fr_replayed r') (fe_sequence e) = None"
    using sim fresh(1) by (auto simp: compacts_def)
  have app': "apply_event op_id encode r' e = (?r1', Inr Applied)"
    using sim e above fresh fresh' nxt red by (auto simp: apply_event_Applied compacts_def)
  have "reducer_inv r1" "reducer_inv ?r1'"
    using sim acc app' reducer_inv_step by (auto simp: compacts_def)
  then have "compacts r1 ?r1'"
    using sim fresh(1) fresh' by (auto simp: compacts_def r1 map_laws length_hm_insert)
  with app' Applied show ?thesis by blast
next
  case ExactDuplicate
  with acc have r1: "r1 = r" and dup: "fe_schema_version e = FILE_MULTIPART_SCHEMA_VERSION"
      "\<exists>canonical. encode e = Some canonical \<and> hm_get (fr_replayed r) (fe_sequence e) = Some canonical"
    by (auto simp: apply_event_ExactDuplicate)
  show ?thesis
  proof (cases "fe_sequence e \<le> fr_replay_floor r'")
    case True
    then have "apply_event op_id encode r' e = (r', Inr CompactedDuplicate)"
      using dup by (simp add: apply_event_CompactedDuplicate)
    then show ?thesis using sim r1 ExactDuplicate by auto
  next
    case False
    then have "apply_event op_id encode r' e = (r', Inr ExactDuplicate)"
      using dup sim by (auto simp: apply_event_ExactDuplicate compacts_def)
    then show ?thesis using sim r1 ExactDuplicate by auto
  qed
next
  case CompactedDuplicate
  with acc have "r1 = r" "apply_event op_id encode r' e = (r', Inr CompactedDuplicate)"
    using sim by (auto simp: apply_event_CompactedDuplicate compacts_def)
  then show ?thesis using sim CompactedDuplicate by auto
qed

section \<open>Quota reconstruction\<close>

definition usage_sum :: "file_multipart_quota_usage \<Rightarrow> multipart_upload list \<Rightarrow> bool" where
  "usage_sum usage us \<longleftrightarrow>
     unat (qu_staged_bytes usage) = sum_list (map (\<lambda>u. unat (up_staged_bytes u)) us)
     \<and> unat (qu_reserved_bytes usage) = sum_list (map (\<lambda>u. unat (up_reserved_bytes u)) us)
     \<and> qu_active_uploads usage = length (filter (\<lambda>u. up_lifecycle u = Open) us)"

definition tenant_usage :: "file_multipart_aggregate_quotas \<Rightarrow> string \<Rightarrow> file_multipart_quota_usage" where
  "tenant_usage q tenant =
     (case hm_get (aq_tenants q) tenant of None \<Rightarrow> quota_usage_default | Some usage \<Rightarrow> usage)"

definition tenant_uploads :: "string \<Rightarrow> multipart_upload list \<Rightarrow> multipart_upload list" where
  "tenant_uploads tenant us = filter (\<lambda>u. id_tenant_id (up_identity u) = tenant) us"

definition snapshot_uploads :: "file_multipart_snapshot list \<Rightarrow> multipart_upload list" where
  "snapshot_uploads ss = List.map_filter fs_upload ss"

definition quotas_match :: "file_multipart_aggregate_quotas \<times> string set \<Rightarrow> multipart_upload list \<Rightarrow> bool" where
  "quotas_match acc us \<longleftrightarrow>
     (case acc of (q, ids) \<Rightarrow>
        hm_wf (aq_tenants q)
        \<and> usage_sum (aq_global q) us
        \<and> (\<forall>tenant. usage_sum (tenant_usage q tenant) (tenant_uploads tenant us))
        \<and> distinct (map (\<lambda>u. id_upload_id (up_identity u)) us)
        \<and> ids = set (map (\<lambda>u. id_upload_id (up_identity u)) us))"

lemma snapshot_uploads_Cons:
  "snapshot_uploads (s # ss) = snapshot_uploads [s] @ snapshot_uploads ss"
  by (cases "fs_upload s") (simp_all add: snapshot_uploads_def map_filter_def)

lemma usage_sum_default: "usage_sum quota_usage_default []"
  by (simp add: usage_sum_def quota_usage_default_def)

lemma add_usage_sum:
  "add_usage q u = Inr q' \<Longrightarrow> usage_sum q us \<Longrightarrow> usage_sum q' (us @ [u])"
  by (auto simp: add_usage_def result_simps usage_sum_def checked_arith)

lemma quota_step_match:
  assumes "quota_step acc s = Inr acc'" "quotas_match acc us"
  shows "quotas_match acc' (us @ snapshot_uploads [s])"
proof -
  obtain q ids where acc: "acc = (q, ids)" by (cases acc)
  show ?thesis
  proof (cases "fs_upload s")
    case None
    with assms acc show ?thesis
      by (auto simp: quota_step_def snapshot_uploads_def map_filter_def result_simps)
  next
    case (Some u)
    let ?t = "id_tenant_id (up_identity u)"
    from assms(1) Some acc obtain tenant' global' where
        fresh: "id_upload_id (up_identity u) \<notin> ids"
        and t: "add_usage (tenant_usage q ?t) u = Inr tenant'"
        and g: "add_usage (aq_global q) u = Inr global'"
        and acc': "acc' = (q\<lparr>aq_tenants := hm_insert ?t tenant' (aq_tenants q), aq_global := global'\<rparr>,
            insert (id_upload_id (up_identity u)) ids)"
      by (auto simp: quota_step_def result_simps Let_def tenant_usage_def)
    have "usage_sum global' (us @ [u])"
      using add_usage_sum [OF g] assms(2) acc by (simp add: quotas_match_def)
    moreover have "usage_sum tenant' (tenant_uploads ?t us @ [u])"
      using add_usage_sum [OF t] assms(2) acc by (simp add: quotas_match_def)
    ultimately show ?thesis
      using assms(2) acc fresh Some
      by (auto simp: quotas_match_def acc' map_laws tenant_usage_def tenant_uploads_def
            snapshot_uploads_def map_filter_def)
  qed
qed

lemma quota_fold_match:
  "try_fold quota_step acc ss = Inr acc' \<Longrightarrow> quotas_match acc us \<Longrightarrow>
     quotas_match acc' (us @ snapshot_uploads ss)"
proof (induction ss arbitrary: acc us)
  case Nil
  then show ?case by (simp add: snapshot_uploads_def map_filter_def)
next
  case (Cons s ss)
  then obtain mid where mid: "quota_step acc s = Inr mid" "try_fold quota_step mid ss = Inr acc'"
    by (auto simp: result_simps)
  from Cons.IH [OF mid(2) quota_step_match [OF mid(1) Cons.prems(2)]] show ?case
    by (simp add: snapshot_uploads_Cons [of s ss])
qed

lemma validate_usage_Inr [result_simps]:
  "validate_usage usage limit = Inr x \<longleftrightarrow>
     unat (qu_staged_bytes usage) + unat (qu_reserved_bytes usage) \<le> unat limit"
  using sum_le_word_iff [OF refl refl, of "qu_staged_bytes usage" "qu_reserved_bytes usage" limit]
  by (auto simp: validate_usage_def and_then_Inr if_Inl_Inr not_less)

lemma validate_tenants_Inr:
  "try_fold (validate_tenant_usage limit) u usages = Inr x \<longleftrightarrow>
     (\<forall>usage \<in> set usages.
        unat (qu_staged_bytes usage) + unat (qu_reserved_bytes usage) \<le> unat limit
        \<and> qu_active_uploads usage \<le> MAX_ACTIVE_UPLOADS)"
  by (induction usages arbitrary: u) (auto simp: validate_tenant_usage_def result_simps not_less)

lemma tenant_usage_bound:
  assumes "hm_wf (aq_tenants q)"
    and "\<forall>usage \<in> set (hm_values (aq_tenants q)). R usage" "R quota_usage_default"
  shows "R (tenant_usage q tenant)"
  using assms hm_values_get [OF assms(1)] by (auto simp: tenant_usage_def split: option.splits)

lemma reconstruct_quotas:
  assumes "reconstruct_file_multipart_quotas ss limits = Inr q"
  shows "quotas_match (q, set (map (\<lambda>u. id_upload_id (up_identity u)) (snapshot_uploads ss)))
           (snapshot_uploads ss)"
    and "unat (qu_staged_bytes (aq_global q)) + unat (qu_reserved_bytes (aq_global q))
           \<le> unat (ql_global_bytes limits)"
    and "unat (qu_staged_bytes (tenant_usage q tenant)) + unat (qu_reserved_bytes (tenant_usage q tenant))
           \<le> unat (ql_tenant_bytes limits)"
    and "qu_active_uploads (tenant_usage q tenant) \<le> MAX_ACTIVE_UPLOADS"
proof -
  from assms obtain ids where
      fold: "try_fold quota_step (\<lparr>aq_tenants = [], aq_global = quota_usage_default\<rparr>, {}) ss = Inr (q, ids)"
      and tenants: "\<forall>usage \<in> set (hm_values (aq_tenants q)).
        unat (qu_staged_bytes usage) + unat (qu_reserved_bytes usage) \<le> unat (ql_tenant_bytes limits)
        \<and> qu_active_uploads usage \<le> MAX_ACTIVE_UPLOADS"
      and global: "unat (qu_staged_bytes (aq_global q)) + unat (qu_reserved_bytes (aq_global q))
        \<le> unat (ql_global_bytes limits)"
    by (auto simp: reconstruct_file_multipart_quotas_def result_simps validate_tenants_Inr split_paired_Ex)
  have "quotas_match (\<lparr>aq_tenants = [], aq_global = quota_usage_default\<rparr>, {}) []"
    by (simp add: quotas_match_def usage_sum_default tenant_usage_def tenant_uploads_def)
  from quota_fold_match [OF fold this]
  have match: "quotas_match (q, ids) (snapshot_uploads ss)" by simp
  then have ids: "ids = set (map (\<lambda>u. id_upload_id (up_identity u)) (snapshot_uploads ss))"
      and wf: "hm_wf (aq_tenants q)"
    by (auto simp: quotas_match_def)
  from match ids show "quotas_match (q, set (map (\<lambda>u. id_upload_id (up_identity u)) (snapshot_uploads ss)))
           (snapshot_uploads ss)" by simp
  show "unat (qu_staged_bytes (aq_global q)) + unat (qu_reserved_bytes (aq_global q))
           \<le> unat (ql_global_bytes limits)" by (rule global)
  have "unat (qu_staged_bytes (tenant_usage q tenant)) + unat (qu_reserved_bytes (tenant_usage q tenant))
           \<le> unat (ql_tenant_bytes limits) \<and> qu_active_uploads (tenant_usage q tenant) \<le> MAX_ACTIVE_UPLOADS"
    by (rule tenant_usage_bound [OF wf tenants]) (simp add: quota_usage_default_def)
  then show "unat (qu_staged_bytes (tenant_usage q tenant)) + unat (qu_reserved_bytes (tenant_usage q tenant))
           \<le> unat (ql_tenant_bytes limits)"
    and "qu_active_uploads (tenant_usage q tenant) \<le> MAX_ACTIVE_UPLOADS" by auto
qed

end
