(* ===== verification/Reducer_Protocol.thy ===== *)
theory Reducer_Protocol
  imports Reducer_Runs
begin

text \<open>
  The protocol guarantees of the multipart reducer: fencing of stale workers,
  exclusive completion leases, the effect of committing a part and the
  availability of abort, followed by the properties of the component.
\<close>

section \<open>Fencing, leases and part commits\<close>

lemma replay_events_inv: "reducer_inv r \<Longrightarrow> reducer_inv (replay_events op_id encode r es)"
proof (induction es arbitrary: r)
  case (Cons e es)
  have "apply_event op_id encode r e =
      (fst (apply_event op_id encode r e), snd (apply_event op_id encode r e))" by simp
  from reducer_inv_step [OF Cons.prems this] Cons.IH show ?case by simp
qed simp

text \<open>The fencing token a worker presents with a transition of the completion protocol.\<close>

fun presented_token :: "file_multipart_transition \<Rightarrow> u64 option" where
  "presented_token (CompletionRenewed token lease updated) = Some token"
| "presented_token (DestinationCommitBegun permit started) = Some (pm_fencing_token permit)"
| "presented_token (DestinationCommitRecorded permit commit updated) = Some (pm_fencing_token permit)"
| "presented_token (DestinationCommitReleased permit updated) = Some (pm_fencing_token permit)"
| "presented_token (CompletionCompleted permit result completed until) = Some (pm_fencing_token permit)"
| "presented_token _ = None"

lemma reduce_body_token:
  assumes "reduce_body op_id s i t = Inr s'" "presented_token t = Some token"
  shows "\<exists>u. fs_upload s = Some u \<and> up_completion_fencing_token u = token"
  using assms
  by (cases t) (auto simp: result_simps reduce_defs permit_matches_def)

lemma stale_token_rejected:
  assumes "fs_upload (fr_snapshot r) = Some u \<Longrightarrow> token < up_completion_fencing_token u"
    "presented_token (fe_transition e) = Some token"
    "fs_upload (fr_snapshot r) = None \<or> fs_upload (fr_snapshot r) = Some u"
  shows "snd (apply_event op_id encode r e) \<noteq> Inr Applied"
proof
  assume "snd (apply_event op_id encode r e) = Inr Applied"
  then have "apply_event op_id encode r e = (fst (apply_event op_id encode r e), Inr Applied)"
    by (simp add: prod_eq_iff)
  then obtain candidate where
      "reduce_body op_id (fr_snapshot r) (fe_identity e) (fe_transition e) = Inr candidate"
    by (rule apply_event_accepts)
  from reduce_body_token [OF this assms(2)] assms(1,3) show False by auto
qed

lemma check_selected_spec:
  "check_selected attempts previous ps = Inr x \<Longrightarrow>
     sorted_wrt (<) (map cp_part_number ps)
     \<and> (\<forall>p \<in> set ps. previous < cp_part_number p
          \<and> (\<exists>a \<in> set (filter (\<lambda>a. fa_lifecycle a = Current) attempts).
               number_of a = cp_part_number p \<and> part_matches_request (fa_part a) p))"
proof (induction attempts previous ps rule: check_selected.induct)
  case (2 attempts previous p ps)
  then obtain a where a: "find (\<lambda>a. fa_lifecycle a = Current \<and> number_of a = cp_part_number p) attempts = Some a"
      "part_matches_request (fa_part a) p" "previous < cp_part_number p"
      "check_selected attempts (cp_part_number p) ps = Inr x"
    by (auto simp: result_simps not_le)
  have "a \<in> set (filter (\<lambda>a. fa_lifecycle a = Current) attempts)" "number_of a = cp_part_number p"
    using a(1) by (auto simp: find_Some_iff)
  moreover have "sorted_wrt (<) (map cp_part_number ps)
     \<and> (\<forall>q \<in> set ps. cp_part_number p < cp_part_number q
          \<and> (\<exists>a \<in> set (filter (\<lambda>a. fa_lifecycle a = Current) attempts).
               number_of a = cp_part_number q \<and> part_matches_request (fa_part a) q))"
    using a by (intro "2.IH") (auto simp: not_le)
  ultimately show ?case using a(2,3) by fastforce
qed simp

lemma reduce_acquire_completion_facts:
  assumes "reduce_acquire_completion s fingerprint ps owner lease token now = Inr s'"
  shows "\<exists>u u'. fs_upload s = Some u \<and> fs_upload s' = Some u'
     \<and> up_lifecycle u' = Completing \<and> up_completion_fencing_token u' = token
     \<and> unat token = Suc (unat (up_completion_fencing_token u))
     \<and> up_completion_lease_expires_at_ms u' = Some lease \<and> now < lease
     \<and> fs_attempts s' = fs_attempts s
     \<and> check_selected (fs_attempts s) 0 ps = Inr ()
     \<and> (\<forall>l. up_lifecycle u = Completing \<longrightarrow> up_completion_lease_expires_at_ms u = Some l \<longrightarrow> l \<le> now)"
proof -
  from assms obtain u where u: "fs_upload s = Some u"
    by (auto simp: reduce_acquire_completion_def result_simps)
  from assms u have token: "checked_add (up_completion_fencing_token u) 1 = Some token" "now < lease"
      and lease: "\<forall>l. up_lifecycle u = Completing \<longrightarrow> up_completion_lease_expires_at_ms u = Some l \<longrightarrow> l \<le> now"
      and sel: "file_validate_selected_parts s ps = Inr ()"
      and upd: "set_updated_at
       (set_upload s
         (u\<lparr>up_lifecycle := Completing,
                 up_complete_request_fingerprint := Some fingerprint,
                 up_completion_lease_owner := Some owner,
                 up_completion_lease_expires_at_ms := Some lease,
                 up_completion_fencing_token := token\<rparr>)) now = Inr s'"
    by (simp_all add: reduce_acquire_completion_def result_simps require_upload_def not_less not_le
          split: option.splits)
  from token(1) have "unat token = Suc (unat (up_completion_fencing_token u))"
    by (auto simp: checked_arith)
  moreover from sel have "check_selected (fs_attempts s) 0 ps = Inr ()"
    by (auto simp: file_validate_selected_parts_def split: if_splits)
  moreover from upd obtain u' where "fs_upload s' = Some u'" "up_lifecycle u' = Completing"
      "up_completion_fencing_token u' = token" "up_completion_lease_expires_at_ms u' = Some lease"
      "fs_attempts s' = fs_attempts s"
    by (auto simp: set_updated_at_Inr)
  ultimately show ?thesis using u token lease by blast
qed

lemma acquired_facts:
  assumes "apply_event op_id encode r e = (r', Inr Applied)"
    "fe_transition e = CompletionAcquired fingerprint ps owner lease token now"
  shows "\<exists>u u'. fs_upload (fr_snapshot r) = Some u \<and> fs_upload (fr_snapshot r') = Some u'
     \<and> up_lifecycle u' = Completing \<and> up_completion_fencing_token u' = token
     \<and> unat token = Suc (unat (up_completion_fencing_token u))
     \<and> up_completion_lease_expires_at_ms u' = Some lease \<and> now < lease
     \<and> fs_attempts (fr_snapshot r') = fs_attempts (fr_snapshot r)
     \<and> check_selected (fs_attempts (fr_snapshot r)) 0 ps = Inr ()
     \<and> (\<forall>l. up_lifecycle u = Completing \<longrightarrow> up_completion_lease_expires_at_ms u = Some l \<longrightarrow> l \<le> now)"
proof -
  obtain candidate where
      c: "reduce_body op_id (fr_snapshot r) (fe_identity e) (fe_transition e) = Inr candidate"
      and r': "fr_snapshot r' = candidate\<lparr>fs_final_event_sequence := fe_sequence e\<rparr>"
    using assms(1) by (rule apply_event_accepts)
  from c assms(2) have
    "reduce_acquire_completion (fr_snapshot r) fingerprint ps owner lease token now = Inr candidate"
    by simp
  from reduce_acquire_completion_facts [OF this] show ?thesis by (simp add: r')
qed

lemma second_acquire_rejected:
  assumes "apply_event op_id encode r e = (r', Inr Applied)"
    "fe_transition e = CompletionAcquired fingerprint ps owner lease token now"
    "fe_transition e' = CompletionAcquired fingerprint' ps' owner' lease' token' now'"
    "now' < lease"
  shows "snd (apply_event op_id encode r' e') \<noteq> Inr Applied"
proof
  assume "snd (apply_event op_id encode r' e') = Inr Applied"
  then have "apply_event op_id encode r' e' = (fst (apply_event op_id encode r' e'), Inr Applied)"
    by (simp add: prod_eq_iff)
  from acquired_facts [OF this assms(3)] acquired_facts [OF assms(1,2)] assms(4) show False by auto
qed

section \<open>Committing a part\<close>

lemma staged_total_retire [simp]: "staged_total (map retire_attempt as) = staged_total as"
  by (induction as) (auto simp: retire_attempt_def)

lemma reserved_total_retire [simp]: "reserved_total (map retire_attempt as) = reserved_total as"
  by (induction as) (auto simp: retire_attempt_def)

lemma totals_retire_number [simp]:
  "staged_total (map (\<lambda>a. if number_of a = n then retire_attempt a else a) as) = staged_total as"
  "reserved_total (map (\<lambda>a. if number_of a = n then retire_attempt a else a) as) = reserved_total as"
  by (induction as) (auto simp: retire_attempt_def)

lemma totals_update:
  assumes "i < length as" "fa_lifecycle (as ! i) = Pending" "fa_lifecycle a = Current"
  shows "staged_total (as[i := a]) = staged_total as + unat (mp_size_bytes (fa_part a))"
    and "reserved_total as = reserved_total (as[i := a]) + unat (fa_reserved_bytes (as ! i))"
proof -
  have as: "as = take i as @ as ! i # drop (Suc i) as" using assms(1) by (rule id_take_nth_drop)
  have upd: "as[i := a] = take i as @ a # drop (Suc i) as" using assms(1) by (rule upd_conv_take_nth_drop)
  show "staged_total (as[i := a]) = staged_total as + unat (mp_size_bytes (fa_part a))"
    unfolding upd by (subst (2) as) (simp add: assms)
  show "reserved_total as = reserved_total (as[i := a]) + unat (fa_reserved_bytes (as ! i))"
    unfolding upd by (subst as) (simp add: assms)
qed

lemma current_after_commit:
  assumes "i < length as" "number_of a = n" "fa_lifecycle a = Current"
  shows "filter (\<lambda>a. fa_lifecycle a = Current \<and> number_of a = n)
      ((map (\<lambda>a. if number_of a = n then retire_attempt a else a) as)[i := a]) = [a]"
proof -
  let ?P = "\<lambda>a. fa_lifecycle a = Current \<and> number_of a = n"
  have none: "filter ?P (map (\<lambda>a. if number_of a = n then retire_attempt a else a) bs) = []" for bs
    by (induction bs) (auto simp: retire_attempt_def)
  show ?thesis
    using assms none [of "take i as"] none [of "drop (Suc i) as"]
    by (simp add: upd_conv_take_nth_drop take_map drop_map)
qed

lemma part_committed_facts:
  assumes "reduce_body op_id s i (PartCommitted pending part now) = Inr s'"
  shows "filter (\<lambda>a. fa_lifecycle a = Current \<and> number_of a = mp_part_number part) (fs_attempts s')
       = [\<lparr>fa_lifecycle = Current, fa_part = part, fa_reserved_bytes = 0\<rparr>]
     \<and> staged_total (fs_attempts s') = staged_total (fs_attempts s) + unat (mp_size_bytes part)
     \<and> reserved_total (fs_attempts s) = reserved_total (fs_attempts s') + unat (pp_reserved_bytes pending)
     \<and> mp_size_bytes part \<le> pp_reserved_bytes pending"
proof -
  let ?new = "\<lparr>fa_lifecycle = Current, fa_part = part, fa_reserved_bytes = 0\<rparr>"
  let ?retired = "map (\<lambda>a. if number_of a = mp_part_number part then retire_attempt a else a) (fs_attempts s)"
  from assms obtain index where
      ix: "attempt_index s (pp_artifact_key pending) = Inr index"
      and size: "mp_size_bytes part \<le> pp_reserved_bytes pending"
      and pend: "fa_lifecycle (fs_attempts s ! index) = Pending"
        "fa_reserved_bytes (fs_attempts s ! index) = pp_reserved_bytes pending"
      and upd: "set_updated_at (s\<lparr>fs_attempts := ?retired[index := ?new]\<rparr>) now = Inr s'"
    by (auto simp: result_simps Let_def not_less)
  from ix have len: "index < length (fs_attempts s)"
    by (auto simp: attempt_index_def result_simps position_Some)
  have pend': "fa_lifecycle (?retired ! index) = Pending"
      "fa_reserved_bytes (?retired ! index) = pp_reserved_bytes pending"
    using len pend by (auto simp: retire_attempt_def)
  have att: "fs_attempts s' = ?retired[index := ?new]"
    using upd by (auto simp: set_updated_at_Inr)
  show ?thesis
    unfolding att
    using current_after_commit [OF len, of ?new] totals_update [of index ?retired ?new] len pend' size
    by simp
qed

section \<open>Aborting\<close>

lemma current_attempts_retire [simp]: "current_attempts (map retire_attempt as) = []"
  by (induction as) (auto simp: current_attempts_def retire_attempt_def)

lemma wf_attempts_retire: "wf_attempts i as \<Longrightarrow> wf_attempts i (map retire_attempt as)"
proof -
  assume wf: "wf_attempts i as"
  have parts: "fa_part (retire_attempt a) = fa_part a" for a by (simp add: retire_attempt_def)
  have ok: "attempt_ok i (retire_attempt a)" if "attempt_ok i a" for a
    using that by (auto simp: attempt_ok_def retire_attempt_def Let_def)
  from wf show ?thesis by (simp add: wf_attempts_def o_def parts ok)
qed

lemma abort_accepted:
  assumes wf: "wf_snapshot s" and u: "fs_upload s = Some u" "up_lifecycle u = Open"
    and time: "up_updated_at_ms u \<le> now" "i64_min \<le> now" "now + DEFAULT_EXPIRY_MS \<le> i64_max"
  shows "\<exists>s' u'. reduce_body op_id s i (UploadAborted now (now + DEFAULT_EXPIRY_MS)) = Inr s'
     \<and> wf_snapshot (s'\<lparr>fs_final_event_sequence := q\<rparr>) \<and> fs_upload s' = Some u' \<and> up_lifecycle u' = Aborted
     \<and> fs_attempts s' = map retire_attempt (fs_attempts s)"
proof -
  let ?u = "u\<lparr>up_lifecycle := Aborted, up_tombstone_until_ms := Some (now + DEFAULT_EXPIRY_MS),
      up_updated_at_ms := now\<rparr>"
  let ?s = "s\<lparr>fs_upload := Some ?u, fs_attempts := map retire_attempt (fs_attempts s)\<rparr>"
  from wf u obtain j where j: "fs_identity s = Some j"
    by (auto simp: wf_snapshot_def split: option.splits)
  with wf u have parts: "identity_ok j" "wf_attempts j (fs_attempts s)" "audits_ok j (fs_cleanup_audits s)"
      "up_identity u = j" "validate_upload u = Inr ()" "accounting_ok u (fs_attempts s)"
    by (auto simp: wf_snapshot_def)
  have tomb: "validate_tombstone now (now + DEFAULT_EXPIRY_MS) = Inr ()"
    using time by (simp add: validate_tombstone_def i64_checked_add_def DEFAULT_EXPIRY_MS_def)
  have "set_updated_at (retire_current_attempts (set_upload s
      (u\<lparr>up_lifecycle := Aborted, up_tombstone_until_ms := Some (now + DEFAULT_EXPIRY_MS)\<rparr>))) now = Inr ?s"
    unfolding set_updated_at_Inr using parts(6) time(1)
    by (intro exI [of _ "u\<lparr>up_lifecycle := Aborted, up_tombstone_until_ms := Some (now + DEFAULT_EXPIRY_MS)\<rparr>"]
          exI [of _ "up_staged_bytes u"] exI [of _ "up_reserved_bytes u"])
       (simp add: accounting_ok_def retire_current_attempts_def set_upload_def)
  then have body: "reduce_body op_id s i (UploadAborted now (now + DEFAULT_EXPIRY_MS)) = Inr ?s"
    by (simp add: terminal_without_commit_def tomb require_upload_def u)
  have "validate_upload ?u = Inr ()"
    using parts(5) u(2) time(1)
    by (auto simp: validate_upload_def result_simps validate_lifecycle_def validate_destination_commit_def
          split: option.splits)
  moreover have "accounting_ok ?u (map retire_attempt (fs_attempts s))"
    using parts(6) by (simp add: accounting_ok_def)
  ultimately have "wf_snapshot (?s\<lparr>fs_final_event_sequence := q\<rparr>)"
    using wf j u parts by (simp add: wf_snapshot_def wf_attempts_retire)
  with body show ?thesis by (intro exI [of _ ?s] exI [of _ ?u]) simp
qed

section \<open>Compaction over runs\<close>

text \<open>A run on which no event is rejected.\<close>

fun accepted_run ::
  "(multipart_identity \<Rightarrow> string \<Rightarrow> uuid) \<Rightarrow> (file_multipart_event \<Rightarrow> bytes option)
     \<Rightarrow> file_multipart_reducer \<Rightarrow> file_multipart_event list \<Rightarrow> bool" where
  "accepted_run op_id encode r [] = True"
| "accepted_run op_id encode r (e # es) =
     ((case snd (apply_event op_id encode r e) of Inr _ \<Rightarrow> True | Inl _ \<Rightarrow> False)
      \<and> accepted_run op_id encode (fst (apply_event op_id encode r e)) es)"

lemma compacts_run:
  "compacts r r' \<Longrightarrow> accepted_run op_id encode r es \<Longrightarrow>
     accepted_run op_id encode r' es
     \<and> compacts (replay_events op_id encode r es) (replay_events op_id encode r' es)"
proof (induction es arbitrary: r r')
  case (Cons e es)
  then obtain a where "apply_event op_id encode r e = (fst (apply_event op_id encode r e), Inr a)"
    by (cases "apply_event op_id encode r e") (auto split: sum.splits)
  from compacts_step [OF Cons.prems(1) this] obtain r1' a' where
      "apply_event op_id encode r' e = (r1', Inr a')" "compacts (fst (apply_event op_id encode r e)) r1'"
    by blast
  with Cons.IH [of _ r1'] Cons.prems(2) show ?case by simp
qed simp

lemma restart_succeeds:
  "reducer_inv r \<Longrightarrow> \<exists>r'. reducer_from_snapshot (compacted_snapshot r) = Inr r' \<and> compacts r r'"
proof -
  assume inv: "reducer_inv r"
  then have "validate_snapshot (compacted_snapshot r) = Inr ()"
    by (simp add: validate_snapshot_iff compacted_snapshot_def reducer_inv_def)
  then obtain r' where "reducer_from_snapshot (compacted_snapshot r) = Inr r'"
    by (simp add: reducer_from_snapshot_def)
  with compacts_restart [OF inv] show ?thesis by blast
qed

section \<open>A concrete upload\<close>

text \<open>One upload with a single part, at three points of its life.\<close>

definition ex_identity :: multipart_identity where
  "ex_identity = \<lparr>id_tenant_id = ''t'', id_credential_policy_id = ''p'', id_bucket = ''b'',
     id_key = ''k'', id_upload_id = ''u''\<rparr>"

definition ex_upload :: multipart_upload where
  "ex_upload = \<lparr>up_identity = ex_identity, up_namespace_epoch = None,
     up_snapshot = \<lparr>ms_metadata = [], ms_tags = [], ms_checksum_mode = None, ms_destination = JNull,
       ms_plugin_snapshot = JNull, ms_max_staged_bytes = 100, ms_verified_policy = None\<rparr>,
     up_lifecycle = Open, up_staged_bytes = 0, up_reserved_bytes = 0, up_created_at_ms = 0,
     up_expires_at_ms = 1000, up_updated_at_ms = 0, up_tombstone_until_ms = None,
     up_complete_request_fingerprint = None, up_completion_lease_owner = None,
     up_completion_lease_expires_at_ms = None, up_completion_fencing_token = 0,
     up_destination_operation_id = None, up_publishing_started_at_ms = None,
     up_destination_commit = None, up_completion_result = None\<rparr>"

definition ex_pending :: pending_part where
  "ex_pending = \<lparr>pp_upload_id = ''u'', pp_part_number = 1, pp_attempt = 1, pp_artifact_key = ''a'',
     pp_reserved_bytes = 10\<rparr>"

definition ex_part :: multipart_part where
  "ex_part = \<lparr>mp_upload_id = ''u'', mp_part_number = 1, mp_attempt = 1, mp_artifact_key = ''a'',
     mp_etag = ''e'', mp_checksum_sha256 = ''c'', mp_size_bytes = 7, mp_created_at_ms = 1\<rparr>"

definition ex_request :: complete_part where
  "ex_request = \<lparr>cp_part_number = 1, cp_etag = ''e'', cp_checksum_sha256 = None\<rparr>"

definition ex_permit :: "u64 \<Rightarrow> destination_commit_permit" where
  "ex_permit token = \<lparr>pm_upload_id = ''u'', pm_completion_fingerprint = ''f'', pm_fencing_token = token,
     pm_operation_id = 9\<rparr>"

definition ex_result :: multipart_completion_result where
  "ex_result = \<lparr>cr_etag = None, cr_checksum_sha256 = ''c'', cr_version_id = None, cr_source_bytes = 7,
     cr_size_bytes = 7, cr_pipeline_evidence = None\<rparr>"

definition ex_op_id :: "multipart_identity \<Rightarrow> string \<Rightarrow> uuid" where
  "ex_op_id identity fingerprint = 9"

definition ex_encode :: "file_multipart_event \<Rightarrow> bytes option" where
  "ex_encode e = Some [ucast (fe_event_id e)]"

definition ex_event :: "u64 \<Rightarrow> file_multipart_transition \<Rightarrow> file_multipart_event" where
  "ex_event n t = \<lparr>fe_schema_version = 1, fe_sequence = n, fe_event_id = ucast n,
     fe_identity = ex_identity, fe_transition = t\<rparr>"

definition ex_reducer :: "multipart_upload \<Rightarrow> file_part_attempt list \<Rightarrow> file_multipart_reducer" where
  "ex_reducer u attempts =
     \<lparr>fr_snapshot = \<lparr>fs_schema_version = 1, fs_final_event_sequence = 4, fs_identity = Some ex_identity,
        fs_upload = Some u, fs_attempts = attempts, fs_cleanup_audits = []\<rparr>,
      fr_replay_floor = 4, fr_replayed = [], fr_event_ids = []\<rparr>"

definition ex_reserved :: file_multipart_reducer where
  "ex_reserved = ex_reducer (ex_upload\<lparr>up_reserved_bytes := 10\<rparr>)
     [\<lparr>fa_lifecycle = Pending, fa_part = reserved_part ex_pending 0, fa_reserved_bytes = 10\<rparr>]"

definition ex_staged :: file_multipart_reducer where
  "ex_staged = ex_reducer (ex_upload\<lparr>up_staged_bytes := 7\<rparr>)
     [\<lparr>fa_lifecycle = Current, fa_part = ex_part, fa_reserved_bytes = 0\<rparr>]"

definition ex_published_upload :: multipart_upload where
  "ex_published_upload = ex_upload\<lparr>up_staged_bytes := 7, up_lifecycle := Publishing,
     up_updated_at_ms := 5, up_complete_request_fingerprint := Some ''f'',
     up_completion_fencing_token := 2, up_destination_operation_id := Some 9,
     up_publishing_started_at_ms := Some 4,
     up_destination_commit := Some \<lparr>dc_operation_id = 9, dc_result = ex_result, dc_committed_at_ms = 5\<rparr>\<rparr>"

definition ex_published :: file_multipart_reducer where
  "ex_published = ex_reducer ex_published_upload
     [\<lparr>fa_lifecycle = Current, fa_part = ex_part, fa_reserved_bytes = 0\<rparr>]"

definition ex_acquire :: "u64 \<Rightarrow> i64 \<Rightarrow> file_multipart_event" where
  "ex_acquire n now = ex_event n (CompletionAcquired ''f'' [ex_request] ''w'' 50 1 now)"

definition ex_complete :: file_multipart_event where
  "ex_complete = ex_event 5 (CompletionCompleted (ex_permit 2) ex_result 6 (6 + DEFAULT_EXPIRY_MS))"

lemma ex_reachable:
  assumes "validate_snapshot (fr_snapshot (ex_reducer u attempts)) = Inr ()"
  shows "reducer_reachable op_id encode (ex_reducer u attempts)"
  by (rule reducer_reachable.restore [of "fr_snapshot (ex_reducer u attempts)"])
     (simp add: reducer_from_snapshot_def assms, simp add: ex_reducer_def)

lemma ex_reserved_reachable: "reducer_reachable op_id encode ex_reserved"
  unfolding ex_reserved_def by (rule ex_reachable) code_simp

lemma ex_staged_reachable: "reducer_reachable op_id encode ex_staged"
  unfolding ex_staged_def by (rule ex_reachable) code_simp

lemma ex_published_reachable: "reducer_reachable op_id encode ex_published"
  unfolding ex_published_def by (rule ex_reachable) code_simp

lemma ex_uploads:
  "fs_upload (fr_snapshot ex_reserved) = Some (ex_upload\<lparr>up_reserved_bytes := 10\<rparr>)"
  "fs_upload (fr_snapshot ex_staged) = Some (ex_upload\<lparr>up_staged_bytes := 7\<rparr>)"
  "fs_upload (fr_snapshot ex_published) = Some ex_published_upload"
  by (simp_all add: ex_reserved_def ex_staged_def ex_published_def ex_reducer_def)

lemma ex_complete_applied:
  "snd (apply_event ex_op_id ex_encode ex_published ex_complete) = Inr Applied"
  by code_simp

lemma ex_acquire_applied:
  "snd (apply_event ex_op_id ex_encode ex_staged (ex_acquire 5 3)) = Inr Applied"
  by code_simp

lemma ex_commit_applied:
  "snd (apply_event ex_op_id ex_encode ex_reserved (ex_event 5 (PartCommitted ex_pending ex_part 2)))
     = Inr Applied"
  by code_simp

section \<open>Properties\<close>

text \<open>
  C1: The byte counters of every reachable reducer are exact. Staged bytes are
  the sum over committed attempts, reserved bytes the sum over pending ones, and
  together they stay within the upload's limit; no part number has two current
  attempts, no two attempts share an artifact, a terminal upload has no current
  attempt, and the replay window holds exactly the sequence numbers accepted
  since the last compaction, at most 256 of them.
\<close>

theorem reachable_accounting:
  assumes "reducer_reachable op_id encode r" "fs_upload (fr_snapshot r) = Some u"
  shows "unat (up_staged_bytes u) = staged_total (fs_attempts (fr_snapshot r))
    \<and> unat (up_reserved_bytes u) = reserved_total (fs_attempts (fr_snapshot r))
    \<and> unat (up_staged_bytes u) + unat (up_reserved_bytes u) \<le> unat (ms_max_staged_bytes (up_snapshot u))
    \<and> distinct (map number_of (current_attempts (fs_attempts (fr_snapshot r))))
    \<and> distinct (map artifact_of (fs_attempts (fr_snapshot r)))
    \<and> (is_terminal (up_lifecycle u) \<longrightarrow> current_attempts (fs_attempts (fr_snapshot r)) = [])
    \<and> (\<forall>q. hm_get (fr_replayed r) q \<noteq> None \<longleftrightarrow>
          fr_replay_floor r < q \<and> q \<le> fs_final_event_sequence (fr_snapshot r))
    \<and> length (fr_replayed r) \<le> MAX_REPLAY_EVENTS"
  using reducer_reachable_inv [OF assms(1)] assms(2)
  by (auto simp: reducer_inv_def wf_snapshot_def accounting_ok_def wf_attempts_def split: option.splits)

theorem reachable_accounting_witness:
  "unat (up_staged_bytes (ex_upload\<lparr>up_staged_bytes := 7\<rparr>))
     = staged_total (fs_attempts (fr_snapshot ex_staged))"
  using reachable_accounting [OF ex_staged_reachable ex_uploads(2)] by blast


text \<open>
  C2: Over any sequence of events, accepted or not, an upload that is still
  there keeps its identity, frozen snapshot and deadlines; its clock and its
  fencing token never go back; its lifecycle moves along the edges of the state
  machine and, once completed, aborted or expired, never changes again.
\<close>

theorem run_never_regresses:
  assumes "reducer_reachable op_id encode r" "fs_upload (fr_snapshot r) = Some u"
    "fs_upload (fr_snapshot (replay_events op_id encode r es)) = Some u'"
  shows "up_identity u' = up_identity u
     \<and> up_snapshot u' = up_snapshot u
     \<and> up_created_at_ms u' = up_created_at_ms u
     \<and> up_expires_at_ms u' = up_expires_at_ms u
     \<and> up_updated_at_ms u \<le> up_updated_at_ms u'
     \<and> lifecycle_edge\<^sup>*\<^sup>* (up_lifecycle u) (up_lifecycle u')
     \<and> (is_terminal (up_lifecycle u) \<longrightarrow> up_lifecycle u' = up_lifecycle u)
     \<and> unat (up_completion_fencing_token u) \<le> unat (up_completion_fencing_token u')"
  using replay_upload_progress [OF reducer_reachable_inv [OF assms(1)] assms(2,3)]
  by (simp add: upload_progress_def is_terminal_final)

lemma ex_completed_upload:
  "fs_upload (fr_snapshot (replay_events ex_op_id ex_encode ex_published [ex_complete])) =
     Some (ex_published_upload\<lparr>up_lifecycle := Completed, up_completion_result := Some ex_result,
       up_tombstone_until_ms := Some (6 + DEFAULT_EXPIRY_MS), up_updated_at_ms := 6\<rparr>)"
  by code_simp

theorem run_never_regresses_witness:
  "lifecycle_edge\<^sup>*\<^sup>* Publishing Completed"
  using run_never_regresses [OF ex_published_reachable ex_uploads(3) ex_completed_upload]
  by (simp add: ex_published_upload_def)

text \<open>
  C3: A recorded destination commit is final. Once an upload is publishing with
  a committed result, every later state of it is either still publishing with
  the same recorded result or completed with exactly that result; no event can
  release, replace, abort or expire it.
\<close>

theorem recorded_commit_is_final:
  assumes "reducer_reachable op_id encode r" "fs_upload (fr_snapshot r) = Some u"
    "up_lifecycle u = Publishing" "up_destination_commit u = Some commit"
    "fs_upload (fr_snapshot (replay_events op_id encode r es)) = Some u'"
  shows "up_lifecycle u' = Publishing \<and> map_option dc_result (up_destination_commit u') = Some (dc_result commit)
    \<or> up_lifecycle u' = Completed \<and> up_completion_result u' = Some (dc_result commit)"
  using replay_settled [OF reducer_reachable_inv [OF assms(1)] assms(2,5), of "dc_result commit"] assms(3,4)
  by (simp add: settled_as_def)

theorem recorded_commit_is_final_witness:
  "\<exists>u'. fs_upload (fr_snapshot (replay_events ex_op_id ex_encode ex_published [ex_complete])) = Some u'
     \<and> up_completion_result u' = Some ex_result"
  using recorded_commit_is_final [OF ex_published_reachable ex_uploads(3) _ _ ex_completed_upload,
      of "\<lparr>dc_operation_id = 9, dc_result = ex_result, dc_committed_at_ms = 5\<rparr>"] ex_completed_upload
  by (simp add: ex_published_upload_def)

text \<open>
  C13: Delivery is idempotent. An accepted event that is delivered again, after
  any other events, is recognised as an exact duplicate and changes nothing; an
  event that is not newly applied never changes the reducer.
\<close>

theorem redelivery_is_idempotent:
  assumes "apply_event op_id encode r e = (r', Inr Applied)"
  shows "apply_event op_id encode (replay_events op_id encode r' es) e
      = (replay_events op_id encode r' es, Inr ExactDuplicate)
    \<and> (snd (apply_event op_id encode q e') \<noteq> Inr Applied \<longrightarrow> fst (apply_event op_id encode q e') = q)"
proof -
  from assms obtain canonical where c: "encode e = Some canonical"
      "hm_get (fr_replayed r') (fe_sequence e) = Some canonical"
      "fe_schema_version e = FILE_MULTIPART_SCHEMA_VERSION" "fr_replay_floor r' < fe_sequence e"
    by (auto simp: apply_event_Applied map_laws)
  have "apply_event op_id encode (replay_events op_id encode r' es) e
      = (replay_events op_id encode r' es, Inr ExactDuplicate)"
    using replay_events_replayed_mono [OF c(2), of op_id encode es] c
    by (simp add: apply_event_ExactDuplicate)
  moreover have "snd (apply_event op_id encode q e') \<noteq> Inr Applied \<longrightarrow> fst (apply_event op_id encode q e') = q"
    using apply_event_unchanged [of op_id encode q e'] by (metis prod.collapse)
  ultimately show ?thesis by blast
qed

theorem redelivery_is_idempotent_witness:
  "snd (apply_event ex_op_id ex_encode (fst (apply_event ex_op_id ex_encode ex_published ex_complete)) ex_complete)
     = Inr ExactDuplicate"
proof -
  have "apply_event ex_op_id ex_encode ex_published ex_complete
      = (fst (apply_event ex_op_id ex_encode ex_published ex_complete), Inr Applied)"
    using ex_complete_applied by (simp add: prod_eq_iff)
  from redelivery_is_idempotent [OF this, of "[]"] show ?thesis by simp
qed

text \<open>
  C12: Compaction is transparent. Restarting any reachable reducer from its
  compacted snapshot succeeds, and the restarted reducer accepts every run of
  events the original accepts and ends in the same snapshot.
\<close>

theorem compaction_transparent:
  assumes "reducer_reachable op_id encode r"
  shows "\<exists>r'. reducer_from_snapshot (compacted_snapshot r) = Inr r'
    \<and> (\<forall>es. accepted_run op_id encode r es \<longrightarrow>
          accepted_run op_id encode r' es
          \<and> fr_snapshot (replay_events op_id encode r' es) = fr_snapshot (replay_events op_id encode r es))"
proof -
  from restart_succeeds [OF reducer_reachable_inv [OF assms]] obtain r' where
    r': "reducer_from_snapshot (compacted_snapshot r) = Inr r'" "compacts r r'" by blast
  show ?thesis
    using compacts_run [OF r'(2)] by (intro exI [of _ r'] conjI r'(1)) (simp add: compacts_def)
qed

theorem compaction_transparent_witness:
  "\<exists>r'. reducer_from_snapshot (compacted_snapshot ex_published) = Inr r'
     \<and> accepted_run ex_op_id ex_encode r' [ex_complete]"
proof -
  have "accepted_run ex_op_id ex_encode ex_published [ex_complete]"
    using ex_complete_applied by simp
  with compaction_transparent [OF ex_published_reachable, of ex_op_id ex_encode] show ?thesis by blast
qed

text \<open>
  C4: A stale worker is fenced for good. Once the fencing token of an upload has
  passed the token a worker holds, no renewal, begin, record, release or
  completion that presents the old token is accepted, now or after any further
  events, and the attempt leaves the reducer unchanged.
\<close>

theorem stale_worker_fenced:
  assumes "reducer_reachable op_id encode r" "fs_upload (fr_snapshot r) = Some u"
    "presented_token (fe_transition e) = Some token" "token < up_completion_fencing_token u"
  shows "snd (apply_event op_id encode (replay_events op_id encode r es) e) \<noteq> Inr Applied
    \<and> fst (apply_event op_id encode (replay_events op_id encode r es) e) = replay_events op_id encode r es"
proof -
  let ?q = "replay_events op_id encode r es"
  have "token < up_completion_fencing_token v" if "fs_upload (fr_snapshot ?q) = Some v" for v
    using replay_upload_progress(1) [OF reducer_reachable_inv [OF assms(1)] assms(2) that] assms(4)
    by (simp add: upload_progress_def word_less_nat_alt)
  then have "snd (apply_event op_id encode ?q e) \<noteq> Inr Applied"
    using stale_token_rejected [OF _ assms(3)] by (cases "fs_upload (fr_snapshot ?q)") blast+
  moreover from this have "fst (apply_event op_id encode ?q e) = ?q"
    using apply_event_unchanged [of op_id encode ?q e] by (metis prod.collapse)
  ultimately show ?thesis by blast
qed

theorem stale_worker_fenced_witness:
  "snd (apply_event ex_op_id ex_encode (replay_events ex_op_id ex_encode ex_published [])
      (ex_event 5 (DestinationCommitReleased (ex_permit 1) 9))) \<noteq> Inr Applied"
  using stale_worker_fenced [OF ex_published_reachable ex_uploads(3),
      of "ex_event 5 (DestinationCommitReleased (ex_permit 1) 9)" 1 ex_op_id ex_encode "[]"]
  by (simp add: ex_event_def ex_permit_def ex_published_upload_def)



text \<open>
  Committing a part makes it the only current attempt of its number, turns
  exactly its reservation into its actual size, and so never raises the bytes
  charged to the upload.
\<close>

theorem part_commit_effect:
  assumes "apply_event op_id encode r e = (r', Inr Applied)" "fe_transition e = PartCommitted pending part now"
  shows "filter (\<lambda>a. fa_lifecycle a = Current \<and> number_of a = mp_part_number part) (fs_attempts (fr_snapshot r'))
       = [\<lparr>fa_lifecycle = Current, fa_part = part, fa_reserved_bytes = 0\<rparr>]
    \<and> staged_total (fs_attempts (fr_snapshot r')) = staged_total (fs_attempts (fr_snapshot r)) + unat (mp_size_bytes part)
    \<and> reserved_total (fs_attempts (fr_snapshot r))
        = reserved_total (fs_attempts (fr_snapshot r')) + unat (pp_reserved_bytes pending)
    \<and> staged_total (fs_attempts (fr_snapshot r')) + reserved_total (fs_attempts (fr_snapshot r'))
        \<le> staged_total (fs_attempts (fr_snapshot r)) + reserved_total (fs_attempts (fr_snapshot r))"
proof -
  obtain candidate where
      c: "reduce_body op_id (fr_snapshot r) (fe_identity e) (PartCommitted pending part now) = Inr candidate"
      and r': "fr_snapshot r' = candidate\<lparr>fs_final_event_sequence := fe_sequence e\<rparr>"
    using assms(1) unfolding assms(2) [symmetric] by (rule apply_event_accepts)
  from part_committed_facts [OF c] show ?thesis by (simp add: r' word_le_nat_alt)
qed

theorem part_commit_effect_witness:
  "staged_total (fs_attempts (fr_snapshot (fst (apply_event ex_op_id ex_encode ex_reserved
      (ex_event 5 (PartCommitted ex_pending ex_part 2))))))
     = staged_total (fs_attempts (fr_snapshot ex_reserved)) + 7"
proof -
  let ?e = "ex_event 5 (PartCommitted ex_pending ex_part 2)"
  have "apply_event ex_op_id ex_encode ex_reserved ?e
      = (fst (apply_event ex_op_id ex_encode ex_reserved ?e), Inr Applied)"
    using ex_commit_applied by (simp add: prod_eq_iff)
  from part_commit_effect [OF this, of ex_pending ex_part 2] show ?thesis
    by (simp add: ex_event_def ex_part_def)
qed



text \<open>
  C14: Quota reconstruction is exact. When it succeeds, the usage of every tenant
  and the global usage are the true sums of staged and reserved bytes and of
  open uploads over the given snapshots, no upload id occurs twice, and both
  byte limits and the limit of 16 open uploads per tenant hold.
\<close>

theorem quota_reconstruction_exact:
  assumes "reconstruct_file_multipart_quotas ss limits = Inr q"
  shows "usage_sum (aq_global q) (snapshot_uploads ss)
    \<and> usage_sum (tenant_usage q tenant) (tenant_uploads tenant (snapshot_uploads ss))
    \<and> distinct (map (\<lambda>u. id_upload_id (up_identity u)) (snapshot_uploads ss))
    \<and> unat (qu_staged_bytes (aq_global q)) + unat (qu_reserved_bytes (aq_global q))
        \<le> unat (ql_global_bytes limits)
    \<and> unat (qu_staged_bytes (tenant_usage q tenant)) + unat (qu_reserved_bytes (tenant_usage q tenant))
        \<le> unat (ql_tenant_bytes limits)
    \<and> qu_active_uploads (tenant_usage q tenant) \<le> MAX_ACTIVE_UPLOADS"
  using reconstruct_quotas [OF assms] by (simp add: quotas_match_def)

lemma ex_quotas:
  "reconstruct_file_multipart_quotas [fr_snapshot ex_staged] \<lparr>ql_tenant_bytes = 50, ql_global_bytes = 60\<rparr>
     = Inr \<lparr>aq_tenants = [(''t'', \<lparr>qu_staged_bytes = 7, qu_reserved_bytes = 0, qu_active_uploads = 1\<rparr>)],
            aq_global = \<lparr>qu_staged_bytes = 7, qu_reserved_bytes = 0, qu_active_uploads = 1\<rparr>\<rparr>"
  by code_simp

theorem quota_reconstruction_exact_witness:
  "usage_sum \<lparr>qu_staged_bytes = 7, qu_reserved_bytes = 0, qu_active_uploads = 1\<rparr>
     (snapshot_uploads [fr_snapshot ex_staged])"
  using quota_reconstruction_exact [OF ex_quotas, of "''t''"] by simp

end
