(* ===== verification/Ordered_Map.thy ===== *)
theory Ordered_Map
  imports Prelude "HOL-Library.Product_Lexorder" "HOL-Library.Option_ord"
begin

text \<open>
  Ordered maps (the source's \<open>BTreeMap\<close>) as association lists with strictly
  ascending keys, so that iteration order is list order, and listings that hand
  out such a map page by page behind a cursor.
\<close>

type_synonym ('k, 'v) btree_map = "('k \<times> 'v) list"

fun bt_insert :: "'k::linorder \<Rightarrow> 'v \<Rightarrow> ('k, 'v) btree_map \<Rightarrow> ('k, 'v) btree_map" where
  "bt_insert k v [] = [(k, v)]"
| "bt_insert k v ((k', v') # m) =
     (if k < k' then (k, v) # (k', v') # m
      else if k = k' then (k, v) # m
      else (k', v') # bt_insert k v m)"

text \<open>\<open>entry(k).or_insert(v)\<close>: an existing value is kept.\<close>

fun bt_or_insert :: "'k::linorder \<Rightarrow> 'v \<Rightarrow> ('k, 'v) btree_map \<Rightarrow> ('k, 'v) btree_map" where
  "bt_or_insert k v [] = [(k, v)]"
| "bt_or_insert k v ((k', v') # m) =
     (if k < k' then (k, v) # (k', v') # m
      else if k = k' then (k', v') # m
      else (k', v') # bt_or_insert k v m)"

definition bt_wf :: "('k::linorder, 'v) btree_map \<Rightarrow> bool" where
  "bt_wf m \<longleftrightarrow> sorted_wrt (<) (map fst m)"

lemma bt_wf_Nil [simp]: "bt_wf []"
  by (simp add: bt_wf_def)

lemma bt_wf_Cons: "bt_wf ((k, v) # m) \<longleftrightarrow> (\<forall>x \<in> set m. k < fst x) \<and> bt_wf m"
  by (auto simp: bt_wf_def)

lemma set_bt_insert:
  "bt_wf m \<Longrightarrow> set (bt_insert k v m) = insert (k, v) {x \<in> set m. fst x \<noteq> k}"
  by (induction m rule: bt_insert.induct) (auto simp: bt_wf_Cons)

lemma set_bt_or_insert:
  "bt_wf m \<Longrightarrow> set (bt_or_insert k v m) = (if k \<in> fst ` set m then set m else insert (k, v) (set m))"
  by (induction m rule: bt_or_insert.induct) (auto simp: bt_wf_Cons)

lemma bt_wf_insert: "bt_wf m \<Longrightarrow> bt_wf (bt_insert k v m)"
  by (induction m rule: bt_insert.induct) (auto simp: bt_wf_Cons set_bt_insert)

lemma bt_wf_or_insert: "bt_wf m \<Longrightarrow> bt_wf (bt_or_insert k v m)"
  by (induction m rule: bt_or_insert.induct) (auto simp: bt_wf_Cons set_bt_or_insert split: if_splits)

lemma filter_bt_insert:
  assumes "bt_wf m"
  shows "filter (\<lambda>x. P (fst x)) (bt_insert k v m) =
    (if P k then bt_insert k v (filter (\<lambda>x. P (fst x)) m) else filter (\<lambda>x. P (fst x)) m)"
  using assms
proof (induction m rule: bt_insert.induct)
  case (2 k v k' v' m)
  have above: "bt_insert k v n = (k, v) # n" if "k < k'" "\<forall>x \<in> set n. k' < fst x" for n
    using that by (cases n) auto
  show ?case
    using "2.IH" "2.prems" by (auto simp: bt_wf_Cons above)
qed simp

lemma filter_bt_or_insert:
  assumes "bt_wf m"
  shows "filter (\<lambda>x. P (fst x)) (bt_or_insert k v m) =
    (if P k then bt_or_insert k v (filter (\<lambda>x. P (fst x)) m) else filter (\<lambda>x. P (fst x)) m)"
  using assms
proof (induction m rule: bt_or_insert.induct)
  case (2 k v k' v' m)
  have above: "bt_or_insert k v n = (k, v) # n" if "k < k'" "\<forall>x \<in> set n. k' < fst x" for n
    using that by (cases n) auto
  show ?case
    using "2.IH" "2.prems" by (auto simp: bt_wf_Cons above)
qed simp

lemma bt_wf_drop: "bt_wf m \<Longrightarrow> bt_wf (drop n m)"
  by (simp add: bt_wf_def drop_map [symmetric] sorted_wrt_drop)

text \<open>What follows the entry at position \<open>n\<close> is what has a greater key.\<close>

lemma bt_wf_drop_filter:
  assumes "bt_wf m" "n < length m"
  shows "drop (Suc n) m = filter (\<lambda>x. fst (m ! n) < fst x) m"
proof -
  have m: "m = take n m @ m ! n # drop (Suc n) m" using assms(2) by (rule id_take_nth_drop)
  have "\<forall>x \<in> set (take n m). \<not> fst (m ! n) < fst x"
    using assms unfolding bt_wf_def
    by (subst (asm) m) (auto simp: sorted_wrt_append simp del: append_take_drop_id)
  moreover have "\<forall>x \<in> set (drop (Suc n) m). fst (m ! n) < fst x"
    using assms unfolding bt_wf_def
    by (subst (asm) m) (auto simp: sorted_wrt_append simp del: append_take_drop_id)
  ultimately have "filter (\<lambda>x. fst (m ! n) < fst x) (take n m @ m ! n # drop (Suc n) m) = drop (Suc n) m"
    by (simp add: filter_id_conv filter_empty_conv)
  then show ?thesis using m by simp
qed

section \<open>Cursor listings\<close>

text \<open>
  Following the cursor of a listing until it says there is nothing more; the
  fuel bounds the number of pages.
\<close>

fun collect :: "('c \<Rightarrow> 'e list \<times> 'c option) \<Rightarrow> nat \<Rightarrow> 'c \<Rightarrow> 'e list option" where
  "collect page 0 c = None"
| "collect page (Suc fuel) c =
     (case page c of
        (es, None) \<Rightarrow> Some es
      | (es, Some c') \<Rightarrow> map_option ((@) es) (collect page fuel c'))"

text \<open>
  The contract of a paged listing: a page is a prefix of what is left, the
  listing ends when everything fits, and the next cursor stands right after the
  page.
\<close>

locale cursor_listing =
  fixes entries :: "'c \<Rightarrow> 'e list"
    and page :: "'c \<Rightarrow> 'e list \<times> 'c option"
    and limit :: "'c \<Rightarrow> nat"
    and valid :: "'c \<Rightarrow> bool"
  assumes limit_pos: "valid c \<Longrightarrow> 0 < limit c"
    and page_prefix: "valid c \<Longrightarrow> fst (page c) = take (limit c) (entries c)"
    and page_last: "valid c \<Longrightarrow> snd (page c) = None \<longleftrightarrow> length (entries c) \<le> limit c"
    and page_next: "valid c \<Longrightarrow> snd (page c) = Some c' \<Longrightarrow>
          valid c' \<and> limit c' = limit c \<and> entries c' = drop (limit c) (entries c)"
begin

lemma collect_complete:
  "valid c \<Longrightarrow> length (entries c) < fuel * limit c \<Longrightarrow> collect page fuel c = Some (entries c)"
proof (induction fuel arbitrary: c)
  case (Suc fuel)
  show ?case
  proof (cases "snd (page c)")
    case None
    then have "length (entries c) \<le> limit c" using page_last Suc.prems(1) by blast
    moreover have "page c = (take (limit c) (entries c), None)"
      using None page_prefix [OF Suc.prems(1)] by (metis prod.collapse)
    ultimately show ?thesis by simp
  next
    case (Some c')
    have next': "valid c'" "limit c' = limit c" "entries c' = drop (limit c) (entries c)"
      using page_next [OF Suc.prems(1) Some] by auto
    have more: "limit c < length (entries c)"
      using page_last [OF Suc.prems(1)] Some by simp
    then have "length (entries c') < fuel * limit c'"
      using Suc.prems(2) next' by auto
    then have "collect page fuel c' = Some (entries c')"
      using Suc.IH next'(1) by blast
    moreover have "page c = (take (limit c) (entries c), Some c')"
      using Some page_prefix [OF Suc.prems(1)] by (metis prod.collapse)
    ultimately show ?thesis using next'(3) by simp
  qed
qed simp

lemma collect_within_length:
  assumes "valid c" "length (entries c) < fuel"
  shows "collect page fuel c = Some (entries c)"
proof (rule collect_complete [OF assms(1)])
  have "fuel \<le> fuel * limit c"
    using limit_pos [OF assms(1)] by (cases "limit c") simp_all
  with assms(2) show "length (entries c) < fuel * limit c" by linarith
qed

end

end
