(* ===== verification/Multipart_Listing.thy ===== *)
theory Multipart_Listing
  imports Ordered_Map Staging_Types
begin

text \<open>
  Listing of open uploads (\<open>crates/gateway/src/multipart_staging/listing.rs\<close>,
  \<open>paginate_multipart_uploads\<close>): prefix and delimiter grouping, markers and page
  truncation.
\<close>

section \<open>Requests and pages\<close>

record list_multipart_uploads_request =
  lr_tenant_id :: string
  lr_credential_policy_id :: string
  lr_bucket :: string
  lr_prefix :: string
  lr_delimiter :: "string option"
  lr_key_marker :: "string option"
  lr_upload_id_marker :: "string option"
  lr_max_uploads :: nat

record list_multipart_uploads_page =
  lp_uploads :: "multipart_upload list"
  lp_common_prefixes :: "string list"
  lp_is_truncated :: bool
  lp_next_key_marker :: "string option"
  lp_next_upload_id_marker :: "string option"

datatype multipart_listing_entry = Upload multipart_upload | CommonPrefix string

type_synonym listing_key = "string \<times> string option"

section \<open>Pagination\<close>

fun starts_with :: "string \<Rightarrow> string \<Rightarrow> bool" where
  "starts_with s [] = True"
| "starts_with [] (p # ps) = False"
| "starts_with (c # cs) (p # ps) = (c = p \<and> starts_with cs ps)"

text \<open>\<open>str::find\<close>: the first position at which the needle occurs.\<close>

fun str_find :: "string \<Rightarrow> string \<Rightarrow> nat option" where
  "str_find [] needle = (if needle = [] then Some 0 else None)"
| "str_find (c # cs) needle =
     (if starts_with (c # cs) needle then Some 0 else map_option Suc (str_find cs needle))"

definition after_marker :: "list_multipart_uploads_request \<Rightarrow> string \<Rightarrow> string option \<Rightarrow> bool" where
  "after_marker request key upload_id =
     (case lr_key_marker request of
        None \<Rightarrow> True
      | Some marker \<Rightarrow>
          if key > marker then True
          else if key = marker then
            (case lr_upload_id_marker request of
               Some upload_marker \<Rightarrow>
                 (case upload_id of None \<Rightarrow> False | Some this_id \<Rightarrow> this_id > upload_marker)
             | None \<Rightarrow> False)
          else False)"

definition grouped_prefix :: "list_multipart_uploads_request \<Rightarrow> string \<Rightarrow> string option" where
  "grouped_prefix request key =
     (case lr_delimiter request of
        None \<Rightarrow> None
      | Some delimiter \<Rightarrow>
          map_option (\<lambda>index. take (length (lr_prefix request) + index + length delimiter) key)
            (str_find (drop (length (lr_prefix request)) key) delimiter))"

text \<open>One iteration of the loop over the sorted uploads.\<close>

definition add_listing_entry ::
  "list_multipart_uploads_request \<Rightarrow> (listing_key, multipart_listing_entry) btree_map
     \<Rightarrow> multipart_upload \<Rightarrow> (listing_key, multipart_listing_entry) btree_map" where
  "add_listing_entry request entries upload =
     (let key = id_key (up_identity upload); upload_id = id_upload_id (up_identity upload) in
      if \<not> starts_with key (lr_prefix request) then entries
      else case grouped_prefix request key of
        Some prefix \<Rightarrow>
          if after_marker request prefix None
          then bt_or_insert (prefix, None) (CommonPrefix prefix) entries
          else entries
      | None \<Rightarrow>
          if after_marker request key (Some upload_id)
          then bt_insert (key, Some upload_id) (Upload upload) entries
          else entries)"

definition listing_entries ::
  "multipart_upload list \<Rightarrow> list_multipart_uploads_request
     \<Rightarrow> (listing_key, multipart_listing_entry) btree_map" where
  "listing_entries uploads request =
     foldl (add_listing_entry request) []
       (sort_key (\<lambda>u. (id_key (up_identity u), id_upload_id (up_identity u))) uploads)"

definition listing_rejected :: "list_multipart_uploads_request \<Rightarrow> bool" where
  "listing_rejected request \<longleftrightarrow>
     lr_max_uploads request > MAX_MULTIPART_UPLOADS_PAGE
     \<or> lr_upload_id_marker request \<noteq> None \<and> lr_key_marker request = None
     \<or> lr_delimiter request = Some []"

fun entry_upload :: "multipart_listing_entry \<Rightarrow> multipart_upload option" where
  "entry_upload (Upload u) = Some u"
| "entry_upload (CommonPrefix p) = None"

fun entry_prefix :: "multipart_listing_entry \<Rightarrow> string option" where
  "entry_prefix (Upload u) = None"
| "entry_prefix (CommonPrefix p) = Some p"

definition paginate_multipart_uploads ::
  "multipart_upload list \<Rightarrow> list_multipart_uploads_request
     \<Rightarrow> staging_error + list_multipart_uploads_page" where
  "paginate_multipart_uploads uploads request =
     (if listing_rejected request then Inl InvalidListing
      else
        let entries = listing_entries uploads request;
            is_truncated = length entries > lr_max_uploads request;
            selected = take (lr_max_uploads request) entries;
            markers = (if is_truncated
                       then (if selected = []
                             then (lr_key_marker request, lr_upload_id_marker request)
                             else (Some (fst (fst (last selected))), snd (fst (last selected))))
                       else (None, None))
        in Inr \<lparr>lp_uploads = List.map_filter (\<lambda>(k, e). entry_upload e) selected,
                lp_common_prefixes = List.map_filter (\<lambda>(k, e). entry_prefix e) selected,
                lp_is_truncated = is_truncated,
                lp_next_key_marker = fst markers,
                lp_next_upload_id_marker = snd markers\<rparr>)"

section \<open>Markers select a suffix\<close>

definition unmarked :: "list_multipart_uploads_request \<Rightarrow> list_multipart_uploads_request" where
  "unmarked request = request\<lparr>lr_key_marker := None, lr_upload_id_marker := None\<rparr>"

definition key_after :: "list_multipart_uploads_request \<Rightarrow> listing_key \<Rightarrow> bool" where
  "key_after request k = after_marker request (fst k) (snd k)"

lemma unmarked_simps [simp]:
  "lr_prefix (unmarked request) = lr_prefix request"
  "grouped_prefix (unmarked request) = grouped_prefix request"
  "after_marker (unmarked request) key upload_id"
  by (auto simp: unmarked_def grouped_prefix_def after_marker_def fun_eq_iff split: option.splits)

lemma key_after_pair [simp]: "key_after request (key, upload_id) = after_marker request key upload_id"
  by (simp add: key_after_def)

lemma bt_wf_add_entry: "bt_wf m \<Longrightarrow> bt_wf (add_listing_entry request m u)"
  by (simp add: add_listing_entry_def Let_def bt_wf_insert bt_wf_or_insert split: option.splits)

lemma bt_wf_fold_entries: "bt_wf m \<Longrightarrow> bt_wf (foldl (add_listing_entry request) m us)"
  by (induction us arbitrary: m) (simp_all add: bt_wf_add_entry)

lemma bt_wf_listing_entries: "bt_wf (listing_entries us request)"
  by (simp add: listing_entries_def bt_wf_fold_entries)

lemma add_entry_filter:
  assumes "bt_wf m"
  shows "add_listing_entry request (filter (\<lambda>x. key_after request (fst x)) m) u
    = filter (\<lambda>x. key_after request (fst x)) (add_listing_entry (unmarked request) m u)"
  using assms
  by (simp add: add_listing_entry_def Let_def filter_bt_insert filter_bt_or_insert
        split: option.splits)

lemma fold_entries_filter:
  "bt_wf m \<Longrightarrow> foldl (add_listing_entry request) (filter (\<lambda>x. key_after request (fst x)) m) us
    = filter (\<lambda>x. key_after request (fst x)) (foldl (add_listing_entry (unmarked request)) m us)"
  by (induction us arbitrary: m) (simp_all add: add_entry_filter bt_wf_add_entry)

lemma listing_entries_filter:
  "listing_entries us request =
     filter (\<lambda>x. key_after request (fst x)) (listing_entries us (unmarked request))"
  using fold_entries_filter [of "[]" request] by (simp add: listing_entries_def)

section \<open>What the entries are\<close>

definition entry_ok :: "multipart_upload set \<Rightarrow> list_multipart_uploads_request
    \<Rightarrow> listing_key \<times> multipart_listing_entry \<Rightarrow> bool" where
  "entry_ok us request x \<longleftrightarrow>
     (case x of
        (k, Upload u) \<Rightarrow> u \<in> us \<and> k = (id_key (up_identity u), Some (id_upload_id (up_identity u)))
          \<and> starts_with (fst k) (lr_prefix request) \<and> grouped_prefix request (fst k) = None
      | (k, CommonPrefix p) \<Rightarrow> k = (p, None)
          \<and> (\<exists>u \<in> us. starts_with (id_key (up_identity u)) (lr_prefix request)
               \<and> grouped_prefix request (id_key (up_identity u)) = Some p))"

lemma add_entry_ok:
  assumes "bt_wf m" "\<forall>x \<in> set m. entry_ok us request x" "u \<in> us"
  shows "\<forall>x \<in> set (add_listing_entry request m u). entry_ok us request x"
proof (cases "starts_with (id_key (up_identity u)) (lr_prefix request)")
  case True
  show ?thesis
  proof (cases "grouped_prefix request (id_key (up_identity u))")
    case None
    with True assms(3) have "entry_ok us request
        ((id_key (up_identity u), Some (id_upload_id (up_identity u))), Upload u)"
      by (simp add: entry_ok_def)
    with None True assms(1,2) show ?thesis
      by (auto simp: add_listing_entry_def Let_def set_bt_insert)
  next
    case (Some p)
    with True assms(3) have "entry_ok us request ((p, None), CommonPrefix p)"
      by (auto simp: entry_ok_def)
    with Some True assms(1,2) show ?thesis
      by (auto simp: add_listing_entry_def Let_def set_bt_or_insert)
  qed
next
  case False
  with assms(2) show ?thesis by (simp add: add_listing_entry_def)
qed

lemma fold_entries_ok:
  "bt_wf m \<Longrightarrow> \<forall>x \<in> set m. entry_ok vs request x \<Longrightarrow> set us \<subseteq> vs \<Longrightarrow>
     \<forall>x \<in> set (foldl (add_listing_entry request) m us). entry_ok vs request x"
proof (induction us arbitrary: m)
  case (Cons u us)
  have "bt_wf (add_listing_entry request m u)"
    using Cons.prems(1) by (rule bt_wf_add_entry)
  moreover have "\<forall>x \<in> set (add_listing_entry request m u). entry_ok vs request x"
    using Cons.prems by (intro add_entry_ok) simp_all
  moreover note Cons.prems(3)
  ultimately show ?case using Cons.IH by simp
qed simp

lemma listing_entries_ok: "\<forall>x \<in> set (listing_entries us request). entry_ok (set us) request x"
  unfolding listing_entries_def by (intro fold_entries_ok) simp_all

lemma listing_entries_member:
  assumes "x \<in> set (listing_entries us request)"
  shows "entry_ok (set us) request x" and "key_after request (fst x)"
proof -
  show "entry_ok (set us) request x" using listing_entries_ok assms by blast
  show "key_after request (fst x)"
    using assms by (subst (asm) listing_entries_filter) simp
qed

lemma starts_with_iff: "starts_with s p \<longleftrightarrow> take (length p) s = p"
  by (induction s p rule: starts_with.induct) auto

lemma str_find_Some:
  "str_find s needle = Some i \<Longrightarrow> i + length needle \<le> length s \<and> take (length needle) (drop i s) = needle"
proof (induction s needle arbitrary: i rule: str_find.induct)
  case (2 c cs needle)
  show ?case
  proof (cases "starts_with (c # cs) needle")
    case True
    with "2.prems" have "i = 0" by simp
    moreover have "take (length needle) (c # cs) = needle"
      using True by (simp only: starts_with_iff)
    moreover from this have "length needle \<le> length (c # cs)"
      by (metis length_take min.cobounded1)
    ultimately show ?thesis by simp
  next
    case False
    with "2.prems" obtain j where "i = Suc j" "str_find cs needle = Some j" by auto
    with "2.IH" False show ?thesis by simp
  qed
qed (auto split: if_splits)

lemma str_find_occurs:
  "take (length needle) (drop i s) = needle \<Longrightarrow> i \<le> length s \<Longrightarrow> str_find s needle \<noteq> None"
proof (induction s needle arbitrary: i rule: str_find.induct)
  case (2 c cs needle)
  show ?case
  proof (cases i)
    case 0
    with "2.prems" have "starts_with (c # cs) needle" by (simp only: starts_with_iff drop0)
    then show ?thesis by simp
  next
    case (Suc j)
    with "2.prems" "2.IH" [of j] show ?thesis by (cases "starts_with (c # cs) needle") simp_all
  qed
qed (auto split: if_splits)

text \<open>A common prefix itself still contains the delimiter, so it is grouped again.\<close>

lemma grouped_prefix_grouped:
  assumes "grouped_prefix request key = Some p" "starts_with key (lr_prefix request)"
  shows "grouped_prefix request p \<noteq> None"
proof -
  from assms(1) obtain delim i where d: "lr_delimiter request = Some delim"
      "str_find (drop (length (lr_prefix request)) key) delim = Some i"
      "p = take (length (lr_prefix request) + i + length delim) key"
    by (auto simp: grouped_prefix_def split: option.splits)
  have len: "length (lr_prefix request) \<le> length key"
    using assms(2) unfolding starts_with_iff by (metis length_take min.cobounded1)
  have occ: "i + length delim \<le> length (drop (length (lr_prefix request)) key)"
      "take (length delim) (drop i (drop (length (lr_prefix request)) key)) = delim"
    using str_find_Some [OF d(2)] by auto
  have "drop (length (lr_prefix request)) p = take (i + length delim) (drop (length (lr_prefix request)) key)"
    using d(3) by (simp add: take_drop add.commute add.left_commute)
  then have "take (length delim) (drop i (drop (length (lr_prefix request)) p)) = delim"
    using occ(2) by (simp add: drop_take)
  moreover have "i \<le> length (drop (length (lr_prefix request)) p)"
    using d(3) occ(1) len by simp
  ultimately have "str_find (drop (length (lr_prefix request)) p) delim \<noteq> None"
    by (rule str_find_occurs)
  then show ?thesis by (simp add: grouped_prefix_def d(1))
qed

text \<open>Every matching upload has its entry, given that no two uploads share key and id.\<close>

abbreviation upload_coordinate :: "multipart_upload \<Rightarrow> string \<times> string" where
  "upload_coordinate u \<equiv> (id_key (up_identity u), id_upload_id (up_identity u))"

definition listed_key :: "list_multipart_uploads_request \<Rightarrow> multipart_upload \<Rightarrow> listing_key" where
  "listed_key request u =
     (case grouped_prefix request (id_key (up_identity u)) of
        Some p \<Rightarrow> (p, None)
      | None \<Rightarrow> (id_key (up_identity u), Some (id_upload_id (up_identity u))))"

definition listed_entry :: "list_multipart_uploads_request \<Rightarrow> multipart_upload \<Rightarrow> multipart_listing_entry" where
  "listed_entry request u =
     (case grouped_prefix request (id_key (up_identity u)) of
        Some p \<Rightarrow> CommonPrefix p | None \<Rightarrow> Upload u)"

definition listed :: "list_multipart_uploads_request \<Rightarrow> multipart_upload \<Rightarrow> bool" where
  "listed request u \<longleftrightarrow>
     starts_with (id_key (up_identity u)) (lr_prefix request) \<and> key_after request (listed_key request u)"

lemma add_entry_keeps:
  assumes "bt_wf m" "\<forall>x \<in> set m. entry_ok us request x" "(listed_key request u, listed_entry request u) \<in> set m"
    "upload_coordinate v \<noteq> upload_coordinate u"
  shows "(listed_key request u, listed_entry request u) \<in> set (add_listing_entry request m v)"
  using assms(1,3,4)
  by (auto simp: add_listing_entry_def Let_def set_bt_insert set_bt_or_insert listed_key_def
        split: option.splits)

lemma add_entry_adds:
  assumes "bt_wf m" "\<forall>x \<in> set m. entry_ok us request x" "listed request u"
  shows "(listed_key request u, listed_entry request u) \<in> set (add_listing_entry request m u)"
proof (cases "grouped_prefix request (id_key (up_identity u))")
  case None
  with assms show ?thesis
    by (simp add: add_listing_entry_def Let_def set_bt_insert listed_key_def listed_entry_def listed_def)
next
  case (Some p)
  have "e = CommonPrefix p" if "((p, None), e) \<in> set m" for e
    using assms(2) that by (cases e) (auto simp: entry_ok_def)
  with Some assms(1,3) show ?thesis
    by (auto simp: add_listing_entry_def Let_def set_bt_or_insert listed_key_def listed_entry_def listed_def)
qed

lemma fold_entries_mem:
  assumes "bt_wf m" "\<forall>x \<in> set m. entry_ok vs request x" "set us \<subseteq> vs"
    "distinct (map upload_coordinate us)" "listed request u"
    "u \<in> set us \<or> (listed_key request u, listed_entry request u) \<in> set m
       \<and> upload_coordinate u \<notin> set (map upload_coordinate us)"
  shows "(listed_key request u, listed_entry request u) \<in> set (foldl (add_listing_entry request) m us)"
  using assms
proof (induction us arbitrary: m)
  case (Cons v us)
  let ?m = "add_listing_entry request m v"
  have wf: "bt_wf ?m" using Cons.prems(1) by (rule bt_wf_add_entry)
  have ok: "\<forall>x \<in> set ?m. entry_ok vs request x" using Cons.prems(1-3) by (intro add_entry_ok) simp_all
  have "u \<in> set us \<or> (listed_key request u, listed_entry request u) \<in> set ?m
       \<and> upload_coordinate u \<notin> set (map upload_coordinate us)"
  proof (cases "u = v")
    case True
    then show ?thesis using add_entry_adds [OF Cons.prems(1,2,5)] Cons.prems(4) by auto
  next
    case False
    then show ?thesis using add_entry_keeps [OF Cons.prems(1,2), of u v] Cons.prems(6) by auto
  qed
  moreover have "set us \<subseteq> vs" "distinct (map upload_coordinate us)" using Cons.prems(3,4) by auto
  ultimately show ?case using Cons.IH [OF wf ok _ _ Cons.prems(5)] by simp
qed simp

lemma listing_entries_mem:
  assumes "distinct (map upload_coordinate us)" "u \<in> set us" "listed request u"
  shows "(listed_key request u, listed_entry request u) \<in> set (listing_entries us request)"
proof -
  have "distinct (map upload_coordinate (sort_key upload_coordinate us))"
    using assms(1) by (simp add: distinct_map inj_on_def)
  with assms show ?thesis
    unfolding listing_entries_def by (intro fold_entries_mem [of _ "set us"]) simp_all
qed

section \<open>The next page starts where this one ends\<close>

lemma key_after_upward: "key_after request k \<Longrightarrow> k < k' \<Longrightarrow> key_after request k'"
  by (cases k; cases k') (auto simp: after_marker_def split: option.splits if_splits)

definition marked_at :: "list_multipart_uploads_request \<Rightarrow> listing_key \<Rightarrow> list_multipart_uploads_request" where
  "marked_at request k = request\<lparr>lr_key_marker := Some (fst k), lr_upload_id_marker := snd k\<rparr>"

lemma key_after_marked:
  assumes "snd k = None \<Longrightarrow> fst k' = fst k \<Longrightarrow> snd k' = None"
  shows "key_after (marked_at request k) k' \<longleftrightarrow> k < k'"
  using assms
  by (cases k; cases k'; cases "snd k"; cases "snd k'")
     (auto simp: marked_at_def after_marker_def)

lemma prefix_entry_alone:
  assumes "(((p, None), e) :: listing_key \<times> multipart_listing_entry) \<in> set (listing_entries us request)"
    "((p, i), e') \<in> set (listing_entries us request)"
  shows "i = None"
proof (cases e')
  case (Upload v)
  have "entry_ok (set us) request ((p, None), e)" "entry_ok (set us) request ((p, i), e')"
    using listing_entries_ok assms by blast+
  then show ?thesis
    using Upload by (cases e) (auto simp: entry_ok_def dest!: grouped_prefix_grouped)
next
  case (CommonPrefix q)
  then show ?thesis using listing_entries_ok assms(2) by (fastforce simp: entry_ok_def)
qed

lemma unmarked_marked [simp]: "unmarked (marked_at request k) = unmarked request"
  by (simp add: unmarked_def marked_at_def)

lemma listing_entries_next:
  assumes "n < length (listing_entries us request)"
  shows "listing_entries us (marked_at request (fst (listing_entries us request ! n)))
    = drop (Suc n) (listing_entries us request)"
proof -
  let ?all = "listing_entries us (unmarked request)"
  let ?es = "listing_entries us request"
  let ?k = "fst (?es ! n)"
  have es: "?es = filter (\<lambda>x. key_after request (fst x)) ?all" by (rule listing_entries_filter)
  have mem: "?es ! n \<in> set ?es" using assms by (rule nth_mem)
  then have k: "key_after request ?k" "?es ! n \<in> set ?all" by (subst (asm) (2) es, simp)+
  have "key_after (marked_at request ?k) (fst x) \<longleftrightarrow> key_after request (fst x) \<and> ?k < fst x"
    if "x \<in> set ?all" for x
  proof -
    have "snd (fst x) = None" if "snd ?k = None" "fst (fst x) = fst ?k"
      using prefix_entry_alone [of "fst ?k" "snd (?es ! n)" us "unmarked request" "snd (fst x)" "snd x"]
        k(2) \<open>x \<in> set ?all\<close> that by (metis prod.collapse)
    then have "key_after (marked_at request ?k) (fst x) \<longleftrightarrow> ?k < fst x"
      by (rule key_after_marked)
    then show ?thesis using key_after_upward [OF k(1)] by blast
  qed
  then have "filter (\<lambda>x. key_after (marked_at request ?k) (fst x)) ?all
      = filter (\<lambda>x. ?k < fst x) (filter (\<lambda>x. key_after request (fst x)) ?all)"
    by (simp add: filter_filter conj_commute cong: filter_cong)
  then have "listing_entries us (marked_at request ?k) = filter (\<lambda>x. ?k < fst x) ?es"
    using listing_entries_filter [of us "marked_at request ?k"] es by simp
  then show ?thesis using bt_wf_drop_filter [OF bt_wf_listing_entries assms] by simp
qed

section \<open>Following the markers\<close>

text \<open>The request a client sends next, and a client that keeps asking.\<close>

definition next_request ::
  "list_multipart_uploads_page \<Rightarrow> list_multipart_uploads_request \<Rightarrow> list_multipart_uploads_request option" where
  "next_request page request =
     (if lp_is_truncated page
      then Some (request\<lparr>lr_key_marker := lp_next_key_marker page,
                         lr_upload_id_marker := lp_next_upload_id_marker page\<rparr>)
      else None)"

fun list_all_uploads ::
  "nat \<Rightarrow> multipart_upload list \<Rightarrow> list_multipart_uploads_request
     \<Rightarrow> (multipart_upload list \<times> string list) option" where
  "list_all_uploads 0 uploads request = None"
| "list_all_uploads (Suc fuel) uploads request =
     (case paginate_multipart_uploads uploads request of
        Inl _ \<Rightarrow> None
      | Inr page \<Rightarrow>
          (case next_request page request of
             None \<Rightarrow> Some (lp_uploads page, lp_common_prefixes page)
           | Some request' \<Rightarrow>
               map_option (\<lambda>(us, ps). (lp_uploads page @ us, lp_common_prefixes page @ ps))
                 (list_all_uploads fuel uploads request')))"

definition listing_ok :: "list_multipart_uploads_request \<Rightarrow> bool" where
  "listing_ok request \<longleftrightarrow> \<not> listing_rejected request \<and> 0 < lr_max_uploads request"

definition listing_page ::
  "multipart_upload list \<Rightarrow> list_multipart_uploads_request
     \<Rightarrow> multipart_listing_entry list \<times> list_multipart_uploads_request option" where
  "listing_page uploads request =
     (take (lr_max_uploads request) (map snd (listing_entries uploads request)),
      case paginate_multipart_uploads uploads request of
        Inl _ \<Rightarrow> None | Inr page \<Rightarrow> next_request page request)"

lemma paginate_ok:
  fixes uploads :: "multipart_upload list"
  assumes "listing_ok request"
  defines "es \<equiv> listing_entries uploads request" and "n \<equiv> lr_max_uploads request"
  shows "\<exists>page. paginate_multipart_uploads uploads request = Inr page
    \<and> lp_uploads page = List.map_filter entry_upload (take n (map snd es))
    \<and> lp_common_prefixes page = List.map_filter entry_prefix (take n (map snd es))
    \<and> next_request page request =
        (if n < length es then Some (marked_at request (fst (es ! (n - 1)))) else None)"
proof -
  have n: "0 < n" "\<not> listing_rejected request" using assms by (auto simp: listing_ok_def)
  have last: "last (take n es) = es ! (n - 1)" "take n es \<noteq> []" if "n < length es"
  proof -
    show nonempty: "take n es \<noteq> []" using that n(1) by auto
    show "last (take n es) = es ! (n - 1)"
      using that n(1) by (simp add: last_conv_nth [OF nonempty])
  qed
  have filter_snd: "List.map_filter (\<lambda>(k, e). f e) xs = List.map_filter f (map snd xs)"
    for f :: "multipart_listing_entry \<Rightarrow> 'x option" and xs :: "(listing_key \<times> multipart_listing_entry) list"
    by (induction xs) (auto simp: List.map_filter_simps split: option.splits)
  show ?thesis
    using n last
    by (auto simp: paginate_multipart_uploads_def Let_def next_request_def marked_at_def filter_snd take_map
          es_def [symmetric] n_def [symmetric])
qed

interpretation mul: cursor_listing
  "\<lambda>request. map snd (listing_entries uploads request)" "listing_page uploads" lr_max_uploads listing_ok
  for uploads
proof
  fix c c' assume ok: "listing_ok c"
  show "0 < lr_max_uploads c" using ok by (simp add: listing_ok_def)
  show "fst (listing_page uploads c) = take (lr_max_uploads c) (map snd (listing_entries uploads c))"
    by (simp add: listing_page_def)
  from paginate_ok [OF ok, of uploads] obtain page where
      page: "paginate_multipart_uploads uploads c = Inr page"
      "next_request page c = (if lr_max_uploads c < length (listing_entries uploads c)
         then Some (marked_at c (fst (listing_entries uploads c ! (lr_max_uploads c - 1)))) else None)"
    by blast
  show "snd (listing_page uploads c) = None \<longleftrightarrow>
      length (map snd (listing_entries uploads c)) \<le> lr_max_uploads c"
    by (simp add: listing_page_def page)
  assume "snd (listing_page uploads c) = Some c'"
  then have more: "lr_max_uploads c < length (listing_entries uploads c)"
      and c': "c' = marked_at c (fst (listing_entries uploads c ! (lr_max_uploads c - 1)))"
    by (auto simp: listing_page_def page split: if_splits)
  have "listing_entries uploads c' = drop (lr_max_uploads c) (listing_entries uploads c)"
    using listing_entries_next [of "lr_max_uploads c - 1" uploads c] more ok c'
    by (simp add: listing_ok_def)
  moreover have "listing_ok c'" "lr_max_uploads c' = lr_max_uploads c"
    using ok by (auto simp: c' listing_ok_def listing_rejected_def marked_at_def)
  ultimately show "listing_ok c' \<and> lr_max_uploads c' = lr_max_uploads c
      \<and> map snd (listing_entries uploads c') = drop (lr_max_uploads c) (map snd (listing_entries uploads c))"
    by (simp add: drop_map)
qed

lemma map_filter_append: "List.map_filter f (xs @ ys) = List.map_filter f xs @ List.map_filter f ys"
  by (induction xs) (auto simp: List.map_filter_simps split: option.splits)

lemma list_all_collect:
  "listing_ok request \<Longrightarrow> list_all_uploads fuel uploads request =
     map_option (\<lambda>es. (List.map_filter entry_upload es, List.map_filter entry_prefix es))
       (collect (listing_page uploads) fuel request)"
proof (induction fuel arbitrary: request)
  case (Suc fuel)
  from paginate_ok [OF Suc.prems, of uploads] obtain page where
      page: "paginate_multipart_uploads uploads request = Inr page"
      "lp_uploads page = List.map_filter entry_upload (fst (listing_page uploads request))"
      "lp_common_prefixes page = List.map_filter entry_prefix (fst (listing_page uploads request))"
      "snd (listing_page uploads request) = next_request page request"
    by (auto simp: listing_page_def)
  show ?case
  proof (cases "next_request page request")
    case None
    then show ?thesis using page by (cases "listing_page uploads request") simp
  next
    case (Some request')
    then have "listing_ok request'"
      using mul.page_next [OF Suc.prems, of uploads] page(4) by simp
    from Suc.IH [OF this] Some page show ?thesis
      by (cases "listing_page uploads request")
         (auto simp: option.map_comp o_def map_filter_append intro!: map_option_cong)
  qed
qed simp

section \<open>Completeness of a traversal\<close>

lemma length_bt_insert: "length (bt_insert k v m) \<le> Suc (length m)"
  by (induction m rule: bt_insert.induct) auto

lemma length_bt_or_insert: "length (bt_or_insert k v m) \<le> Suc (length m)"
  by (induction m rule: bt_or_insert.induct) auto

lemma length_add_entry: "length (add_listing_entry request m u) \<le> Suc (length m)"
  using length_bt_insert length_bt_or_insert
  by (auto simp: add_listing_entry_def Let_def split: option.splits intro: le_SucI)

lemma length_fold_entries: "length (foldl (add_listing_entry request) m us) \<le> length m + length us"
proof (induction us arbitrary: m)
  case (Cons u us)
  from Cons.IH [of "add_listing_entry request m u"] length_add_entry [of request m u] show ?case by simp
qed simp

lemma length_listing_entries: "length (listing_entries us request) \<le> length us"
  using length_fold_entries [of request "[]"] by (simp add: listing_entries_def) (metis length_sort)

lemma sorted_map_filter:
  assumes "bt_wf m" "\<And>x y. x \<in> set m \<Longrightarrow> f (snd x) = Some y \<Longrightarrow> h y = fst x"
  shows "sorted_wrt (\<lambda>a b. h a < h b) (List.map_filter f (map snd m))"
  using assms
proof (induction m)
  case (Cons x m)
  have mem: "\<exists>y' \<in> set m. f (snd y') = Some y" if "y \<in> set (List.map_filter f (map snd m))" for y
    using that by (force simp: List.map_filter_def)
  obtain k v where x: "x = (k, v)" by (cases x)
  with Cons.prems(1) have above: "\<forall>y \<in> set m. k < fst y" "bt_wf m" by (simp_all add: bt_wf_Cons)
  have IH: "sorted_wrt (\<lambda>a b. h a < h b) (List.map_filter f (map snd m))"
    using Cons.IH above(2) Cons.prems(2) by simp
  show ?case
  proof (cases "f v")
    case None
    with IH x show ?thesis by (simp add: List.map_filter_simps)
  next
    case (Some z)
    have "h z = k" using Cons.prems(2) [of x z] x Some by simp
    moreover have "h y \<in> fst ` set m" if "y \<in> set (List.map_filter f (map snd m))" for y
      using mem [OF that] Cons.prems(2) by force
    ultimately have "\<forall>y \<in> set (List.map_filter f (map snd m)). h z < h y"
      using above(1) by fastforce
    with IH x Some show ?thesis by (simp add: List.map_filter_simps)
  qed
qed (simp add: List.map_filter_simps)

lemma set_map_filter: "set (List.map_filter f xs) = {y. \<exists>x \<in> set xs. f x = Some y}"
  by (induction xs) (auto simp: List.map_filter_simps split: option.splits)

lemma listed_uploads_set:
  assumes "distinct (map upload_coordinate us)"
  shows "set (List.map_filter entry_upload (map snd (listing_entries us request)))
    = {u \<in> set us. listed request u \<and> grouped_prefix request (id_key (up_identity u)) = None}"
    (is "?left = ?right")
proof
  show "?left \<subseteq> ?right"
  proof
    fix u assume "u \<in> ?left"
    then obtain x where x: "x \<in> set (listing_entries us request)" "entry_upload (snd x) = Some u"
      by (auto simp: set_map_filter)
    then have entry: "snd x = Upload u" by (cases "snd x") auto
    with listing_entries_member [OF x(1)] show "u \<in> ?right"
      by (cases x) (auto simp: entry_ok_def listed_def listed_key_def)
  qed
  show "?right \<subseteq> ?left"
  proof
    fix u assume u: "u \<in> ?right"
    then have "(listed_key request u, listed_entry request u) \<in> set (listing_entries us request)"
      by (intro listing_entries_mem [OF assms]) auto
    moreover have "entry_upload (listed_entry request u) = Some u" using u by (simp add: listed_entry_def)
    ultimately show "u \<in> ?left" by (force simp: set_map_filter)
  qed
qed

lemma listed_prefixes_set:
  assumes "distinct (map upload_coordinate us)"
  shows "set (List.map_filter entry_prefix (map snd (listing_entries us request)))
    = {p. \<exists>u \<in> set us. listed request u \<and> grouped_prefix request (id_key (up_identity u)) = Some p}"
    (is "?left = ?right")
proof
  show "?left \<subseteq> ?right"
  proof
    fix p assume "p \<in> ?left"
    then obtain x where x: "x \<in> set (listing_entries us request)" "entry_prefix (snd x) = Some p"
      by (auto simp: set_map_filter)
    then have entry: "snd x = CommonPrefix p" by (cases "snd x") auto
    with listing_entries_member [OF x(1)] show "p \<in> ?right"
      by (cases x) (auto simp: entry_ok_def listed_def listed_key_def split: option.splits)
  qed
  show "?right \<subseteq> ?left"
  proof
    fix p assume "p \<in> ?right"
    then obtain u where u: "u \<in> set us" "listed request u"
        "grouped_prefix request (id_key (up_identity u)) = Some p" by auto
    then have "(listed_key request u, listed_entry request u) \<in> set (listing_entries us request)"
      by (intro listing_entries_mem [OF assms]) auto
    moreover have "entry_prefix (listed_entry request u) = Some p" using u by (simp add: listed_entry_def)
    ultimately show "p \<in> ?left" by (force simp: set_map_filter)
  qed
qed

lemma listed_uploads_sorted:
  "sorted_wrt (<) (map upload_coordinate (List.map_filter entry_upload (map snd (listing_entries us request))))"
proof -
  let ?h = "\<lambda>u. (id_key (up_identity u), Some (id_upload_id (up_identity u)))"
  have "sorted_wrt (\<lambda>a b. ?h a < ?h b) (List.map_filter entry_upload (map snd (listing_entries us request)))"
  proof (rule sorted_map_filter [OF bt_wf_listing_entries])
    fix x u assume "x \<in> set (listing_entries us request)" "entry_upload (snd x) = Some u"
    moreover from this(2) have "snd x = Upload u" by (cases "snd x") auto
    ultimately show "?h u = fst x"
      using listing_entries_ok [of us request] by (cases x) (auto simp: entry_ok_def)
  qed
  then show ?thesis by (simp add: sorted_wrt_map)
qed

lemma listed_prefixes_sorted:
  "sorted_wrt (<) (List.map_filter entry_prefix (map snd (listing_entries us request)))"
proof -
  let ?h = "\<lambda>p. (p, None) :: listing_key"
  have "sorted_wrt (\<lambda>a b. ?h a < ?h b) (List.map_filter entry_prefix (map snd (listing_entries us request)))"
  proof (rule sorted_map_filter [OF bt_wf_listing_entries])
    fix x p assume "x \<in> set (listing_entries us request)" "entry_prefix (snd x) = Some p"
    moreover from this(2) have "snd x = CommonPrefix p" by (cases "snd x") auto
    ultimately show "?h p = fst x"
      using listing_entries_ok [of us request] by (cases x) (auto simp: entry_ok_def)
  qed
  then show ?thesis by simp
qed

section \<open>Properties\<close>

text \<open>
  C20: Listing is complete. A client that starts with any valid request and
  follows the returned markers finishes within one more page than there are
  uploads, and has then received, each exactly once and in key order, every
  upload after the starting marker that has the prefix and is not grouped, and
  every common prefix of those that are.
\<close>

theorem listing_traversal_complete:
  assumes "listing_ok request" "distinct (map upload_coordinate uploads)" "length uploads < fuel"
  shows "\<exists>us ps. list_all_uploads fuel uploads request = Some (us, ps)
    \<and> set us = {u \<in> set uploads. listed request u \<and> grouped_prefix request (id_key (up_identity u)) = None}
    \<and> set ps = {p. \<exists>u \<in> set uploads. listed request u
                     \<and> grouped_prefix request (id_key (up_identity u)) = Some p}
    \<and> sorted_wrt (<) (map upload_coordinate us) \<and> sorted_wrt (<) ps"
proof -
  have "length (map snd (listing_entries uploads request)) < fuel"
    using length_listing_entries [of uploads request] assms(3) by simp
  then have "collect (listing_page uploads) fuel request = Some (map snd (listing_entries uploads request))"
    by (rule mul.collect_within_length [OF assms(1)])
  then show ?thesis
    using list_all_collect [OF assms(1), of fuel uploads] listed_uploads_set [OF assms(2), of request]
      listed_prefixes_set [OF assms(2), of request] listed_uploads_sorted [of uploads request]
      listed_prefixes_sorted [of uploads request]
    by simp
qed

definition ex_listed :: "string \<Rightarrow> string \<Rightarrow> multipart_upload" where
  "ex_listed key upload_id =
     \<lparr>up_identity = \<lparr>id_tenant_id = ''t'', id_credential_policy_id = ''p'', id_bucket = ''b'',
        id_key = key, id_upload_id = upload_id\<rparr>,
      up_namespace_epoch = None,
      up_snapshot = \<lparr>ms_metadata = [], ms_tags = [], ms_checksum_mode = None, ms_destination = JNull,
        ms_plugin_snapshot = JNull, ms_max_staged_bytes = 100, ms_verified_policy = None\<rparr>,
      up_lifecycle = Open, up_staged_bytes = 0, up_reserved_bytes = 0, up_created_at_ms = 0,
      up_expires_at_ms = 1000, up_updated_at_ms = 0, up_tombstone_until_ms = None,
      up_complete_request_fingerprint = None, up_completion_lease_owner = None,
      up_completion_lease_expires_at_ms = None, up_completion_fencing_token = 0,
      up_destination_operation_id = None, up_publishing_started_at_ms = None,
      up_destination_commit = None, up_completion_result = None\<rparr>"

definition ex_listing_request :: list_multipart_uploads_request where
  "ex_listing_request =
     \<lparr>lr_tenant_id = ''t'', lr_credential_policy_id = ''p'', lr_bucket = ''b'', lr_prefix = [],
      lr_delimiter = Some ''/'', lr_key_marker = None, lr_upload_id_marker = None, lr_max_uploads = 1\<rparr>"

theorem listing_traversal_complete_witness:
  "\<exists>us ps. list_all_uploads 4 [ex_listed ''a/x'' ''1'', ex_listed ''b'' ''2'', ex_listed ''a/y'' ''3'']
       ex_listing_request = Some (us, ps) \<and> sorted_wrt (<) ps"
  using listing_traversal_complete
    [of ex_listing_request "[ex_listed ''a/x'' ''1'', ex_listed ''b'' ''2'', ex_listed ''a/y'' ''3'']" 4]
  by (simp add: listing_ok_def listing_rejected_def ex_listing_request_def ex_listed_def
        MAX_MULTIPART_UPLOADS_PAGE_def) blast

end
