(* ===== verification/Multipart_Memory.thy ===== *)
theory Multipart_Memory
  imports Multipart_Listing
begin

text \<open>
  The in-memory multipart repository
  (\<open>crates/gateway/src/multipart_staging/memory.rs\<close>), one definition per method
  of the \<open>MultipartRepository\<close> trait. Every operation returns the state after
  the call together with its result, so what an early return leaves behind is
  visible. The wall clock \<open>now_ms()\<close> and the fresh UUID of an artifact key are
  arguments; sums the source computes with unchecked operators wrap.
\<close>

section \<open>State\<close>

record memory_attempt =
  ma_part :: multipart_part
  ma_reserved_bytes :: u64
  ma_lifecycle :: string

record memory_state =
  mm_uploads :: "(string, multipart_upload) hash_map"
  mm_parts :: "(string \<times> u32, multipart_part) hash_map"
  mm_attempts :: "(string, memory_attempt) hash_map"
  mm_audits :: "cleanup_audit list"
  mm_pending :: "(string, pending_part) hash_map"

definition memory_state_default :: memory_state where
  "memory_state_default =
     \<lparr>mm_uploads = [], mm_parts = [], mm_attempts = [], mm_audits = [], mm_pending = []\<rparr>"

type_synonym 'a staged = "memory_state \<times> (staging_error + 'a)"

text \<open>\<open>get(&id).filter(same_identity).ok_or(NotFound)\<close>, as most methods start.\<close>

definition authorized_upload :: "memory_state \<Rightarrow> multipart_identity \<Rightarrow> staging_error + multipart_upload" where
  "authorized_upload state identity =
     (case hm_get (mm_uploads state) (id_upload_id identity) of
        None \<Rightarrow> Inl NotFound
      | Some upload \<Rightarrow> if same_identity upload identity then Inr upload else Inl NotFound)"

definition put_upload :: "string \<Rightarrow> multipart_upload \<Rightarrow> memory_state \<Rightarrow> memory_state" where
  "put_upload upload_id upload state = state\<lparr>mm_uploads := hm_insert upload_id upload (mm_uploads state)\<rparr>"

definition ended :: "multipart_lifecycle \<Rightarrow> bool" where
  "ended lifecycle \<longleftrightarrow> lifecycle = Completed \<or> lifecycle = Aborted \<or> lifecycle = Expired"

section \<open>Uploads and listing\<close>

definition create :: "multipart_upload \<Rightarrow> memory_state \<Rightarrow> unit staged" where
  "create upload state =
     (let active = length (filter (\<lambda>candidate.
            id_tenant_id (up_identity candidate) = id_tenant_id (up_identity upload)
            \<and> up_lifecycle candidate = Open) (hm_values (mm_uploads state)))
      in if active \<ge> MAX_ACTIVE_UPLOADS then (state, Inl QuotaExceeded)
      else
        let upload_id = id_upload_id (up_identity upload);
            replaced = hm_get (mm_uploads state) upload_id;
            state' = put_upload upload_id upload state
        in if replaced \<noteq> None then (state', Inl (Persistence ''duplicate upload id''))
           else (state', Inr ()))"

definition get_authorized :: "multipart_identity \<Rightarrow> memory_state \<Rightarrow> multipart_upload staged" where
  "get_authorized identity state = (state, authorized_upload state identity)"

definition list_authorized_uploads ::
  "list_multipart_uploads_request \<Rightarrow> memory_state \<Rightarrow> list_multipart_uploads_page staged" where
  "list_authorized_uploads request state =
     (state,
      paginate_multipart_uploads
        (filter (\<lambda>upload.
            id_tenant_id (up_identity upload) = lr_tenant_id request
            \<and> id_credential_policy_id (up_identity upload) = lr_credential_policy_id request
            \<and> id_bucket (up_identity upload) = lr_bucket request
            \<and> up_lifecycle upload \<in> {Open, Completing, Publishing})
          (hm_values (mm_uploads state)))
        request)"

section \<open>Parts\<close>

definition replace_part ::
  "multipart_identity \<Rightarrow> multipart_part \<Rightarrow> i64 \<Rightarrow> memory_state \<Rightarrow> multipart_part option staged" where
  "replace_part identity part clock state =
     (if mp_part_number part = 0 \<or> mp_part_number part > MAX_PARTS then (state, Inl InvalidPart)
      else
        let previous = hm_get (mm_parts state) (id_upload_id identity, mp_part_number part)
        in case authorized_upload state identity of
          Inl e \<Rightarrow> (state, Inl e)
        | Inr upload \<Rightarrow>
            if up_lifecycle upload \<noteq> Open then (state, Inl NotOpen)
            else
              let nxt = saturating_add
                    (saturating_sub (up_staged_bytes upload)
                       (case previous of None \<Rightarrow> 0 | Some value \<Rightarrow> mp_size_bytes value))
                    (mp_size_bytes part)
              in if nxt > ms_max_staged_bytes (up_snapshot upload) then (state, Inl QuotaExceeded)
                 else if (case previous of None \<Rightarrow> False | Some value \<Rightarrow> mp_attempt part \<le> mp_attempt value)
                 then (state, Inl (Persistence ''stale part replacement''))
                 else
                   let upload' = upload\<lparr>up_staged_bytes := nxt, up_updated_at_ms := clock\<rparr>;
                       state' = put_upload (id_upload_id identity) upload' state
                   in (state'\<lparr>mm_parts :=
                         hm_insert (id_upload_id identity, mp_part_number part) part (mm_parts state')\<rparr>,
                       Inr previous))"

definition part_artifact_key :: "multipart_identity \<Rightarrow> u32 \<Rightarrow> string \<Rightarrow> string" where
  "part_artifact_key identity part_number artifact_uuid =
     ARTIFACT_PREFIX @ id_tenant_id identity @ ''/'' @ id_upload_id identity @ ''/''
       @ decimal_nat (unat part_number) @ ''/'' @ artifact_uuid"

text \<open>
  The fold over all uploads in \<open>begin_part\<close>: the tenant's sum is computed with an
  unchecked \<open>+\<close>, the global one saturates.
\<close>

definition quota_fold :: "string \<Rightarrow> u64 \<times> u64 \<Rightarrow> multipart_upload \<Rightarrow> u64 \<times> u64" where
  "quota_fold tenant_id acc candidate =
     (let used = saturating_add (up_staged_bytes candidate) (up_reserved_bytes candidate)
      in (fst acc + (if id_tenant_id (up_identity candidate) = tenant_id then used else 0),
          saturating_add (snd acc) used))"

definition next_attempt :: "memory_state \<Rightarrow> string \<Rightarrow> u32 \<Rightarrow> u32 option" where
  "next_attempt state upload_id part_number =
     checked_add
       (fold max
          (map (\<lambda>value. mp_attempt (ma_part value))
             (filter (\<lambda>value. mp_upload_id (ma_part value) = upload_id
                         \<and> mp_part_number (ma_part value) = part_number)
               (hm_values (mm_attempts state))))
          0)
       1"

definition begin_part ::
  "staging_quota_limits \<Rightarrow> multipart_identity \<Rightarrow> u32 \<Rightarrow> u64 \<Rightarrow> i64 \<Rightarrow> string
     \<Rightarrow> memory_state \<Rightarrow> pending_part staged" where
  "begin_part quotas identity part_number reserved_bytes now artifact_uuid state =
     (if part_number = 0 \<or> part_number > MAX_PARTS then (state, Inl InvalidPart)
      else case authorized_upload state identity of
        Inl e \<Rightarrow> (state, Inl e)
      | Inr upload \<Rightarrow>
        if up_lifecycle upload \<noteq> Open \<or> up_expires_at_ms upload \<le> now then (state, Inl NotOpen)
        else case Option.bind (checked_add (up_staged_bytes upload) (up_reserved_bytes upload))
               (\<lambda>used. checked_add used reserved_bytes) of
          None \<Rightarrow> (state, Inl QuotaExceeded)
        | Some wanted \<Rightarrow>
          if wanted > ms_max_staged_bytes (up_snapshot upload) then (state, Inl QuotaExceeded)
          else
            let (tenant_used, global_used) =
                  foldl (quota_fold (id_tenant_id identity)) (0, 0) (hm_values (mm_uploads state))
            in case checked_add tenant_used reserved_bytes of
              None \<Rightarrow> (state, Inl QuotaExceeded)
            | Some tenant_wanted \<Rightarrow>
              if tenant_wanted > ql_tenant_bytes quotas then (state, Inl QuotaExceeded)
              else case checked_add global_used reserved_bytes of
                None \<Rightarrow> (state, Inl QuotaExceeded)
              | Some global_wanted \<Rightarrow>
                if global_wanted > ql_global_bytes quotas then (state, Inl QuotaExceeded)
                else case next_attempt state (id_upload_id identity) part_number of
                  None \<Rightarrow> (state, Inl InvalidPart)
                | Some attempt \<Rightarrow>
                  let artifact_key = part_artifact_key identity part_number artifact_uuid;
                      pending = \<lparr>pp_upload_id = id_upload_id identity, pp_part_number = part_number,
                        pp_attempt = attempt, pp_artifact_key = artifact_key,
                        pp_reserved_bytes = reserved_bytes\<rparr>;
                      upload' = upload\<lparr>up_reserved_bytes := up_reserved_bytes upload + reserved_bytes,
                                       up_updated_at_ms := now\<rparr>;
                      part = \<lparr>mp_upload_id = id_upload_id identity, mp_part_number = part_number,
                        mp_attempt = attempt, mp_artifact_key = artifact_key, mp_etag = [],
                        mp_checksum_sha256 = [], mp_size_bytes = 0, mp_created_at_ms = now\<rparr>;
                      state' = put_upload (id_upload_id identity) upload' state
                  in (state'\<lparr>mm_attempts := hm_insert artifact_key
                          \<lparr>ma_part = part, ma_reserved_bytes = reserved_bytes, ma_lifecycle = ''PENDING''\<rparr>
                          (mm_attempts state'),
                        mm_pending := hm_insert artifact_key pending (mm_pending state')\<rparr>,
                      Inr pending))"

definition retire_old_attempt :: "multipart_part option \<Rightarrow> memory_state \<Rightarrow> memory_state" where
  "retire_old_attempt previous state =
     (case previous of
        None \<Rightarrow> state
      | Some old \<Rightarrow>
          (case hm_get (mm_attempts state) (mp_artifact_key old) of
             None \<Rightarrow> state
           | Some old_attempt \<Rightarrow>
               state\<lparr>mm_attempts := hm_insert (mp_artifact_key old)
                 (old_attempt\<lparr>ma_lifecycle := ''RETIRED''\<rparr>) (mm_attempts state)\<rparr>))"

text \<open>The tail of \<open>commit_part\<close>: the upload's counters move last, each with its own check.\<close>

definition settle_commit ::
  "string \<Rightarrow> multipart_upload \<Rightarrow> pending_part \<Rightarrow> multipart_part \<Rightarrow> i64 \<Rightarrow> memory_state
     \<Rightarrow> unit staged" where
  "settle_commit upload_id upload pending part clock state =
     (case checked_sub (up_reserved_bytes upload) (pp_reserved_bytes pending) of
        None \<Rightarrow> (state, Inl (Persistence ''multipart reservation missing''))
      | Some reserved \<Rightarrow>
          let upload = upload\<lparr>up_reserved_bytes := reserved\<rparr>;
              state = put_upload upload_id upload state
          in case checked_add (up_staged_bytes upload) (mp_size_bytes part) of
            None \<Rightarrow> (state, Inl QuotaExceeded)
          | Some staged \<Rightarrow>
              (put_upload upload_id
                 (upload\<lparr>up_staged_bytes := staged, up_updated_at_ms := clock\<rparr>) state, Inr ()))"

definition commit_part ::
  "multipart_identity \<Rightarrow> pending_part \<Rightarrow> multipart_part \<Rightarrow> i64 \<Rightarrow> memory_state
     \<Rightarrow> multipart_part list staged" where
  "commit_part identity pending part clock state =
     (if mp_upload_id part \<noteq> pp_upload_id pending
         \<or> mp_part_number part \<noteq> pp_part_number pending
         \<or> mp_attempt part \<noteq> pp_attempt pending
         \<or> mp_artifact_key part \<noteq> pp_artifact_key pending
         \<or> mp_size_bytes part > pp_reserved_bytes pending
      then (state, Inl InvalidPart)
      else case authorized_upload state identity of
        Inl e \<Rightarrow> (state, Inl e)
      | Inr upload \<Rightarrow>
        if up_lifecycle upload \<noteq> Open then (state, Inl NotOpen)
        else
          let previous = hm_get (mm_parts state) (id_upload_id identity, mp_part_number part);
              state = retire_old_attempt previous state
          in case hm_get (mm_attempts state) (pp_artifact_key pending) of
            None \<Rightarrow> (state, Inl NotFound)
          | Some attempt \<Rightarrow>
            if ma_lifecycle attempt \<noteq> ''PENDING'' \<or> ma_reserved_bytes attempt \<noteq> pp_reserved_bytes pending
            then (state, Inl NotFound)
            else
              let state = state\<lparr>
                    mm_attempts := hm_insert (pp_artifact_key pending)
                      \<lparr>ma_part = part, ma_reserved_bytes = 0, ma_lifecycle = ''CURRENT''\<rparr>
                      (mm_attempts state),
                    mm_pending := hm_remove (pp_artifact_key pending) (mm_pending state),
                    mm_parts := hm_insert (id_upload_id identity, mp_part_number part) part (mm_parts state)\<rparr>;
                  (state, outcome) = settle_commit (id_upload_id identity) upload pending part clock state
              in (state, and_then outcome (\<lambda>_. Inr (case previous of None \<Rightarrow> [] | Some old \<Rightarrow> [old]))))"

definition confirm_artifact_deleted :: "string \<Rightarrow> i64 \<Rightarrow> memory_state \<Rightarrow> unit staged" where
  "confirm_artifact_deleted artifact_key clock state =
     (case hm_get (mm_attempts state) artifact_key of
        None \<Rightarrow> (state, Inr ())
      | Some attempt \<Rightarrow>
          let state = state\<lparr>
                mm_attempts := hm_remove artifact_key (mm_attempts state),
                mm_pending := hm_remove artifact_key (mm_pending state),
                mm_parts := hm_retain (\<lambda>_ part. mp_artifact_key part \<noteq> artifact_key) (mm_parts state)\<rparr>;
              upload_id = mp_upload_id (ma_part attempt)
          in case hm_get (mm_uploads state) upload_id of
            None \<Rightarrow> (state, Inl (Persistence ''multipart upload disappeared''))
          | Some upload \<Rightarrow>
            if ma_lifecycle attempt = ''PENDING'' then
              (case checked_sub (up_reserved_bytes upload) (ma_reserved_bytes attempt) of
                 None \<Rightarrow> (state, Inl (Persistence ''multipart reservation underflow''))
               | Some reserved \<Rightarrow>
                   (put_upload upload_id
                      (upload\<lparr>up_reserved_bytes := reserved, up_updated_at_ms := clock\<rparr>) state, Inr ()))
            else
              (case checked_sub (up_staged_bytes upload) (mp_size_bytes (ma_part attempt)) of
                 None \<Rightarrow> (state, Inl (Persistence ''multipart staged bytes underflow''))
               | Some staged \<Rightarrow>
                   (put_upload upload_id
                      (upload\<lparr>up_staged_bytes := staged, up_updated_at_ms := clock\<rparr>) state, Inr ())))"

definition discard_pending ::
  "multipart_identity \<Rightarrow> pending_part \<Rightarrow> i64 \<Rightarrow> memory_state \<Rightarrow> unit staged" where
  "discard_pending identity pending clock state =
     confirm_artifact_deleted (pp_artifact_key pending) clock state"

definition cleanup_candidate_of ::
  "i64 \<Rightarrow> memory_state \<Rightarrow> string \<times> memory_attempt \<Rightarrow> cleanup_candidate option" where
  "cleanup_candidate_of now state entry =
     (case entry of (key, attempt) \<Rightarrow>
        case hm_get (mm_uploads state) (mp_upload_id (ma_part attempt)) of
          None \<Rightarrow> None
        | Some upload \<Rightarrow>
            let old_pending = (ma_lifecycle attempt = ''PENDING''
                  \<and> mp_created_at_ms (ma_part attempt)
                      \<le> i64_wrapping_add now (- RECONCILIATION_GRACE_MS))
            in if ended (up_lifecycle upload) \<or> ma_lifecycle attempt = ''RETIRED'' \<or> old_pending
               then Some \<lparr>cc_upload_id = mp_upload_id (ma_part attempt), cc_artifact_key = key\<rparr>
               else None)"

definition cleanup_candidates :: "i64 \<Rightarrow> nat \<Rightarrow> memory_state \<Rightarrow> cleanup_candidate list staged" where
  "cleanup_candidates now limit state =
     (state, Inr (take limit (List.map_filter (cleanup_candidate_of now state) (mm_attempts state))))"

definition known_artifact_keys :: "memory_state \<Rightarrow> (string, i64) hash_map staged" where
  "known_artifact_keys state =
     (state, Inr (map (\<lambda>(key, value). (key, mp_created_at_ms (ma_part value))) (mm_attempts state)))"

definition list_parts ::
  "multipart_identity \<Rightarrow> u32 \<Rightarrow> nat \<Rightarrow> memory_state \<Rightarrow> (multipart_part list \<times> bool) staged" where
  "list_parts identity marker limit state =
     (case authorized_upload state identity of
        Inl e \<Rightarrow> (state, Inl e)
      | Inr _ \<Rightarrow>
          let parts = sort_key mp_part_number
                (filter (\<lambda>part. mp_upload_id part = id_upload_id identity \<and> mp_part_number part > marker)
                  (hm_values (mm_parts state)))
          in (state, Inr (take limit parts, length parts > limit)))"

section \<open>Completion\<close>

definition acquire_completion ::
  "multipart_identity \<Rightarrow> string \<Rightarrow> complete_part list \<Rightarrow> string \<Rightarrow> i64 \<Rightarrow> i64 \<Rightarrow> memory_state
     \<Rightarrow> completion_acquire staged" where
  "acquire_completion identity fingerprint parts owner lease_expires_at_ms now state =
     (case authorized_upload state identity of
        Inl e \<Rightarrow> (state, Inl e)
      | Inr upload \<Rightarrow>
        if up_lifecycle upload = Completed then
          (case up_completion_result upload of
             None \<Rightarrow> (state, Inl (Persistence ''completed upload is missing its result''))
           | Some result \<Rightarrow>
               (state, if up_complete_request_fingerprint upload = Some fingerprint
                       then Inr (Replayed result) else Inl CompletionConflict))
        else if up_lifecycle upload = Publishing then
          (state, if up_complete_request_fingerprint upload = Some fingerprint
                  then Inr Busy else Inl CompletionConflict)
        else if up_lifecycle upload = Aborted \<or> up_lifecycle upload = Expired then (state, Inl NotOpen)
        else if up_lifecycle upload = Completing
                \<and> up_complete_request_fingerprint upload \<noteq> Some fingerprint
        then (state, Inl CompletionConflict)
        else if up_lifecycle upload = Completing
                \<and> (case up_completion_lease_expires_at_ms upload of
                     None \<Rightarrow> False | Some expires \<Rightarrow> expires > now)
        then (state, Inr Busy)
        else if up_lifecycle upload = Open \<and> up_expires_at_ms upload \<le> now then (state, Inl NotOpen)
        else
          let cleanup_parts = sort_key mp_part_number
                (filter (\<lambda>part. mp_upload_id part = id_upload_id identity) (hm_values (mm_parts state)))
          in case validate_selected_parts cleanup_parts parts of
            Inl e \<Rightarrow> (state, Inl e)
          | Inr selected_parts \<Rightarrow>
            (case checked_add (up_completion_fencing_token upload) 1 of
               None \<Rightarrow> (state, Inl (Persistence ''completion fencing token exhausted''))
             | Some fencing_token \<Rightarrow>
                 (put_upload (id_upload_id identity)
                    (upload\<lparr>up_lifecycle := Completing,
                            up_complete_request_fingerprint := Some fingerprint,
                            up_completion_lease_owner := Some owner,
                            up_completion_lease_expires_at_ms := Some lease_expires_at_ms,
                            up_completion_fencing_token := fencing_token,
                            up_updated_at_ms := now\<rparr>) state,
                  Inr (Acquired \<lparr>cl_fencing_token = fencing_token, cl_selected_parts = selected_parts,
                                 cl_cleanup_parts = cleanup_parts\<rparr>))))"

definition renew_completion ::
  "multipart_identity \<Rightarrow> u64 \<Rightarrow> i64 \<Rightarrow> i64 \<Rightarrow> memory_state \<Rightarrow> unit staged" where
  "renew_completion identity fencing_token lease_expires_at_ms clock state =
     (case authorized_upload state identity of
        Inl e \<Rightarrow> (state, Inl e)
      | Inr upload \<Rightarrow>
        if up_lifecycle upload \<noteq> Completing \<or> up_completion_fencing_token upload \<noteq> fencing_token
        then (state, Inl Fenced)
        else (put_upload (id_upload_id identity)
                (upload\<lparr>up_completion_lease_expires_at_ms := Some lease_expires_at_ms,
                        up_updated_at_ms := clock\<rparr>) state, Inr ()))"

definition check_completion_lease ::
  "multipart_identity \<Rightarrow> u64 \<Rightarrow> i64 \<Rightarrow> memory_state \<Rightarrow> unit staged" where
  "check_completion_lease identity fencing_token now state =
     (state,
      and_then (authorized_upload state identity) (\<lambda>upload.
      if up_lifecycle upload = Completing
         \<and> up_completion_fencing_token upload = fencing_token
         \<and> (case up_completion_lease_expires_at_ms upload of
              None \<Rightarrow> False | Some expires \<Rightarrow> expires > now)
      then Inr () else Inl Fenced))"

definition begin_destination_commit ::
  "(multipart_identity \<Rightarrow> string \<Rightarrow> uuid) \<Rightarrow> multipart_identity \<Rightarrow> string \<Rightarrow> u64 \<Rightarrow> uuid \<Rightarrow> i64
     \<Rightarrow> memory_state \<Rightarrow> destination_commit_permit staged" where
  "begin_destination_commit op_id identity fingerprint fencing_token operation_id now state =
     (if operation_id \<noteq> op_id identity fingerprint then (state, Inl Fenced)
      else case authorized_upload state identity of
        Inl e \<Rightarrow> (state, Inl e)
      | Inr upload \<Rightarrow>
        if up_lifecycle upload \<noteq> Completing
           \<or> up_complete_request_fingerprint upload \<noteq> Some fingerprint
           \<or> up_completion_fencing_token upload \<noteq> fencing_token
           \<or> (case up_completion_lease_expires_at_ms upload of
                None \<Rightarrow> True | Some expiry \<Rightarrow> expiry \<le> now)
        then (state, Inl Fenced)
        else (put_upload (id_upload_id identity)
                (upload\<lparr>up_lifecycle := Publishing,
                        up_destination_operation_id := Some operation_id,
                        up_publishing_started_at_ms := Some now,
                        up_destination_commit := None,
                        up_completion_lease_owner := None,
                        up_completion_lease_expires_at_ms := None,
                        up_updated_at_ms := now\<rparr>) state,
              Inr \<lparr>pm_upload_id = id_upload_id identity, pm_completion_fingerprint = fingerprint,
                   pm_fencing_token = fencing_token, pm_operation_id = operation_id\<rparr>))"

definition validate_destination_commit_permit ::
  "destination_commit_permit \<Rightarrow> memory_state \<Rightarrow> unit staged" where
  "validate_destination_commit_permit permit state =
     (state,
      case hm_get (mm_uploads state) (pm_upload_id permit) of
        None \<Rightarrow> Inl Fenced
      | Some upload \<Rightarrow> if permit_matches upload permit then Inr () else Inl Fenced)"

definition record_destination_commit ::
  "destination_commit_permit \<Rightarrow> multipart_completion_result \<Rightarrow> i64 \<Rightarrow> memory_state \<Rightarrow> unit staged" where
  "record_destination_commit permit result now state =
     (case hm_get (mm_uploads state) (pm_upload_id permit) of
        None \<Rightarrow> (state, Inl Fenced)
      | Some upload \<Rightarrow>
        if \<not> permit_matches upload permit then (state, Inl Fenced)
        else
          let commit = \<lparr>dc_operation_id = pm_operation_id permit, dc_result = result,
                        dc_committed_at_ms = now\<rparr>
          in case up_destination_commit upload of
            Some existing \<Rightarrow>
              (state, if dc_operation_id existing = dc_operation_id commit
                         \<and> dc_result existing = dc_result commit
                      then Inr () else Inl CompletionConflict)
          | None \<Rightarrow>
              (put_upload (pm_upload_id permit)
                 (upload\<lparr>up_destination_commit := Some commit, up_updated_at_ms := now\<rparr>) state,
               Inr ()))"

definition release_destination_commit_after_proven_absence ::
  "destination_commit_permit \<Rightarrow> i64 \<Rightarrow> memory_state \<Rightarrow> unit staged" where
  "release_destination_commit_after_proven_absence permit now state =
     (case hm_get (mm_uploads state) (pm_upload_id permit) of
        None \<Rightarrow> (state, Inl Fenced)
      | Some upload \<Rightarrow>
        if \<not> permit_matches upload permit \<or> up_destination_commit upload \<noteq> None
        then (state, Inl Fenced)
        else (put_upload (pm_upload_id permit)
                (upload\<lparr>up_lifecycle := Completing,
                        up_destination_operation_id := None,
                        up_publishing_started_at_ms := None,
                        up_completion_lease_owner := None,
                        up_completion_lease_expires_at_ms := Some now,
                        up_updated_at_ms := now\<rparr>) state, Inr ()))"

fun collect_results :: "('e + 'a) list \<Rightarrow> 'e + 'a list" where
  "collect_results [] = Inr []"
| "collect_results (r # rs) = and_then r (\<lambda>x. and_then (collect_results rs) (\<lambda>xs. Inr (x # xs)))"

definition publishing_uploads :: "nat \<Rightarrow> memory_state \<Rightarrow> publishing_multipart_upload list staged" where
  "publishing_uploads limit state =
     (state,
      collect_results (map publishing_upload (take limit
        (sort_key (\<lambda>upload.
            (case up_publishing_started_at_ms upload of None \<Rightarrow> i64_min | Some started \<Rightarrow> started,
             id_upload_id (up_identity upload)))
          (filter (\<lambda>upload. up_lifecycle upload = Publishing) (hm_values (mm_uploads state)))))))"

definition complete_completion ::
  "multipart_identity \<Rightarrow> destination_commit_permit \<Rightarrow> multipart_completion_result \<Rightarrow> i64
     \<Rightarrow> memory_state \<Rightarrow> unit staged" where
  "complete_completion identity permit result now state =
     (case authorized_upload state identity of
        Inl e \<Rightarrow> (state, Inl e)
      | Inr upload \<Rightarrow>
        if \<not> permit_matches upload permit
           \<or> map_option dc_result (up_destination_commit upload) \<noteq> Some result
        then (state, Inl Fenced)
        else (put_upload (id_upload_id identity)
                (upload\<lparr>up_lifecycle := Completed,
                        up_completion_result := Some result,
                        up_completion_lease_owner := None,
                        up_completion_lease_expires_at_ms := None,
                        up_tombstone_until_ms := Some (i64_wrapping_add now DEFAULT_EXPIRY_MS),
                        up_updated_at_ms := now\<rparr>) state, Inr ()))"

definition clear_destination_commit_reference ::
  "multipart_identity \<Rightarrow> uuid \<Rightarrow> memory_state \<Rightarrow> unit staged" where
  "clear_destination_commit_reference identity expected_operation_id state =
     (case authorized_upload state identity of
        Inl e \<Rightarrow> (state, Inl e)
      | Inr upload \<Rightarrow>
        if \<not> ended (up_lifecycle upload)
           \<or> up_destination_operation_id upload \<noteq> Some expected_operation_id
        then (state, Inl Fenced)
        else (put_upload (id_upload_id identity)
                (upload\<lparr>up_destination_operation_id := None,
                        up_destination_commit := None,
                        up_publishing_started_at_ms := None\<rparr>) state, Inr ()))"

section \<open>Abort, expiry and retirement\<close>

definition abort ::
  "multipart_identity \<Rightarrow> i64 \<Rightarrow> memory_state
     \<Rightarrow> memory_state \<times> (abort_mutation_error + multipart_part list)" where
  "abort identity now state =
     (case authorized_upload state identity of
        Inl e \<Rightarrow> (state, Inl (PreMutation NotFound))
      | Inr upload \<Rightarrow>
        if up_lifecycle upload \<noteq> Open then
          (state, if up_lifecycle upload = Aborted then Inr [] else Inl (PreMutation NotOpen))
        else
          let state' = put_upload (id_upload_id identity)
                (upload\<lparr>up_lifecycle := Aborted,
                        up_tombstone_until_ms := Some (i64_wrapping_add now DEFAULT_EXPIRY_MS),
                        up_updated_at_ms := now\<rparr>) state
          in (state'\<lparr>mm_parts :=
                hm_retain (\<lambda>key _. fst key \<noteq> id_upload_id identity) (mm_parts state')\<rparr>,
              Inr (map snd (filter (\<lambda>(key, _). fst key = id_upload_id identity) (mm_parts state')))))"

definition artifacts_remain :: "memory_state \<Rightarrow> string \<Rightarrow> bool" where
  "artifacts_remain state upload_id \<longleftrightarrow>
     (\<exists>attempt \<in> set (hm_values (mm_attempts state)). mp_upload_id (ma_part attempt) = upload_id)
     \<or> (\<exists>part \<in> set (hm_values (mm_parts state)). mp_upload_id part = upload_id)
     \<or> (\<exists>pending \<in> set (hm_values (mm_pending state)). pp_upload_id pending = upload_id)"

definition delete_terminal_upload :: "multipart_identity \<Rightarrow> memory_state \<Rightarrow> unit staged" where
  "delete_terminal_upload identity state =
     (case authorized_upload state identity of
        Inl e \<Rightarrow> (state, Inl e)
      | Inr upload \<Rightarrow>
        if \<not> (up_lifecycle upload = Aborted \<or> up_lifecycle upload = Expired)
           \<or> up_destination_operation_id upload \<noteq> None
           \<or> artifacts_remain state (id_upload_id identity)
        then (state, Inl (Persistence ''multipart artifacts remain after cleanup''))
        else (state\<lparr>mm_uploads := hm_remove (id_upload_id identity) (mm_uploads state)\<rparr>, Inr ()))"

definition tombstone_passed :: "i64 \<Rightarrow> multipart_upload \<Rightarrow> bool" where
  "tombstone_passed now upload \<longleftrightarrow>
     ended (up_lifecycle upload)
     \<and> (case up_tombstone_until_ms upload of None \<Rightarrow> False | Some until \<Rightarrow> until \<le> now)"

definition terminal_upload_candidates :: "i64 \<Rightarrow> nat \<Rightarrow> memory_state \<Rightarrow> multipart_identity list staged" where
  "terminal_upload_candidates now limit state =
     (state, Inr (map up_identity (take limit
        (sort_key (\<lambda>upload. (up_updated_at_ms upload, id_upload_id (up_identity upload)))
          (filter (tombstone_passed now) (hm_values (mm_uploads state)))))))"

text \<open>Removing the collected ids one by one; an id no longer there yields nothing.\<close>

fun remove_uploads :: "string list \<Rightarrow> memory_state \<Rightarrow> memory_state \<times> retired_multipart_upload list" where
  "remove_uploads [] state = (state, [])"
| "remove_uploads (upload_id # ids) state =
     (case hm_get (mm_uploads state) upload_id of
        None \<Rightarrow> remove_uploads ids state
      | Some upload \<Rightarrow>
          let (state', retired) = remove_uploads ids
                (state\<lparr>mm_uploads := hm_remove upload_id (mm_uploads state)\<rparr>)
          in (state',
              \<lparr>ru_upload_id = id_upload_id (up_identity upload),
               ru_tenant_id = id_tenant_id (up_identity upload),
               ru_namespace_epoch = up_namespace_epoch upload\<rparr> # retired))"

definition retire_terminal_uploads ::
  "i64 \<Rightarrow> nat \<Rightarrow> memory_state \<Rightarrow> retired_multipart_upload list staged" where
  "retire_terminal_uploads now limit state =
     (let ids = map (\<lambda>upload. id_upload_id (up_identity upload)) (take limit
            (filter (\<lambda>upload. tombstone_passed now upload
                \<and> \<not> artifacts_remain state (id_upload_id (up_identity upload))
                \<and> up_destination_operation_id upload = None)
              (hm_values (mm_uploads state))));
          (state', retired) = remove_uploads ids state
      in (state', Inr retired))"

text \<open>
  \<open>values_mut().filter(..).take(limit).map(..)\<close>: walking the uploads in iteration
  order, expiring due ones in place until \<open>limit\<close> of them are collected.
\<close>

fun expire_uploads ::
  "i64 \<Rightarrow> nat \<Rightarrow> (string, multipart_upload) hash_map
     \<Rightarrow> (string, multipart_upload) hash_map \<times> string list" where
  "expire_uploads now limit [] = ([], [])"
| "expire_uploads now limit ((key, upload) # rest) =
     (if 0 < limit \<and> up_lifecycle upload = Open \<and> up_expires_at_ms upload \<le> now
      then
        let (rest', ids) = expire_uploads now (limit - 1) rest
        in ((key, upload\<lparr>up_lifecycle := Expired,
                         up_tombstone_until_ms := Some (i64_wrapping_add now DEFAULT_EXPIRY_MS),
                         up_updated_at_ms := now\<rparr>) # rest',
            id_upload_id (up_identity upload) # ids)
      else
        let (rest', ids) = expire_uploads now limit rest in ((key, upload) # rest', ids))"

definition reap_expired :: "i64 \<Rightarrow> nat \<Rightarrow> memory_state \<Rightarrow> multipart_part list staged" where
  "reap_expired now limit state =
     (let (uploads, ids) = expire_uploads now limit (mm_uploads state)
      in (state\<lparr>mm_uploads := uploads,
                mm_parts := hm_retain (\<lambda>key _. fst key \<notin> set ids) (mm_parts state)\<rparr>,
          Inr (map snd (filter (\<lambda>(key, _). fst key \<in> set ids) (mm_parts state)))))"

definition audit :: "cleanup_audit \<Rightarrow> memory_state \<Rightarrow> unit staged" where
  "audit entry state = (state\<lparr>mm_audits := mm_audits state @ [entry]\<rparr>, Inr ())"

end
