(* ===== verification/Memory_Invariants.thy ===== *)
theory Memory_Invariants
  imports Multipart_Memory Upload_Lifecycle
begin

text \<open>
  The accounting invariant of the in-memory multipart repository: the byte
  counters of every upload are the sums over its recorded attempts, they stay
  within the per-upload, per-tenant and global limits, and every current part
  has its artifact on record. Each operation preserves it, and the repository
  seen as a state machine keeps it in every reachable state.
\<close>

section \<open>The accounting invariant\<close>

definition pending_bytes :: "string \<Rightarrow> memory_attempt \<Rightarrow> nat" where
  "pending_bytes i a =
     (if mp_upload_id (ma_part a) = i \<and> ma_lifecycle a = ''PENDING'' then unat (ma_reserved_bytes a) else 0)"

definition stored_bytes :: "string \<Rightarrow> memory_attempt \<Rightarrow> nat" where
  "stored_bytes i a =
     (if mp_upload_id (ma_part a) = i \<and> ma_lifecycle a \<noteq> ''PENDING''
      then unat (mp_size_bytes (ma_part a)) else 0)"

definition charged :: "multipart_upload \<Rightarrow> nat" where
  "charged u = unat (up_staged_bytes u) + unat (up_reserved_bytes u)"

definition tenant_charged :: "string \<Rightarrow> multipart_upload \<Rightarrow> nat" where
  "tenant_charged t u = (if id_tenant_id (up_identity u) = t then charged u else 0)"

definition tenant_open :: "string \<Rightarrow> multipart_upload \<Rightarrow> nat" where
  "tenant_open t u = (if id_tenant_id (up_identity u) = t \<and> up_lifecycle u = Open then 1 else 0)"

definition mem_wf :: "memory_state \<Rightarrow> bool" where
  "mem_wf s \<longleftrightarrow>
     hm_wf (mm_uploads s) \<and> hm_wf (mm_parts s) \<and> hm_wf (mm_attempts s) \<and> hm_wf (mm_pending s)
     \<and> (\<forall>i u. hm_get (mm_uploads s) i = Some u \<longrightarrow> id_upload_id (up_identity u) = i)"

definition mem_accounts :: "memory_state \<Rightarrow> bool" where
  "mem_accounts s \<longleftrightarrow>
     (\<forall>i u. hm_get (mm_uploads s) i = Some u \<longrightarrow>
        unat (up_reserved_bytes u) = hm_sum (pending_bytes i) (mm_attempts s)
        \<and> unat (up_staged_bytes u) = hm_sum (stored_bytes i) (mm_attempts s)
        \<and> charged u \<le> unat (ms_max_staged_bytes (up_snapshot u)))
     \<and> (\<forall>k a. hm_get (mm_attempts s) k = Some a \<longrightarrow> hm_get (mm_uploads s) (mp_upload_id (ma_part a)) \<noteq> None)"

definition mem_quotas :: "staging_quota_limits \<Rightarrow> memory_state \<Rightarrow> bool" where
  "mem_quotas q s \<longleftrightarrow>
     (\<forall>t. hm_sum (tenant_charged t) (mm_uploads s) \<le> unat (ql_tenant_bytes q))
     \<and> hm_sum charged (mm_uploads s) \<le> unat (ql_global_bytes q)
     \<and> (\<forall>t. hm_sum (tenant_open t) (mm_uploads s) \<le> MAX_ACTIVE_UPLOADS)"

definition mem_parts_ok :: "memory_state \<Rightarrow> bool" where
  "mem_parts_ok s \<longleftrightarrow>
     (\<forall>k p. hm_get (mm_parts s) k = Some p \<longrightarrow>
        (\<exists>a. hm_get (mm_attempts s) (mp_artifact_key p) = Some a \<and> ma_lifecycle a \<noteq> ''PENDING''))"

definition mem_inv :: "staging_quota_limits \<Rightarrow> memory_state \<Rightarrow> bool" where
  "mem_inv q s \<longleftrightarrow> mem_wf s \<and> mem_accounts s \<and> mem_quotas q s \<and> mem_parts_ok s"

lemma mem_inv_default: "mem_inv q memory_state_default"
  by (simp add: mem_inv_def mem_wf_def mem_accounts_def mem_quotas_def mem_parts_ok_def memory_state_default_def)

lemma put_upload_fields [simp]:
  "mm_uploads (put_upload i u s) = hm_insert i u (mm_uploads s)"
  "mm_parts (put_upload i u s) = mm_parts s"
  "mm_attempts (put_upload i u s) = mm_attempts s"
  "mm_pending (put_upload i u s) = mm_pending s"
  "mm_audits (put_upload i u s) = mm_audits s"
  by (simp_all add: put_upload_def)

lemma authorized_Inr:
  "authorized_upload s identity = Inr u \<longleftrightarrow>
     hm_get (mm_uploads s) (id_upload_id identity) = Some u \<and> up_identity u = identity"
  by (auto simp: authorized_upload_def split: option.splits)

lemma authorized_Inl: "authorized_upload s identity = Inl e \<Longrightarrow> e = NotFound"
  by (auto simp: authorized_upload_def split: option.splits if_splits)

text \<open>Changing anything of an upload but its identity, limits and byte counters.\<close>

lemma mem_inv_put_same:
  assumes inv: "mem_inv q s" and u: "hm_get (mm_uploads s) i = Some u"
    and same: "up_identity u' = up_identity u" "up_snapshot u' = up_snapshot u"
      "up_staged_bytes u' = up_staged_bytes u" "up_reserved_bytes u' = up_reserved_bytes u"
    and opened: "up_lifecycle u' = Open \<Longrightarrow> up_lifecycle u = Open"
  shows "mem_inv q (put_upload i u' s)"
proof -
  have charged: "charged u' = charged u" "tenant_charged t u' = tenant_charged t u"
      "tenant_open t u' \<le> tenant_open t u" for t
    using same opened by (auto simp: charged_def tenant_charged_def tenant_open_def)
  have "mem_wf (put_upload i u' s)"
    using inv u same by (auto simp: mem_inv_def mem_wf_def map_laws)
  moreover have "mem_accounts (put_upload i u' s)"
    using inv u same charged(1) by (auto simp: mem_inv_def mem_accounts_def map_laws)
  moreover have "mem_quotas q (put_upload i u' s)"
  proof -
    have "hm_sum (tenant_open t) (hm_insert i u' (mm_uploads s)) \<le> hm_sum (tenant_open t) (mm_uploads s)" for t
      by (rule hm_sum_insert_le [OF u charged(3)])
    moreover have "hm_sum (tenant_charged t) (hm_insert i u' (mm_uploads s)) = hm_sum (tenant_charged t) (mm_uploads s)" for t
      by (rule hm_sum_insert_same [OF u charged(2)])
    moreover have "hm_sum charged (hm_insert i u' (mm_uploads s)) = hm_sum charged (mm_uploads s)"
      by (rule hm_sum_insert_same [OF u charged(1)])
    ultimately show ?thesis
      using inv by (simp add: mem_inv_def mem_quotas_def) (meson order_trans)
  qed
  moreover have "mem_parts_ok (put_upload i u' s)"
    using inv by (simp add: mem_inv_def mem_parts_ok_def)
  ultimately show ?thesis by (simp add: mem_inv_def)
qed

lemma mem_inv_retain_parts:
  assumes "mem_inv q s" shows "mem_inv q (s\<lparr>mm_parts := hm_retain P (mm_parts s)\<rparr>)"
proof -
  have "hm_wf (mm_parts s)" using assms by (simp add: mem_inv_def mem_wf_def)
  then show ?thesis
    using assms
    by (auto simp: mem_inv_def mem_wf_def mem_accounts_def mem_quotas_def mem_parts_ok_def map_laws
          split: option.splits if_splits)
qed

section \<open>Operations on uploads alone\<close>

lemma acquire_completion_inv:
  assumes "mem_inv q s"
  shows "mem_inv q (fst (acquire_completion identity fp ps owner lease now s))"
  using assms
  by (auto simp: acquire_completion_def Let_def authorized_Inr
        split: sum.splits option.splits intro!: mem_inv_put_same [OF assms])

lemma renew_completion_inv:
  assumes "mem_inv q s" shows "mem_inv q (fst (renew_completion identity token lease clock s))"
  using assms
  by (auto simp: renew_completion_def authorized_Inr split: sum.splits intro!: mem_inv_put_same [OF assms])

lemma begin_destination_commit_inv:
  assumes "mem_inv q s"
  shows "mem_inv q (fst (begin_destination_commit op_id identity fp token op now s))"
  using assms
  by (auto simp: begin_destination_commit_def authorized_Inr
        split: sum.splits option.splits intro!: mem_inv_put_same [OF assms])

lemma record_destination_commit_inv:
  assumes "mem_inv q s" shows "mem_inv q (fst (record_destination_commit permit result now s))"
  using assms
  by (auto simp: record_destination_commit_def Let_def split: option.splits intro!: mem_inv_put_same [OF assms])

lemma release_destination_commit_inv:
  assumes "mem_inv q s"
  shows "mem_inv q (fst (release_destination_commit_after_proven_absence permit now s))"
  using assms
  by (auto simp: release_destination_commit_after_proven_absence_def
        split: option.splits intro!: mem_inv_put_same [OF assms])

lemma complete_completion_inv:
  assumes "mem_inv q s" shows "mem_inv q (fst (complete_completion identity permit result now s))"
  using assms
  by (auto simp: complete_completion_def authorized_Inr split: sum.splits intro!: mem_inv_put_same [OF assms])

lemma clear_reference_inv:
  assumes "mem_inv q s" shows "mem_inv q (fst (clear_destination_commit_reference identity op s))"
  using assms
  by (auto simp: clear_destination_commit_reference_def authorized_Inr
        split: sum.splits intro!: mem_inv_put_same [OF assms])

lemma abort_inv:
  assumes "mem_inv q s" shows "mem_inv q (fst (abort identity now s))"
proof (cases "authorized_upload s identity")
  case (Inr u)
  show ?thesis
  proof (cases "up_lifecycle u = Open")
    case True
    let ?s = "put_upload (id_upload_id identity)
                (u\<lparr>up_lifecycle := Aborted,
                   up_tombstone_until_ms := Some (i64_wrapping_add now DEFAULT_EXPIRY_MS),
                   up_updated_at_ms := now\<rparr>) s"
    have "mem_inv q ?s"
      using Inr by (intro mem_inv_put_same [OF assms]) (auto simp: authorized_Inr)
    from mem_inv_retain_parts [OF this] show ?thesis
      using Inr True by (simp add: abort_def Let_def)
  next
    case False
    with Inr assms show ?thesis by (simp add: abort_def)
  qed
qed (simp add: abort_def assms)

lemma audit_inv: "mem_inv q s \<Longrightarrow> mem_inv q (fst (audit a s))"
  by (simp add: audit_def mem_inv_def mem_wf_def mem_accounts_def mem_quotas_def mem_parts_ok_def)

lemma active_count:
  "length (filter (\<lambda>u. id_tenant_id (up_identity u) = t \<and> up_lifecycle u = Open) (hm_values m))
     = hm_sum (tenant_open t) m"
  by (induction m) (auto simp: hm_values_def tenant_open_def)

lemma create_inv:
  assumes inv: "mem_inv q s" and fresh: "hm_get (mm_uploads s) (id_upload_id (up_identity u)) = None"
    and zero: "up_staged_bytes u = 0" "up_reserved_bytes u = 0"
  shows "mem_inv q (fst (create u s))"
proof (cases "hm_sum (tenant_open (id_tenant_id (up_identity u))) (mm_uploads s) \<ge> MAX_ACTIVE_UPLOADS")
  case True
  then show ?thesis using inv by (simp add: create_def active_count)
next
  case False
  let ?i = "id_upload_id (up_identity u)"
  have none: "mp_upload_id (ma_part a) \<noteq> ?i" if "(k, a) \<in> set (mm_attempts s)" for k a
  proof -
    have "hm_get (mm_attempts s) k = Some a"
      using inv that by (intro hm_get_mem) (auto simp: mem_inv_def mem_wf_def)
    then have "hm_get (mm_uploads s) (mp_upload_id (ma_part a)) \<noteq> None"
      using inv unfolding mem_inv_def mem_accounts_def by blast
    with fresh show ?thesis by auto
  qed
  have sums: "hm_sum (pending_bytes ?i) (mm_attempts s) = 0" "hm_sum (stored_bytes ?i) (mm_attempts s) = 0"
    using none by (auto intro!: hm_sum_zero simp: pending_bytes_def stored_bytes_def)
  have charged0: "charged u = 0" using zero by (simp add: charged_def)
  have "mem_wf (put_upload ?i u s)"
    using inv by (auto simp: mem_inv_def mem_wf_def map_laws)
  moreover have "mem_accounts (put_upload ?i u s)"
    using inv sums zero charged0 by (auto simp: mem_inv_def mem_accounts_def map_laws)
  moreover have "mem_quotas q (put_upload ?i u s)"
    using inv False zero
    by (auto simp: mem_inv_def mem_quotas_def hm_sum_insert_fresh [OF fresh] tenant_charged_def charged_def
          tenant_open_def)
  moreover have "mem_parts_ok (put_upload ?i u s)" using inv by (simp add: mem_inv_def mem_parts_ok_def)
  ultimately show ?thesis using False fresh by (simp add: create_def active_count mem_inv_def Let_def)
qed

section \<open>Removing and expiring uploads\<close>

lemma mem_inv_remove_upload:
  assumes inv: "mem_inv q s" and gone: "\<not> artifacts_remain s i"
  shows "mem_inv q (s\<lparr>mm_uploads := hm_remove i (mm_uploads s)\<rparr>)"
proof -
  have wf: "hm_wf (mm_uploads s)" "hm_wf (mm_attempts s)" using inv by (auto simp: mem_inv_def mem_wf_def)
  have none: "mp_upload_id (ma_part a) \<noteq> i" if "hm_get (mm_attempts s) k = Some a" for k a
    using gone that hm_values_get [OF wf(2)] by (auto simp: artifacts_remain_def)
  have "mem_wf (s\<lparr>mm_uploads := hm_remove i (mm_uploads s)\<rparr>)"
    using inv by (auto simp: mem_inv_def mem_wf_def map_laws split: if_splits)
  moreover have "mem_accounts (s\<lparr>mm_uploads := hm_remove i (mm_uploads s)\<rparr>)"
    using inv none by (auto simp: mem_inv_def mem_accounts_def map_laws split: if_splits)
  moreover have "mem_quotas q (s\<lparr>mm_uploads := hm_remove i (mm_uploads s)\<rparr>)"
    using inv hm_sum_remove_le [OF wf(1)] by (simp add: mem_inv_def mem_quotas_def) (meson order_trans)
  moreover have "mem_parts_ok (s\<lparr>mm_uploads := hm_remove i (mm_uploads s)\<rparr>)"
    using inv by (simp add: mem_inv_def mem_parts_ok_def)
  ultimately show ?thesis by (simp add: mem_inv_def)
qed

lemma delete_terminal_upload_inv:
  assumes "mem_inv q s" shows "mem_inv q (fst (delete_terminal_upload identity s))"
  using assms mem_inv_remove_upload [OF assms]
  by (auto simp: delete_terminal_upload_def split: sum.splits)

lemma artifacts_remain_uploads [simp]:
  "artifacts_remain (s\<lparr>mm_uploads := m\<rparr>) i = artifacts_remain s i"
  by (simp add: artifacts_remain_def)

lemma remove_uploads_inv:
  "mem_inv q s \<Longrightarrow> \<forall>i \<in> set ids. \<not> artifacts_remain s i \<Longrightarrow> mem_inv q (fst (remove_uploads ids s))"
proof (induction ids arbitrary: s)
  case (Cons i ids)
  show ?case
  proof (cases "hm_get (mm_uploads s) i")
    case None
    with Cons show ?thesis by simp
  next
    case (Some u)
    let ?s = "s\<lparr>mm_uploads := hm_remove i (mm_uploads s)\<rparr>"
    have "mem_inv q ?s" using Cons.prems by (intro mem_inv_remove_upload) auto
    then have "mem_inv q (fst (remove_uploads ids ?s))" using Cons by simp
    with Some show ?thesis by (simp add: Let_def case_prod_unfold)
  qed
qed simp

lemma retire_terminal_uploads_inv:
  assumes "mem_inv q s" shows "mem_inv q (fst (retire_terminal_uploads now limit s))"
proof -
  let ?ids = "map (\<lambda>upload. id_upload_id (up_identity upload)) (take limit
            (filter (\<lambda>upload. tombstone_passed now upload
                \<and> \<not> artifacts_remain s (id_upload_id (up_identity upload))
                \<and> up_destination_operation_id upload = None)
              (hm_values (mm_uploads s))))"
  have "mem_inv q (fst (remove_uploads ?ids s))"
    by (rule remove_uploads_inv [OF assms]) (auto dest: in_set_takeD)
  then show ?thesis by (simp add: retire_terminal_uploads_def Let_def case_prod_unfold)
qed

definition expired_at :: "i64 \<Rightarrow> multipart_upload \<Rightarrow> multipart_upload" where
  "expired_at now u = u\<lparr>up_lifecycle := Expired,
     up_tombstone_until_ms := Some (i64_wrapping_add now DEFAULT_EXPIRY_MS), up_updated_at_ms := now\<rparr>"

lemma expire_uploads_get:
  "hm_get (fst (expire_uploads now limit m)) i = hm_get m i
   \<or> (\<exists>u. hm_get m i = Some u \<and> up_lifecycle u = Open \<and> up_expires_at_ms u \<le> now
        \<and> hm_get (fst (expire_uploads now limit m)) i = Some (expired_at now u))"
proof (induction now limit m rule: expire_uploads.induct)
  case (2 now limit key upload rest)
  then show ?case
    by (auto simp: Let_def hm_get_def expired_at_def split: prod.splits if_splits)
qed simp

lemma expire_uploads_keys: "map fst (fst (expire_uploads now limit m)) = map fst m"
  by (induction now limit m rule: expire_uploads.induct) (auto simp: Let_def split: prod.splits)

lemma expire_uploads_sum_le:
  assumes "\<And>u. f (expired_at now u) \<le> f u"
  shows "hm_sum f (fst (expire_uploads now limit m)) \<le> hm_sum f m"
proof (induction m arbitrary: limit)
  case (Cons x m)
  obtain k u where x: "x = (k, u)" by (cases x)
  from Cons.IH [of "limit - 1"] Cons.IH [of limit] assms [of u] show ?case
    by (auto simp: x Let_def expired_at_def split: prod.splits intro: add_mono)
qed simp

lemma reap_expired_inv:
  assumes inv: "mem_inv q s" shows "mem_inv q (fst (reap_expired now limit s))"
proof -
  let ?m = "fst (expire_uploads now limit (mm_uploads s))"
  have get: "\<exists>u. hm_get (mm_uploads s) i = Some u \<and> up_identity u' = up_identity u
      \<and> up_snapshot u' = up_snapshot u \<and> up_staged_bytes u' = up_staged_bytes u
      \<and> up_reserved_bytes u' = up_reserved_bytes u" if u': "hm_get ?m i = Some u'" for i u'
  proof -
    consider "hm_get ?m i = hm_get (mm_uploads s) i"
      | u where "hm_get (mm_uploads s) i = Some u" "hm_get ?m i = Some (expired_at now u)"
      using expire_uploads_get [of now limit "mm_uploads s" i] by blast
    then show ?thesis
    proof cases
      case 1
      with u' show ?thesis by (intro exI [of _ u']) simp
    next
      case 2
      with u' show ?thesis by (auto simp: expired_at_def)
    qed
  qed
  have some: "hm_get ?m i \<noteq> None" if "hm_get (mm_uploads s) i \<noteq> None" for i
    using expire_uploads_get [of now limit "mm_uploads s" i] that by auto
  have wf: "hm_wf ?m" using inv by (simp add: mem_inv_def mem_wf_def hm_wf_def expire_uploads_keys)
  have quotas: "mem_quotas q (s\<lparr>mm_uploads := ?m\<rparr>)"
  proof -
    have "hm_sum (tenant_charged t) ?m \<le> hm_sum (tenant_charged t) (mm_uploads s)"
        "hm_sum charged ?m \<le> hm_sum charged (mm_uploads s)"
        "hm_sum (tenant_open t) ?m \<le> hm_sum (tenant_open t) (mm_uploads s)" for t
      by (rule expire_uploads_sum_le,
          simp add: expired_at_def tenant_charged_def charged_def tenant_open_def)+
    then show ?thesis using inv by (simp add: mem_inv_def mem_quotas_def) (meson order_trans)
  qed
  have ids: "id_upload_id (up_identity u') = i" if "hm_get ?m i = Some u'" for i u'
    using get [OF that] inv by (auto simp: mem_inv_def mem_wf_def)
  have accounts: "unat (up_reserved_bytes u') = hm_sum (pending_bytes i) (mm_attempts s)
        \<and> unat (up_staged_bytes u') = hm_sum (stored_bytes i) (mm_attempts s)
        \<and> charged u' \<le> unat (ms_max_staged_bytes (up_snapshot u'))" if u': "hm_get ?m i = Some u'" for i u'
  proof -
    from get [OF u'] obtain u where u: "hm_get (mm_uploads s) i = Some u" "up_snapshot u' = up_snapshot u"
        "up_staged_bytes u' = up_staged_bytes u" "up_reserved_bytes u' = up_reserved_bytes u" by blast
    then have "charged u' = charged u" by (simp add: charged_def)
    with u inv show ?thesis by (simp add: mem_inv_def mem_accounts_def)
  qed
  have "mem_inv q (s\<lparr>mm_uploads := ?m\<rparr>)"
    using inv wf quotas ids accounts some by (auto simp: mem_inv_def mem_wf_def mem_accounts_def mem_parts_ok_def)
  from mem_inv_retain_parts [OF this] show ?thesis
    by (simp add: reap_expired_def Let_def case_prod_unfold)
qed

section \<open>Reserving a part\<close>

lemma saturating_add_exact:
  "unat a + unat b < 2 ^ LENGTH('a) \<Longrightarrow> unat (saturating_add a b) = unat a + unat b" for a b :: "'a::len word"
  by (simp add: unat_saturating_add)

lemma quota_fold_exact:
  assumes "unat a + hm_sum (tenant_charged t) m < 2 ^ 64" "unat b + hm_sum charged m < 2 ^ 64"
  shows "unat (fst (foldl (quota_fold t) (a, b) (hm_values m))) = unat a + hm_sum (tenant_charged t) m
    \<and> unat (snd (foldl (quota_fold t) (a, b) (hm_values m))) = unat b + hm_sum charged m"
  using assms
proof (induction m arbitrary: a b)
  case (Cons x m)
  obtain k u where x: "x = (k, u)" by (cases x)
  let ?used = "saturating_add (up_staged_bytes u) (up_reserved_bytes u)"
  have used: "unat ?used = charged u"
    using Cons.prems(2) by (simp add: x charged_def saturating_add_exact)
  let ?a = "a + (if id_tenant_id (up_identity u) = t then ?used else 0)" and ?b = "saturating_add b ?used"
  have a: "unat ?a = unat a + tenant_charged t u"
    using Cons.prems(1) used by (auto simp: x tenant_charged_def unat_word_ariths)
  have b: "unat ?b = unat b + charged u"
    using Cons.prems(2) used by (simp add: x saturating_add_exact)
  have "foldl (quota_fold t) (a, b) (hm_values (x # m)) = foldl (quota_fold t) (?a, ?b) (hm_values m)"
    by (simp add: x hm_values_def quota_fold_def Let_def)
  then show ?case
    using Cons.IH [of ?a ?b] Cons.prems a b by (simp add: x)
qed (simp add: hm_values_def)

lemma mem_inv_bounds:
  assumes "mem_inv q s"
  shows "hm_sum (tenant_charged t) (mm_uploads s) < 2 ^ 64" "hm_sum charged (mm_uploads s) < 2 ^ 64"
  using assms unat_lt_pow [of "ql_tenant_bytes q"] unat_lt_pow [of "ql_global_bytes q"]
  by (auto simp: mem_inv_def mem_quotas_def intro: order.strict_trans1)

definition reserved_state ::
  "multipart_identity \<Rightarrow> multipart_upload \<Rightarrow> pending_part \<Rightarrow> i64 \<Rightarrow> memory_state \<Rightarrow> memory_state" where
  "reserved_state identity u pending now s =
     (put_upload (id_upload_id identity)
        (u\<lparr>up_reserved_bytes := up_reserved_bytes u + pp_reserved_bytes pending, up_updated_at_ms := now\<rparr>) s)
     \<lparr>mm_attempts := hm_insert (pp_artifact_key pending)
         \<lparr>ma_part = \<lparr>mp_upload_id = id_upload_id identity, mp_part_number = pp_part_number pending,
            mp_attempt = pp_attempt pending, mp_artifact_key = pp_artifact_key pending, mp_etag = [],
            mp_checksum_sha256 = [], mp_size_bytes = 0, mp_created_at_ms = now\<rparr>,
          ma_reserved_bytes = pp_reserved_bytes pending, ma_lifecycle = ''PENDING''\<rparr> (mm_attempts s),
      mm_pending := hm_insert (pp_artifact_key pending) pending (mm_pending s)\<rparr>"

lemma begin_part_Inr:
  assumes "begin_part q identity n bytes now uuid s = (s', Inr pending)"
  shows "\<exists>u. authorized_upload s identity = Inr u \<and> up_lifecycle u = Open \<and> now < up_expires_at_ms u
    \<and> charged u + unat bytes \<le> unat (ms_max_staged_bytes (up_snapshot u))
    \<and> pp_reserved_bytes pending = bytes
    \<and> pp_artifact_key pending = part_artifact_key identity n uuid
    \<and> unat (fst (foldl (quota_fold (id_tenant_id identity)) (0, 0) (hm_values (mm_uploads s)))) + unat bytes
        \<le> unat (ql_tenant_bytes q)
    \<and> unat (snd (foldl (quota_fold (id_tenant_id identity)) (0, 0) (hm_values (mm_uploads s)))) + unat bytes
        \<le> unat (ql_global_bytes q)
    \<and> s' = reserved_state identity u pending now s"
  using assms
  by (auto simp: begin_part_def Let_def reserved_state_def put_upload_def charged_def checked_arith
        bind_eq_Some_conv word_le_nat_alt not_less not_le
        split: if_splits sum.splits option.splits prod.splits)

lemma begin_part_Inl: "begin_part q identity n bytes now uuid s = (s', Inl e) \<Longrightarrow> s' = s"
  by (auto simp: begin_part_def Let_def split: if_splits sum.splits option.splits prod.splits)

lemma accounts_of:
  assumes "mem_inv q s" "hm_get (mm_uploads s) i = Some u"
  shows "unat (up_reserved_bytes u) = hm_sum (pending_bytes i) (mm_attempts s)"
    and "unat (up_staged_bytes u) = hm_sum (stored_bytes i) (mm_attempts s)"
    and "charged u \<le> unat (ms_max_staged_bytes (up_snapshot u))"
    and "id_upload_id (up_identity u) = i"
  using assms by (auto simp: mem_inv_def mem_accounts_def mem_wf_def)

text \<open>
  One upload's counters and the attempts change together: the invariant holds
  again if the new counters are the new sums and the charge fits the limits.
\<close>

lemma mem_inv_rebook:
  assumes inv: "mem_inv q s" and u: "hm_get (mm_uploads s) i = Some u"
    and same: "up_identity u' = up_identity u" "up_snapshot u' = up_snapshot u"
      "up_lifecycle u' = up_lifecycle u"
    and sums: "unat (up_reserved_bytes u') = hm_sum (pending_bytes i) attempts"
      "unat (up_staged_bytes u') = hm_sum (stored_bytes i) attempts"
    and others: "\<And>j. j \<noteq> i \<Longrightarrow> hm_sum (pending_bytes j) attempts = hm_sum (pending_bytes j) (mm_attempts s)"
      "\<And>j. j \<noteq> i \<Longrightarrow> hm_sum (stored_bytes j) attempts = hm_sum (stored_bytes j) (mm_attempts s)"
    and refs: "\<And>k a. hm_get attempts k = Some a \<Longrightarrow> hm_get (mm_uploads s) (mp_upload_id (ma_part a)) \<noteq> None"
    and limit: "charged u' \<le> unat (ms_max_staged_bytes (up_snapshot u))"
    and quotas: "charged u' \<le> charged u
      \<or> hm_sum (tenant_charged (id_tenant_id (up_identity u))) (mm_uploads s) + charged u'
          \<le> unat (ql_tenant_bytes q) + charged u
        \<and> hm_sum charged (mm_uploads s) + charged u' \<le> unat (ql_global_bytes q) + charged u"
    and wf: "hm_wf parts" "hm_wf attempts" "hm_wf pending"
    and parts: "\<And>k p. hm_get parts k = Some p \<Longrightarrow>
      \<exists>a. hm_get attempts (mp_artifact_key p) = Some a \<and> ma_lifecycle a \<noteq> ''PENDING''"
  shows "mem_inv q ((put_upload i u' s)\<lparr>mm_attempts := attempts, mm_pending := pending, mm_parts := parts\<rparr>)"
    (is "mem_inv q ?s")
proof -
  have "mem_wf ?s"
    using inv u same wf by (auto simp: mem_inv_def mem_wf_def map_laws)
  moreover have "mem_accounts ?s"
    using inv sums others refs limit same(2)
    by (auto simp: mem_inv_def mem_accounts_def map_laws)
  moreover have "mem_quotas q ?s"
  proof -
    have t: "hm_sum (tenant_charged t) (hm_insert i u' (mm_uploads s)) + tenant_charged t u
        = hm_sum (tenant_charged t) (mm_uploads s) + tenant_charged t u'" for t
      using hm_sum_insert [of "tenant_charged t" i u' "mm_uploads s"] u by simp
    have g: "hm_sum charged (hm_insert i u' (mm_uploads s)) + charged u
        = hm_sum charged (mm_uploads s) + charged u'"
      using hm_sum_insert [of charged i u' "mm_uploads s"] u by simp
    have "tenant_open t u' = tenant_open t u" for t
      using same by (simp add: tenant_open_def)
    then have o: "hm_sum (tenant_open t) (hm_insert i u' (mm_uploads s)) = hm_sum (tenant_open t) (mm_uploads s)" for t
      by (rule hm_sum_insert_same [OF u])
    have old: "hm_sum (tenant_charged t) (mm_uploads s) \<le> unat (ql_tenant_bytes q)"
        "hm_sum charged (mm_uploads s) \<le> unat (ql_global_bytes q)"
        "hm_sum (tenant_open t) (mm_uploads s) \<le> MAX_ACTIVE_UPLOADS" for t
      using inv by (auto simp: mem_inv_def mem_quotas_def)
    have "hm_sum (tenant_charged t) (hm_insert i u' (mm_uploads s)) \<le> unat (ql_tenant_bytes q)" for t
      using t [of t] old(1) [of t] quotas same(1)
      by (cases "id_tenant_id (up_identity u) = t") (auto simp: tenant_charged_def)
    moreover have "hm_sum charged (hm_insert i u' (mm_uploads s)) \<le> unat (ql_global_bytes q)"
      using g old(2) quotas by linarith
    ultimately show ?thesis using o old(3) by (simp add: mem_quotas_def)
  qed
  moreover have "mem_parts_ok ?s" using parts by (simp add: mem_parts_ok_def)
  ultimately show ?thesis by (simp add: mem_inv_def)
qed

lemma parts_of:
  assumes "mem_inv q s" "hm_get (mm_parts s) k = Some p"
  obtains a where "hm_get (mm_attempts s) (mp_artifact_key p) = Some a" "ma_lifecycle a \<noteq> ''PENDING''"
  using assms unfolding mem_inv_def mem_parts_ok_def by blast

lemma refs_of:
  "mem_inv q s \<Longrightarrow> hm_get (mm_attempts s) k = Some a \<Longrightarrow> hm_get (mm_uploads s) (mp_upload_id (ma_part a)) \<noteq> None"
  unfolding mem_inv_def mem_accounts_def by blast

lemma maps_of:
  assumes "mem_inv q s"
  shows "hm_wf (mm_uploads s)" "hm_wf (mm_parts s)" "hm_wf (mm_attempts s)" "hm_wf (mm_pending s)"
  using assms by (auto simp: mem_inv_def mem_wf_def)

lemma reserved_state_inv:
  assumes inv: "mem_inv q s" and fresh: "hm_get (mm_attempts s) (pp_artifact_key pending) = None"
    and u: "hm_get (mm_uploads s) (id_upload_id identity) = Some u" "up_identity u = identity"
    and limit: "charged u + unat (pp_reserved_bytes pending) \<le> unat (ms_max_staged_bytes (up_snapshot u))"
    and quota: "hm_sum (tenant_charged (id_tenant_id identity)) (mm_uploads s) + unat (pp_reserved_bytes pending)
          \<le> unat (ql_tenant_bytes q)"
      "hm_sum charged (mm_uploads s) + unat (pp_reserved_bytes pending) \<le> unat (ql_global_bytes q)"
  shows "mem_inv q (reserved_state identity u pending now s)"
proof -
  let ?i = "id_upload_id identity" and ?bytes = "pp_reserved_bytes pending"
  let ?u = "u\<lparr>up_reserved_bytes := up_reserved_bytes u + ?bytes, up_updated_at_ms := now\<rparr>"
  let ?a = "\<lparr>ma_part = \<lparr>mp_upload_id = ?i, mp_part_number = pp_part_number pending,
        mp_attempt = pp_attempt pending, mp_artifact_key = pp_artifact_key pending, mp_etag = [],
        mp_checksum_sha256 = [], mp_size_bytes = 0, mp_created_at_ms = now\<rparr>,
      ma_reserved_bytes = ?bytes, ma_lifecycle = ''PENDING''\<rparr>"
  let ?atts = "hm_insert (pp_artifact_key pending) ?a (mm_attempts s)"
  have "charged u + unat ?bytes < 2 ^ 64"
    using limit unat_lt_pow [of "ms_max_staged_bytes (up_snapshot u)"] by simp
  then have reserved: "unat (up_reserved_bytes u + ?bytes) = unat (up_reserved_bytes u) + unat ?bytes"
    by (simp add: unat_word_ariths charged_def)
  then have charge: "charged ?u = charged u + unat ?bytes" by (simp add: charged_def)
  have sum: "hm_sum f ?atts = hm_sum f (mm_attempts s) + f ?a" for f
    using fresh by (rule hm_sum_insert_fresh)
  have "mem_inv q ((put_upload ?i ?u s)\<lparr>mm_attempts := ?atts,
      mm_pending := hm_insert (pp_artifact_key pending) pending (mm_pending s), mm_parts := mm_parts s\<rparr>)"
  proof (rule mem_inv_rebook [OF inv u(1)])
    show "unat (up_reserved_bytes ?u) = hm_sum (pending_bytes ?i) ?atts"
      "unat (up_staged_bytes ?u) = hm_sum (stored_bytes ?i) ?atts"
      using accounts_of [OF inv u(1)] reserved by (simp_all add: sum pending_bytes_def stored_bytes_def)
    show "hm_sum (pending_bytes j) ?atts = hm_sum (pending_bytes j) (mm_attempts s)"
      "hm_sum (stored_bytes j) ?atts = hm_sum (stored_bytes j) (mm_attempts s)" if "j \<noteq> ?i" for j
      using that by (simp_all add: sum pending_bytes_def stored_bytes_def)
    show "hm_get (mm_uploads s) (mp_upload_id (ma_part a)) \<noteq> None" if "hm_get ?atts k = Some a" for k a
      using that refs_of [OF inv, of k a] u(1) by (auto simp: map_laws split: if_splits)
    show "charged ?u \<le> unat (ms_max_staged_bytes (up_snapshot u))" using charge limit by simp
    show "charged ?u \<le> charged u
      \<or> hm_sum (tenant_charged (id_tenant_id (up_identity u))) (mm_uploads s) + charged ?u
          \<le> unat (ql_tenant_bytes q) + charged u
        \<and> hm_sum charged (mm_uploads s) + charged ?u \<le> unat (ql_global_bytes q) + charged u"
      unfolding charge using quota u(2) by simp
    show "\<exists>a. hm_get ?atts (mp_artifact_key x) = Some a \<and> ma_lifecycle a \<noteq> ''PENDING''"
      if "hm_get (mm_parts s) k = Some x" for k x
      using parts_of [OF inv that] fresh by (metis hm_get_insert option.distinct(1))
  qed (use maps_of [OF inv] in \<open>auto simp: map_laws\<close>)
  then show ?thesis by (simp add: reserved_state_def put_upload_def)
qed

lemma begin_part_inv:
  assumes inv: "mem_inv q s"
    and fresh: "hm_get (mm_attempts s) (part_artifact_key identity n uuid) = None"
  shows "mem_inv q (fst (begin_part q identity n bytes now uuid s))"
proof (cases "begin_part q identity n bytes now uuid s")
  case (Pair s' r)
  show ?thesis
  proof (cases r)
    case (Inl e)
    with Pair have "s' = s" using begin_part_Inl by metis
    with Pair inv show ?thesis by simp
  next
    case (Inr pending)
    have sums: "unat (fst (foldl (quota_fold (id_tenant_id identity)) (0, 0) (hm_values (mm_uploads s))))
          = hm_sum (tenant_charged (id_tenant_id identity)) (mm_uploads s)"
        "unat (snd (foldl (quota_fold (id_tenant_id identity)) (0, 0) (hm_values (mm_uploads s))))
          = hm_sum charged (mm_uploads s)"
      using quota_fold_exact [of 0 "id_tenant_id identity" "mm_uploads s" 0] mem_inv_bounds [OF inv] by auto
    from Pair Inr begin_part_Inr [of q identity n bytes now uuid s s' pending] obtain u where
        u: "hm_get (mm_uploads s) (id_upload_id identity) = Some u" "up_identity u = identity"
        "charged u + unat (pp_reserved_bytes pending) \<le> unat (ms_max_staged_bytes (up_snapshot u))"
        "pp_artifact_key pending = part_artifact_key identity n uuid"
        "hm_sum (tenant_charged (id_tenant_id identity)) (mm_uploads s) + unat (pp_reserved_bytes pending)
          \<le> unat (ql_tenant_bytes q)"
        "hm_sum charged (mm_uploads s) + unat (pp_reserved_bytes pending) \<le> unat (ql_global_bytes q)"
        "s' = reserved_state identity u pending now s"
      unfolding sums by (auto simp: authorized_Inr)
    with Pair fresh reserved_state_inv [OF inv, of pending identity u now] show ?thesis by simp
  qed
qed

section \<open>Committing a part\<close>

lemma retire_old_inv:
  assumes inv: "mem_inv q s"
  shows "mem_inv q (retire_old_attempt (hm_get (mm_parts s) k) s)"
proof (cases "hm_get (mm_parts s) k")
  case (Some old)
  obtain a where a: "hm_get (mm_attempts s) (mp_artifact_key old) = Some a" "ma_lifecycle a \<noteq> ''PENDING''"
    using inv Some by (rule parts_of)
  let ?a = "a\<lparr>ma_lifecycle := ''RETIRED''\<rparr>"
  let ?atts = "hm_insert (mp_artifact_key old) ?a (mm_attempts s)"
  have sums: "hm_sum (pending_bytes j) ?atts = hm_sum (pending_bytes j) (mm_attempts s)"
      "hm_sum (stored_bytes j) ?atts = hm_sum (stored_bytes j) (mm_attempts s)" for j
    using a(2) by (auto intro!: hm_sum_insert_same [OF a(1)] simp: pending_bytes_def stored_bytes_def)
  have "mem_wf (s\<lparr>mm_attempts := ?atts\<rparr>)"
    using inv by (auto simp: mem_inv_def mem_wf_def map_laws)
  moreover have "mem_accounts (s\<lparr>mm_attempts := ?atts\<rparr>)"
    using inv a by (auto simp: mem_inv_def mem_accounts_def sums map_laws)
  moreover have "mem_quotas q (s\<lparr>mm_attempts := ?atts\<rparr>)"
    using inv by (simp add: mem_inv_def mem_quotas_def)
  moreover have "mem_parts_ok (s\<lparr>mm_attempts := ?atts\<rparr>)"
    using inv by (auto simp: mem_inv_def mem_parts_ok_def map_laws)
  ultimately show ?thesis using Some a by (simp add: retire_old_attempt_def mem_inv_def)
qed (simp add: retire_old_attempt_def inv)

lemma retire_old_fields [simp]:
  "mm_uploads (retire_old_attempt p s) = mm_uploads s"
  "mm_parts (retire_old_attempt p s) = mm_parts s"
  "mm_pending (retire_old_attempt p s) = mm_pending s"
  by (simp_all add: retire_old_attempt_def split: option.splits)

definition committed_state ::
  "multipart_identity \<Rightarrow> multipart_upload \<Rightarrow> pending_part \<Rightarrow> multipart_part \<Rightarrow> i64 \<Rightarrow> memory_state \<Rightarrow> memory_state" where
  "committed_state identity u pending part clock s =
     (put_upload (id_upload_id identity)
        (u\<lparr>up_reserved_bytes := up_reserved_bytes u - pp_reserved_bytes pending,
           up_staged_bytes := up_staged_bytes u + mp_size_bytes part, up_updated_at_ms := clock\<rparr>) s)
     \<lparr>mm_attempts := hm_insert (pp_artifact_key pending)
        \<lparr>ma_part = part, ma_reserved_bytes = 0, ma_lifecycle = ''CURRENT''\<rparr> (mm_attempts s),
      mm_pending := hm_remove (pp_artifact_key pending) (mm_pending s),
      mm_parts := hm_insert (id_upload_id identity, mp_part_number part) part (mm_parts s)\<rparr>"

text \<open>With the counters in order the two arithmetic error paths of the tail are dead.\<close>

lemma settle_commit_ok:
  assumes inv: "mem_inv q s" and u: "hm_get (mm_uploads s) i = Some u"
    and a: "hm_get (mm_attempts s) k = Some a" "ma_lifecycle a = ''PENDING''" "mp_upload_id (ma_part a) = i"
      "ma_reserved_bytes a = pp_reserved_bytes pending"
    and size: "mp_size_bytes part \<le> pp_reserved_bytes pending"
  shows "settle_commit i u pending part clock t =
      (put_upload i (u\<lparr>up_reserved_bytes := up_reserved_bytes u - pp_reserved_bytes pending,
          up_staged_bytes := up_staged_bytes u + mp_size_bytes part, up_updated_at_ms := clock\<rparr>) t, Inr ())"
    and "unat (up_reserved_bytes u - pp_reserved_bytes pending)
      = unat (up_reserved_bytes u) - unat (pp_reserved_bytes pending)"
    and "unat (up_staged_bytes u + mp_size_bytes part) = unat (up_staged_bytes u) + unat (mp_size_bytes part)"
    and "unat (pp_reserved_bytes pending) \<le> unat (up_reserved_bytes u)"
proof -
  note acc = accounts_of [OF inv u]
  have le: "unat (pp_reserved_bytes pending) \<le> unat (up_reserved_bytes u)"
    using hm_sum_member [OF a(1), of "pending_bytes i"] acc(1) a(2-4) by (simp add: pending_bytes_def)
  have "charged u < 2 ^ 64"
    using acc(3) unat_lt_pow [of "ms_max_staged_bytes (up_snapshot u)"] by simp
  then have sum: "unat (up_staged_bytes u) + unat (mp_size_bytes part) < 2 ^ 64"
    using le size by (simp add: charged_def word_le_nat_alt)
  show "unat (pp_reserved_bytes pending) \<le> unat (up_reserved_bytes u)" by (rule le)
  show "unat (up_reserved_bytes u - pp_reserved_bytes pending)
      = unat (up_reserved_bytes u) - unat (pp_reserved_bytes pending)"
    using le by (simp add: unat_sub word_le_nat_alt)
  show "unat (up_staged_bytes u + mp_size_bytes part) = unat (up_staged_bytes u) + unat (mp_size_bytes part)"
    using sum by (simp add: unat_word_ariths)
  have "hm_insert i v (hm_insert i w m) = hm_insert i v m" for v w :: multipart_upload and m
    by (induction m) (auto simp: hm_insert_def)
  then show "settle_commit i u pending part clock t =
      (put_upload i (u\<lparr>up_reserved_bytes := up_reserved_bytes u - pp_reserved_bytes pending,
          up_staged_bytes := up_staged_bytes u + mp_size_bytes part, up_updated_at_ms := clock\<rparr>) t, Inr ())"
    using le sum
    by (simp add: settle_commit_def checked_sub_def checked_add_def word_le_nat_alt Let_def put_upload_def)
qed

lemma committed_state_inv:
  assumes inv: "mem_inv q s" and u: "hm_get (mm_uploads s) (id_upload_id identity) = Some u"
    and a: "hm_get (mm_attempts s) (pp_artifact_key pending) = Some a" "ma_lifecycle a = ''PENDING''"
      "mp_upload_id (ma_part a) = id_upload_id identity" "ma_reserved_bytes a = pp_reserved_bytes pending"
    and part: "mp_size_bytes part \<le> pp_reserved_bytes pending" "mp_upload_id part = id_upload_id identity"
      "mp_artifact_key part = pp_artifact_key pending"
  shows "mem_inv q (committed_state identity u pending part clock s)"
proof -
  let ?i = "id_upload_id identity"
  let ?u = "u\<lparr>up_reserved_bytes := up_reserved_bytes u - pp_reserved_bytes pending,
      up_staged_bytes := up_staged_bytes u + mp_size_bytes part, up_updated_at_ms := clock\<rparr>"
  let ?a = "\<lparr>ma_part = part, ma_reserved_bytes = 0, ma_lifecycle = ''CURRENT''\<rparr>"
  let ?atts = "hm_insert (pp_artifact_key pending) ?a (mm_attempts s)"
  note arith = settle_commit_ok(2-4) [OF inv u a part(1)] and acc = accounts_of [OF inv u]
  have sum: "hm_sum f ?atts + f a = hm_sum f (mm_attempts s) + f ?a" for f
    using hm_sum_insert [of f "pp_artifact_key pending" ?a "mm_attempts s"] a(1) by simp
  have charge: "charged ?u \<le> charged u"
    using arith part(1) by (simp add: charged_def word_le_nat_alt)
  show ?thesis
    unfolding committed_state_def
  proof (rule mem_inv_rebook [OF inv u])
    show "unat (up_reserved_bytes ?u) = hm_sum (pending_bytes ?i) ?atts"
      "unat (up_staged_bytes ?u) = hm_sum (stored_bytes ?i) ?atts"
      using acc arith a part(2) sum [of "pending_bytes ?i"] sum [of "stored_bytes ?i"]
      by (simp_all add: pending_bytes_def stored_bytes_def)
    show "hm_sum (pending_bytes j) ?atts = hm_sum (pending_bytes j) (mm_attempts s)"
      "hm_sum (stored_bytes j) ?atts = hm_sum (stored_bytes j) (mm_attempts s)" if "j \<noteq> ?i" for j
      using that a(3) part(2) sum [of "pending_bytes j"] sum [of "stored_bytes j"]
      by (simp_all add: pending_bytes_def stored_bytes_def)
    show "hm_get (mm_uploads s) (mp_upload_id (ma_part b)) \<noteq> None" if "hm_get ?atts k = Some b" for k b
      using that refs_of [OF inv, of k b] u part(2) by (auto simp: map_laws split: if_splits)
    show "charged ?u \<le> unat (ms_max_staged_bytes (up_snapshot u))" using charge acc(3) by simp
    show "\<exists>b. hm_get ?atts (mp_artifact_key x) = Some b \<and> ma_lifecycle b \<noteq> ''PENDING''"
      if "hm_get (hm_insert (?i, mp_part_number part) part (mm_parts s)) k = Some x" for k x
    proof (cases "mp_artifact_key x = pp_artifact_key pending")
      case False
      with that part(3) have "hm_get (mm_parts s) k = Some x" by (auto simp: map_laws split: if_splits)
      from parts_of [OF inv this] False show ?thesis by (metis hm_get_insert)
    qed (simp add: map_laws)
  qed (use charge maps_of [OF inv] in \<open>auto simp: map_laws\<close>)
qed

lemma retire_old_attempts:
  "hm_get (mm_attempts (retire_old_attempt p s)) k = Some a \<Longrightarrow>
     \<exists>b. hm_get (mm_attempts s) k = Some b \<and> ma_part a = ma_part b"
  by (auto simp: retire_old_attempt_def map_laws split: option.splits if_splits)

lemma commit_part_cases:
  assumes "commit_part identity pending part clock s = (s', r)"
    and s1: "s1 = retire_old_attempt (hm_get (mm_parts s) (id_upload_id identity, mp_part_number part)) s"
  shows "s' = s \<and> (\<exists>e. r = Inl e)
    \<or> s' = s1 \<and> r = Inl NotFound
    \<or> (\<exists>u a. hm_get (mm_uploads s) (id_upload_id identity) = Some u \<and> up_identity u = identity
         \<and> up_lifecycle u = Open
         \<and> mp_upload_id part = pp_upload_id pending \<and> mp_artifact_key part = pp_artifact_key pending
         \<and> mp_size_bytes part \<le> pp_reserved_bytes pending
         \<and> hm_get (mm_attempts s1) (pp_artifact_key pending) = Some a \<and> ma_lifecycle a = ''PENDING''
         \<and> ma_reserved_bytes a = pp_reserved_bytes pending
         \<and> s' = fst (settle_commit (id_upload_id identity) u pending part clock
             (s1\<lparr>mm_attempts := hm_insert (pp_artifact_key pending)
                      \<lparr>ma_part = part, ma_reserved_bytes = 0, ma_lifecycle = ''CURRENT''\<rparr> (mm_attempts s1),
                 mm_pending := hm_remove (pp_artifact_key pending) (mm_pending s1),
                 mm_parts := hm_insert (id_upload_id identity, mp_part_number part) part (mm_parts s1)\<rparr>)))"
proof (cases "authorized_upload s identity")
  case (Inl e)
  with assms(1) show ?thesis by (auto simp: commit_part_def split: if_splits)
next
  case (Inr u)
  then have u: "hm_get (mm_uploads s) (id_upload_id identity) = Some u" "up_identity u = identity"
    by (simp_all add: authorized_Inr)
  from assms(1) Inr u(1) show ?thesis
    by (cases "hm_get (mm_attempts s1) (pp_artifact_key pending)")
       (auto simp: commit_part_def Let_def case_prod_unfold s1 u(2) not_less split: if_splits)
qed

lemma commit_part_inv:
  assumes inv: "mem_inv q s" and own: "pp_upload_id pending = id_upload_id identity"
    "\<And>a. hm_get (mm_attempts s) (pp_artifact_key pending) = Some a \<Longrightarrow>
       mp_upload_id (ma_part a) = id_upload_id identity"
  shows "mem_inv q (fst (commit_part identity pending part clock s))"
proof -
  let ?s1 = "retire_old_attempt (hm_get (mm_parts s) (id_upload_id identity, mp_part_number part)) s"
  have inv1: "mem_inv q ?s1" using inv by (rule retire_old_inv)
  obtain s' r where run: "commit_part identity pending part clock s = (s', r)" by fastforce
  from commit_part_cases [OF run refl] consider "s' = s" | "s' = ?s1" | u a where
      "hm_get (mm_uploads ?s1) (id_upload_id identity) = Some u"
      "mp_upload_id part = pp_upload_id pending" "mp_artifact_key part = pp_artifact_key pending"
      "mp_size_bytes part \<le> pp_reserved_bytes pending"
      "hm_get (mm_attempts ?s1) (pp_artifact_key pending) = Some a" "ma_lifecycle a = ''PENDING''"
      "ma_reserved_bytes a = pp_reserved_bytes pending"
      "s' = fst (settle_commit (id_upload_id identity) u pending part clock
         (?s1\<lparr>mm_attempts := hm_insert (pp_artifact_key pending)
                  \<lparr>ma_part = part, ma_reserved_bytes = 0, ma_lifecycle = ''CURRENT''\<rparr> (mm_attempts ?s1),
             mm_pending := hm_remove (pp_artifact_key pending) (mm_pending ?s1),
             mm_parts := hm_insert (id_upload_id identity, mp_part_number part) part (mm_parts ?s1)\<rparr>))"
    by auto
  then have "mem_inv q s'"
  proof cases
    case (3 u a)
    have owner: "mp_upload_id (ma_part a) = id_upload_id identity"
      using retire_old_attempts [OF 3(5)] own(2) by auto
    have "s' = committed_state identity u pending part clock ?s1"
      unfolding 3(8) settle_commit_ok(1) [OF inv1 3(1) 3(5) 3(6) owner 3(7) 3(4)]
      by (simp add: committed_state_def put_upload_def)
    moreover have "mp_upload_id part = id_upload_id identity" using 3(2) own(1) by simp
    ultimately show ?thesis
      using committed_state_inv [OF inv1 3(1) 3(5) 3(6) owner 3(7) 3(4) _ 3(3)] by simp
  qed (simp_all add: inv inv1)
  then show ?thesis by (simp add: run)
qed

section \<open>Confirming a deletion\<close>

lemma checked_sub_le: "unat b \<le> unat a \<Longrightarrow> checked_sub a b = Some (a - b) \<and> unat (a - b) = unat a - unat b"
  for a b :: "'a::len word"
  by (simp add: checked_sub_def word_le_nat_alt unat_sub)

definition deleted_state :: "string \<Rightarrow> memory_state \<Rightarrow> memory_state" where
  "deleted_state k s = s\<lparr>mm_attempts := hm_remove k (mm_attempts s),
     mm_pending := hm_remove k (mm_pending s),
     mm_parts := hm_retain (\<lambda>_ part. mp_artifact_key part \<noteq> k) (mm_parts s)\<rparr>"

lemma confirm_artifact_deleted_inv:
  assumes inv: "mem_inv q s"
  shows "mem_inv q (fst (confirm_artifact_deleted k clock s))
    \<and> snd (confirm_artifact_deleted k clock s) = Inr ()"
proof (cases "hm_get (mm_attempts s) k")
  case None
  then show ?thesis using inv by (simp add: confirm_artifact_deleted_def)
next
  case (Some a)
  let ?i = "mp_upload_id (ma_part a)" and ?atts = "hm_remove k (mm_attempts s)"
  obtain u where u: "hm_get (mm_uploads s) ?i = Some u" using refs_of [OF inv Some] by auto
  note acc = accounts_of [OF inv u] and wf = maps_of [OF inv]
  have sum: "hm_sum f ?atts + f a = hm_sum f (mm_attempts s)" for f
    using hm_sum_remove [OF wf(3), of f k] Some by simp
  define u' where "u' = (if ma_lifecycle a = ''PENDING''
      then u\<lparr>up_reserved_bytes := up_reserved_bytes u - ma_reserved_bytes a, up_updated_at_ms := clock\<rparr>
      else u\<lparr>up_staged_bytes := up_staged_bytes u - mp_size_bytes (ma_part a), up_updated_at_ms := clock\<rparr>)"
  have bytes: "unat (up_reserved_bytes u') = hm_sum (pending_bytes ?i) ?atts"
      "unat (up_staged_bytes u') = hm_sum (stored_bytes ?i) ?atts"
      "confirm_artifact_deleted k clock s = (put_upload ?i u' (deleted_state k s), Inr ())"
    using acc(1,2) sum [of "pending_bytes ?i"] sum [of "stored_bytes ?i"]
      checked_sub_le [of "ma_reserved_bytes a" "up_reserved_bytes u"]
      checked_sub_le [of "mp_size_bytes (ma_part a)" "up_staged_bytes u"] Some u
    by (auto simp: u'_def pending_bytes_def stored_bytes_def confirm_artifact_deleted_def Let_def
          deleted_state_def)
  have charge: "charged u' \<le> charged u"
    using bytes acc(1,2) sum [of "pending_bytes ?i"] sum [of "stored_bytes ?i"] by (simp add: charged_def)
  have "mem_inv q ((put_upload ?i u' s)\<lparr>mm_attempts := ?atts, mm_pending := hm_remove k (mm_pending s),
      mm_parts := hm_retain (\<lambda>_ part. mp_artifact_key part \<noteq> k) (mm_parts s)\<rparr>)"
  proof (rule mem_inv_rebook [OF inv u])
    show "hm_sum (pending_bytes j) ?atts = hm_sum (pending_bytes j) (mm_attempts s)"
      "hm_sum (stored_bytes j) ?atts = hm_sum (stored_bytes j) (mm_attempts s)" if "j \<noteq> ?i" for j
      using that sum [of "pending_bytes j"] sum [of "stored_bytes j"]
      by (simp_all add: pending_bytes_def stored_bytes_def)
    show "hm_get (mm_uploads s) (mp_upload_id (ma_part b)) \<noteq> None" if "hm_get ?atts k' = Some b" for k' b
      using that refs_of [OF inv, of k' b] by (auto simp: map_laws split: if_splits)
    show "\<exists>b. hm_get ?atts (mp_artifact_key x) = Some b \<and> ma_lifecycle b \<noteq> ''PENDING''"
      if "hm_get (hm_retain (\<lambda>_ part. mp_artifact_key part \<noteq> k) (mm_parts s)) n = Some x" for n x
    proof -
      from that wf(2) have "hm_get (mm_parts s) n = Some x" "mp_artifact_key x \<noteq> k"
        by (auto simp: map_laws split: option.splits if_splits)
      with parts_of [OF inv this(1)] show ?thesis by (metis hm_get_remove)
    qed
  qed (use bytes charge acc(3) wf in \<open>auto simp: map_laws u'_def\<close>)
  moreover have "put_upload ?i u' (deleted_state k s) = (put_upload ?i u' s)\<lparr>mm_attempts := ?atts,
      mm_pending := hm_remove k (mm_pending s),
      mm_parts := hm_retain (\<lambda>_ part. mp_artifact_key part \<noteq> k) (mm_parts s)\<rparr>"
    by (simp add: deleted_state_def put_upload_def)
  ultimately show ?thesis by (simp add: bytes(3))
qed

section \<open>The repository as a state machine\<close>

datatype memory_operation =
    CreateUpload multipart_upload
  | ReplacePart multipart_identity multipart_part i64
  | BeginPart multipart_identity u32 u64 i64 string
  | CommitPart multipart_identity pending_part multipart_part i64
  | DiscardPending multipart_identity pending_part i64
  | ConfirmDeleted string i64
  | AcquireCompletion multipart_identity string "complete_part list" string i64 i64
  | RenewCompletion multipart_identity u64 i64 i64
  | BeginCommit multipart_identity string u64 uuid i64
  | RecordCommit destination_commit_permit multipart_completion_result i64
  | ReleaseCommit destination_commit_permit i64
  | CompleteUpload multipart_identity destination_commit_permit multipart_completion_result i64
  | ClearReference multipart_identity uuid
  | AbortUpload multipart_identity i64
  | DeleteTerminal multipart_identity
  | RetireTerminal i64 nat
  | ReapExpired i64 nat
  | Audit cleanup_audit

fun memory_step ::
  "staging_quota_limits \<Rightarrow> (multipart_identity \<Rightarrow> string \<Rightarrow> uuid) \<Rightarrow> memory_operation
     \<Rightarrow> memory_state \<Rightarrow> memory_state" where
  "memory_step q op_id (CreateUpload u) s = fst (create u s)"
| "memory_step q op_id (ReplacePart i p clock) s = fst (replace_part i p clock s)"
| "memory_step q op_id (BeginPart i n bytes now uuid) s = fst (begin_part q i n bytes now uuid s)"
| "memory_step q op_id (CommitPart i pending p clock) s = fst (commit_part i pending p clock s)"
| "memory_step q op_id (DiscardPending i pending clock) s = fst (discard_pending i pending clock s)"
| "memory_step q op_id (ConfirmDeleted k clock) s = fst (confirm_artifact_deleted k clock s)"
| "memory_step q op_id (AcquireCompletion i fp ps owner lease now) s =
     fst (acquire_completion i fp ps owner lease now s)"
| "memory_step q op_id (RenewCompletion i token lease clock) s = fst (renew_completion i token lease clock s)"
| "memory_step q op_id (BeginCommit i fp token operation now) s =
     fst (begin_destination_commit op_id i fp token operation now s)"
| "memory_step q op_id (RecordCommit permit result now) s = fst (record_destination_commit permit result now s)"
| "memory_step q op_id (ReleaseCommit permit now) s =
     fst (release_destination_commit_after_proven_absence permit now s)"
| "memory_step q op_id (CompleteUpload i permit result now) s = fst (complete_completion i permit result now s)"
| "memory_step q op_id (ClearReference i operation) s = fst (clear_destination_commit_reference i operation s)"
| "memory_step q op_id (AbortUpload i now) s = fst (abort i now s)"
| "memory_step q op_id (DeleteTerminal i) s = fst (delete_terminal_upload i s)"
| "memory_step q op_id (RetireTerminal now limit) s = fst (retire_terminal_uploads now limit s)"
| "memory_step q op_id (ReapExpired now limit) s = fst (reap_expired now limit s)"
| "memory_step q op_id (Audit a) s = fst (audit a s)"

text \<open>
  How the gateway drives the repository: upload ids and artifact keys are fresh
  UUIDs, an upload starts empty, a part is committed for the upload it was
  reserved for, and the compatibility operation \<open>replace_part\<close> is not used.
\<close>

fun fresh_create :: "memory_operation \<Rightarrow> memory_state \<Rightarrow> bool" where
  "fresh_create (CreateUpload u) s = (hm_get (mm_uploads s) (id_upload_id (up_identity u)) = None)"
| "fresh_create _ s = True"

fun admissible :: "memory_operation \<Rightarrow> memory_state \<Rightarrow> bool" where
  "admissible (CreateUpload u) s =
     (fresh_create (CreateUpload u) s \<and> up_staged_bytes u = 0 \<and> up_reserved_bytes u = 0)"
| "admissible (ReplacePart i p clock) s = False"
| "admissible (BeginPart i n bytes now uuid) s = (hm_get (mm_attempts s) (part_artifact_key i n uuid) = None)"
| "admissible (CommitPart i pending p clock) s =
     (pp_upload_id pending = id_upload_id i
      \<and> (case hm_get (mm_attempts s) (pp_artifact_key pending) of
           None \<Rightarrow> True | Some a \<Rightarrow> mp_upload_id (ma_part a) = id_upload_id i))"
| "admissible _ s = True"

lemma memory_step_inv:
  assumes "mem_inv q s" "admissible op s"
  shows "mem_inv q (memory_step q op_id op s)"
proof (cases op)
  case (CommitPart i pending p clock)
  then have "mem_inv q (fst (commit_part i pending p clock s))"
    using assms by (intro commit_part_inv) (auto split: option.splits)
  then show ?thesis by (simp add: CommitPart)
qed (use assms in \<open>simp_all add: create_inv begin_part_inv discard_pending_def confirm_artifact_deleted_inv
        acquire_completion_inv renew_completion_inv begin_destination_commit_inv record_destination_commit_inv
        release_destination_commit_inv complete_completion_inv clear_reference_inv abort_inv
        delete_terminal_upload_inv retire_terminal_uploads_inv reap_expired_inv audit_inv\<close>)

inductive memory_reachable ::
  "staging_quota_limits \<Rightarrow> (multipart_identity \<Rightarrow> string \<Rightarrow> uuid) \<Rightarrow> memory_state \<Rightarrow> bool"
  for q op_id where
  start: "memory_reachable q op_id memory_state_default"
| step: "memory_reachable q op_id s \<Longrightarrow> admissible op s
     \<Longrightarrow> memory_reachable q op_id (memory_step q op_id op s)"

lemma memory_reachable_inv: "memory_reachable q op_id s \<Longrightarrow> mem_inv q s"
  by (induction rule: memory_reachable.induct) (auto intro: mem_inv_default memory_step_inv)

end
