(* ===== verification/Memory_Properties.thy ===== *)
theory Memory_Properties
  imports Memory_Invariants
begin

text \<open>
  The in-memory repository as an instance of the upload contract, and its
  properties: exact accounting and quotas in every reachable state, runs that
  follow the upload state machine, isolation of identities, release of bytes on
  deletion, retirement of finished uploads only, and two error paths that leave
  a change behind.
\<close>

section \<open>The repository follows the upload contract\<close>

definition uploads_move ::
  "(string, multipart_upload) hash_map \<Rightarrow> (string, multipart_upload) hash_map \<Rightarrow> bool" where
  "uploads_move m m' \<longleftrightarrow>
     (\<forall>i u u'. hm_get m i = Some u \<longrightarrow> hm_get m' i = Some u' \<longrightarrow>
        upload_step u u' \<and> (\<forall>r. settled_as r u \<longrightarrow> settled_as r u'))"

lemma uploads_move_refl [simp]: "uploads_move m m"
  by (auto simp: uploads_move_def upload_step_refl)

lemma uploads_move_insert:
  assumes "hm_get m k = Some u" "upload_step u u'" "\<And>r. settled_as r u \<Longrightarrow> settled_as r u'"
  shows "uploads_move m (hm_insert k u' m)"
  using assms by (auto simp: uploads_move_def map_laws upload_step_refl)

lemma uploads_move_fresh: "hm_get m k = None \<Longrightarrow> uploads_move m (hm_insert k u m)"
  by (auto simp: uploads_move_def map_laws upload_step_refl)

lemma uploads_move_remove: "uploads_move m m' \<Longrightarrow> uploads_move m (hm_remove k m')"
  by (auto simp: uploads_move_def map_laws)

text \<open>Updates that leave lifecycle, token and commit fields alone.\<close>

lemma quiet_update:
  assumes "up_identity u' = up_identity u" "up_namespace_epoch u' = up_namespace_epoch u"
    "up_snapshot u' = up_snapshot u" "up_created_at_ms u' = up_created_at_ms u"
    "up_expires_at_ms u' = up_expires_at_ms u" "up_lifecycle u' = up_lifecycle u"
    "up_completion_fencing_token u' = up_completion_fencing_token u"
    "up_destination_commit u' = up_destination_commit u" "up_completion_result u' = up_completion_result u"
  shows "upload_step u u'" and "settled_as r u \<Longrightarrow> settled_as r u'"
  using assms by (simp_all add: upload_step_def settled_as_def)

lemma remove_uploads_move: "uploads_move m (mm_uploads s) \<Longrightarrow> uploads_move m (mm_uploads (fst (remove_uploads ids s)))"
proof (induction ids arbitrary: s)
  case (Cons i ids)
  then show ?case
    by (cases "hm_get (mm_uploads s) i") (simp_all add: Let_def case_prod_unfold uploads_move_remove)
qed simp

lemma expire_uploads_move: "uploads_move m (fst (expire_uploads now limit m))"
  unfolding uploads_move_def
proof (intro allI impI)
  fix i u u' assume get: "hm_get m i = Some u" "hm_get (fst (expire_uploads now limit m)) i = Some u'"
  from expire_uploads_get [of now limit m i] get consider "u' = u"
    | "up_lifecycle u = Open" "u' = expired_at now u" by auto
  then show "upload_step u u' \<and> (\<forall>r. settled_as r u \<longrightarrow> settled_as r u')"
    by cases (auto simp: upload_step_refl upload_step_def settled_as_def expired_at_def)
qed

lemma settle_commit_move:
  assumes "hm_get m i = Some u" "mm_uploads s = m"
  shows "uploads_move m (mm_uploads (fst (settle_commit i u pending part clock s)))"
proof (cases "checked_sub (up_reserved_bytes u) (pp_reserved_bytes pending)")
  case None
  then show ?thesis using assms(2) by (simp add: settle_commit_def)
next
  case (Some reserved)
  let ?u = "u\<lparr>up_reserved_bytes := reserved\<rparr>"
  show ?thesis
  proof (cases "checked_add (up_staged_bytes u) (mp_size_bytes part)")
    case None
    have "uploads_move m (hm_insert i ?u m)"
      by (rule uploads_move_insert [OF assms(1)]) (rule quiet_update; simp)+
    then show ?thesis using Some None assms(2) by (simp add: settle_commit_def Let_def)
  next
    case (Some staged)
    have "uploads_move m (hm_insert i (?u\<lparr>up_staged_bytes := staged, up_updated_at_ms := clock\<rparr>) m)"
      by (rule uploads_move_insert [OF assms(1)]) (rule quiet_update; simp)+
    then show ?thesis
      using \<open>checked_sub _ _ = Some reserved\<close> Some assms(2)
      by (simp add: settle_commit_def Let_def hm_insert_twice)
  qed
qed

lemma commit_part_move:
  "uploads_move (mm_uploads s) (mm_uploads (fst (commit_part identity pending part clock s)))"
proof -
  obtain s' r where run: "commit_part identity pending part clock s = (s', r)" by fastforce
  from commit_part_cases [OF run refl] have "uploads_move (mm_uploads s) (mm_uploads s')"
    by (elim disjE exE conjE) (simp, simp, simp only:, rule settle_commit_move, assumption, simp)
  then show ?thesis by (simp add: run)
qed

lemma begin_part_move:
  "uploads_move (mm_uploads s) (mm_uploads (fst (begin_part q identity n bytes now uuid s)))"
proof (cases "begin_part q identity n bytes now uuid s")
  case (Pair s' r)
  show ?thesis
  proof (cases r)
    case (Inl e)
    with Pair have "s' = s" using begin_part_Inl by metis
    with Pair show ?thesis by simp
  next
    case (Inr pending)
    with Pair begin_part_Inr [of q identity n bytes now uuid s s' pending] obtain u where
        u: "hm_get (mm_uploads s) (id_upload_id identity) = Some u" "s' = reserved_state identity u pending now s"
      by (auto simp: authorized_Inr)
    have "uploads_move (mm_uploads s) (mm_uploads (reserved_state identity u pending now s))"
      unfolding reserved_state_def by (simp, rule uploads_move_insert [OF u(1)]) (rule quiet_update; simp)+
    then show ?thesis using Pair u by simp
  qed
qed

lemma quiet_insert:
  assumes "hm_get m k = Some u"
    "up_identity u' = up_identity u" "up_namespace_epoch u' = up_namespace_epoch u"
    "up_snapshot u' = up_snapshot u" "up_created_at_ms u' = up_created_at_ms u"
    "up_expires_at_ms u' = up_expires_at_ms u" "up_lifecycle u' = up_lifecycle u"
    "up_completion_fencing_token u' = up_completion_fencing_token u"
    "up_destination_commit u' = up_destination_commit u" "up_completion_result u' = up_completion_result u"
  shows "uploads_move m (hm_insert k u' m)"
  by (rule uploads_move_insert [OF assms(1)]) (rule quiet_update [of u' u]; use assms in simp)+

lemma confirm_artifact_deleted_move:
  "uploads_move (mm_uploads s) (mm_uploads (fst (confirm_artifact_deleted k clock s)))"
  by (simp add: confirm_artifact_deleted_def Let_def quiet_insert split: option.split)

lemma replace_part_move:
  "uploads_move (mm_uploads s) (mm_uploads (fst (replace_part identity part clock s)))"
  by (simp add: replace_part_def Let_def authorized_Inr quiet_insert split: sum.split)

lemma checked_add_le: "checked_add a b = Some c \<Longrightarrow> unat a \<le> unat c"
  by (auto simp: checked_arith split: if_splits)

lemma live_update:
  assumes "up_lifecycle u = l" "l = Open \<or> l = Completing" "upload_step u u'"
    "hm_get m k = Some u"
  shows "uploads_move m (hm_insert k u' m)"
  using assms by (intro uploads_move_insert [of m k u]) (auto simp: settled_as_def)

lemma acquire_completion_move:
  "uploads_move (mm_uploads s) (mm_uploads (fst (acquire_completion identity fp ps owner lease now s)))"
proof (cases "authorized_upload s identity")
  case (Inr u)
  then have u: "hm_get (mm_uploads s) (id_upload_id identity) = Some u" by (simp add: authorized_Inr)
  show ?thesis
    by (cases "up_lifecycle u")
      (auto simp: acquire_completion_def Inr Let_def upload_step_def dest: checked_add_le
         split: option.splits sum.splits intro!: live_update [OF _ _ _ u])
qed (simp add: acquire_completion_def)

lemma completion_moves:
  "uploads_move (mm_uploads s) (mm_uploads (fst (renew_completion identity token lease now s)))"
  "uploads_move (mm_uploads s) (mm_uploads (fst (begin_destination_commit op_id identity fp token op now s)))"
  "uploads_move (mm_uploads s) (mm_uploads (fst (record_destination_commit permit result now s)))"
  "uploads_move (mm_uploads s)
     (mm_uploads (fst (release_destination_commit_after_proven_absence permit now s)))"
  "uploads_move (mm_uploads s) (mm_uploads (fst (complete_completion identity permit result now s)))"
  "uploads_move (mm_uploads s) (mm_uploads (fst (clear_destination_commit_reference identity op s)))"
  by (auto simp: renew_completion_def begin_destination_commit_def record_destination_commit_def Let_def
        release_destination_commit_after_proven_absence_def complete_completion_def
        clear_destination_commit_reference_def ended_def authorized_Inr permit_matches_def
        upload_step_def settled_as_def
      split: sum.splits option.splits intro!: uploads_move_insert)

lemma abort_move: "uploads_move (mm_uploads s) (mm_uploads (fst (abort identity now s)))"
proof (cases "authorized_upload s identity")
  case (Inr u)
  then have u: "hm_get (mm_uploads s) (id_upload_id identity) = Some u" by (simp add: authorized_Inr)
  show ?thesis
    by (auto simp: abort_def Inr Let_def upload_step_def intro!: live_update [OF _ _ _ u])
qed (simp add: abort_def)

lemma upload_moves:
  "hm_get (mm_uploads s) (id_upload_id (up_identity u)) = None \<Longrightarrow>
     uploads_move (mm_uploads s) (mm_uploads (fst (create u s)))"
  "uploads_move (mm_uploads s) (mm_uploads (fst (delete_terminal_upload identity s)))"
  "uploads_move (mm_uploads s) (mm_uploads (fst (retire_terminal_uploads now limit s)))"
  "uploads_move (mm_uploads s) (mm_uploads (fst (reap_expired now limit s)))"
  "uploads_move (mm_uploads s) (mm_uploads (fst (audit entry s)))"
  by (simp_all add: create_def delete_terminal_upload_def retire_terminal_uploads_def
        reap_expired_def audit_def Let_def case_prod_unfold uploads_move_fresh uploads_move_remove
        remove_uploads_move expire_uploads_move split: sum.split)

lemma memory_step_move:
  "fresh_create op s \<Longrightarrow> uploads_move (mm_uploads s) (mm_uploads (memory_step q op_id op s))"
  by (cases op) (simp_all add: upload_moves abort_move completion_moves acquire_completion_move commit_part_move
    begin_part_move replace_part_move confirm_artifact_deleted_move discard_pending_def)

text \<open>One step of the repository, as the contract of \<open>Upload_Lifecycle\<close> sees it.\<close>

definition memory_moves ::
  "staging_quota_limits \<Rightarrow> (multipart_identity \<Rightarrow> string \<Rightarrow> uuid) \<Rightarrow> memory_state \<Rightarrow> memory_state \<Rightarrow> bool" where
  "memory_moves q op_id s s' \<longleftrightarrow> (\<exists>op. fresh_create op s \<and> s' = memory_step q op_id op s)"

definition memory_upload :: "string \<Rightarrow> memory_state \<Rightarrow> multipart_upload option" where
  "memory_upload i s = hm_get (mm_uploads s) i"

interpretation mem: upload_machine "memory_moves q op_id" "memory_upload i" for q op_id i
proof
  fix s s' u u' r
  assume step: "memory_moves q op_id s s'" and u: "memory_upload i s = Some u" and u': "memory_upload i s' = Some u'"
  from step have "uploads_move (mm_uploads s) (mm_uploads s')"
    by (auto simp: memory_moves_def memory_step_move)
  with u u' have "upload_step u u' \<and> (\<forall>r. settled_as r u \<longrightarrow> settled_as r u')"
    by (simp add: uploads_move_def memory_upload_def)
  then show "upload_step u u'" and "settled_as r u \<Longrightarrow> settled_as r u'" by auto
qed

lemma confirm_artifact_deleted_attempts:
  "mm_attempts (fst (confirm_artifact_deleted k clock s)) = hm_remove k (mm_attempts s)"
proof (cases "hm_get (mm_attempts s) k")
  case None
  then have "hm_remove k (mm_attempts s) = mm_attempts s"
    by (simp add: hm_get_def hm_remove_def map_of_eq_None_iff delete_id)
  with None show ?thesis by (simp add: confirm_artifact_deleted_def)
qed (simp add: confirm_artifact_deleted_def Let_def split: option.split)

lemma remove_uploads_get:
  "hm_get (mm_uploads (fst (remove_uploads ids s))) j
     = (if j \<in> set ids then None else hm_get (mm_uploads s) j)"
  by (induction ids s rule: remove_uploads.induct)
    (auto simp: map_laws Let_def case_prod_unfold split: option.split)

section \<open>Properties\<close>


definition ex_memory :: memory_state where
  "ex_memory = memory_step \<lparr>ql_tenant_bytes = 50, ql_global_bytes = 80\<rparr> (\<lambda>_ _. 9)
     (BeginPart (up_identity (ex_listed ''k'' ''u'')) 1 10 5 ''a'')
     (memory_step \<lparr>ql_tenant_bytes = 50, ql_global_bytes = 80\<rparr> (\<lambda>_ _. 9)
        (CreateUpload (ex_listed ''k'' ''u'')) memory_state_default)"

lemma ex_memory_reachable:
  "memory_reachable \<lparr>ql_tenant_bytes = 50, ql_global_bytes = 80\<rparr> (\<lambda>_ _. 9) ex_memory"
  unfolding ex_memory_def
  by (intro memory_reachable.intros) (simp_all add: memory_state_default_def ex_listed_def create_def
        MAX_ACTIVE_UPLOADS_def put_upload_def map_laws hm_values_def)

lemma ex_memory_upload:
  "hm_get (mm_uploads ex_memory) ''u'' = Some ((ex_listed ''k'' ''u'')\<lparr>up_reserved_bytes := 10, up_updated_at_ms := 5\<rparr>)"
  by code_simp



lemma ex_memory_run:
  "memory_moves q op_id ex_memory (memory_step q op_id (AbortUpload (up_identity (ex_listed ''k'' ''u'')) 6) ex_memory)"
  unfolding memory_moves_def by (rule exI [of _ "AbortUpload (up_identity (ex_listed ''k'' ''u'')) 6"]) simp

lemma ex_memory_aborted:
  "map_option up_lifecycle (memory_upload ''u''
     (memory_step q op_id (AbortUpload (up_identity (ex_listed ''k'' ''u'')) 6) ex_memory)) = Some Aborted"
  by code_simp


text \<open>
  Uploads are isolated. An operation called with an identity (tenant,
  credential policy, bucket, key, upload id) that is not exactly the stored one
  fails as if the upload did not exist and changes nothing.
\<close>

theorem memory_isolates_identities:
  assumes "\<And>u. hm_get (mm_uploads s) (id_upload_id identity) = Some u \<Longrightarrow> up_identity u \<noteq> identity"
    and "0 < n" "n \<le> MAX_PARTS"
  shows "get_authorized identity s = (s, Inl NotFound)
    \<and> begin_part q identity n bytes now uuid s = (s, Inl NotFound)
    \<and> list_parts identity n limit s = (s, Inl NotFound)
    \<and> acquire_completion identity fp ps owner lease now s = (s, Inl NotFound)
    \<and> renew_completion identity token lease now s = (s, Inl NotFound)
    \<and> check_completion_lease identity token now s = (s, Inl NotFound)
    \<and> begin_destination_commit op_id identity fp token (op_id identity fp) now s = (s, Inl NotFound)
    \<and> complete_completion identity permit result now s = (s, Inl NotFound)
    \<and> clear_destination_commit_reference identity op s = (s, Inl NotFound)
    \<and> delete_terminal_upload identity s = (s, Inl NotFound)
    \<and> abort identity now s = (s, Inl (PreMutation NotFound))
    \<and> (\<exists>e. commit_part identity pending part now s = (s, Inl e))
    \<and> (\<exists>e. replace_part identity part now s = (s, Inl e))"
proof -
  have denied: "authorized_upload s identity = Inl NotFound"
    using assms(1) by (auto simp: authorized_upload_def split: option.split)
  have "n \<noteq> 0" "\<not> MAX_PARTS < n" using assms(2,3) by auto
  moreover have "\<exists>e. commit_part identity pending part now s = (s, Inl e)"
    "\<exists>e. replace_part identity part now s = (s, Inl e)"
    by (simp_all add: commit_part_def replace_part_def denied Let_def)
  ultimately show ?thesis
    by (simp add: denied get_authorized_def begin_part_def list_parts_def acquire_completion_def
          renew_completion_def check_completion_lease_def begin_destination_commit_def
          complete_completion_def clear_destination_commit_reference_def delete_terminal_upload_def
          abort_def result_simps)
qed

theorem memory_isolates_identities_witness:
  "get_authorized ((up_identity (ex_listed ''k'' ''u''))\<lparr>id_tenant_id := ''other''\<rparr>) ex_memory
     = (ex_memory, Inl NotFound)"
  using memory_isolates_identities
    [of ex_memory "(up_identity (ex_listed ''k'' ''u''))\<lparr>id_tenant_id := ''other''\<rparr>" 1]
  by (auto simp: ex_memory_upload ex_listed_def MAX_PARTS_def)

text \<open>
  Confirming that an artifact was deleted never fails in a reachable state.
  Afterwards neither an attempt nor a part refers to the artifact, and its upload
  is charged exactly the bytes of the attempts that remain.
\<close>

theorem memory_deletion_releases_bytes:
  assumes "memory_reachable q op_id s" "confirm_artifact_deleted k clock s = (s', r)"
  shows "r = Inr () \<and> hm_get (mm_attempts s') k = None
    \<and> (\<forall>n p. hm_get (mm_parts s') n = Some p \<longrightarrow> mp_artifact_key p \<noteq> k)
    \<and> (\<forall>i u. hm_get (mm_uploads s') i = Some u \<longrightarrow>
         charged u = hm_sum (pending_bytes i) (hm_remove k (mm_attempts s))
                       + hm_sum (stored_bytes i) (hm_remove k (mm_attempts s)))"
proof -
  note inv = memory_reachable_inv [OF assms(1)]
  from confirm_artifact_deleted_inv [OF inv, of k clock] assms(2)
  have inv': "mem_inv q s'" and r: "r = Inr ()" by simp_all
  have attempts: "mm_attempts s' = hm_remove k (mm_attempts s)"
    using assms(2) confirm_artifact_deleted_attempts [of k clock s] by simp
  have gone: "hm_get (mm_attempts s') k = None" by (simp add: attempts map_laws)
  have parts: "mp_artifact_key p \<noteq> k" if "hm_get (mm_parts s') n = Some p" for n p
    using parts_of [OF inv' that] gone by force
  have bytes: "charged u = hm_sum (pending_bytes i) (hm_remove k (mm_attempts s))
      + hm_sum (stored_bytes i) (hm_remove k (mm_attempts s))" if "hm_get (mm_uploads s') i = Some u" for i u
    using accounts_of(1,2) [OF inv' that] by (simp add: charged_def attempts)
  show ?thesis
    by (intro conjI allI impI) (rule r, rule gone, erule parts, erule bytes)
qed

theorem memory_deletion_releases_bytes_witness:
  "snd (confirm_artifact_deleted (part_artifact_key (up_identity (ex_listed ''k'' ''u'')) 1 ''a'') 7 ex_memory) = Inr ()"
  using memory_deletion_releases_bytes [OF ex_memory_reachable surjective_pairing] by blast

text \<open>
  Retirement removes only uploads that are over: each one retired had ended,
  its tombstone had passed, it held no reference to a destination commit, and no
  attempt, part or pending reservation of it was left. No other upload changes.
\<close>

theorem memory_retires_only_cleaned:
  assumes "memory_reachable q op_id s"
    and "hm_get (mm_uploads s) i = Some u"
    and "hm_get (mm_uploads (fst (retire_terminal_uploads now limit s))) i \<noteq> Some u"
  shows "hm_get (mm_uploads (fst (retire_terminal_uploads now limit s))) i = None
    \<and> lifecycle_final (up_lifecycle u)
    \<and> (\<exists>until. up_tombstone_until_ms u = Some until \<and> until \<le> now)
    \<and> up_destination_operation_id u = None
    \<and> \<not> artifacts_remain s i"
proof -
  have wf: "mem_wf s" using memory_reachable_inv [OF assms(1)] by (simp add: mem_inv_def)
  let ?done = "\<lambda>v. tombstone_passed now v \<and> \<not> artifacts_remain s (id_upload_id (up_identity v))
     \<and> up_destination_operation_id v = None"
  let ?ids = "map (\<lambda>v. id_upload_id (up_identity v)) (take limit (filter ?done (hm_values (mm_uploads s))))"
  have out: "hm_get (mm_uploads (fst (retire_terminal_uploads now limit s))) j
      = (if j \<in> set ?ids then None else hm_get (mm_uploads s) j)" for j
    by (simp add: retire_terminal_uploads_def Let_def case_prod_unfold remove_uploads_get)
  with assms(2,3) have gone: "i \<in> set ?ids" by (auto split: if_splits)
  then obtain v where taken: "v \<in> set (take limit (filter ?done (hm_values (mm_uploads s))))"
      and i: "id_upload_id (up_identity v) = i"
    unfolding set_map by blast
  from in_set_takeD [OF taken] i have v: "?done v" "id_upload_id (up_identity v) = i"
      and member: "v \<in> set (hm_values (mm_uploads s))" by simp_all
  from member obtain j where "(j, v) \<in> set (mm_uploads s)" by (auto simp: hm_values_def)
  with wf have "hm_get (mm_uploads s) j = Some v" by (simp add: mem_wf_def hm_get_mem)
  moreover from this v wf have "j = i" by (auto simp: mem_wf_def)
  ultimately have "v = u" using assms(2) by simp
  with v gone out show ?thesis
    by (auto simp: tombstone_passed_def ended_def lifecycle_final_def split: option.splits)
qed

definition ex_over :: memory_state where
  "ex_over = memory_step \<lparr>ql_tenant_bytes = 50, ql_global_bytes = 80\<rparr> (\<lambda>_ _. 9)
     (AbortUpload (up_identity (ex_listed ''k'' ''u'')) 6)
     (memory_step \<lparr>ql_tenant_bytes = 50, ql_global_bytes = 80\<rparr> (\<lambda>_ _. 9)
        (CreateUpload (ex_listed ''k'' ''u'')) memory_state_default)"

lemma ex_over_reachable:
  "memory_reachable \<lparr>ql_tenant_bytes = 50, ql_global_bytes = 80\<rparr> (\<lambda>_ _. 9) ex_over"
  unfolding ex_over_def
  by (intro memory_reachable.intros) (simp_all add: memory_state_default_def ex_listed_def map_laws)

lemma ex_over_retired:
  "hm_get (mm_uploads ex_over) ''u'' \<noteq> None
   \<and> hm_get (mm_uploads (fst (retire_terminal_uploads 100000000 5 ex_over))) ''u'' = None"
  by code_simp

theorem memory_retires_only_cleaned_witness:
  "\<not> artifacts_remain ex_over ''u''"
proof -
  obtain u where u: "hm_get (mm_uploads ex_over) ''u'' = Some u" using ex_over_retired by auto
  moreover have "hm_get (mm_uploads (fst (retire_terminal_uploads 100000000 5 ex_over))) ''u'' \<noteq> Some u"
    using ex_over_retired by simp
  ultimately show ?thesis using memory_retires_only_cleaned [OF ex_over_reachable] by blast
qed

text \<open>
  C39: A late commit damages the part it would have replaced. When the pending
  reservation is gone (reconciled away after the grace period), \<open>commit_part\<close> reports \<open>NotFound\<close>, but the attempt of the part that
  is current has by then been marked retired: the part is still listed as
  current, and its artifact is handed to the cleanup worker.
\<close>

theorem late_commit_retires_current_part:
  assumes upload: "hm_get (mm_uploads s) (id_upload_id identity) = Some u" "up_identity u = identity"
      "up_lifecycle u = Open"
    and matching: "mp_upload_id part = pp_upload_id pending" "mp_part_number part = pp_part_number pending"
      "mp_attempt part = pp_attempt pending" "mp_artifact_key part = pp_artifact_key pending"
      "mp_size_bytes part \<le> pp_reserved_bytes pending"
    and gone: "hm_get (mm_attempts s) (pp_artifact_key pending) = None"
    and current: "hm_get (mm_parts s) (id_upload_id identity, mp_part_number part) = Some old"
      "hm_get (mm_attempts s) (mp_artifact_key old) = Some a"
      "mp_upload_id (ma_part a) = id_upload_id identity"
  shows "\<exists>s'. commit_part identity pending part clock s = (s', Inl NotFound)
    \<and> hm_get (mm_parts s') (id_upload_id identity, mp_part_number part) = Some old
    \<and> (\<exists>candidates. cleanup_candidates now (length (mm_attempts s')) s' = (s', Inr candidates)
         \<and> mp_artifact_key old \<in> cc_artifact_key ` set candidates)"
proof -
  let ?k = "mp_artifact_key old" and ?a = "a\<lparr>ma_lifecycle := ''RETIRED''\<rparr>"
  let ?s = "s\<lparr>mm_attempts := hm_insert ?k ?a (mm_attempts s)\<rparr>"
  have auth: "authorized_upload s identity = Inr u" using upload by (simp add: authorized_Inr)
  have differs: "?k \<noteq> pp_artifact_key pending" using gone current by auto
  have commit: "commit_part identity pending part clock s = (?s, Inl NotFound)"
    using matching upload(3) differs
    by (simp add: commit_part_def auth Let_def current(2,3) current(1) [unfolded matching(2)] retire_old_attempt_def map_laws gone not_less [symmetric])
  have "hm_get (mm_attempts ?s) ?k = Some ?a" by (simp add: map_laws)
  then have "(?k, ?a) \<in> set (mm_attempts ?s)" unfolding hm_get_def by (rule map_of_SomeD)
  moreover have "cleanup_candidate_of now ?s (?k, ?a)
      = Some \<lparr>cc_upload_id = id_upload_id identity, cc_artifact_key = ?k\<rparr>"
    by (simp add: cleanup_candidate_of_def current upload Let_def)
  ultimately have "\<lparr>cc_upload_id = id_upload_id identity, cc_artifact_key = ?k\<rparr>
      \<in> set (List.map_filter (cleanup_candidate_of now ?s) (mm_attempts ?s))"
    unfolding set_map_filter by blast
  then have "?k \<in> cc_artifact_key ` set (List.map_filter (cleanup_candidate_of now ?s) (mm_attempts ?s))"
    by (metis cleanup_candidate.select_convs(2) image_eqI)
  moreover have "take (length xs) (List.map_filter f xs) = List.map_filter f xs"
    for f :: "string \<times> memory_attempt \<Rightarrow> cleanup_candidate option" and xs
    by (simp add: List.map_filter_def)
  ultimately show ?thesis
    by (intro exI [of _ ?s]) (simp add: commit cleanup_candidates_def current)
qed

definition ex_current :: multipart_part where
  "ex_current = \<lparr>mp_upload_id = ''u'', mp_part_number = 1, mp_attempt = 1, mp_artifact_key = ''a'',
     mp_etag = ''e'', mp_checksum_sha256 = ''c'', mp_size_bytes = 7, mp_created_at_ms = 1\<rparr>"

definition ex_replaced :: memory_state where
  "ex_replaced = \<lparr>mm_uploads = [(''u'', (ex_listed ''k'' ''u'')\<lparr>up_staged_bytes := 7\<rparr>)],
     mm_parts = [((''u'', 1), ex_current)],
     mm_attempts = [(''a'', \<lparr>ma_part = ex_current, ma_reserved_bytes = 0, ma_lifecycle = ''CURRENT''\<rparr>)],
     mm_audits = [], mm_pending = []\<rparr>"

theorem late_commit_retires_current_part_witness:
  "\<exists>s'. commit_part (up_identity (ex_listed ''k'' ''u''))
       \<lparr>pp_upload_id = ''u'', pp_part_number = 1, pp_attempt = 2, pp_artifact_key = ''b'', pp_reserved_bytes = 9\<rparr>
       (ex_current\<lparr>mp_attempt := 2, mp_artifact_key := ''b''\<rparr>) 8 ex_replaced = (s', Inl NotFound)
     \<and> hm_get (mm_parts s') (''u'', 1) = Some ex_current"
  using late_commit_retires_current_part [of ex_replaced "up_identity (ex_listed ''k'' ''u'')"
      "(ex_listed ''k'' ''u'')\<lparr>up_staged_bytes := 7\<rparr>" "ex_current\<lparr>mp_attempt := 2, mp_artifact_key := ''b''\<rparr>"
      "\<lparr>pp_upload_id = ''u'', pp_part_number = 1, pp_attempt = 2, pp_artifact_key = ''b'', pp_reserved_bytes = 9\<rparr>"
      ex_current "\<lparr>ma_part = ex_current, ma_reserved_bytes = 0, ma_lifecycle = ''CURRENT''\<rparr>" 8]
  by (auto simp: ex_replaced_def ex_current_def ex_listed_def hm_get_def)

text \<open>
  Creating an upload under an id that is taken reports the duplicate, but the
  stored upload has been replaced by the new one.
\<close>

theorem duplicate_create_overwrites:
  assumes "hm_get (mm_uploads s) (id_upload_id (up_identity u)) = Some old"
    and "hm_sum (tenant_open (id_tenant_id (up_identity u))) (mm_uploads s) < 16"
  shows "\<exists>s'. create u s = (s', Inl (Persistence ''duplicate upload id''))
    \<and> hm_get (mm_uploads s') (id_upload_id (up_identity u)) = Some u"
  using assms by (auto simp: create_def Let_def active_count MAX_ACTIVE_UPLOADS_def map_laws)

theorem duplicate_create_overwrites_witness:
  "\<exists>s'. create ((ex_listed ''k2'' ''u'')) ex_memory = (s', Inl (Persistence ''duplicate upload id''))
    \<and> hm_get (mm_uploads s') ''u'' = Some (ex_listed ''k2'' ''u'')"
proof -
  have "hm_sum (tenant_open ''t'') (mm_uploads ex_memory) < 16" by code_simp
  then show ?thesis
    using duplicate_create_overwrites [of ex_memory "ex_listed ''k2'' ''u''"] ex_memory_upload
    by (auto simp: ex_listed_def)
qed

end
