(* ===== verification/Byte_Codec.thy ===== *)
theory Byte_Codec
  imports Prelude
begin

text \<open>
  Byte-level encodings shared by the persistence and identity code: big-endian
  integers (\<open>to_be_bytes\<close>, \<open>from_be_bytes\<close>), the bytes of a string, and
  sequences of length-prefixed fields.
\<close>

named_theorems codec_laws \<open>lengths and round trips of byte encodings\<close>

section \<open>Big-endian integers\<close>

fun be_bytes :: "nat \<Rightarrow> nat \<Rightarrow> bytes" where
  "be_bytes 0 n = []"
| "be_bytes (Suc k) n = be_bytes k (n div 256) @ [of_nat n]"

definition from_be :: "bytes \<Rightarrow> nat" where
  "from_be bs = foldl (\<lambda>acc b. acc * 256 + unat b) 0 bs"

lemma length_be_bytes [simp, codec_laws]: "length (be_bytes k n) = k"
  by (induction k n rule: be_bytes.induct) simp_all

lemma from_be_snoc [simp]: "from_be (bs @ [b]) = from_be bs * 256 + unat b"
  by (simp add: from_be_def)

lemma from_be_Nil [simp]: "from_be [] = 0"
  by (simp add: from_be_def)

lemma unat_byte: "unat (of_nat n :: 8 word) = n mod 256"
  by (simp add: unat_of_nat)

lemma from_be_bytes: "from_be (be_bytes k n) = n mod 256 ^ k"
proof (induction k n rule: be_bytes.induct)
  case (2 k n)
  have "n mod (256 * 256 ^ k) = n mod 256 + 256 * (n div 256 mod 256 ^ k)"
    using mod_mult2_eq [of n 256 "256 ^ k"] by simp
  with 2 show ?case by (simp add: unat_byte)
qed simp

lemma from_be_bytes_exact [codec_laws]: "n < 256 ^ k \<Longrightarrow> from_be (be_bytes k n) = n"
  by (simp add: from_be_bytes)

lemma be_bytes_from_be [codec_laws]: "be_bytes (length bs) (from_be bs) = bs"
proof (induction bs rule: rev_induct)
  case (snoc b bs)
  have "unat b < 256" using unat_lt_pow [of b] by simp
  then have "(from_be bs * 256 + unat b) div 256 = from_be bs" by simp
  moreover have "of_nat (from_be bs * 256 + unat b) = b"
  proof -
    have "unat (of_nat (from_be bs * 256 + unat b) :: 8 word) = unat b"
      using \<open>unat b < 256\<close> unfolding unat_byte by simp
    then show ?thesis by (rule unsigned_word_eqI)
  qed
  ultimately show ?case using snoc by simp
qed simp

definition u64_be :: "u64 \<Rightarrow> bytes" where
  "u64_be w = be_bytes 8 (unat w)"

definition u64_from_be :: "bytes \<Rightarrow> u64" where
  "u64_from_be bs = of_nat (from_be bs)"

definition u32_be :: "u32 \<Rightarrow> bytes" where
  "u32_be w = be_bytes 4 (unat w)"

definition u32_from_be :: "bytes \<Rightarrow> u32" where
  "u32_from_be bs = of_nat (from_be bs)"

lemma length_word_be [simp, codec_laws]: "length (u64_be w) = 8" "length (u32_be v) = 4"
  by (simp_all add: u64_be_def u32_be_def)

lemma word_be_roundtrip [simp, codec_laws]: "u64_from_be (u64_be w) = w" "u32_from_be (u32_be v) = v"
  using unat_lt_pow [of w] unat_lt_pow [of v]
  by (simp_all add: u64_be_def u64_from_be_def u32_be_def u32_from_be_def from_be_bytes_exact)

definition uuid_bytes :: "uuid \<Rightarrow> bytes" where
  "uuid_bytes i = be_bytes 16 (unat i)"

lemma length_uuid_bytes [simp, codec_laws]: "length (uuid_bytes i) = 16"
  by (simp add: uuid_bytes_def)

lemma uuid_bytes_inject [simp]: "uuid_bytes i = uuid_bytes j \<longleftrightarrow> i = j"
proof
  assume "uuid_bytes i = uuid_bytes j"
  then have "from_be (uuid_bytes i) = from_be (uuid_bytes j)" by simp
  then have "unat i = unat j"
    using unat_lt_pow [of i] unat_lt_pow [of j] by (simp add: uuid_bytes_def from_be_bytes_exact)
  then show "i = j" by (rule unsigned_word_eqI)
qed simp

section \<open>Strings\<close>

definition str_bytes :: "string \<Rightarrow> bytes" where
  "str_bytes s = map (\<lambda>c. of_nat (of_char c)) s"

lemma length_str_bytes [simp, codec_laws]: "length (str_bytes s) = length s"
  by (simp add: str_bytes_def)

lemma of_char_byte_inject: "(of_nat (of_char c) :: 8 word) = of_nat (of_char d) \<longleftrightarrow> c = d"
proof
  assume "(of_nat (of_char c) :: 8 word) = of_nat (of_char d)"
  then have "of_char c mod 256 = (of_char d mod 256 :: nat)"
    by (metis unat_byte)
  then show "c = d" by simp
qed simp

lemma str_bytes_inject [simp]: "str_bytes s = str_bytes t \<longleftrightarrow> s = t"
  unfolding str_bytes_def by (rule inj_map_eq_map) (simp add: inj_on_def of_char_byte_inject)

section \<open>Length-prefixed fields\<close>

definition lp_field :: "bytes \<Rightarrow> bytes" where
  "lp_field f = u64_be (of_nat (length f)) @ f"

lemma lp_field_prefix_free:
  assumes "lp_field f @ r = lp_field g @ q" "length f < 2 ^ 64" "length g < 2 ^ 64"
  shows "f = g \<and> r = q"
proof -
  from assms(1) have len: "u64_be (of_nat (length f)) = u64_be (of_nat (length g))" and rest: "f @ r = g @ q"
    by (auto simp: lp_field_def append_eq_append_conv)
  from len have "(of_nat (length f) :: u64) = of_nat (length g)"
    by (metis word_be_roundtrip(1))
  then have "unat (of_nat (length f) :: u64) = unat (of_nat (length g) :: u64)" by simp
  with assms(2,3) have "length f = length g" by (simp add: unat_of_nat)
  with rest show ?thesis by simp
qed

lemma lp_fields_inject:
  assumes "concat (map lp_field fs) = concat (map lp_field gs)" "length fs = length gs"
    "\<forall>f \<in> set fs. length f < 2 ^ 64" "\<forall>g \<in> set gs. length g < 2 ^ 64"
  shows "fs = gs"
  using assms(2,1,3,4)
proof (induction fs gs rule: list_induct2)
  case (Cons f fs g gs)
  then show ?case using lp_field_prefix_free [of f "concat (map lp_field fs)" g "concat (map lp_field gs)"] by auto
qed simp

end
