(* ===== verification/Operation_Types.thy ===== *)
theory Operation_Types
  imports Byte_Codec
begin

text \<open>
  The vocabulary of durable destination operations
  (\<open>crates/gateway/src/transaction/mod.rs\<close>): the operation state machine and its
  textual names, operation, part and evidence records, the stable identity of a
  physical child operation, and the capabilities a backend needs for streaming
  writes. The clock and fresh UUIDs are arguments; UUID version 5 (a library
  hash) is the argument \<open>new_v5\<close>. Error values keep the source's constructors and
  their message without the interpolated identifiers.
\<close>

named_theorems operation_simps \<open>the operation state machine\<close>

section \<open>Operation states\<close>

datatype operation_state =
    Intent
  | Open
  | Completing
  | CommitUnknown
  | Committed
  | Aborting
  | ProvenAborted

datatype journal_error =
    NotFound uuid
  | Conflict string
  | Corrupt string
  | Persistence string

definition ALL_STATES :: "operation_state list" where
  "ALL_STATES = [Intent, Open, Completing, CommitUnknown, Committed, Aborting, ProvenAborted]"

fun as_str :: "operation_state \<Rightarrow> string" where
  "as_str Intent = ''INTENT''"
| "as_str Open = ''OPEN''"
| "as_str Completing = ''COMPLETING''"
| "as_str CommitUnknown = ''COMMIT_UNKNOWN''"
| "as_str Committed = ''COMMITTED''"
| "as_str Aborting = ''ABORTING''"
| "as_str ProvenAborted = ''PROVEN_ABORTED''"

definition parse_state :: "string \<Rightarrow> journal_error + operation_state" where
  "parse_state value =
     ok_or (Corrupt ''unknown operation state'') (find (\<lambda>state. as_str state = value) ALL_STATES)"

fun can_transition_to :: "operation_state \<Rightarrow> operation_state \<Rightarrow> bool" where
  "can_transition_to Intent next = (next = Open \<or> next = Aborting)"
| "can_transition_to Open next = (next = Completing \<or> next = Aborting)"
| "can_transition_to Completing next =
     (next = Committed \<or> next = CommitUnknown \<or> next = ProvenAborted)"
| "can_transition_to CommitUnknown next = (next = Committed \<or> next = ProvenAborted)"
| "can_transition_to Aborting next = (next = ProvenAborted)"
| "can_transition_to Committed next = False"
| "can_transition_to ProvenAborted next = False"

definition operation_is_terminal :: "operation_state \<Rightarrow> bool" where
  "operation_is_terminal state \<longleftrightarrow> state = Committed \<or> state = ProvenAborted"

section \<open>Records\<close>

record workspace_destination_binding =
  wb_backend_config_version :: string
  wb_capability_attestation_id :: string
  wb_routing_epoch :: u64
  wb_routing_lease_id :: uuid
  wb_routing_fencing_token :: u64

record object_destination =
  od_backend_id :: string
  od_bucket :: string
  od_logical_key :: string
  od_physical_key :: string
  od_workspace_binding :: "workspace_destination_binding option"

record expected_object =
  eo_digest :: "string option"
  eo_size :: "u64 option"
  eo_metadata :: "(string \<times> string) list"

record stored_object_meta =
  om_etag :: "string option"
  om_version_id :: "string option"
  om_superseded_version_ids :: "string list"
  om_version_history_complete :: bool

record operation_record =
  or_id :: uuid
  or_state :: operation_state
  or_destination :: object_destination
  or_tenant_id :: "string option"
  or_namespace_epoch :: "u64 option"
  or_expected :: expected_object
  or_upload_id :: "string option"
  or_client_multipart_upload_id :: "string option"
  or_committed :: "stored_object_meta option"
  or_lease_owner :: "string option"
  or_lease_expires_at_ms :: "i64 option"
  or_mutation_not_before_ms :: "i64 option"
  or_exact_absence_observed_at_ms :: "i64 option"
  or_created_at_ms :: i64
  or_updated_at_ms :: i64

record managed_operation_scope =
  mo_operation_id :: uuid
  mo_tenant_id :: string
  mo_namespace_epoch :: u64

record direct_operation_scope =
  do_operation_id :: uuid
  do_tenant_id :: string

text \<open>Part numbers are \<open>i32\<close>.\<close>

record part_record =
  pr_operation_id :: uuid
  pr_part_number :: int
  pr_etag :: string
  pr_size_bytes :: u64
  pr_digest :: string
  pr_created_at_ms :: i64

record evidence_record =
  er_id :: uuid
  er_operation_id :: uuid
  er_kind :: string
  er_detail :: json
  er_created_at_ms :: i64

definition evidence_new :: "uuid \<Rightarrow> i64 \<Rightarrow> uuid \<Rightarrow> string \<Rightarrow> json \<Rightarrow> evidence_record" where
  "evidence_new fresh now operation_id kind detail =
     \<lparr>er_id = fresh, er_operation_id = operation_id, er_kind = kind, er_detail = detail,
      er_created_at_ms = now\<rparr>"

definition operation_intent ::
  "uuid \<Rightarrow> i64 \<Rightarrow> object_destination \<Rightarrow> expected_object \<Rightarrow> operation_record" where
  "operation_intent fresh now destination expected =
     \<lparr>or_id = fresh, or_state = Intent, or_destination = destination, or_tenant_id = None,
      or_namespace_epoch = None, or_expected = expected, or_upload_id = None,
      or_client_multipart_upload_id = None, or_committed = None, or_lease_owner = None,
      or_lease_expires_at_ms = None, or_mutation_not_before_ms = None,
      or_exact_absence_observed_at_ms = None, or_created_at_ms = now, or_updated_at_ms = now\<rparr>"

definition scoped_intent ::
  "uuid \<Rightarrow> i64 \<Rightarrow> uuid \<Rightarrow> object_destination \<Rightarrow> expected_object \<Rightarrow> string \<Rightarrow> u64 \<Rightarrow> operation_record" where
  "scoped_intent fresh now operation_id destination expected tenant_id namespace_epoch =
     (operation_intent fresh now destination expected)
       \<lparr>or_id := operation_id, or_tenant_id := Some tenant_id, or_namespace_epoch := Some namespace_epoch\<rparr>"

definition direct_intent ::
  "uuid \<Rightarrow> i64 \<Rightarrow> direct_operation_scope \<Rightarrow> object_destination \<Rightarrow> expected_object \<Rightarrow> operation_record" where
  "direct_intent fresh now scope destination expected =
     (operation_intent fresh now destination expected)
       \<lparr>or_id := do_operation_id scope, or_tenant_id := Some (do_tenant_id scope)\<rparr>"

section \<open>Child operations\<close>

datatype managed_child_role = Primary | Replica | Repair

fun role_str :: "managed_child_role \<Rightarrow> string" where
  "role_str Primary = ''primary''"
| "role_str Replica = ''replica''"
| "role_str Repair = ''repair''"

definition CHILD_OPERATION_NAMESPACE :: uuid where
  "CHILD_OPERATION_NAMESPACE = 0x36665f7a4b5452d3a8d0caf2130e1eb2"

text \<open>The length-prefixed name that is hashed.\<close>

definition child_identity :: "uuid \<Rightarrow> object_destination \<Rightarrow> managed_child_role \<Rightarrow> bytes" where
  "child_identity parent_operation_id destination role =
     concat (map lp_field
       [uuid_bytes parent_operation_id, str_bytes (od_backend_id destination),
        str_bytes (od_bucket destination), str_bytes (od_logical_key destination),
        str_bytes (od_physical_key destination), str_bytes (role_str role)])"

definition deterministic_child ::
  "(uuid \<Rightarrow> bytes \<Rightarrow> uuid) \<Rightarrow> uuid \<Rightarrow> string \<Rightarrow> u64 \<Rightarrow> object_destination \<Rightarrow> managed_child_role
     \<Rightarrow> managed_operation_scope" where
  "deterministic_child new_v5 parent_operation_id tenant_id namespace_epoch destination role =
     \<lparr>mo_operation_id = new_v5 CHILD_OPERATION_NAMESPACE
        (child_identity parent_operation_id destination role),
      mo_tenant_id = tenant_id, mo_namespace_epoch = namespace_epoch\<rparr>"

section \<open>Backend capabilities\<close>

datatype incomplete_upload_discovery = DiscoveryUnsupported | ExactKeyAndStartTime | OperationIdentity

datatype completion_reconciliation = ReconciliationUnsupported | HeadWithOperationIdentity

datatype versioning_capability = VersioningUnsupported | VersioningOptional | VersioningRequired

datatype conditional_read_capability = ConditionalUnsupported | Etag | VersionAndEtag

datatype response_checksum_capability = ChecksumUnsupported | ChecksumStandard

datatype list_capability = ListUnsupported | V1AndV2

datatype multipart_response_capability = MultipartUnsupported | MultipartStandard

text \<open>Durations in milliseconds.\<close>

definition MAX_RECONCILIATION_SLA :: nat where
  "MAX_RECONCILIATION_SLA = 5 * 60 * 1000"

definition EXACT_ABSENCE_CONFIRMATION_DELAY :: nat where
  "EXACT_ABSENCE_CONFIRMATION_DELAY = 5 * 1000"

record backend_capabilities =
  bc_incomplete_upload_discovery :: incomplete_upload_discovery
  bc_abort_incomplete_upload :: bool
  bc_cleanup_sla :: "nat option"
  bc_lifecycle_rule :: bool
  bc_versioning :: versioning_capability
  bc_conditional_reads :: conditional_read_capability
  bc_response_checksums :: response_checksum_capability
  bc_list_operations :: list_capability
  bc_multipart_responses :: multipart_response_capability
  bc_completion_reconciliation :: completion_reconciliation

datatype capability_error =
    MissingIncompleteUploadDiscovery
  | MissingIncompleteUploadAbort
  | MissingCompletionReconciliation
  | CleanupSlaExceeded

definition streaming_eligibility :: "backend_capabilities \<Rightarrow> capability_error + unit" where
  "streaming_eligibility caps =
     (if bc_incomplete_upload_discovery caps = DiscoveryUnsupported then Inl MissingIncompleteUploadDiscovery
      else if \<not> bc_abort_incomplete_upload caps then Inl MissingIncompleteUploadAbort
      else if bc_completion_reconciliation caps = ReconciliationUnsupported
      then Inl MissingCompletionReconciliation
      else case bc_cleanup_sla caps of
        Some sla \<Rightarrow> if sla \<le> MAX_RECONCILIATION_SLA then Inr () else Inl CleanupSlaExceeded
      | None \<Rightarrow> Inl CleanupSlaExceeded)"

definition supports_conditional_reads :: "backend_capabilities \<Rightarrow> bool" where
  "supports_conditional_reads caps \<longleftrightarrow> bc_conditional_reads caps \<noteq> ConditionalUnsupported"

definition supports_response_checksums :: "backend_capabilities \<Rightarrow> bool" where
  "supports_response_checksums caps \<longleftrightarrow> bc_response_checksums caps = ChecksumStandard"

section \<open>Lemmas\<close>

lemma as_str_inject [simp]: "as_str a = as_str b \<longleftrightarrow> a = b"
  by (cases a; cases b) simp_all

lemma ALL_STATES_complete [simp]: "state \<in> set ALL_STATES"
  by (cases state) (simp_all add: ALL_STATES_def)

lemma terminal_absorbing [operation_simps]: "operation_is_terminal state \<Longrightarrow> \<not> can_transition_to state next"
  by (auto simp: operation_is_terminal_def)

lemma not_terminal_progress [operation_simps]: "\<not> operation_is_terminal state \<Longrightarrow> \<exists>next. can_transition_to state next"
  by (cases state) (auto simp: operation_is_terminal_def)

lemma no_return: "can_transition_to\<^sup>+\<^sup>+ a b \<Longrightarrow> a \<noteq> b"
proof -
  define rank :: "operation_state \<Rightarrow> nat" where
    "rank = (\<lambda>s. case s of Intent \<Rightarrow> 0 | Open \<Rightarrow> 1 | Completing \<Rightarrow> 2 | CommitUnknown \<Rightarrow> 3
                     | Aborting \<Rightarrow> 2 | Committed \<Rightarrow> 4 | ProvenAborted \<Rightarrow> 4)"
  have step: "can_transition_to a b \<Longrightarrow> rank a < rank b" for a b
    by (cases a; cases b) (simp_all add: rank_def)
  assume "can_transition_to\<^sup>+\<^sup>+ a b"
  then have "rank a < rank b"
    by (induction rule: tranclp_induct) (auto dest: step)
  then show "a \<noteq> b" by auto
qed

lemma role_str_inject [simp]: "role_str a = role_str b \<longleftrightarrow> a = b"
  by (cases a; cases b) simp_all

section \<open>Properties\<close>

text \<open>
  The textual name of an operation state and its parser are inverse: every
  state parses back from its name, and a text that parses at all is the name of
  the state it parses to, so no two texts name one state.
\<close>

theorem state_names_roundtrip:
  "parse_state text = Inr state \<longleftrightarrow> text = as_str state"
proof
  assume "parse_state text = Inr state"
  then show "text = as_str state"
    by (auto simp: parse_state_def result_simps find_Some_iff)
next
  assume "text = as_str state"
  then show "parse_state text = Inr state"
    by (cases state) (simp_all add: parse_state_def ALL_STATES_def)
qed

text \<open>
  The operation state machine is well-founded and its terminal states are
  exactly those without a successor: no sequence of transitions returns to a state
  it left, every other state can still move, and from every one of them both
  an abort proof and, unless an abort has begun, a commit stay reachable.
\<close>

theorem operation_machine_sound:
  "\<not> can_transition_to\<^sup>+\<^sup>+ state state
   \<and> operation_is_terminal state = (\<forall>next. \<not> can_transition_to state next)
   \<and> (state \<noteq> Committed \<longleftrightarrow> can_transition_to\<^sup>*\<^sup>* state ProvenAborted)
   \<and> (state \<notin> {Aborting, ProvenAborted} \<longleftrightarrow> can_transition_to\<^sup>*\<^sup>* state Committed)"
proof -
  have reach: "can_transition_to\<^sup>*\<^sup>* a b \<longleftrightarrow> a = b \<or> (\<exists>c. can_transition_to a c \<and> can_transition_to\<^sup>*\<^sup>* c b)" for a b
    by (metis converse_rtranclpE converse_rtranclp_into_rtranclp rtranclp.rtrancl_refl)
  have final: "can_transition_to\<^sup>*\<^sup>* Committed b \<longleftrightarrow> b = Committed"
    "can_transition_to\<^sup>*\<^sup>* ProvenAborted b \<longleftrightarrow> b = ProvenAborted" for b
    by (subst reach; auto)+
  have middle: "can_transition_to\<^sup>*\<^sup>* Aborting b \<longleftrightarrow> b = Aborting \<or> b = ProvenAborted"
    "can_transition_to\<^sup>*\<^sup>* CommitUnknown b \<longleftrightarrow> b = CommitUnknown \<or> b = Committed \<or> b = ProvenAborted" for b
    by (subst reach; auto simp: final)+
  have early: "can_transition_to\<^sup>*\<^sup>* Completing b \<longleftrightarrow>
      b = Completing \<or> b = CommitUnknown \<or> b = Committed \<or> b = ProvenAborted" for b
    by (subst reach) (auto simp: final middle)
  have opened: "can_transition_to\<^sup>*\<^sup>* Open b \<longleftrightarrow> b \<noteq> Intent" for b
    by (subst reach, cases b) (auto simp: early middle)
  have intent: "can_transition_to\<^sup>*\<^sup>* Intent b" for b
    by (subst reach, cases b) (auto simp: opened)
  have "operation_is_terminal state = (\<forall>next. \<not> can_transition_to state next)"
    using terminal_absorbing not_terminal_progress by blast
  moreover have "state \<noteq> Committed \<longleftrightarrow> can_transition_to\<^sup>*\<^sup>* state ProvenAborted"
    by (cases state) (simp_all add: final middle early opened intent)
  moreover have "state \<notin> {Aborting, ProvenAborted} \<longleftrightarrow> can_transition_to\<^sup>*\<^sup>* state Committed"
    by (cases state) (simp_all add: final middle early opened intent)
  ultimately show ?thesis using no_return by blast
qed

text \<open>
  The hashed name of a child operation determines the parent, every
  coordinate of the destination and the role, provided no coordinate has
  \<open>2 ^ 64\<close> bytes; two different children never hash the same name.
\<close>

theorem child_identity_injective:
  assumes "child_identity p d r = child_identity p' d' r'"
    and "\<forall>x \<in> {d, d'}. length (od_backend_id x) < 2 ^ 64 \<and> length (od_bucket x) < 2 ^ 64
           \<and> length (od_logical_key x) < 2 ^ 64 \<and> length (od_physical_key x) < 2 ^ 64"
  shows "p = p' \<and> r = r' \<and> od_backend_id d = od_backend_id d' \<and> od_bucket d = od_bucket d'
    \<and> od_logical_key d = od_logical_key d' \<and> od_physical_key d = od_physical_key d'"
proof -
  have small: "length (role_str x) < 2 ^ 64" for x by (cases x) simp_all
  let ?fields = "\<lambda>p d r. [uuid_bytes p, str_bytes (od_backend_id d), str_bytes (od_bucket d),
      str_bytes (od_logical_key d), str_bytes (od_physical_key d), str_bytes (role_str r)]"
  have "?fields p d r = ?fields p' d' r'"
    using assms small [of r] small [of r']
    by (intro lp_fields_inject) (simp_all add: child_identity_def)
  then show ?thesis by simp
qed

theorem child_identity_injective_witness:
  "child_identity 7 \<lparr>od_backend_id = ''b'', od_bucket = ''c'', od_logical_key = ''kx'',
       od_physical_key = ''p'', od_workspace_binding = None\<rparr> Primary
   \<noteq> child_identity 7 \<lparr>od_backend_id = ''b'', od_bucket = ''c'', od_logical_key = ''k'',
       od_physical_key = ''xp'', od_workspace_binding = None\<rparr> Primary"
  using child_identity_injective
    [of 7 "\<lparr>od_backend_id = ''b'', od_bucket = ''c'', od_logical_key = ''kx'',
       od_physical_key = ''p'', od_workspace_binding = None\<rparr>" Primary 7
       "\<lparr>od_backend_id = ''b'', od_bucket = ''c'', od_logical_key = ''k'',
       od_physical_key = ''xp'', od_workspace_binding = None\<rparr>" Primary]
  by auto

end
