(* ===== verification/Operation_Lifecycle.thy ===== *)
theory Operation_Lifecycle
  imports Operation_Types
begin

text \<open>
  The contract every operation journal keeps for one operation record: the
  fields that never change, the state machine, the finality of terminal states,
  and the meaning of a recorded exact-absence observation. The locale derives
  what holds over whole runs; the in-memory and the file journal are instances.
\<close>

section \<open>Steps of one record\<close>

definition window_grows :: "operation_record \<Rightarrow> operation_record \<Rightarrow> bool" where
  "window_grows r r' \<longleftrightarrow>
     (\<forall>t. or_mutation_not_before_ms r = Some t \<longrightarrow>
        (\<exists>t'. or_mutation_not_before_ms r' = Some t' \<and> t \<le> t'))"

definition record_step :: "operation_record \<Rightarrow> operation_record \<Rightarrow> bool" where
  "record_step r r' \<longleftrightarrow>
     or_id r' = or_id r
     \<and> or_destination r' = or_destination r
     \<and> or_tenant_id r' = or_tenant_id r
     \<and> or_namespace_epoch r' = or_namespace_epoch r
     \<and> or_created_at_ms r' = or_created_at_ms r
     \<and> (or_state r' = or_state r \<or> can_transition_to (or_state r) (or_state r'))
     \<and> (or_expected r' \<noteq> or_expected r \<longrightarrow> or_state r = Intent \<or> or_state r = Open)
     \<and> (operation_is_terminal (or_state r) \<longrightarrow> or_committed r' = or_committed r)
     \<and> window_grows r r'"

text \<open>
  Metadata is present exactly on committed records, and a first absence
  observation is never older than the end of the ambiguity window.
\<close>

definition record_ok :: "operation_record \<Rightarrow> bool" where
  "record_ok r \<longleftrightarrow>
     (or_committed r \<noteq> None \<longleftrightarrow> or_state r = Committed)
     \<and> (\<forall>seen not_before. or_exact_absence_observed_at_ms r = Some seen
          \<longrightarrow> or_mutation_not_before_ms r = Some not_before \<longrightarrow> not_before \<le> seen)"

lemma window_grows_same [simp]:
  "or_mutation_not_before_ms r' = or_mutation_not_before_ms r \<Longrightarrow> window_grows r r'"
  by (simp add: window_grows_def)

lemma window_grows_trans: "window_grows a b \<Longrightarrow> window_grows b c \<Longrightarrow> window_grows a c"
  unfolding window_grows_def by (meson order_trans)

lemma record_step_refl [simp]: "record_step r r"
  by (simp add: record_step_def)

definition record_progress :: "operation_record \<Rightarrow> operation_record \<Rightarrow> bool" where
  "record_progress r r' \<longleftrightarrow>
     or_id r' = or_id r
     \<and> or_destination r' = or_destination r
     \<and> or_tenant_id r' = or_tenant_id r
     \<and> or_namespace_epoch r' = or_namespace_epoch r
     \<and> or_created_at_ms r' = or_created_at_ms r
     \<and> can_transition_to\<^sup>*\<^sup>* (or_state r) (or_state r')
     \<and> (or_state r \<noteq> Intent \<and> or_state r \<noteq> Open \<longrightarrow> or_expected r' = or_expected r)
     \<and> (operation_is_terminal (or_state r) \<longrightarrow> or_state r' = or_state r \<and> or_committed r' = or_committed r)
     \<and> window_grows r r'"

lemma record_progress_refl: "record_progress r r"
  by (simp add: record_progress_def)

lemma late_states_stay:
  "can_transition_to\<^sup>*\<^sup>* s t \<Longrightarrow> s \<noteq> Intent \<and> s \<noteq> Open \<Longrightarrow> t \<noteq> Intent \<and> t \<noteq> Open"
proof (induction rule: rtranclp_induct)
  case (step t u)
  then show ?case by (cases t; cases u) auto
qed simp

lemma record_progress_step:
  assumes "record_progress r v" "record_step v w" shows "record_progress r w"
proof -
  have "can_transition_to\<^sup>*\<^sup>* (or_state r) (or_state w)"
    using assms unfolding record_progress_def record_step_def
    by (metis rtranclp.rtrancl_into_rtrancl)
  moreover have "or_expected w = or_expected r" if "or_state r \<noteq> Intent \<and> or_state r \<noteq> Open"
    using that assms late_states_stay [OF _ that] unfolding record_progress_def record_step_def by metis
  moreover have "or_state w = or_state r \<and> or_committed w = or_committed r" if "operation_is_terminal (or_state r)"
    using that assms terminal_absorbing unfolding record_progress_def record_step_def by metis
  moreover have "window_grows r w"
    using assms window_grows_trans unfolding record_progress_def record_step_def by blast
  ultimately show ?thesis
    using assms unfolding record_progress_def record_step_def by simp
qed

section \<open>The contract of a journal\<close>

text \<open>
  \<open>inv\<close> is the journal's own invariant; \<open>record_at\<close> looks up one operation, which
  may disappear when it is retired.
\<close>

locale operation_machine =
  fixes step :: "'s \<Rightarrow> 's \<Rightarrow> bool"
    and inv :: "'s \<Rightarrow> bool"
    and record_at :: "'s \<Rightarrow> operation_record option"
  assumes step_inv: "inv s \<Longrightarrow> step s s' \<Longrightarrow> inv s'"
    and inv_record: "inv s \<Longrightarrow> record_at s = Some r \<Longrightarrow> record_ok r"
    and step_record:
      "inv s \<Longrightarrow> step s s' \<Longrightarrow> record_at s = Some r \<Longrightarrow> record_at s' = Some r' \<Longrightarrow> record_step r r'"
begin

abbreviation stays :: "'s \<Rightarrow> 's \<Rightarrow> bool" where
  "stays s s' \<equiv> step s s' \<and> record_at s' \<noteq> None"

lemma run_inv: "stays\<^sup>*\<^sup>* s t \<Longrightarrow> inv s \<Longrightarrow> inv t"
  by (induction rule: rtranclp_induct) (auto intro: step_inv)

lemma run_present: "stays\<^sup>*\<^sup>* s t \<Longrightarrow> record_at s = Some r \<Longrightarrow> \<exists>r'. record_at t = Some r'"
  by (induction rule: rtranclp_induct) auto

lemma run_progress:
  assumes "stays\<^sup>*\<^sup>* s t" "inv s" "record_at s = Some r" "record_at t = Some r'"
  shows "record_progress r r'"
  using assms
proof (induction arbitrary: r' rule: rtranclp_induct)
  case base
  then show ?case by (simp add: record_progress_refl)
next
  case (step v w)
  obtain x where x: "record_at v = Some x" using run_present [OF step.hyps(1) step.prems(2)] by blast
  have "inv v" using run_inv [OF step.hyps(1) step.prems(1)] .
  with x step.hyps(2) step.prems(3) have "record_step x r'" using step_record by blast
  with step.IH [OF step.prems(1,2) x] show ?case by (rule record_progress_step)
qed

lemma committed_is_final:
  assumes "stays\<^sup>*\<^sup>* s t" "inv s" "record_at s = Some r" "or_state r = Committed"
  shows "\<exists>r' meta. record_at t = Some r' \<and> or_state r' = Committed
    \<and> or_committed r = Some meta \<and> or_committed r' = Some meta"
proof -
  obtain r' where r': "record_at t = Some r'" using run_present [OF assms(1,3)] by blast
  have "record_progress r r'" by (rule run_progress [OF assms(1-3) r'])
  moreover have "or_committed r \<noteq> None" using inv_record [OF assms(2,3)] assms(4) by (simp add: record_ok_def)
  ultimately show ?thesis using r' assms(4) by (auto simp: record_progress_def operation_is_terminal_def)
qed

end

end
