(* ===== verification/Event_Log.thy ===== *)
theory Event_Log
  imports Byte_Codec
begin

text \<open>
  The crash-safe persistence of the file-backed repositories
  (\<open>crates/gateway/src/filesystem_persistence.rs\<close>): checksummed event frames, the
  append-only event log, and its compaction into a snapshot. SHA-256 and the JSON
  codecs are libraries, so the digest \<open>sha\<close>, the encoder and the decoder are
  arguments. What the operating system answers is an argument of each operation,
  and a file remembers how much of it is known to be on disk, so that a crash can
  be a step of the model.
\<close>

section \<open>Constants and errors\<close>

definition SNAPSHOT_VERSION :: u32 where
  "SNAPSHOT_VERSION = 1"

definition FRAME_MAGIC :: bytes where
  "FRAME_MAGIC = [0x4D, 0x53, 0x45, 0x4C]"

definition FRAME_VERSION :: "8 word" where
  "FRAME_VERSION = 1"

definition FRAME_HEADER_BYTES :: nat where
  "FRAME_HEADER_BYTES = 17"

definition CHECKSUM_BYTES :: nat where
  "CHECKSUM_BYTES = 32"

definition MAX_SNAPSHOT_BYTES :: u64 where
  "MAX_SNAPSHOT_BYTES = 32 * 1024 * 1024"

definition MAX_LOG_BYTES :: u64 where
  "MAX_LOG_BYTES = 32 * 1024 * 1024"

definition MAX_EVENT_PAYLOAD_BYTES :: nat where
  "MAX_EVENT_PAYLOAD_BYTES = 1024 * 1024"

definition COMPACT_AFTER_EVENTS :: u64 where
  "COMPACT_AFTER_EVENTS = 256"

definition COMPACT_AFTER_BYTES :: u64 where
  "COMPACT_AFTER_BYTES = 4 * 1024 * 1024"

datatype persistence_error =
    Io string
  | MutationUnknown string
  | CorruptData string
  | UnsupportedVersion nat
  | LimitExceeded string
  | ReloadRequired
  | RootAlreadyLocked

fun mutation_unknown :: "persistence_error \<Rightarrow> bool" where
  "mutation_unknown (MutationUnknown _) = True"
| "mutation_unknown _ = False"

section \<open>Frames\<close>

definition encode_frame :: "(bytes \<Rightarrow> bytes) \<Rightarrow> u64 \<Rightarrow> bytes \<Rightarrow> bytes" where
  "encode_frame sha sequence payload =
     (let frame = FRAME_MAGIC @ [FRAME_VERSION] @ u64_be sequence
                    @ u32_be (of_nat (length payload)) @ payload
      in frame @ sha frame)"

record 'e parsed_frames =
  pf_events :: "(u64 \<times> 'e) list"
  pf_valid_bytes :: nat
  pf_frame_count :: u64
  pf_last_sequence :: "u64 option"

text \<open>
  The loop of \<open>parse_frames\<close> on the bytes from \<open>offset\<close> on. A torn frame at the end
  stops it; everything else that is wrong is an error.
\<close>

definition frame_payload_len :: "bytes \<Rightarrow> nat" where
  "frame_payload_len remaining = unat (u32_from_be (take 4 (drop 13 remaining)))"

definition frame_sequence :: "bytes \<Rightarrow> u64" where
  "frame_sequence remaining = u64_from_be (take 8 (drop 5 remaining))"

definition sequence_accepted :: "u64 \<Rightarrow> u64 option \<Rightarrow> u64 \<Rightarrow> bool" where
  "sequence_accepted snapshot_sequence previous sequence =
     (case previous of
        Some p \<Rightarrow> sequence = p + 1
      | None \<Rightarrow> sequence = 1 \<or> sequence = saturating_add snapshot_sequence 1)"

function parse_loop ::
  "(bytes \<Rightarrow> bytes) \<Rightarrow> (bytes \<Rightarrow> 'e option) \<Rightarrow> u64 \<Rightarrow> nat \<Rightarrow> (u64 \<times> 'e) list \<Rightarrow> u64 option \<Rightarrow> u64
     \<Rightarrow> bytes \<Rightarrow> persistence_error + 'e parsed_frames" where
  "parse_loop sha decode snapshot_sequence offset events previous frame_count remaining =
     (if remaining = [] \<or> length remaining < FRAME_HEADER_BYTES
      then Inr \<lparr>pf_events = events, pf_valid_bytes = offset, pf_frame_count = frame_count,
                pf_last_sequence = previous\<rparr>
      else if take 4 remaining \<noteq> FRAME_MAGIC then Inl (CorruptData ''invalid event frame magic'')
      else if remaining ! 4 \<noteq> FRAME_VERSION then Inl (UnsupportedVersion (unat (remaining ! 4)))
      else
        let sequence = frame_sequence remaining;
            payload_len = frame_payload_len remaining
        in if payload_len > MAX_EVENT_PAYLOAD_BYTES
        then Inl (LimitExceeded ''event payload exceeds 1 MiB'')
        else
          let frame_len = FRAME_HEADER_BYTES + payload_len + CHECKSUM_BYTES
          in if length remaining < frame_len
          then Inr \<lparr>pf_events = events, pf_valid_bytes = offset, pf_frame_count = frame_count,
                    pf_last_sequence = previous\<rparr>
          else if \<not> sequence_accepted snapshot_sequence previous sequence
          then Inl (CorruptData ''unexpected event sequence'')
          else
            let payload_end = FRAME_HEADER_BYTES + payload_len
            in if take CHECKSUM_BYTES (drop payload_end remaining) \<noteq> sha (take payload_end remaining)
            then Inl (CorruptData ''event checksum mismatch'')
            else if sequence > snapshot_sequence
            then (case decode (take payload_len (drop FRAME_HEADER_BYTES remaining)) of
                    None \<Rightarrow> Inl (CorruptData ''invalid event payload'')
                  | Some payload \<Rightarrow>
                      parse_loop sha decode snapshot_sequence (offset + frame_len)
                        (events @ [(sequence, payload)]) (Some sequence) (frame_count + 1)
                        (drop frame_len remaining))
            else parse_loop sha decode snapshot_sequence (offset + frame_len) events
                   (Some sequence) (frame_count + 1) (drop frame_len remaining))"
  by pat_completeness auto
termination
  by (relation "measure (\<lambda>(_, _, _, _, _, _, _, remaining). length remaining)")
    (simp_all add: FRAME_HEADER_BYTES_def)

declare parse_loop.simps [simp del]

definition parse_frames ::
  "(bytes \<Rightarrow> bytes) \<Rightarrow> (bytes \<Rightarrow> 'e option) \<Rightarrow> bytes \<Rightarrow> u64 \<Rightarrow> persistence_error + 'e parsed_frames" where
  "parse_frames sha decode contents snapshot_sequence =
     parse_loop sha decode snapshot_sequence 0 [] None 0 contents"

section \<open>Snapshots\<close>

record snapshot_envelope =
  se_version :: u32
  se_final_sequence :: u64
  se_payload :: json
  se_checksum :: string

text \<open>The library functions a snapshot is written and read with.\<close>

record 'p snapshot_codec =
  sc_to_value :: "'p \<Rightarrow> json option"
  sc_from_value :: "json \<Rightarrow> 'p option"
  sc_to_vec :: "json \<Rightarrow> bytes option"
  sc_envelope_to_vec :: "snapshot_envelope \<Rightarrow> bytes option"
  sc_envelope_from_slice :: "bytes \<Rightarrow> snapshot_envelope option"
  sc_hex_encode :: "bytes \<Rightarrow> string"
  sc_hex_decode :: "string \<Rightarrow> bytes option"
  sc_sha :: "bytes \<Rightarrow> bytes"

definition snapshot_checksum :: "(bytes \<Rightarrow> bytes) \<Rightarrow> u64 \<Rightarrow> bytes \<Rightarrow> bytes" where
  "snapshot_checksum sha final_sequence payload =
     sha (u32_be SNAPSHOT_VERSION @ u64_be final_sequence @ u64_be (of_nat (length payload)) @ payload)"

definition encode_snapshot :: "'p snapshot_codec \<Rightarrow> u64 \<Rightarrow> 'p \<Rightarrow> persistence_error + bytes" where
  "encode_snapshot c final_sequence payload =
     and_then (ok_or (CorruptData ''snapshot payload'') (sc_to_value c payload)) (\<lambda>payload.
     and_then (ok_or (CorruptData ''snapshot payload'') (sc_to_vec c payload)) (\<lambda>canonical_payload.
     and_then (ok_or (CorruptData ''snapshot envelope'') (sc_envelope_to_vec c
       \<lparr>se_version = SNAPSHOT_VERSION, se_final_sequence = final_sequence, se_payload = payload,
        se_checksum = sc_hex_encode c (snapshot_checksum (sc_sha c) final_sequence canonical_payload)\<rparr>)) (\<lambda>encoded.
     if length encoded > unat MAX_SNAPSHOT_BYTES then Inl (LimitExceeded ''snapshot exceeds 32 MiB'')
     else Inr encoded)))"

definition load_snapshot :: "'p snapshot_codec \<Rightarrow> bytes option \<Rightarrow> persistence_error + (u64 \<times> 'p) option" where
  "load_snapshot c contents =
     (case contents of
        None \<Rightarrow> Inr None
      | Some encoded \<Rightarrow>
          if length encoded > unat MAX_SNAPSHOT_BYTES
          then Inl (LimitExceeded ''file exceeds configured bound'')
          else
            and_then (ok_or (CorruptData ''invalid snapshot JSON'') (sc_envelope_from_slice c encoded)) (\<lambda>envelope.
            if se_version envelope \<noteq> SNAPSHOT_VERSION
            then Inl (UnsupportedVersion (unat (se_version envelope)))
            else
              and_then (ok_or (CorruptData ''snapshot payload'') (sc_to_vec c (se_payload envelope))) (\<lambda>canonical_payload.
              and_then (ok_or (CorruptData ''invalid snapshot checksum encoding'')
                          (sc_hex_decode c (se_checksum envelope))) (\<lambda>checksum.
              if checksum \<noteq> snapshot_checksum (sc_sha c) (se_final_sequence envelope) canonical_payload
              then Inl (CorruptData ''snapshot checksum mismatch'')
              else
                and_then (ok_or (CorruptData ''invalid snapshot payload'') (sc_from_value c (se_payload envelope)))
                  (\<lambda>payload. Inr (Some (se_final_sequence envelope, payload)))))))"

text \<open>What the libraries promise: decoding inverts encoding.\<close>

definition snapshot_codec_ok :: "'p snapshot_codec \<Rightarrow> bool" where
  "snapshot_codec_ok c \<longleftrightarrow>
     (\<forall>p v. sc_to_value c p = Some v \<longrightarrow> sc_from_value c v = Some p)
     \<and> (\<forall>x b. sc_envelope_to_vec c x = Some b \<longrightarrow> sc_envelope_from_slice c b = Some x)
     \<and> (\<forall>b. sc_hex_decode c (sc_hex_encode c b) = Some b)"

section \<open>Files and the event log\<close>

text \<open>
  A file: its contents as a reader sees them, and the length of the prefix that
  was synchronised. After a crash any longer prefix may have survived as well.
\<close>

record log_file =
  lf_bytes :: bytes
  lf_synced :: nat

definition survives_crash :: "log_file \<Rightarrow> log_file \<Rightarrow> bool" where
  "survives_crash file file' \<longleftrightarrow>
     (\<exists>n. lf_synced file \<le> n \<and> n \<le> length (lf_bytes file)
        \<and> file' = \<lparr>lf_bytes = take n (lf_bytes file), lf_synced = n\<rparr>)"

record event_log =
  el_next_sequence :: u64
  el_event_count :: u64
  el_byte_len :: u64
  el_reload_required :: bool

definition open_event_log ::
  "(bytes \<Rightarrow> bytes) \<Rightarrow> (bytes \<Rightarrow> 'e option) \<Rightarrow> u64 \<Rightarrow> log_file
     \<Rightarrow> log_file \<times> (persistence_error + event_log \<times> (u64 \<times> 'e) list)" where
  "open_event_log sha decode snapshot_sequence file =
     (if length (lf_bytes file) > unat MAX_LOG_BYTES
      then (file, Inl (LimitExceeded ''event log exceeds 32 MiB''))
      else case parse_frames sha decode (lf_bytes file) snapshot_sequence of
        Inl e \<Rightarrow> (file, Inl e)
      | Inr replay \<Rightarrow>
          let file' = (if pf_valid_bytes replay < length (lf_bytes file)
                       then \<lparr>lf_bytes = take (pf_valid_bytes replay) (lf_bytes file),
                             lf_synced = pf_valid_bytes replay\<rparr>
                       else file)
          in (file',
              case checked_add (max (case pf_last_sequence replay of
                                       None \<Rightarrow> snapshot_sequence | Some final \<Rightarrow> final)
                                  snapshot_sequence) 1 of
                None \<Rightarrow> Inl (CorruptData ''event sequence overflow'')
              | Some next_sequence \<Rightarrow>
                  Inr (\<lparr>el_next_sequence = next_sequence, el_event_count = pf_frame_count replay,
                        el_byte_len = of_nat (pf_valid_bytes replay), el_reload_required = False\<rparr>,
                       pf_events replay)))"

text \<open>What the operating system does with an append.\<close>

datatype append_io =
    AppendRefused
  | WriteTorn nat
  | SyncFailed
  | AppendDone

definition append_event ::
  "(bytes \<Rightarrow> bytes) \<Rightarrow> ('e \<Rightarrow> bytes option) \<Rightarrow> append_io \<Rightarrow> 'e \<Rightarrow> event_log \<Rightarrow> log_file
     \<Rightarrow> event_log \<times> log_file \<times> (persistence_error + u64)" where
  "append_event sha encode io payload log file =
     (if el_reload_required log then (log, file, Inl ReloadRequired)
      else case encode payload of
        None \<Rightarrow> (log, file, Inl (CorruptData ''event encoding''))
      | Some payload \<Rightarrow>
        if length payload > MAX_EVENT_PAYLOAD_BYTES
        then (log, file, Inl (LimitExceeded ''event payload exceeds 1 MiB''))
        else
          let frame = encode_frame sha (el_next_sequence log) payload
          in if saturating_add (el_byte_len log) (of_nat (length frame)) > MAX_LOG_BYTES
          then (log, file, Inl (LimitExceeded ''event log exceeds 32 MiB''))
          else case io of
            AppendRefused \<Rightarrow> (log, file, Inl (Io ''event append''))
          | WriteTorn n \<Rightarrow>
              (log\<lparr>el_reload_required := True\<rparr>, file\<lparr>lf_bytes := lf_bytes file @ take n frame\<rparr>,
               Inl (MutationUnknown ''event append''))
          | SyncFailed \<Rightarrow>
              (log\<lparr>el_reload_required := True\<rparr>, file\<lparr>lf_bytes := lf_bytes file @ frame\<rparr>,
               Inl (MutationUnknown ''event append sync''))
          | AppendDone \<Rightarrow>
              (log\<lparr>el_next_sequence := el_next_sequence log + 1, el_event_count := el_event_count log + 1,
                   el_byte_len := el_byte_len log + of_nat (length frame)\<rparr>,
               \<lparr>lf_bytes = lf_bytes file @ frame, lf_synced = length (lf_bytes file @ frame)\<rparr>,
               Inr (el_next_sequence log)))"

definition should_compact :: "event_log \<Rightarrow> bool" where
  "should_compact log \<longleftrightarrow>
     el_event_count log \<ge> COMPACT_AFTER_EVENTS \<or> el_byte_len log \<ge> COMPACT_AFTER_BYTES"

text \<open>
  Compaction publishes the snapshot and then an empty log, each by an atomic
  rename. What the operating system does with one such publication:
\<close>

datatype publish_io =
    PublishRefused
  | ParentSyncFailed
  | PublishDone

definition atomic_write :: "string \<Rightarrow> publish_io \<Rightarrow> 'c \<Rightarrow> 'c \<Rightarrow> 'c \<times> (persistence_error + unit)" where
  "atomic_write operation io new old =
     (case io of
        PublishRefused \<Rightarrow> (old, Inl (Io operation))
      | ParentSyncFailed \<Rightarrow> (new, Inl (MutationUnknown operation))
      | PublishDone \<Rightarrow> (new, Inr ()))"

definition empty_log_file :: log_file where
  "empty_log_file = \<lparr>lf_bytes = [], lf_synced = 0\<rparr>"

definition compact ::
  "publish_io \<Rightarrow> publish_io \<Rightarrow> 'p \<Rightarrow> event_log \<Rightarrow> (u64 \<times> 'p) option \<Rightarrow> log_file
     \<Rightarrow> event_log \<times> (u64 \<times> 'p) option \<times> log_file \<times> (persistence_error + unit)" where
  "compact snapshot_io log_io payload log snapshot file =
     (if el_reload_required log then (log, snapshot, file, Inl ReloadRequired)
      else
        let final_sequence = saturating_sub (el_next_sequence log) 1;
            (snapshot', published) =
              atomic_write ''snapshot publication'' snapshot_io (Some (final_sequence, payload)) snapshot
        in case published of
          Inl e \<Rightarrow>
            (if mutation_unknown e then log\<lparr>el_reload_required := True\<rparr> else log, snapshot', file, Inl e)
        | Inr _ \<Rightarrow>
            let (file', truncated) = atomic_write ''event log compaction'' log_io empty_log_file file
            in case truncated of
              Inl e \<Rightarrow>
                (if mutation_unknown e then log\<lparr>el_reload_required := True\<rparr> else log, snapshot', file', Inl e)
            | Inr _ \<Rightarrow>
                (log\<lparr>el_event_count := 0, el_byte_len := 0\<rparr>, snapshot', file', Inr ()))"

section \<open>Parsing what was encoded\<close>

definition digest_length :: "(bytes \<Rightarrow> bytes) \<Rightarrow> bool" where
  "digest_length sha \<longleftrightarrow> (\<forall>x. length (sha x) = CHECKSUM_BYTES)"

lemma digest_lengthD: "digest_length sha \<Longrightarrow> length (sha x) = 32"
  by (simp add: digest_length_def CHECKSUM_BYTES_def)

lemma length_MAGIC [simp]: "length FRAME_MAGIC = 4"
  by (simp add: FRAME_MAGIC_def)

lemma length_encode_frame:
  "digest_length sha \<Longrightarrow> length (encode_frame sha sequence payload) = 49 + length payload"
  by (simp add: encode_frame_def Let_def digest_lengthD)

lemma payload_len_small:
  assumes "length payload \<le> MAX_EVENT_PAYLOAD_BYTES"
  shows "unat (of_nat (length payload) :: u32) = length payload"
  using assms by (simp add: unat_of_nat MAX_EVENT_PAYLOAD_BYTES_def)

text \<open>The header fields of a frame with anything behind it.\<close>

lemma frame_header:
  assumes "length payload \<le> MAX_EVENT_PAYLOAD_BYTES"
    and "remaining = FRAME_MAGIC @ [FRAME_VERSION] @ u64_be sequence @ u32_be (of_nat (length payload)) @ rest"
  shows "take 4 remaining = FRAME_MAGIC" "remaining ! 4 = FRAME_VERSION"
    "frame_sequence remaining = sequence" "frame_payload_len remaining = length payload"
    "17 \<le> length remaining"
  using payload_len_small [OF assms(1)]
  by (simp_all add: assms(2) frame_sequence_def frame_payload_len_def nth_append)

lemma parse_step:
  assumes "17 + n + 32 \<le> length remaining" "take 4 remaining = FRAME_MAGIC" "remaining ! 4 = FRAME_VERSION"
    "frame_sequence remaining = sequence" "frame_payload_len remaining = n" "n \<le> MAX_EVENT_PAYLOAD_BYTES"
    "sequence_accepted snap previous sequence"
    "take 32 (drop (17 + n) remaining) = sha (take (17 + n) remaining)"
  shows "parse_loop sha decode snap offset events previous count remaining =
    (if sequence > snap
     then (case decode (take n (drop 17 remaining)) of
             None \<Rightarrow> Inl (CorruptData ''invalid event payload'')
           | Some e \<Rightarrow> parse_loop sha decode snap (offset + (17 + n + 32))
               (events @ [(sequence, e)]) (Some sequence) (count + 1) (drop (17 + n + 32) remaining))
     else parse_loop sha decode snap (offset + (17 + n + 32)) events (Some sequence) (count + 1)
            (drop (17 + n + 32) remaining))"
proof -
  have "remaining \<noteq> []" "\<not> length remaining < 17" "\<not> length remaining < 17 + n + 32" "\<not> MAX_EVENT_PAYLOAD_BYTES < n"
    using assms(1,6) by auto
  with assms(2-5,7,8) show ?thesis
    by (subst parse_loop.simps) (simp only: FRAME_HEADER_BYTES_def CHECKSUM_BYTES_def Let_def if_False if_True simp_thms)
qed

lemma parse_frame:
  assumes sha: "digest_length sha" and small: "length payload \<le> MAX_EVENT_PAYLOAD_BYTES"
    and accepted: "sequence_accepted snap previous sequence"
  shows "parse_loop sha decode snap offset events previous count (encode_frame sha sequence payload @ rest) =
    (if sequence > snap
     then (case decode payload of
             None \<Rightarrow> Inl (CorruptData ''invalid event payload'')
           | Some e \<Rightarrow> parse_loop sha decode snap (offset + 49 + length payload)
               (events @ [(sequence, e)]) (Some sequence) (count + 1) rest)
     else parse_loop sha decode snap (offset + 49 + length payload) events (Some sequence) (count + 1) rest)"
proof -
  let ?head = "FRAME_MAGIC @ [FRAME_VERSION] @ u64_be sequence @ u32_be (of_nat (length payload)) @ payload"
  let ?all = "encode_frame sha sequence payload @ rest"
  have all: "?all = ?head @ sha ?head @ rest" by (simp add: encode_frame_def Let_def)
  then have shape: "?all = FRAME_MAGIC @ [FRAME_VERSION] @ u64_be sequence @ u32_be (of_nat (length payload))
      @ (payload @ sha ?head @ rest)" by simp
  note header = frame_header [OF small shape]
  define h where "h = ?head"
  have len: "length h = 17 + length payload" by (simp add: h_def)
  have whole: "?all = h @ sha h @ rest" by (simp add: h_def encode_frame_def Let_def)
  have parts: "take (17 + length payload) ?all = h" "take 32 (drop (17 + length payload) ?all) = sha h"
    "drop (17 + length payload + 32) ?all = rest" "17 + length payload + 32 \<le> length ?all"
    unfolding whole len [symmetric] by (simp_all add: digest_lengthD [OF sha])
  have body: "take (length payload) (drop 17 ?all) = payload" unfolding all by simp
  have offset: "offset + (17 + length payload + 32) = offset + 49 + length payload" by simp
  show ?thesis
    by (subst parse_step [OF parts(4) header(1-4) small accepted])
      (simp_all only: parts body offset)
qed

text \<open>A frame cut short ends the log without an error.\<close>

lemma parse_torn:
  assumes sha: "digest_length sha" and small: "length payload \<le> MAX_EVENT_PAYLOAD_BYTES"
    and n: "n < length (encode_frame sha sequence payload)"
  shows "parse_loop sha decode snap offset events previous count (take n (encode_frame sha sequence payload))
    = Inr \<lparr>pf_events = events, pf_valid_bytes = offset, pf_frame_count = count, pf_last_sequence = previous\<rparr>"
proof (cases "n < 17")
  case True
  then have "length (take n (encode_frame sha sequence payload)) < FRAME_HEADER_BYTES"
    by (simp add: FRAME_HEADER_BYTES_def)
  then show ?thesis by (subst parse_loop.simps) (simp del: length_take)
next
  case False
  let ?head = "FRAME_MAGIC @ [FRAME_VERSION] @ u64_be sequence @ u32_be (of_nat (length payload)) @ payload"
  let ?cut = "take n (encode_frame sha sequence payload)"
  have shape: "?cut = FRAME_MAGIC @ [FRAME_VERSION] @ u64_be sequence @ u32_be (of_nat (length payload))
      @ take (n - 17) (payload @ sha ?head)"
    using False by (simp add: encode_frame_def Let_def take_Cons')
  note header = frame_header [OF small shape]
  have "length ?cut < 17 + length payload + 32" using n by (simp add: length_encode_frame [OF sha])
  with header small show ?thesis
    by (subst parse_loop.simps)
      (auto simp: FRAME_HEADER_BYTES_def CHECKSUM_BYTES_def Let_def simp del: length_take)
qed

section \<open>Whole logs\<close>

fun frames :: "(bytes \<Rightarrow> bytes) \<Rightarrow> ('e \<Rightarrow> bytes option) \<Rightarrow> u64 \<Rightarrow> 'e list \<Rightarrow> bytes" where
  "frames sha encode start [] = []"
| "frames sha encode start (e # es) = encode_frame sha start (the (encode e)) @ frames sha encode (start + 1) es"

fun numbered :: "u64 \<Rightarrow> 'e list \<Rightarrow> (u64 \<times> 'e) list" where
  "numbered start [] = []"
| "numbered start (e # es) = (start, e) # numbered (start + 1) es"

text \<open>The events a reader with a snapshot up to \<open>snap\<close> still has to apply.\<close>

definition pending_events :: "u64 \<Rightarrow> u64 \<Rightarrow> 'e list \<Rightarrow> (u64 \<times> 'e) list" where
  "pending_events snap start es = filter (\<lambda>(sequence, _). sequence > snap) (numbered start es)"

definition codec :: "('e \<Rightarrow> bytes option) \<Rightarrow> (bytes \<Rightarrow> 'e option) \<Rightarrow> bool" where
  "codec encode decode \<longleftrightarrow> (\<forall>e p. encode e = Some p \<longrightarrow> decode p = Some e)"

definition loggable :: "('e \<Rightarrow> bytes option) \<Rightarrow> 'e \<Rightarrow> bool" where
  "loggable encode e \<longleftrightarrow> (\<exists>p. encode e = Some p \<and> length p \<le> MAX_EVENT_PAYLOAD_BYTES)"

lemma frames_append:
  "frames sha encode start (es @ fs) = frames sha encode start es @ frames sha encode (start + of_nat (length es)) fs"
  by (induction es arbitrary: start) (simp_all add: add.assoc add.commute)

lemma numbered_append:
  "numbered start (es @ fs) = numbered start es @ numbered (start + of_nat (length es)) fs"
  by (induction es arbitrary: start) (simp_all add: add.assoc add.commute)

lemma length_numbered [simp]: "length (numbered start es) = length es"
  by (induction es arbitrary: start) simp_all

lemma parse_log:
  assumes "digest_length sha" "codec encode decode" "\<forall>e \<in> set es. loggable encode e"
    "es = [] \<or> sequence_accepted snap previous start"
  shows "parse_loop sha decode snap offset events previous count (frames sha encode start es @ rest) =
    parse_loop sha decode snap (offset + length (frames sha encode start es))
      (events @ pending_events snap start es)
      (if es = [] then previous else Some (start + of_nat (length es) - 1))
      (count + of_nat (length es)) rest"
  using assms(3,4)
proof (induction es arbitrary: start offset events previous count)
  case (Cons e es)
  from Cons.prems(1) obtain p where p: "encode e = Some p" "length p \<le> MAX_EVENT_PAYLOAD_BYTES"
    by (auto simp: loggable_def)
  have decoded: "decode p = Some e" using assms(2) p(1) by (simp add: codec_def)
  have accepted: "sequence_accepted snap previous start" using Cons.prems(2) by simp
  have "sequence_accepted snap (Some start) (start + 1)" by (simp add: sequence_accepted_def)
  then have IH: "parse_loop sha decode snap offset' events' (Some start) (count + 1)
      (frames sha encode (start + 1) es @ rest) =
    parse_loop sha decode snap (offset' + length (frames sha encode (start + 1) es))
      (events' @ pending_events snap (start + 1) es)
      (if es = [] then Some start else Some (start + 1 + of_nat (length es) - 1))
      (count + 1 + of_nat (length es)) rest" for offset' events'
    using Cons.IH [where start = "start + 1" and previous = "Some start" and offset = offset'
        and events = events' and count = "count + 1"] Cons.prems(1) by simp
  have split: "frames sha encode start (e # es) @ rest
      = encode_frame sha start p @ (frames sha encode (start + 1) es @ rest)" by (simp add: p)
  have last: "(if es = [] then Some start else Some (start + 1 + of_nat (length es) - 1))
      = Some (start + of_nat (length (e # es)) - 1)" by simp
  show ?case
    unfolding split parse_frame [OF assms(1) p(2) accepted] decoded option.case IH last
    by (simp add: p length_encode_frame [OF assms(1)] pending_events_def add.assoc)
qed (simp add: pending_events_def)

text \<open>A whole log followed by a cut frame.\<close>

lemma parse_frames_log:
  assumes "digest_length sha" "codec encode decode" "\<forall>e \<in> set es. loggable encode e"
    "es = [] \<or> start = 1 \<or> start = saturating_add snap 1"
    "rest = [] \<or> (\<exists>e k n. loggable encode e \<and> rest = take n (encode_frame sha k (the (encode e)))
       \<and> n < length (encode_frame sha k (the (encode e))))"
  shows "parse_frames sha decode (frames sha encode start es @ rest) snap =
    Inr \<lparr>pf_events = pending_events snap start es, pf_valid_bytes = length (frames sha encode start es),
         pf_frame_count = of_nat (length es),
         pf_last_sequence = (if es = [] then None else Some (start + of_nat (length es) - 1))\<rparr>"
proof -
  have stop: "parse_loop sha decode snap offset events previous count rest =
      Inr \<lparr>pf_events = events, pf_valid_bytes = offset, pf_frame_count = count, pf_last_sequence = previous\<rparr>"
    for offset events previous count
    using assms(5)
  proof
    assume "rest = []"
    then show ?thesis by (simp add: parse_loop.simps)
  next
    assume "\<exists>e k n. loggable encode e \<and> rest = take n (encode_frame sha k (the (encode e)))
       \<and> n < length (encode_frame sha k (the (encode e)))"
    then show ?thesis using parse_torn [OF assms(1)] by (auto simp: loggable_def)
  qed
  have "es = [] \<or> sequence_accepted snap None start" using assms(4) by (auto simp: sequence_accepted_def)
  from parse_log [OF assms(1-3) this] show ?thesis
    by (simp add: parse_frames_def stop)
qed

section \<open>The log invariant\<close>

definition log_reads ::
  "(bytes \<Rightarrow> bytes) \<Rightarrow> ('e \<Rightarrow> bytes option) \<Rightarrow> u64 \<Rightarrow> u64 \<Rightarrow> 'e list \<Rightarrow> log_file \<Rightarrow> bool" where
  "log_reads sha encode snap start es file \<longleftrightarrow>
     lf_bytes file = frames sha encode start es
     \<and> lf_synced file \<le> length (lf_bytes file)
     \<and> length (lf_bytes file) \<le> unat MAX_LOG_BYTES
     \<and> (\<forall>e \<in> set es. loggable encode e)
     \<and> (start = 1 \<or> start = saturating_add snap 1)
     \<and> 0 < unat start \<and> unat snap < unat start + length es
     \<and> unat start + length es < 2 ^ 64"

definition log_handle :: "(bytes \<Rightarrow> bytes) \<Rightarrow> ('e \<Rightarrow> bytes option) \<Rightarrow> u64 \<Rightarrow> 'e list \<Rightarrow> event_log" where
  "log_handle sha encode start es =
     \<lparr>el_next_sequence = start + of_nat (length es), el_event_count = of_nat (length es),
      el_byte_len = of_nat (length (frames sha encode start es)), el_reload_required = False\<rparr>"

lemma log_next_sequence:
  assumes "log_reads sha encode snap start es file"
  shows "unat (start + of_nat (length es)) = unat start + length es"
  using assms by (simp add: log_reads_def unat_word_ariths unat_of_nat)

text \<open>Opening a log, with or without a cut frame at its end.\<close>

lemma open_log:
  assumes "digest_length sha" "codec encode decode" "log_reads sha encode snap start es file"
    and disk: "lf_bytes disk = frames sha encode start es @ rest"
      "length (lf_bytes disk) \<le> unat MAX_LOG_BYTES"
    and rest: "rest = [] \<or> (\<exists>e k n. loggable encode e \<and> rest = take n (encode_frame sha k (the (encode e)))
       \<and> n < length (encode_frame sha k (the (encode e))))"
  shows "open_event_log sha decode snap disk =
    (if rest = [] then disk else \<lparr>lf_bytes = frames sha encode start es,
                                  lf_synced = length (frames sha encode start es)\<rparr>,
     Inr (log_handle sha encode start es, pending_events snap start es))"
proof -
  note reads = assms(3)
  let ?n = "length es" and ?len = "length (frames sha encode start es)"
  have parsed: "parse_frames sha decode (lf_bytes disk) snap =
      Inr \<lparr>pf_events = pending_events snap start es, pf_valid_bytes = ?len, pf_frame_count = of_nat ?n,
           pf_last_sequence = (if es = [] then None else Some (start + of_nat ?n - 1))\<rparr>"
    unfolding disk(1) using reads
    by (intro parse_frames_log [OF assms(1,2) _ _ rest]) (auto simp: log_reads_def)
  have next_seq: "checked_add (max (case if es = [] then None else Some (start + of_nat ?n - 1) of
        None \<Rightarrow> snap | Some final \<Rightarrow> final) snap) 1 = Some (start + of_nat ?n)"
  proof (cases "es = []")
    case True
    with reads have "start = saturating_add snap 1 \<or> start = 1" "unat snap < unat start" "unat start < 2 ^ 64"
      by (auto simp: log_reads_def)
    then have "unat start = unat snap + 1"
      by (auto simp: unat_saturating_add)
    then have "start = snap + 1"
      using unat_lt_pow [of start] by (simp add: word_unat_eq_iff unat_word_ariths)
    with \<open>unat start = unat snap + 1\<close> show ?thesis
      using True unat_lt_pow [of start] by (simp add: checked_add_Some)
  next
    case False
    let ?f = "start + of_nat ?n - 1"
    have un: "unat (start + of_nat ?n) = unat start + ?n" by (rule log_next_sequence [OF reads])
    have pos: "0 < unat start" using reads by (simp add: log_reads_def)
    have "unat ?f = unat start + ?n - 1"
      using un pos by (subst unat_sub) (simp_all add: word_le_nat_alt)
    moreover have "snap \<le> ?f"
      using calculation reads by (auto simp: word_le_nat_alt log_reads_def)
    ultimately show ?thesis
      using False un pos unat_lt_pow [of "start + of_nat ?n"] by (simp add: checked_add_Some max_absorb1)
  qed
  have small: "\<not> length (lf_bytes disk) > unat MAX_LOG_BYTES" using disk(2) by simp
  show ?thesis
    unfolding open_event_log_def using small parsed next_seq
    by (simp add: Let_def log_handle_def disk(1))
qed

section \<open>Appending\<close>

lemma append_event_cases:
  assumes sha: "digest_length sha" and reads: "log_reads sha encode snap start es file"
    and run: "append_event sha encode io e (log_handle sha encode start es) file = (log', file', r)"
  obtains (refused) err where "r = Inl err" "\<not> mutation_unknown err" "file' = file"
      "log' = log_handle sha encode start es"
  | (written) p n where "encode e = Some p" "loggable encode e"
      "length (frames sha encode start (es @ [e])) \<le> unat MAX_LOG_BYTES"
      "lf_bytes file' = lf_bytes file @ take n (encode_frame sha (start + of_nat (length es)) p)"
      "lf_synced file' = lf_synced file" "\<exists>op. r = Inl (MutationUnknown op)" "el_reload_required log'"
  | (logged) "loggable encode e" "length (frames sha encode start (es @ [e])) \<le> unat MAX_LOG_BYTES"
      "file' = \<lparr>lf_bytes = frames sha encode start (es @ [e]),
                lf_synced = length (frames sha encode start (es @ [e]))\<rparr>"
      "r = Inr (start + of_nat (length es))" "log' = log_handle sha encode start (es @ [e])"
proof -
  let ?s = "start + of_nat (length es)" and ?log = "log_handle sha encode start es"
  have bytes: "lf_bytes file = frames sha encode start es" using reads by (simp add: log_reads_def)
  show thesis
  proof (cases "encode e")
    case None
    with run show thesis by (intro refused [of "CorruptData ''event encoding''"])
        (auto simp: append_event_def log_handle_def)
  next
    case (Some p)
    let ?F = "encode_frame sha ?s p"
    have whole: "frames sha encode start (es @ [e]) = frames sha encode start es @ ?F"
      by (simp add: frames_append Some)
    show thesis
    proof (cases "length p > MAX_EVENT_PAYLOAD_BYTES")
      case True
      with Some run show thesis by (intro refused [of "LimitExceeded ''event payload exceeds 1 MiB''"])
          (auto simp: append_event_def log_handle_def)
    next
      case small: False
      then have loggable: "loggable encode e" using Some by (simp add: loggable_def)
      let ?full = "saturating_add (el_byte_len ?log) (of_nat (length ?F)) > MAX_LOG_BYTES"
      show thesis
      proof (cases ?full)
        case True
        with Some small run show thesis by (intro refused [of "LimitExceeded ''event log exceeds 32 MiB''"])
            (auto simp: append_event_def log_handle_def)
      next
        case False
        have lens: "length (frames sha encode start es) \<le> 33554432" "length ?F \<le> 1048625"
          using reads small by (auto simp: log_reads_def MAX_LOG_BYTES_def length_encode_frame [OF sha]
              MAX_EVENT_PAYLOAD_BYTES_def)
        then have room: "length (frames sha encode start (es @ [e])) \<le> unat MAX_LOG_BYTES"
          using False
          by (simp add: log_handle_def word_less_nat_alt unat_saturating_add unat_of_nat whole MAX_LOG_BYTES_def)
        note simps = append_event_def log_handle_def Some Let_def
        have base: "append_event sha encode io e ?log file = (case io of
              AppendRefused \<Rightarrow> (?log, file, Inl (Io ''event append''))
            | WriteTorn n \<Rightarrow> (?log\<lparr>el_reload_required := True\<rparr>,
                file\<lparr>lf_bytes := lf_bytes file @ take n ?F\<rparr>, Inl (MutationUnknown ''event append''))
            | SyncFailed \<Rightarrow> (?log\<lparr>el_reload_required := True\<rparr>,
                file\<lparr>lf_bytes := lf_bytes file @ ?F\<rparr>, Inl (MutationUnknown ''event append sync''))
            | AppendDone \<Rightarrow> (log_handle sha encode start (es @ [e]),
                \<lparr>lf_bytes = frames sha encode start (es @ [e]),
                 lf_synced = length (frames sha encode start (es @ [e]))\<rparr>, Inr ?s))"
          using False small
          by (cases io) (simp_all add: append_event_def log_handle_def Some Let_def bytes whole add.assoc)
        show thesis
        proof (cases io)
          case AppendRefused
          with base run show thesis by (intro refused [of "Io ''event append''"]) auto
        next
          case (WriteTorn n)
          with base run show thesis using Some loggable room
            by (intro written [of p n]) auto
        next
          case SyncFailed
          with base run show thesis using Some loggable room
            by (intro written [of p "length ?F"]) auto
        next
          case AppendDone
          with base run show thesis using loggable room by (intro logged) auto
        qed
      qed
    qed
  qed
qed

lemma log_reads_snoc:
  assumes "log_reads sha encode snap start es file" "loggable encode e"
    "length (frames sha encode start (es @ [e])) \<le> unat MAX_LOG_BYTES"
    "unat start + length es + 1 < 2 ^ 64" "synced \<le> length (frames sha encode start (es @ [e]))"
  shows "log_reads sha encode snap start (es @ [e])
    \<lparr>lf_bytes = frames sha encode start (es @ [e]), lf_synced = synced\<rparr>"
  using assms by (auto simp: log_reads_def)

text \<open>What a crash leaves of a log whose frames were all synchronised, after one more write.\<close>

lemma crash_after_write:
  assumes reads: "log_reads sha encode snap start es file" and synced: "lf_synced file = length (lf_bytes file)"
    and p: "encode e = Some p"
    and file': "lf_bytes file' = lf_bytes file @ take n (encode_frame sha (start + of_nat (length es)) p)"
      "lf_synced file' = lf_synced file"
    and crash: "survives_crash file' disk"
  obtains k where "lf_bytes disk = frames sha encode start es
      @ take k (encode_frame sha (start + of_nat (length es)) p)" "lf_synced disk = length (lf_bytes disk)"
proof -
  let ?F = "encode_frame sha (start + of_nat (length es)) p"
  have bytes: "lf_bytes file = frames sha encode start es" using reads by (simp add: log_reads_def)
  from crash obtain m where m: "lf_synced file' \<le> m" "m \<le> length (lf_bytes file')"
      "disk = \<lparr>lf_bytes = take m (lf_bytes file'), lf_synced = m\<rparr>"
    by (auto simp: survives_crash_def)
  let ?len = "length (frames sha encode start es)"
  have "?len \<le> m" using m(1) file'(2) synced bytes by simp
  then have cut: "take m (lf_bytes file') = frames sha encode start es @ take (min (m - ?len) n) ?F"
    using file'(1) bytes by (simp add: take_append min.commute)
  show thesis
  proof (rule that)
    show "lf_bytes disk = frames sha encode start es @ take (min (m - ?len) n) ?F" using m(3) cut by simp
    show "lf_synced disk = length (lf_bytes disk)" using m(2,3) by simp
  qed
qed

text \<open>Opening a log that ends in the first \<open>k\<close> bytes of one more frame.\<close>

lemma open_after_write:
  assumes sha: "digest_length sha" and codec: "codec encode decode"
    and reads: "log_reads sha encode snap start es file"
    and e: "encode e = Some p" "loggable encode e" "unat start + length es + 1 < 2 ^ 64"
      "length (frames sha encode start (es @ [e])) \<le> unat MAX_LOG_BYTES"
    and disk: "lf_bytes disk = frames sha encode start es
      @ take k (encode_frame sha (start + of_nat (length es)) p)" "lf_synced disk \<le> length (lf_bytes disk)"
  obtains kept disk' where "kept = [] \<or> kept = [e]"
    "open_event_log sha decode snap disk =
       (disk', Inr (log_handle sha encode start (es @ kept), pending_events snap start (es @ kept)))"
    "log_reads sha encode snap start (es @ kept) disk'"
    "length (encode_frame sha (start + of_nat (length es)) p) \<le> k \<Longrightarrow> kept = [e]"
    "kept = [e] \<Longrightarrow> lf_synced disk' = lf_synced disk"
    "kept = [] \<Longrightarrow> lf_synced disk = length (lf_bytes disk) \<Longrightarrow> lf_synced disk' = length (lf_bytes disk')"
    "kept = [e] \<Longrightarrow> lf_bytes disk' = lf_bytes disk"
proof -
  let ?F = "encode_frame sha (start + of_nat (length es)) p"
  have whole: "frames sha encode start (es @ [e]) = frames sha encode start es @ ?F"
    by (simp add: frames_append e(1))
  have fits: "length (lf_bytes disk) \<le> unat MAX_LOG_BYTES" using e(4) by (simp add: disk(1) whole)
  show thesis
  proof (cases "length ?F \<le> k")
    case True
    then have bytes: "lf_bytes disk = frames sha encode start (es @ [e])" by (simp add: disk(1) whole)
    have reads': "log_reads sha encode snap start (es @ [e]) disk"
      using log_reads_snoc [OF reads e(2,4,3), of "lf_synced disk"] disk(2) bytes
      by (metis (full_types) log_file.surjective old.unit.exhaust)
    have "open_event_log sha decode snap disk =
        (disk, Inr (log_handle sha encode start (es @ [e]), pending_events snap start (es @ [e])))"
      using open_log [OF sha codec reads', of disk "[]"] bytes fits by simp
    then show thesis using reads' by (intro that [of "[e]" disk]) auto
  next
    case False
    let ?disk' = "if take k ?F = [] then disk
       else \<lparr>lf_bytes = frames sha encode start es, lf_synced = length (frames sha encode start es)\<rparr>"
    have torn: "take k ?F = [] \<or> (\<exists>e' j n. loggable encode e' \<and> take k ?F = take n (encode_frame sha j (the (encode e')))
        \<and> n < length (encode_frame sha j (the (encode e'))))"
      using False e(1,2) by (intro disjI2 exI [of _ e] exI [of _ "start + of_nat (length es)"] exI [of _ k]) simp
    have opened: "open_event_log sha decode snap disk =
        (?disk', Inr (log_handle sha encode start es, pending_events snap start es))"
      by (rule open_log [OF sha codec reads disk(1) fits torn])
    have reads': "log_reads sha encode snap start es ?disk'"
      using reads disk by (auto simp: log_reads_def)
    show thesis
      using opened reads' False by (intro that [of "[]" ?disk']) auto
  qed
qed

text \<open>A frame that does not continue the log is refused.\<close>

lemma parse_refused:
  assumes sha: "digest_length sha" and small: "length payload \<le> MAX_EVENT_PAYLOAD_BYTES"
    and refused: "\<not> sequence_accepted snap previous sequence"
  shows "parse_loop sha decode snap offset events previous count (encode_frame sha sequence payload @ rest)
    = Inl (CorruptData ''unexpected event sequence'')"
proof -
  let ?all = "encode_frame sha sequence payload @ rest"
  have shape: "?all = FRAME_MAGIC @ [FRAME_VERSION] @ u64_be sequence @ u32_be (of_nat (length payload))
      @ (payload @ sha (FRAME_MAGIC @ [FRAME_VERSION] @ u64_be sequence @ u32_be (of_nat (length payload)) @ payload)
         @ rest)" by (simp add: encode_frame_def Let_def)
  note header = frame_header [OF small shape]
  define all where "all = ?all"
  have "17 + length payload + 32 \<le> length all"
    by (simp add: all_def length_encode_frame [OF sha])
  then have "all \<noteq> []" "\<not> length all < 17" "\<not> length all < 17 + length payload + 32" by auto
  with header small refused show ?thesis
    unfolding all_def [symmetric]
    by (subst parse_loop.simps) (simp add: FRAME_HEADER_BYTES_def CHECKSUM_BYTES_def Let_def)
qed

section \<open>Compacting\<close>

lemma log_final:
  assumes "log_reads sha encode snap start es file"
  shows "unat (start + of_nat (length es) - 1) = unat start + length es - 1"
    and "saturating_sub (start + of_nat (length es)) 1 = start + of_nat (length es) - 1"
    and "saturating_add (start + of_nat (length es) - 1) 1 = start + of_nat (length es)"
proof -
  let ?next = "start + of_nat (length es)" and ?snap = "start + of_nat (length es) - 1"
  have un: "unat ?next = unat start + length es" by (rule log_next_sequence [OF assms])
  have pos: "0 < unat start" "unat start + length es < 2 ^ 64" using assms by (auto simp: log_reads_def)
  show snap: "unat ?snap = unat start + length es - 1"
    using un pos by (subst unat_sub) (simp_all add: word_le_nat_alt)
  show "saturating_sub ?next 1 = ?snap"
    using un pos by (simp add: saturating_sub_def word_le_nat_alt)
  show "saturating_add ?snap 1 = ?next"
    using snap un pos by (simp add: word_unat_eq_iff unat_saturating_add)
qed

lemma empty_log_reads:
  assumes "log_reads sha encode snap start es file"
  shows "log_reads sha encode (start + of_nat (length es) - 1) (start + of_nat (length es)) [] empty_log_file"
  using log_final [OF assms] log_next_sequence [OF assms] assms
  by (auto simp: log_reads_def empty_log_file_def)

text \<open>The old log read against the new snapshot.\<close>

lemma split_log_reads:
  assumes "log_reads sha encode snap start es file" "start = 1 \<or> es = []"
  shows "log_reads sha encode (start + of_nat (length es) - 1) start es file"
  using assms log_final [OF assms(1)] by (auto simp: log_reads_def)

lemma numbered_bound:
  "(k, e) \<in> set (numbered start es) \<Longrightarrow> unat start + length es < 2 ^ 64 \<Longrightarrow> unat k < unat start + length es"
proof (induction es arbitrary: start)
  case (Cons x es)
  then have "unat (start + 1) = unat start + 1"
    by (simp add: unat_word_ariths)
  with Cons.prems Cons.IH [of "start + 1"] show ?case by auto
qed simp

lemma split_log_pending:
  assumes "log_reads sha encode snap start es file"
  shows "pending_events (start + of_nat (length es) - 1) start es = []"
proof -
  have "\<not> start + of_nat (length es) - 1 < k" if "(k, e) \<in> set (numbered start es)" for k e
    using numbered_bound [OF that] log_final(1) [OF assms] assms
    by (simp add: log_reads_def word_less_nat_alt)
  then show ?thesis by (auto simp: pending_events_def filter_empty_conv)
qed

lemma split_log_refused:
  assumes "digest_length sha" "log_reads sha encode snap start es file" "start \<noteq> 1" "es \<noteq> []"
  shows "open_event_log sha decode (start + of_nat (length es) - 1) file
    = (file, Inl (CorruptData ''unexpected event sequence''))"
proof -
  let ?next = "start + of_nat (length es)" and ?snap = "start + of_nat (length es) - 1"
  obtain e fs where es: "es = e # fs" using assms(4) by (cases es) auto
  then obtain p where p: "encode e = Some p" "length p \<le> MAX_EVENT_PAYLOAD_BYTES"
    using assms(2) by (auto simp: log_reads_def loggable_def)
  have bytes: "lf_bytes file = frames sha encode start es" "\<not> length (lf_bytes file) > unat MAX_LOG_BYTES"
    using assms(2) by (auto simp: log_reads_def)
  have "unat ?next = unat start + length es" by (rule log_next_sequence [OF assms(2)])
  with es have "unat start \<noteq> unat ?next" by simp
  then have "start \<noteq> saturating_add ?snap 1"
    unfolding log_final(3) [OF assms(2)] by metis
  with assms(3) have "\<not> sequence_accepted ?snap None start" by (simp add: sequence_accepted_def)
  then have "parse_loop sha decode ?snap 0 [] None 0 (encode_frame sha start p @ frames sha encode (start + 1) fs)
      = Inl (CorruptData ''unexpected event sequence'')"
    by (rule parse_refused [OF assms(1) p(2)])
  then have "parse_frames sha decode (lf_bytes file) ?snap = Inl (CorruptData ''unexpected event sequence'')"
    using bytes(1) es p(1) by (simp add: parse_frames_def)
  with bytes(2) show ?thesis by (simp add: open_event_log_def)
qed

section \<open>Accepted logs are canonical\<close>

lemma word_be_inverse:
  "length bs = 8 \<Longrightarrow> u64_be (u64_from_be bs) = bs" "length cs = 4 \<Longrightarrow> u32_be (u32_from_be cs) = cs"
proof -
  have small: "from_be ds < 256 ^ length ds" for ds
  proof (induction ds rule: rev_induct)
    case (snoc d ds)
    have "unat d < 256" using unat_lt_pow [of d] by simp
    with snoc show ?case by simp
  qed simp
  show "u64_be (u64_from_be bs) = bs" if "length bs = 8"
    using small [of bs] be_bytes_from_be [of bs] that by (simp add: u64_be_def u64_from_be_def unat_of_nat)
  show "u32_be (u32_from_be cs) = cs" if "length cs = 4"
    using small [of cs] be_bytes_from_be [of cs] that by (simp add: u32_be_def u32_from_be_def unat_of_nat)
qed

text \<open>The bytes of an accepted frame are the encoding of its sequence and payload.\<close>

lemma accepted_frame:
  assumes "take 4 remaining = FRAME_MAGIC" "remaining ! 4 = FRAME_VERSION"
    and "n = frame_payload_len remaining" "17 + n + 32 \<le> length remaining" "n \<le> MAX_EVENT_PAYLOAD_BYTES"
    and "take 32 (drop (17 + n) remaining) = sha (take (17 + n) remaining)"
  shows "take (17 + n + 32) remaining = encode_frame sha (frame_sequence remaining) (take n (drop 17 remaining))"
proof -
  let ?p = "take n (drop 17 remaining)"
  have version: "take 1 (drop 4 remaining) = [FRAME_VERSION]"
    using assms(2,4) by (simp add: take_Suc_conv_app_nth [of 0 "drop 4 remaining", simplified] hd_drop_conv_nth)
  have sequence: "take 8 (drop 5 remaining) = u64_be (frame_sequence remaining)"
    using assms(4) by (simp add: frame_sequence_def word_be_inverse(1))
  have len: "length ?p = n" using assms(4) by simp
  have "u32_from_be (take 4 (drop 13 remaining)) = of_nat n"
    by (simp add: assms(3) frame_payload_len_def)
  then have size: "take 4 (drop 13 remaining) = u32_be (of_nat (length ?p))"
    using word_be_inverse(2) [of "take 4 (drop 13 remaining)"] assms(4) len by simp
  have "take (17 + n) remaining = take 4 remaining @ take 1 (drop 4 remaining) @ take 8 (drop 5 remaining)
      @ take 4 (drop 13 remaining) @ ?p"
    using take_add [of 4 "1 + (8 + (4 + n))" remaining] take_add [of 1 "8 + (4 + n)" "drop 4 remaining"]
      take_add [of 8 "4 + n" "drop 5 remaining"] take_add [of 4 n "drop 13 remaining"] by simp
  then have head: "take (17 + n) remaining = FRAME_MAGIC @ [FRAME_VERSION] @ u64_be (frame_sequence remaining)
      @ u32_be (of_nat (length ?p)) @ ?p"
    by (simp only: assms(1) version sequence size)
  have "take (17 + n + 32) remaining = take (17 + n) remaining @ sha (take (17 + n) remaining)"
    using assms(6) take_add [of "17 + n" 32 remaining] by (simp only:)
  then show ?thesis unfolding encode_frame_def Let_def head by simp
qed

lemma parse_loop_cases:
  assumes "parse_loop sha decode snap offset events previous count remaining = Inr r"
  obtains (stop) "r = \<lparr>pf_events = events, pf_valid_bytes = offset, pf_frame_count = count,
        pf_last_sequence = previous\<rparr>"
  | (frame) n sequence more where "n \<le> MAX_EVENT_PAYLOAD_BYTES" "17 + n + 32 \<le> length remaining"
      "take (17 + n + 32) remaining = encode_frame sha sequence (take n (drop 17 remaining))"
      "sequence_accepted snap previous sequence"
      "parse_loop sha decode snap (offset + (17 + n + 32)) (events @ more) (Some sequence) (count + 1)
         (drop (17 + n + 32) remaining) = Inr r"
      "map (\<lambda>(k, e). (k, Some e)) more =
         (if sequence > snap then [(sequence, decode (take n (drop 17 remaining)))] else [])"
proof -
  let ?n = "frame_payload_len remaining" and ?s = "frame_sequence remaining"
  show thesis
  proof (cases "remaining = [] \<or> length remaining < 17 \<or> length remaining < 17 + ?n + 32")
    case True
    with assms show thesis
      by (subst (asm) parse_loop.simps)
        (auto simp: FRAME_HEADER_BYTES_def CHECKSUM_BYTES_def Let_def split: if_splits option.splits intro: stop)
  next
    case False
    then have ok: "take 4 remaining = FRAME_MAGIC" "remaining ! 4 = FRAME_VERSION" "?n \<le> MAX_EVENT_PAYLOAD_BYTES"
        "sequence_accepted snap previous ?s" "take 32 (drop (17 + ?n) remaining) = sha (take (17 + ?n) remaining)"
      using assms
      by (subst (asm) parse_loop.simps,
          simp add: FRAME_HEADER_BYTES_def CHECKSUM_BYTES_def Let_def split: if_splits)+
    have long: "17 + ?n + 32 \<le> length remaining" using False by simp
    note step = parse_step [of ?n remaining ?s snap previous sha, OF long ok(1,2) refl refl ok(3,4,5)]
    note canonical = accepted_frame [of remaining ?n sha, OF ok(1,2) refl long ok(3,5)]
    show thesis
    proof (cases "?s > snap")
      case True
      with assms step [of decode offset events count] obtain e where "decode (take ?n (drop 17 remaining)) = Some e"
          "parse_loop sha decode snap (offset + (17 + ?n + 32)) (events @ [(?s, e)]) (Some ?s) (count + 1)
             (drop (17 + ?n + 32) remaining) = Inr r"
        by (auto split: option.splits)
      with True long ok canonical show thesis by (intro frame [of ?n ?s "[(?s, e)]"]) simp_all
    next
      case older: False
      with assms step [of decode offset events count] have
        "parse_loop sha decode snap (offset + (17 + ?n + 32)) (events @ []) (Some ?s) (count + 1)
           (drop (17 + ?n + 32) remaining) = Inr r" by simp
      with older long ok canonical show thesis by (intro frame [of ?n ?s "[]"]) simp_all
    qed
  qed
qed

lemma parse_loop_sound:
  assumes "parse_loop sha decode snap offset events previous count remaining = Inr r"
  shows "\<exists>start ps more. take (pf_valid_bytes r - offset) remaining = frames sha Some start ps
    \<and> offset \<le> pf_valid_bytes r \<and> pf_valid_bytes r - offset \<le> length remaining
    \<and> (\<forall>p \<in> set ps. length p \<le> MAX_EVENT_PAYLOAD_BYTES)
    \<and> (ps \<noteq> [] \<longrightarrow> sequence_accepted snap previous start)
    \<and> pf_frame_count r = count + of_nat (length ps)
    \<and> pf_events r = events @ more
    \<and> map (\<lambda>(k, e). (k, Some e)) more
        = map (\<lambda>(k, p). (k, decode p)) (filter (\<lambda>(k, _). k > snap) (numbered start ps))"
  using assms
proof (induction "length remaining" arbitrary: offset events previous count remaining rule: less_induct)
  case less
  from less.prems show ?case
  proof (cases rule: parse_loop_cases)
    case stop
    then show ?thesis by (intro exI [of _ 0] exI [of _ "[]"]) simp
  next
    case (frame n sequence more)
    let ?rest = "drop (17 + n + 32) remaining" and ?p = "take n (drop 17 remaining)"
    have "length ?rest < length remaining" using frame(2) by simp
    from less.hyps [OF this frame(5)] obtain start ps more' where
        rest: "take (pf_valid_bytes r - (offset + (17 + n + 32))) ?rest = frames sha Some start ps"
        and valid: "offset + (17 + n + 32) \<le> pf_valid_bytes r"
          "pf_valid_bytes r - (offset + (17 + n + 32)) \<le> length ?rest"
        and small: "\<forall>p \<in> set ps. length p \<le> MAX_EVENT_PAYLOAD_BYTES"
        and follows: "ps \<noteq> [] \<longrightarrow> start = sequence + 1"
        and count: "pf_frame_count r = count + 1 + of_nat (length ps)"
        and events: "pf_events r = (events @ more) @ more'"
        and decoded: "map (\<lambda>(k, e). (k, Some e)) more'
          = map (\<lambda>(k, p). (k, decode p)) (filter (\<lambda>(k, _). k > snap) (numbered start ps))"
      by (auto simp: sequence_accepted_def)
    have next': "frames sha Some start ps = frames sha Some (sequence + 1) ps"
      "numbered start ps = numbered (sequence + 1) ps" using follows by (cases ps; simp)+
    have "pf_valid_bytes r - offset = (17 + n + 32) + (pf_valid_bytes r - (offset + (17 + n + 32)))"
      using valid by simp
    then have "take (pf_valid_bytes r - offset) remaining
        = take (17 + n + 32) remaining @ take (pf_valid_bytes r - (offset + (17 + n + 32))) ?rest"
      by (simp only: take_add)
    then have "take (pf_valid_bytes r - offset) remaining = frames sha Some sequence (?p # ps)"
      using frame(3) rest next' by simp
    moreover have "length ?p \<le> MAX_EVENT_PAYLOAD_BYTES" using frame(1) by simp
    moreover have "map (\<lambda>(k, e). (k, Some e)) (more @ more')
        = map (\<lambda>(k, p). (k, decode p)) (filter (\<lambda>(k, _). k > snap) (numbered sequence (?p # ps)))"
      using frame(6) decoded next' by simp
    moreover have "pf_valid_bytes r - offset \<le> length remaining" "offset \<le> pf_valid_bytes r"
      using valid frame(2) by simp_all
    ultimately show ?thesis
      using frame(4) small count events
      by (intro exI [of _ sequence] exI [of _ "?p # ps"] exI [of _ "more @ more'"]) (simp add: add.assoc)
  qed
qed

section \<open>Properties\<close>



definition ex_sha :: "bytes \<Rightarrow> bytes" where
  "ex_sha x = replicate 32 (of_nat (length x))"

lemma ex_sha_length: "digest_length ex_sha"
  by (simp add: digest_length_def ex_sha_def CHECKSUM_BYTES_def)

lemma ex_codec: "codec Some Some"
  by (simp add: codec_def)

definition ex_log_file :: "u64 \<Rightarrow> bytes list \<Rightarrow> log_file" where
  "ex_log_file start es = \<lparr>lf_bytes = frames ex_sha Some start es,
     lf_synced = length (frames ex_sha Some start es)\<rparr>"

lemma ex_log_reads:
  "log_reads ex_sha Some 0 1 [[1, 2]] (ex_log_file 1 [[1, 2]])"
  "log_reads ex_sha Some 4 5 [[7]] (ex_log_file 5 [[7]])"
  by (simp_all add: log_reads_def ex_log_file_def loggable_def MAX_EVENT_PAYLOAD_BYTES_def MAX_LOG_BYTES_def
      length_encode_frame [OF ex_sha_length] saturating_add_def checked_add_def)


text \<open>
  C32: The log parser accepts canonical logs only. What it takes as valid is, byte
  for byte, the encoding of consecutive frames starting at the first sequence
  number or right after the snapshot, and the events it returns are the decoded
  payloads of the frames after the snapshot.
\<close>

theorem accepted_log_is_canonical:
  assumes "parse_frames sha decode contents snap = Inr r"
  shows "\<exists>start ps. take (pf_valid_bytes r) contents = frames sha Some start ps
    \<and> pf_valid_bytes r \<le> length contents
    \<and> pf_frame_count r = of_nat (length ps)
    \<and> (ps \<noteq> [] \<longrightarrow> start = 1 \<or> start = saturating_add snap 1)
    \<and> map (\<lambda>(k, e). (k, Some e)) (pf_events r)
        = map (\<lambda>(k, p). (k, decode p)) (filter (\<lambda>(k, _). k > snap) (numbered start ps))"
  using parse_loop_sound [OF assms [unfolded parse_frames_def]] by (auto simp: sequence_accepted_def)

theorem accepted_log_is_canonical_witness:
  "\<exists>start ps. take 51 (frames ex_sha Some 1 [[1, 2]] @ [0x4D]) = frames ex_sha Some start ps"
proof -
  have "parse_frames ex_sha Some (frames ex_sha Some 1 [[1, 2]] @ [0x4D]) 0
      = Inr \<lparr>pf_events = [(1, [1, 2])], pf_valid_bytes = 51, pf_frame_count = 1, pf_last_sequence = Some 1\<rparr>"
    by code_simp
  from accepted_log_is_canonical [OF this] show ?thesis by auto
qed

text \<open>
  A compaction that both publications complete preserves the log: the
  snapshot carries the last sequence number, the log is empty and continues with
  the next one, and reopening it yields no event a second time.
\<close>

theorem compaction_continues_log:
  assumes "digest_length sha" "codec encode decode" "log_reads sha encode snap start es file"
  shows "\<exists>snap'. unat snap' = unat start + length es - 1
    \<and> compact PublishDone PublishDone payload (log_handle sha encode start es) snapshot file
      = (log_handle sha encode (start + of_nat (length es)) ([] :: 'e list), Some (snap', payload),
         empty_log_file, Inr ())
    \<and> log_reads sha encode snap' (start + of_nat (length es)) [] empty_log_file
    \<and> open_event_log sha decode snap' empty_log_file
      = (empty_log_file, Inr (log_handle sha encode (start + of_nat (length es)) [], []))"
proof -
  let ?next = "start + of_nat (length es)" and ?snap = "start + of_nat (length es) - 1"
  note reads = empty_log_reads [OF assms(3)]
  have "open_event_log sha decode ?snap empty_log_file
      = (empty_log_file, Inr (log_handle sha encode ?next [], pending_events ?snap ?next []))"
    using open_log [OF assms(1,2) reads, of empty_log_file "[]"] by (simp add: empty_log_file_def)
  moreover have "compact PublishDone PublishDone payload (log_handle sha encode start es) snapshot file
      = (log_handle sha encode ?next [], Some (?snap, payload), empty_log_file, Inr ())"
    by (simp add: compact_def log_handle_def atomic_write_def log_final(2) [OF assms(3)])
  ultimately show ?thesis
    using log_final(1) [OF assms(3)] reads by (intro exI [of _ ?snap]) (simp add: pending_events_def)
qed

theorem compaction_continues_log_witness:
  "\<exists>snap'. unat snap' = 1
     \<and> compact PublishDone PublishDone () (log_handle ex_sha Some 1 [[1, 2]]) None (ex_log_file 1 [[1, 2]])
       = (log_handle ex_sha Some 2 ([] :: bytes list), Some (snap', ()), empty_log_file, Inr ())"
  using compaction_continues_log [OF ex_sha_length ex_codec ex_log_reads(1), of "()" None] by auto

text \<open>
  C33: A compaction that stops between its two publications (the snapshot is
  published, the log is still the old one) leaves a log that can be opened again
  exactly when the log began with the first sequence number or holds no frame.
  From the second compaction on the log begins later, so such a stop, by a crash or
  by a failed replacement of the log, makes the store refuse to open.
\<close>

theorem interrupted_compaction_reopens_iff:
  assumes "digest_length sha" "codec encode decode" "log_reads sha encode snap start es file"
    and "compact PublishDone PublishRefused payload (log_handle sha encode start es) snapshot file
      = (log', Some (snap', payload'), file', r)"
  shows "file' = file \<and> ((\<exists>log events. snd (open_event_log sha decode snap' file') = Inr (log, events))
    \<longleftrightarrow> start = 1 \<or> es = [])"
proof -
  let ?snap = "start + of_nat (length es) - 1"
  have out: "snap' = ?snap" "file' = file"
    using assms(4) by (auto simp: compact_def log_handle_def atomic_write_def log_final(2) [OF assms(3)])
  have bytes: "lf_bytes file = frames sha encode start es @ []" "length (lf_bytes file) \<le> unat MAX_LOG_BYTES"
    using assms(3) by (auto simp: log_reads_def)
  show ?thesis
  proof (cases "start = 1 \<or> es = []")
    case True
    from open_log [OF assms(1,2) split_log_reads [OF assms(3) True] bytes] show ?thesis using True out by simp
  next
    case False
    then have "open_event_log sha decode ?snap file = (file, Inl (CorruptData ''unexpected event sequence''))"
      by (intro split_log_refused [OF assms(1,3)]) auto
    with False out show ?thesis by simp
  qed
qed

theorem interrupted_compaction_reopens_iff_witness:
  "\<not> (\<exists>log events. snd (open_event_log ex_sha Some 5 (ex_log_file 5 [[7 :: 8 word]])) = Inr (log, events))"
proof -
  let ?run = "compact PublishDone PublishRefused () (log_handle ex_sha Some 5 [[7 :: 8 word]]) (Some (4, ())) (ex_log_file 5 [[7]])"
  have run: "?run = (log_handle ex_sha Some 5 [[7]], Some (5, ()), ex_log_file 5 [[7]], Inl (Io ''event log compaction''))"
    by code_simp
  from interrupted_compaction_reopens_iff [OF ex_sha_length ex_codec ex_log_reads(2) run] show ?thesis by simp
qed

text \<open>
  Reloading after a failed synchronisation makes an event visible that is not
  yet durable: the append reports an unknown outcome, the reload returns the
  event, and a crash right afterwards still loses it, because opening a log that
  is not torn does not synchronise it.
\<close>

theorem reloaded_event_can_vanish:
  assumes "digest_length sha" "codec encode decode"
    and "log_reads sha encode snap start es file" "lf_synced file = length (lf_bytes file)"
    and "unat start + length es + 1 < 2 ^ 64"
    and "append_event sha encode SyncFailed e (log_handle sha encode start es) file
      = (log', file', Inl (MutationUnknown op))"
  shows "\<exists>reloaded disk. open_event_log sha decode snap file'
        = (reloaded, Inr (log_handle sha encode start (es @ [e]), pending_events snap start (es @ [e])))
    \<and> survives_crash reloaded disk
    \<and> open_event_log sha decode snap disk
        = (disk, Inr (log_handle sha encode start es, pending_events snap start es))"
proof -
  have bytes: "lf_bytes file = frames sha encode start es" using assms(3) by (simp add: log_reads_def)
  from assms(1,3,6) obtain p n where p: "encode e = Some p" "loggable encode e"
      "length (frames sha encode start (es @ [e])) \<le> unat MAX_LOG_BYTES"
    by (cases rule: append_event_cases) auto
  let ?F = "encode_frame sha (start + of_nat (length es)) p"
  have file': "file' = file\<lparr>lf_bytes := frames sha encode start (es @ [e])\<rparr>"
    using assms(6) p(1) by (auto simp: append_event_def Let_def log_handle_def bytes frames_append split: if_splits)
  have reads': "log_reads sha encode snap start (es @ [e]) file'"
    using log_reads_snoc [OF assms(3) p(2,3) assms(5), of "lf_synced file"] assms(4)
    by (simp add: file' bytes frames_append) (metis (full_types) log_file.surjective log_file.update_convs(1) old.unit.exhaust)
  have reload: "open_event_log sha decode snap file'
      = (file', Inr (log_handle sha encode start (es @ [e]), pending_events snap start (es @ [e])))"
    using open_log [OF assms(1,2) reads', of file' "[]"] p(3) by (simp add: file')
  have "survives_crash file' file"
    unfolding survives_crash_def using assms(4)
    by (intro exI [of _ "length (lf_bytes file)"]) (simp add: file' bytes frames_append)
  moreover have "open_event_log sha decode snap file
      = (file, Inr (log_handle sha encode start es, pending_events snap start es))"
    using open_log [OF assms(1-3), of "file" "[]"] assms(3) by (auto simp: log_reads_def)
  ultimately show ?thesis using reload by blast
qed

theorem reloaded_event_can_vanish_witness:
  "\<exists>reloaded disk. snd (open_event_log ex_sha Some 0
       (fst (snd (append_event ex_sha Some SyncFailed [3] (log_handle ex_sha Some 1 [[1, 2]]) (ex_log_file 1 [[1, 2]])))))
       = Inr (log_handle ex_sha Some 1 [[1, 2], [3]], [(1, [1, 2]), (2, [3])])
     \<and> survives_crash reloaded disk"
proof -
  let ?run = "append_event ex_sha Some SyncFailed [3] (log_handle ex_sha Some 1 [[1, 2]]) (ex_log_file 1 [[1, 2]])"
  have synced: "lf_synced (ex_log_file 1 [[1, 2]]) = length (lf_bytes (ex_log_file 1 [[1, 2]]))"
    by (simp add: ex_log_file_def)
  have bound: "unat (1 :: u64) + length [[1, 2 :: 8 word]] + 1 < 2 ^ 64" by simp
  have "snd (snd ?run) = Inl (MutationUnknown ''event append sync'')" by code_simp
  then have run: "?run = (fst ?run, fst (snd ?run), Inl (MutationUnknown ''event append sync''))"
    by (metis prod.collapse)
  have "pending_events 0 1 ([[1, 2]] @ [[3]]) = [(1, [1, 2]), (2, [3 :: 8 word])]" by code_simp
  with reloaded_event_can_vanish [OF ex_sha_length ex_codec ex_log_reads(1) synced bound run]
  show ?thesis by auto
qed

text \<open>
  A snapshot that is written is read back exactly: whatever was encoded loads
  with its sequence number and payload, and no snapshot file loads as none.
\<close>

theorem snapshot_roundtrip:
  assumes "snapshot_codec_ok c" "encode_snapshot c final_sequence payload = Inr encoded"
  shows "load_snapshot c (Some encoded) = Inr (Some (final_sequence, payload)) \<and> load_snapshot c None = Inr None"
  using assms
  by (auto simp: encode_snapshot_def load_snapshot_def snapshot_codec_ok_def result_simps)

definition ex_snapshot_codec :: "string snapshot_codec" where
  "ex_snapshot_codec = \<lparr>sc_to_value = (\<lambda>s. Some (JString s)),
     sc_from_value = (\<lambda>v. case v of JString s \<Rightarrow> Some s | _ \<Rightarrow> None),
     sc_to_vec = (\<lambda>v. case v of JString s \<Rightarrow> Some (str_bytes s) | _ \<Rightarrow> None),
     sc_envelope_to_vec = (\<lambda>x. case se_payload x of
        JString s \<Rightarrow> (if se_version x = 1 \<and> se_final_sequence x = 3 \<and> se_checksum x = ''00'' \<and> s = ''a''
                      then Some [9] else None) | _ \<Rightarrow> None),
     sc_envelope_from_slice = (\<lambda>b. if b = [9] then Some \<lparr>se_version = 1, se_final_sequence = 3,
        se_payload = JString ''a'', se_checksum = ''00''\<rparr> else None),
     sc_hex_encode = (\<lambda>b. map (\<lambda>w. char_of (unat w)) b),
     sc_hex_decode = (\<lambda>s. Some (str_bytes s)),
     sc_sha = (\<lambda>x. [0x30, 0x30])\<rparr>"

theorem snapshot_roundtrip_witness:
  "load_snapshot ex_snapshot_codec (Some [9]) = Inr (Some (3, ''a''))"
proof -
  have hex: "str_bytes (map (\<lambda>w. char_of (unat w)) b) = b" for b :: bytes
  proof (induction b)
    case (Cons w b)
    have "unat w < 256" using unat_lt_pow [of w] by simp
    then show ?case using Cons by (simp add: str_bytes_def of_char_of)
  qed (simp add: str_bytes_def)
  have "snapshot_codec_ok ex_snapshot_codec"
    unfolding snapshot_codec_ok_def ex_snapshot_codec_def
    by (auto simp: hex split: json.splits if_splits)
  moreover have "encode_snapshot ex_snapshot_codec 3 ''a'' = Inr [9]" by code_simp
  ultimately show ?thesis by (rule snapshot_roundtrip [THEN conjunct1])
qed

end
