(* ===== verification/File_Journal.thy ===== *)
theory File_Journal
  imports Operation_Lifecycle Event_Log "HOL-Library.Product_Lexorder"
begin

text \<open>
  The durable operation journal on the local filesystem
  (\<open>crates/gateway/src/transaction/file_journal.rs\<close>): the event reducer of one
  operation, its snapshot validation, and the journal that logs every transition
  before it applies it, reloads after an uncertain write and compacts its logs.
  Each operation has its own directory with a snapshot file and an event log; the
  directories are the map \<open>fj_disk\<close>. What the filesystem answers to one call is
  the argument \<open>io\<close>, the clock is \<open>clock\<close>.
\<close>

section \<open>Snapshots and events\<close>

definition SCHEMA_VERSION :: u32 where
  "SCHEMA_VERSION = 1"

definition MAX_OPERATION_PARTS :: nat where
  "MAX_OPERATION_PARTS = 10000"

definition MAX_EVIDENCE :: nat where
  "MAX_EVIDENCE = 4096"

record operation_snapshot =
  os_schema_version :: u32
  os_final_event_sequence :: u64
  os_operation :: "operation_record option"
  os_parts :: "part_record list"
  os_evidence :: "evidence_record list"

definition operation_snapshot_default :: operation_snapshot where
  "operation_snapshot_default =
     \<lparr>os_schema_version = SCHEMA_VERSION, os_final_event_sequence = 0, os_operation = None,
      os_parts = [], os_evidence = []\<rparr>"

datatype operation_transition =
    IntentInserted operation_record
  | Opened "string option" i64
  | ClientMultipartReferenceChanged "string option" "string option" i64
  | ExpectedChanged expected_object i64
  | StateChanged operation_state operation_state "stored_object_meta option" i64
  | PartRecorded part_record
  | EvidenceAppended evidence_record
  | MutationLaunched i64 i64
  | ExactAbsenceObserved i64 i64
  | Claimed string i64
  | TerminalRetired operation_state "string option"

record operation_event =
  oe_schema_version :: u32
  oe_sequence :: u64
  oe_operation_id :: uuid
  oe_transition :: operation_transition

section \<open>Validation\<close>

definition checked_timestamp :: "i64 \<Rightarrow> journal_error + unit" where
  "checked_timestamp value = (if value < 0 then Inl (Corrupt ''negative timestamp'') else Inr ())"

definition checked_optional_timestamp :: "i64 option \<Rightarrow> journal_error + unit" where
  "checked_optional_timestamp value = (case value of None \<Rightarrow> Inr () | Some t \<Rightarrow> checked_timestamp t)"

definition validate_operation :: "operation_record \<Rightarrow> journal_error + unit" where
  "validate_operation operation =
     and_then (checked_timestamp (or_created_at_ms operation)) (\<lambda>_.
     and_then (checked_timestamp (or_updated_at_ms operation)) (\<lambda>_.
     if or_updated_at_ms operation < or_created_at_ms operation
     then Inl (Corrupt ''operation update predates creation'')
     else
       and_then (checked_optional_timestamp (or_lease_expires_at_ms operation)) (\<lambda>_.
       and_then (checked_optional_timestamp (or_mutation_not_before_ms operation)) (\<lambda>_.
       and_then (checked_optional_timestamp (or_exact_absence_observed_at_ms operation)) (\<lambda>_.
       if (or_lease_owner operation \<noteq> None) \<noteq> (or_lease_expires_at_ms operation \<noteq> None)
       then Inl (Corrupt ''partial operation lease'')
       else if or_state operation = Committed \<and> or_committed operation = None
               \<or> or_state operation \<noteq> Committed \<and> or_committed operation \<noteq> None
       then Inl (Corrupt ''operation committed metadata does not match state'')
       else Inr ())))))"

text \<open>The loops of \<open>validate_snapshot\<close> over the child records.\<close>

fun validate_parts :: "uuid \<Rightarrow> int list \<Rightarrow> int option \<Rightarrow> part_record list \<Rightarrow> journal_error + unit" where
  "validate_parts operation_id part_numbers previous [] = Inr ()"
| "validate_parts operation_id part_numbers previous (part # parts) =
     and_then (checked_timestamp (pr_created_at_ms part)) (\<lambda>_.
     if pr_operation_id part \<noteq> operation_id \<or> pr_part_number part \<le> 0
        \<or> pr_part_number part \<in> set part_numbers
        \<or> (case previous of None \<Rightarrow> False | Some old \<Rightarrow> old \<ge> pr_part_number part)
     then Inl (Corrupt ''invalid or unsorted operation parts'')
     else validate_parts operation_id (pr_part_number part # part_numbers) (Some (pr_part_number part)) parts)"

fun validate_evidence :: "uuid \<Rightarrow> uuid list \<Rightarrow> evidence_record list \<Rightarrow> journal_error + unit" where
  "validate_evidence operation_id evidence_ids [] = Inr ()"
| "validate_evidence operation_id evidence_ids (evidence # rest) =
     and_then (checked_timestamp (er_created_at_ms evidence)) (\<lambda>_.
     if er_operation_id evidence \<noteq> operation_id \<or> er_id evidence \<in> set evidence_ids
     then Inl (Corrupt ''invalid operation evidence'')
     else validate_evidence operation_id (er_id evidence # evidence_ids) rest)"

definition validate_operation_snapshot :: "operation_snapshot \<Rightarrow> journal_error + unit" where
  "validate_operation_snapshot snapshot =
     (if os_schema_version snapshot \<noteq> SCHEMA_VERSION
      then Inl (Corrupt ''unsupported file operation snapshot version'')
      else if length (os_parts snapshot) > MAX_OPERATION_PARTS \<or> length (os_evidence snapshot) > MAX_EVIDENCE
      then Inl (Corrupt ''operation child record bound exceeded'')
      else case os_operation snapshot of
        None \<Rightarrow>
          if os_parts snapshot = [] \<and> os_evidence snapshot = [] then Inr ()
          else Inl (Corrupt ''retired operation retains child records'')
      | Some operation \<Rightarrow>
          and_then (validate_operation operation) (\<lambda>_.
          and_then (validate_parts (or_id operation) [] None (os_parts snapshot)) (\<lambda>_.
          validate_evidence (or_id operation) [] (os_evidence snapshot))))"

section \<open>The reducer\<close>

definition set_operation_updated_at :: "i64 \<Rightarrow> operation_record \<Rightarrow> journal_error + operation_record" where
  "set_operation_updated_at value operation =
     and_then (checked_timestamp value) (\<lambda>_.
     if value < or_created_at_ms operation then Inl (Corrupt ''operation update predates creation'')
     else Inr (operation\<lparr>or_updated_at_ms := value\<rparr>))"

definition require_operation :: "operation_snapshot \<Rightarrow> uuid \<Rightarrow> journal_error + operation_record" where
  "require_operation snapshot operation_id =
     (case os_operation snapshot of
        None \<Rightarrow> Inl (NotFound operation_id)
      | Some operation \<Rightarrow>
          if or_id operation = operation_id then Inr operation else Inl (NotFound operation_id))"

definition store_operation :: "operation_snapshot \<Rightarrow> operation_record \<Rightarrow> operation_snapshot" where
  "store_operation snapshot operation = snapshot\<lparr>os_operation := Some operation\<rparr>"

text \<open>
  The parts are sorted by number, so the binary search finds the part with that
  number if there is one, and otherwise the position that keeps them sorted.
\<close>

definition insert_sorted_part :: "part_record \<Rightarrow> part_record list \<Rightarrow> part_record list" where
  "insert_sorted_part part parts =
     takeWhile (\<lambda>old. pr_part_number old < pr_part_number part) parts @ part
       # dropWhile (\<lambda>old. pr_part_number old < pr_part_number part) parts"

fun reduce_operation ::
  "uuid \<Rightarrow> operation_transition \<Rightarrow> operation_snapshot \<Rightarrow> journal_error + operation_snapshot" where
  "reduce_operation event_id (IntentInserted operation) snapshot =
     (if os_operation snapshot \<noteq> None \<or> os_parts snapshot \<noteq> [] \<or> os_evidence snapshot \<noteq> []
      then Inl (Conflict ''duplicate operation id'')
      else if or_id operation \<noteq> event_id \<or> or_state operation \<noteq> Intent
      then Inl (Conflict ''new operation must start in INTENT'')
      else Inr (store_operation snapshot operation))"
| "reduce_operation event_id (Opened upload_id updated_at_ms) snapshot =
     and_then (require_operation snapshot event_id) (\<lambda>operation.
     if or_state operation \<noteq> Intent then Inl (Conflict ''expected INTENT'')
     else and_then (set_operation_updated_at updated_at_ms operation) (\<lambda>operation.
       Inr (store_operation snapshot (operation\<lparr>or_state := Open, or_upload_id := upload_id\<rparr>))))"
| "reduce_operation event_id (ClientMultipartReferenceChanged expected new updated_at_ms) snapshot =
     and_then (require_operation snapshot event_id) (\<lambda>operation.
     if or_client_multipart_upload_id operation \<noteq> expected
     then Inl (Conflict ''client multipart reference changed'')
     else and_then (set_operation_updated_at updated_at_ms operation) (\<lambda>operation.
       Inr (store_operation snapshot (operation\<lparr>or_client_multipart_upload_id := new\<rparr>))))"
| "reduce_operation event_id (ExpectedChanged expected updated_at_ms) snapshot =
     and_then (require_operation snapshot event_id) (\<lambda>operation.
     if \<not> (or_state operation = Intent \<or> or_state operation = Open)
     then Inl (Conflict ''cannot update expected output'')
     else and_then (set_operation_updated_at updated_at_ms operation) (\<lambda>operation.
       Inr (store_operation snapshot (operation\<lparr>or_expected := expected\<rparr>))))"
| "reduce_operation event_id (StateChanged expected new committed updated_at_ms) snapshot =
     (if \<not> can_transition_to expected new then Inl (Conflict ''illegal transition'')
      else if (new = Committed) \<noteq> (committed \<noteq> None)
      then Inl (Conflict ''COMMITTED transitions require object metadata only'')
      else and_then (require_operation snapshot event_id) (\<lambda>operation.
        if or_state operation \<noteq> expected then Inl (Conflict ''unexpected operation state'')
        else and_then (set_operation_updated_at updated_at_ms operation) (\<lambda>operation.
          Inr (store_operation snapshot
            (operation\<lparr>or_state := new, or_committed := committed,
                       or_lease_owner := None, or_lease_expires_at_ms := None\<rparr>)))))"
| "reduce_operation event_id (PartRecorded part) snapshot =
     and_then (require_operation snapshot event_id) (\<lambda>_.
     if pr_operation_id part \<noteq> event_id \<or> pr_part_number part \<le> 0
     then Inl (Conflict ''uploaded part reference is invalid'')
     else case find (\<lambda>old. pr_part_number old = pr_part_number part) (os_parts snapshot) of
       Some old \<Rightarrow>
         if pr_etag old \<noteq> pr_etag part \<or> pr_size_bytes old \<noteq> pr_size_bytes part
            \<or> pr_digest old \<noteq> pr_digest part
         then Inl (Conflict ''part retry body or result changed'')
         else Inr snapshot
     | None \<Rightarrow>
         if length (os_parts snapshot) \<ge> MAX_OPERATION_PARTS
         then Inl (Conflict ''operation part bound exceeded'')
         else Inr (snapshot\<lparr>os_parts := insert_sorted_part part (os_parts snapshot)\<rparr>))"
| "reduce_operation event_id (EvidenceAppended evidence) snapshot =
     and_then (require_operation snapshot event_id) (\<lambda>_.
     if er_operation_id evidence \<noteq> event_id
     then Inl (Conflict ''evidence operation reference is invalid'')
     else case find (\<lambda>old. er_id old = er_id evidence) (os_evidence snapshot) of
       Some old \<Rightarrow>
         if er_operation_id old \<noteq> er_operation_id evidence \<or> er_kind old \<noteq> er_kind evidence
            \<or> er_detail old \<noteq> er_detail evidence
         then Inl (Conflict ''evidence id conflicts with an existing record'')
         else Inr snapshot
     | None \<Rightarrow>
         if length (os_evidence snapshot) \<ge> MAX_EVIDENCE
         then Inl (Conflict ''operation evidence bound exceeded'')
         else Inr (snapshot\<lparr>os_evidence := os_evidence snapshot @ [evidence]\<rparr>))"
| "reduce_operation event_id (MutationLaunched not_before_ms updated_at_ms) snapshot =
     and_then (require_operation snapshot event_id) (\<lambda>operation.
     if operation_is_terminal (or_state operation)
     then Inl (Conflict ''terminal operation cannot launch a provider mutation'')
     else and_then (checked_timestamp not_before_ms) (\<lambda>_.
       and_then (set_operation_updated_at updated_at_ms operation) (\<lambda>operation.
       Inr (store_operation snapshot
         (operation\<lparr>or_mutation_not_before_ms := Some (max
              (case or_mutation_not_before_ms operation of None \<Rightarrow> i64_min | Some t \<Rightarrow> t) not_before_ms),
            or_exact_absence_observed_at_ms := None\<rparr>)))))"
| "reduce_operation event_id (ExactAbsenceObserved observed_at_ms updated_at_ms) snapshot =
     and_then (require_operation snapshot event_id) (\<lambda>operation.
     and_then (checked_timestamp observed_at_ms) (\<lambda>_.
     if or_exact_absence_observed_at_ms operation \<noteq> None
     then Inl (Conflict ''exact absence was already observed'')
     else and_then (set_operation_updated_at updated_at_ms operation) (\<lambda>operation.
       Inr (store_operation snapshot
         (operation\<lparr>or_exact_absence_observed_at_ms := Some observed_at_ms\<rparr>)))))"
| "reduce_operation event_id (Claimed owner lease_until_ms) snapshot =
     and_then (require_operation snapshot event_id) (\<lambda>operation.
     if operation_is_terminal (or_state operation) \<or> owner = [] then Inl (Conflict ''operation cannot be claimed'')
     else and_then (checked_timestamp lease_until_ms) (\<lambda>_.
       Inr (store_operation snapshot
         (operation\<lparr>or_lease_owner := Some owner, or_lease_expires_at_ms := Some lease_until_ms\<rparr>))))"
| "reduce_operation event_id (TerminalRetired expected_state expected_upload_id) snapshot =
     (if \<not> operation_is_terminal expected_state then Inl (Conflict ''journal retirement requires a terminal state'')
      else and_then (require_operation snapshot event_id) (\<lambda>operation.
        if or_state operation \<noteq> expected_state
           \<or> or_client_multipart_upload_id operation \<noteq> expected_upload_id
        then Inl (Conflict ''terminal state or multipart reference changed'')
        else Inr (snapshot\<lparr>os_operation := None, os_parts := [], os_evidence := []\<rparr>)))"

definition reducer_load :: "operation_snapshot \<Rightarrow> journal_error + operation_snapshot" where
  "reducer_load snapshot = and_then (validate_operation_snapshot snapshot) (\<lambda>_. Inr snapshot)"

definition apply_operation_event ::
  "operation_snapshot \<Rightarrow> operation_event \<Rightarrow> journal_error + operation_snapshot" where
  "apply_operation_event snapshot event =
     (if oe_schema_version event \<noteq> SCHEMA_VERSION
      then Inl (Corrupt ''unsupported file operation event version'')
      else case checked_add (os_final_event_sequence snapshot) 1 of
        None \<Rightarrow> Inl (Corrupt ''operation event sequence overflow'')
      | Some expected_sequence \<Rightarrow>
          if oe_sequence event \<noteq> expected_sequence
          then Inl (Corrupt ''operation event sequence is invalid'')
          else
            and_then (reduce_operation (oe_operation_id event) (oe_transition event) snapshot) (\<lambda>candidate.
            let candidate = candidate\<lparr>os_final_event_sequence := oe_sequence event\<rparr>
            in and_then (validate_operation_snapshot candidate) (\<lambda>_. Inr candidate)))"

section \<open>Directories and loading\<close>

record store_codec =
  st_sha :: "bytes \<Rightarrow> bytes"
  st_encode :: "operation_event \<Rightarrow> bytes option"
  st_decode :: "bytes \<Rightarrow> operation_event option"

record disk_entry =
  de_snapshot :: "(u64 \<times> operation_snapshot) option"
  de_log :: log_file

record journal_entry =
  je_reducer :: operation_snapshot
  je_log :: event_log

record file_journal =
  fj_disk :: "(uuid, disk_entry) hash_map"
  fj_entries :: "(uuid, journal_entry) hash_map"
  fj_poisoned :: "string option"

text \<open>The filesystem's answers to one call of the journal.\<close>

record journal_io =
  io_create :: bool
  io_append :: append_io
  io_snapshot :: publish_io
  io_log :: publish_io
  io_readable :: bool

fun journal_persistence_error :: "persistence_error \<Rightarrow> journal_error" where
  "journal_persistence_error (CorruptData message) = Corrupt message"
| "journal_persistence_error (UnsupportedVersion _) = Corrupt ''unsupported persistence version''"
| "journal_persistence_error (LimitExceeded message) = Corrupt message"
| "journal_persistence_error (Io message) = Persistence message"
| "journal_persistence_error (MutationUnknown message) = Persistence message"
| "journal_persistence_error ReloadRequired = Persistence ''reload required''"
| "journal_persistence_error RootAlreadyLocked = Persistence ''root locked''"

definition apply_logged ::
  "operation_snapshot \<Rightarrow> u64 \<times> operation_event \<Rightarrow> journal_error + operation_snapshot" where
  "apply_logged reducer logged =
     (if fst logged \<noteq> oe_sequence (snd logged) then Inl (Corrupt ''operation event sequence mismatch'')
      else apply_operation_event reducer (snd logged))"

definition load_entry ::
  "store_codec \<Rightarrow> uuid \<Rightarrow> disk_entry \<Rightarrow> disk_entry \<times> (journal_error + journal_entry)" where
  "load_entry c operation_id disk =
     (case (case de_snapshot disk of
              None \<Rightarrow> Inr (0, operation_snapshot_default)
            | Some (final_sequence, payload) \<Rightarrow>
                if final_sequence \<noteq> os_final_event_sequence payload
                then Inl (Corrupt ''operation snapshot sequence mismatch'')
                else Inr (final_sequence, payload)) of
        Inl e \<Rightarrow> (disk, Inl e)
      | Inr (snapshot_sequence, snapshot) \<Rightarrow>
        (case reducer_load snapshot of
           Inl e \<Rightarrow> (disk, Inl e)
         | Inr reducer \<Rightarrow>
             let (log_file, opened) = open_event_log (st_sha c) (st_decode c) snapshot_sequence (de_log disk);
                 disk = disk\<lparr>de_log := log_file\<rparr>
             in case opened of
               Inl e \<Rightarrow> (disk, Inl (journal_persistence_error e))
             | Inr (log, events) \<Rightarrow>
                 (disk,
                  and_then (try_fold apply_logged reducer events) (\<lambda>reducer.
                  if (case os_operation reducer of None \<Rightarrow> False
                      | Some operation \<Rightarrow> or_id operation \<noteq> operation_id)
                  then Inl (Corrupt ''operation directory identity mismatch'')
                  else Inr \<lparr>je_reducer = reducer, je_log = log\<rparr>))))"

fun load_entries ::
  "store_codec \<Rightarrow> (uuid, disk_entry) hash_map
     \<Rightarrow> (uuid, disk_entry) hash_map \<times> (journal_error + (uuid, journal_entry) hash_map)" where
  "load_entries c [] = ([], Inr [])"
| "load_entries c ((operation_id, disk) # rest) =
     (let (disk, loaded) = load_entry c operation_id disk
      in case loaded of
        Inl e \<Rightarrow> ((operation_id, disk) # rest, Inl e)
      | Inr entry \<Rightarrow>
          let (rest, entries) = load_entries c rest
          in ((operation_id, disk) # rest, and_then entries (\<lambda>entries. Inr ((operation_id, entry) # entries))))"

definition open_journal ::
  "store_codec \<Rightarrow> (uuid, disk_entry) hash_map \<Rightarrow> (uuid, disk_entry) hash_map \<times> (journal_error + file_journal)" where
  "open_journal c disk =
     (let (disk, entries) = load_entries c disk
      in (disk, and_then entries (\<lambda>entries.
            Inr \<lparr>fj_disk = disk, fj_entries = entries, fj_poisoned = None\<rparr>)))"

section \<open>The journal\<close>

definition ensure_healthy :: "file_journal \<Rightarrow> journal_error + unit" where
  "ensure_healthy j = (case fj_poisoned j of Some error \<Rightarrow> Inl (Persistence error) | None \<Rightarrow> Inr ())"

definition reload_after_unknown :: "store_codec \<Rightarrow> journal_io \<Rightarrow> file_journal \<Rightarrow> file_journal" where
  "reload_after_unknown c io j =
     (if \<not> io_readable io then j\<lparr>fj_poisoned := Some ''cannot read operation journal root''\<rparr>
      else
        let (disk, loaded) = load_entries c (fj_disk j)
        in case loaded of
          Inr entries \<Rightarrow> j\<lparr>fj_disk := disk, fj_entries := entries, fj_poisoned := None\<rparr>
        | Inl _ \<Rightarrow> j\<lparr>fj_disk := disk, fj_poisoned := Some ''operation journal reload failed''\<rparr>)"

definition put_entry :: "uuid \<Rightarrow> journal_entry \<Rightarrow> disk_entry \<Rightarrow> file_journal \<Rightarrow> file_journal" where
  "put_entry operation_id entry disk j =
     j\<lparr>fj_entries := hm_insert operation_id entry (fj_entries j),
       fj_disk := hm_insert operation_id disk (fj_disk j)\<rparr>"

text \<open>The compaction at the end of \<open>append_transition\<close>; its errors are not reported.\<close>

definition compact_entry ::
  "store_codec \<Rightarrow> journal_io \<Rightarrow> uuid \<Rightarrow> journal_entry \<Rightarrow> disk_entry \<Rightarrow> file_journal \<Rightarrow> file_journal" where
  "compact_entry c io operation_id entry disk j =
     (let (log, snapshot, log_file, compacted) =
            compact (io_snapshot io) (io_log io) (je_reducer entry) (je_log entry) (de_snapshot disk) (de_log disk);
          j = put_entry operation_id (entry\<lparr>je_log := log\<rparr>) \<lparr>de_snapshot = snapshot, de_log = log_file\<rparr> j
      in case compacted of
        Inr _ \<Rightarrow> j
      | Inl e \<Rightarrow> if mutation_unknown e then reload_after_unknown c io j else j)"

definition append_transition ::
  "store_codec \<Rightarrow> journal_io \<Rightarrow> uuid \<Rightarrow> operation_transition \<Rightarrow> file_journal
     \<Rightarrow> file_journal \<times> (journal_error + unit)" where
  "append_transition c io operation_id transition j =
     (case ensure_healthy j of
        Inl e \<Rightarrow> (j, Inl e)
      | Inr _ \<Rightarrow>
      (case (hm_get (fj_entries j) operation_id, hm_get (fj_disk j) operation_id) of
         (Some entry, Some disk) \<Rightarrow>
           (case checked_add (os_final_event_sequence (je_reducer entry)) 1 of
              None \<Rightarrow> (j, Inl (Corrupt ''operation event sequence overflow''))
            | Some sequence \<Rightarrow>
                let event = \<lparr>oe_schema_version = SCHEMA_VERSION, oe_sequence = sequence,
                             oe_operation_id = operation_id, oe_transition = transition\<rparr>
                in case and_then (reducer_load (je_reducer entry)) (\<lambda>snapshot. apply_operation_event snapshot event) of
                  Inl e \<Rightarrow> (j, Inl e)
                | Inr candidate \<Rightarrow>
                    let (log, log_file, appended) =
                          append_event (st_sha c) (st_encode c) (io_append io) event (je_log entry) (de_log disk);
                        disk = disk\<lparr>de_log := log_file\<rparr>
                    in case appended of
                      Inl e \<Rightarrow>
                        let j = put_entry operation_id (entry\<lparr>je_log := log\<rparr>) disk j
                        in (if mutation_unknown e then reload_after_unknown c io j else j,
                            Inl (journal_persistence_error e))
                    | Inr _ \<Rightarrow>
                        let entry = \<lparr>je_reducer = candidate, je_log = log\<rparr>;
                            j = put_entry operation_id entry disk j;
                            j = (if should_compact log then compact_entry c io operation_id entry disk j else j)
                        in (j, ensure_healthy j))
       | _ \<Rightarrow> (j, Inl (NotFound operation_id))))"

definition insert_operation ::
  "store_codec \<Rightarrow> journal_io \<Rightarrow> operation_record \<Rightarrow> file_journal \<Rightarrow> file_journal \<times> (journal_error + unit)" where
  "insert_operation c io operation j =
     (case and_then (ensure_healthy j) (\<lambda>_.
             if or_state operation \<noteq> Intent then Inl (Conflict ''new operation must start in INTENT'')
             else validate_operation operation) of
        Inl e \<Rightarrow> (j, Inl e)
      | Inr _ \<Rightarrow>
      (case hm_get (fj_entries j) (or_id operation) of
         Some entry \<Rightarrow>
           if os_operation (je_reducer entry) \<noteq> None then (j, Inl (Conflict ''duplicate operation id''))
           else append_transition c io (or_id operation) (IntentInserted operation) j
       | None \<Rightarrow>
         if \<not> io_create io then (j, Inl (Persistence ''directory creation''))
         else
           let disk = (case hm_get (fj_disk j) (or_id operation) of
                         Some disk \<Rightarrow> disk | None \<Rightarrow> \<lparr>de_snapshot = None, de_log = empty_log_file\<rparr>);
               (log_file, opened) = open_event_log (st_sha c) (st_decode c) 0 (de_log disk);
               disk = disk\<lparr>de_log := log_file\<rparr>;
               j = j\<lparr>fj_disk := hm_insert (or_id operation) disk (fj_disk j)\<rparr>
           in case opened of
             Inl e \<Rightarrow> (j, Inl (journal_persistence_error e))
           | Inr (log, events) \<Rightarrow>
             if events \<noteq> [] then (j, Inl (Corrupt ''new operation event log was not empty''))
             else
               let event = \<lparr>oe_schema_version = SCHEMA_VERSION, oe_sequence = 1,
                            oe_operation_id = or_id operation, oe_transition = IntentInserted operation\<rparr>
               in case apply_operation_event operation_snapshot_default event of
                 Inl e \<Rightarrow> (j, Inl e)
               | Inr reducer \<Rightarrow>
                   let (log, log_file, appended) =
                         append_event (st_sha c) (st_encode c) (io_append io) event log (de_log disk);
                       disk = disk\<lparr>de_log := log_file\<rparr>
                   in case appended of
                     Inr sequence \<Rightarrow>
                       if sequence = 1
                       then (put_entry (or_id operation) \<lparr>je_reducer = reducer, je_log = log\<rparr> disk j, Inr ())
                       else (j\<lparr>fj_disk := hm_insert (or_id operation) disk (fj_disk j)\<rparr>,
                             Inl (Corrupt ''new operation event sequence is invalid''))
                   | Inl e \<Rightarrow>
                       (if mutation_unknown e
                        then reload_after_unknown c io
                               (j\<lparr>fj_disk := hm_insert (or_id operation) disk (fj_disk j)\<rparr>)
                        else j\<lparr>fj_disk := hm_remove (or_id operation) (fj_disk j)\<rparr>,
                        Inl (journal_persistence_error e))))"

section \<open>The trait's methods\<close>

type_synonym 'a file_journaled = "file_journal \<times> (journal_error + 'a)"

definition current_operation :: "uuid \<Rightarrow> file_journal \<Rightarrow> operation_record option" where
  "current_operation operation_id j =
     Option.bind (hm_get (fj_entries j) operation_id) (\<lambda>entry. os_operation (je_reducer entry))"

definition file_get :: "uuid \<Rightarrow> file_journal \<Rightarrow> operation_record option file_journaled" where
  "file_get operation_id j = (j, and_then (ensure_healthy j) (\<lambda>_. Inr (current_operation operation_id j)))"

definition file_set_open ::
  "store_codec \<Rightarrow> journal_io \<Rightarrow> uuid \<Rightarrow> string option \<Rightarrow> i64 \<Rightarrow> file_journal \<Rightarrow> unit file_journaled" where
  "file_set_open c io operation_id upload_id clock j =
     append_transition c io operation_id (Opened upload_id clock) j"

definition file_compare_and_set_reference ::
  "store_codec \<Rightarrow> journal_io \<Rightarrow> uuid \<Rightarrow> string option \<Rightarrow> string option \<Rightarrow> i64 \<Rightarrow> file_journal
     \<Rightarrow> unit file_journaled" where
  "file_compare_and_set_reference c io operation_id expected new clock j =
     append_transition c io operation_id (ClientMultipartReferenceChanged expected new clock) j"

definition file_set_expected ::
  "store_codec \<Rightarrow> journal_io \<Rightarrow> uuid \<Rightarrow> expected_object \<Rightarrow> i64 \<Rightarrow> file_journal \<Rightarrow> unit file_journaled" where
  "file_set_expected c io operation_id expected clock j =
     append_transition c io operation_id (ExpectedChanged expected clock) j"

definition file_transition ::
  "store_codec \<Rightarrow> journal_io \<Rightarrow> uuid \<Rightarrow> operation_state \<Rightarrow> operation_state \<Rightarrow> stored_object_meta option \<Rightarrow> i64
     \<Rightarrow> file_journal \<Rightarrow> unit file_journaled" where
  "file_transition c io operation_id expected new committed clock j =
     append_transition c io operation_id (StateChanged expected new committed clock) j"

definition file_record_part ::
  "store_codec \<Rightarrow> journal_io \<Rightarrow> part_record \<Rightarrow> file_journal \<Rightarrow> unit file_journaled" where
  "file_record_part c io part j = append_transition c io (pr_operation_id part) (PartRecorded part) j"

definition file_parts :: "uuid \<Rightarrow> file_journal \<Rightarrow> part_record list file_journaled" where
  "file_parts operation_id j =
     (j, and_then (ensure_healthy j) (\<lambda>_. Inr (case hm_get (fj_entries j) operation_id of
           None \<Rightarrow> [] | Some entry \<Rightarrow> os_parts (je_reducer entry))))"

definition file_append_evidence ::
  "store_codec \<Rightarrow> journal_io \<Rightarrow> evidence_record \<Rightarrow> file_journal \<Rightarrow> unit file_journaled" where
  "file_append_evidence c io evidence j =
     append_transition c io (er_operation_id evidence) (EvidenceAppended evidence) j"

definition file_evidence :: "uuid \<Rightarrow> file_journal \<Rightarrow> evidence_record list file_journaled" where
  "file_evidence operation_id j =
     (j, and_then (ensure_healthy j) (\<lambda>_. Inr (case hm_get (fj_entries j) operation_id of
           None \<Rightarrow> [] | Some entry \<Rightarrow> os_evidence (je_reducer entry))))"

definition file_record_mutation_launch ::
  "store_codec \<Rightarrow> journal_io \<Rightarrow> uuid \<Rightarrow> i64 \<Rightarrow> i64 \<Rightarrow> file_journal \<Rightarrow> unit file_journaled" where
  "file_record_mutation_launch c io operation_id not_before_ms clock j =
     append_transition c io operation_id (MutationLaunched not_before_ms clock) j"

definition file_confirm_exact_absence ::
  "store_codec \<Rightarrow> journal_io \<Rightarrow> uuid \<Rightarrow> i64 \<Rightarrow> i64 \<Rightarrow> i64 \<Rightarrow> file_journal \<Rightarrow> bool file_journaled" where
  "file_confirm_exact_absence c io operation_id observed_at_ms minimum_separation_ms clock j =
     (case and_then (checked_timestamp observed_at_ms) (\<lambda>_.
             if minimum_separation_ms < 0 then Inl (Conflict ''negative exact absence separation'')
             else and_then (ensure_healthy j) (\<lambda>_.
               ok_or (NotFound operation_id) (current_operation operation_id j))) of
        Inl e \<Rightarrow> (j, Inl e)
      | Inr operation \<Rightarrow>
          if (case or_mutation_not_before_ms operation of
                None \<Rightarrow> False | Some not_before \<Rightarrow> observed_at_ms < not_before)
          then (j, Inr False)
          else (case or_exact_absence_observed_at_ms operation of
              Some first \<Rightarrow> (j, Inr (i64_saturating_sub observed_at_ms first \<ge> minimum_separation_ms))
            | None \<Rightarrow>
                let (j, appended) = append_transition c io operation_id (ExactAbsenceObserved observed_at_ms clock) j
                in (j, and_then appended (\<lambda>_. Inr False))))"

definition checked_claim :: "string \<Rightarrow> i64 \<Rightarrow> i64 \<Rightarrow> file_journal \<Rightarrow> journal_error + unit" where
  "checked_claim owner stale_before_ms lease_until_ms j =
     and_then (checked_timestamp stale_before_ms) (\<lambda>_.
     and_then (checked_timestamp lease_until_ms) (\<lambda>_.
     if owner = [] then Inl (Conflict ''claim owner is empty'') else ensure_healthy j))"

definition file_reconcilable :: "i64 \<Rightarrow> i64 \<Rightarrow> operation_record \<Rightarrow> bool" where
  "file_reconcilable stale_before_ms now operation \<longleftrightarrow>
     \<not> operation_is_terminal (or_state operation)
     \<and> or_updated_at_ms operation \<le> stale_before_ms
     \<and> (case or_lease_expires_at_ms operation of None \<Rightarrow> True | Some expiry \<Rightarrow> expiry < now)"

text \<open>
  The loop of \<open>claim_reconcilable\<close>; each claim is one logged transition, with its
  own answer of the filesystem, and the first failure ends the loop.
\<close>

fun claim_candidates ::
  "store_codec \<Rightarrow> (nat \<Rightarrow> journal_io) \<Rightarrow> string \<Rightarrow> i64 \<Rightarrow> uuid list \<Rightarrow> file_journal
     \<Rightarrow> operation_record list file_journaled" where
  "claim_candidates c ios owner lease_until_ms [] j = (j, Inr [])"
| "claim_candidates c ios owner lease_until_ms (operation_id # ids) j =
     (case append_transition c (ios 0) operation_id (Claimed owner lease_until_ms) j of
        (j, Inl e) \<Rightarrow> (j, Inl e)
      | (j, Inr _) \<Rightarrow>
          (case current_operation operation_id j of
             None \<Rightarrow> (j, Inl (Corrupt ''claimed operation remains present''))
           | Some operation \<Rightarrow>
               let (j, claimed) = claim_candidates c (\<lambda>k. ios (Suc k)) owner lease_until_ms ids j
               in (j, and_then claimed (\<lambda>claimed. Inr (operation # claimed)))))"

definition file_claim_reconcilable ::
  "store_codec \<Rightarrow> (nat \<Rightarrow> journal_io) \<Rightarrow> string \<Rightarrow> i64 \<Rightarrow> i64 \<Rightarrow> nat \<Rightarrow> i64 \<Rightarrow> file_journal
     \<Rightarrow> operation_record list file_journaled" where
  "file_claim_reconcilable c ios owner stale_before_ms lease_until_ms limit now j =
     (case checked_claim owner stale_before_ms lease_until_ms j of
        Inl e \<Rightarrow> (j, Inl e)
      | Inr _ \<Rightarrow>
          claim_candidates c ios owner lease_until_ms
            (map snd (take limit (sort (List.map_filter (\<lambda>(operation_id, entry).
               Option.bind (os_operation (je_reducer entry)) (\<lambda>operation.
                 if file_reconcilable stale_before_ms now operation
                 then Some (or_updated_at_ms operation, operation_id) else None))
               (fj_entries j))))) j)"

definition file_claim_reconcilable_operation ::
  "store_codec \<Rightarrow> journal_io \<Rightarrow> uuid \<Rightarrow> string \<Rightarrow> i64 \<Rightarrow> i64 \<Rightarrow> i64 \<Rightarrow> file_journal
     \<Rightarrow> operation_record option file_journaled" where
  "file_claim_reconcilable_operation c io operation_id owner stale_before_ms lease_until_ms now j =
     (case checked_claim owner stale_before_ms lease_until_ms j of
        Inl e \<Rightarrow> (j, Inl e)
      | Inr _ \<Rightarrow>
        (case current_operation operation_id j of
           None \<Rightarrow> (j, Inr None)
         | Some operation \<Rightarrow>
             if \<not> file_reconcilable stale_before_ms now operation then (j, Inr None)
             else
               let (j, appended) = append_transition c io operation_id (Claimed owner lease_until_ms) j
               in (j, and_then appended (\<lambda>_. Inr (current_operation operation_id j)))))"

definition file_retire_terminal ::
  "store_codec \<Rightarrow> journal_io \<Rightarrow> uuid \<Rightarrow> operation_state \<Rightarrow> string option \<Rightarrow> file_journal \<Rightarrow> unit file_journaled" where
  "file_retire_terminal c io operation_id expected_state expected_upload_id j =
     append_transition c io operation_id (TerminalRetired expected_state expected_upload_id) j"

end
