(* ===== verification/File_Journal_Recovery.thy ===== *)
theory File_Journal_Recovery
  imports File_Journal
begin

text \<open>
  What an operation's directory loads after any outcome of an append or a
  compaction. \<open>entry_intact\<close> ties an entry in memory to its directory: the snapshot
  plus the log replay to the reducer's state. \<open>outcome\<close> is what one call may leave
  behind: a poisoned journal, or a consistent one in which the operation has its
  old or its new state, durably so if the call succeeded.
\<close>

section \<open>What a directory loads\<close>

definition store_codec_ok :: "store_codec \<Rightarrow> bool" where
  "store_codec_ok c \<longleftrightarrow> digest_length (st_sha c) \<and> codec (st_encode c) (st_decode c)"

text \<open>
  An entry in memory and its directory belong together: the log holds the events
  \<open>es\<close> from \<open>start\<close> on, and replaying those after the snapshot \<open>base\<close> gives the
  reducer's state.
\<close>

definition replays ::
  "store_codec \<Rightarrow> u64 \<Rightarrow> operation_snapshot \<Rightarrow> u64 \<Rightarrow> operation_event list \<Rightarrow> operation_snapshot \<Rightarrow> bool" where
  "replays c snap base start es reducer \<longleftrightarrow>
     os_final_event_sequence base = snap
     \<and> validate_operation_snapshot base = Inr ()
     \<and> try_fold apply_logged base (pending_events snap start es) = Inr reducer
     \<and> validate_operation_snapshot reducer = Inr ()
     \<and> unat (os_final_event_sequence reducer) + 1 = unat start + length es"

definition directory ::
  "store_codec \<Rightarrow> u64 \<Rightarrow> operation_snapshot \<Rightarrow> u64 \<Rightarrow> operation_event list \<Rightarrow> disk_entry \<Rightarrow> bool" where
  "directory c snap base start es disk \<longleftrightarrow>
     (de_snapshot disk = Some (snap, base)
      \<or> de_snapshot disk = None \<and> snap = 0 \<and> base = operation_snapshot_default)
     \<and> log_reads (st_sha c) (st_encode c) snap start es (de_log disk)"

definition owned :: "uuid \<Rightarrow> operation_snapshot \<Rightarrow> bool" where
  "owned i reducer \<longleftrightarrow> (\<forall>r. os_operation reducer = Some r \<longrightarrow> or_id r = i)"

definition entry_intact :: "store_codec \<Rightarrow> uuid \<Rightarrow> journal_entry \<Rightarrow> disk_entry \<Rightarrow> bool" where
  "entry_intact c i entry disk \<longleftrightarrow>
     (\<exists>snap base start es. directory c snap base start es disk
        \<and> replays c snap base start es (je_reducer entry)
        \<and> owned i (je_reducer entry)
        \<and> je_log entry = log_handle (st_sha c) (st_encode c) start es)"

lemma load_directory:
  assumes c: "store_codec_ok c" and dir: "directory c snap base start es disk"
    and replay: "replays c snap base start es reducer" and owned: "owned i reducer"
    and disk': "lf_bytes (de_log disk') = frames (st_sha c) (st_encode c) start es @ rest"
      "de_snapshot disk' = de_snapshot disk" "length (lf_bytes (de_log disk')) \<le> unat MAX_LOG_BYTES"
    and rest: "rest = [] \<or> (\<exists>e k n. loggable (st_encode c) e
       \<and> rest = take n (encode_frame (st_sha c) k (the (st_encode c e)))
       \<and> n < length (encode_frame (st_sha c) k (the (st_encode c e))))"
  shows "load_entry c i disk' =
    (if rest = [] then disk'
     else disk'\<lparr>de_log := \<lparr>lf_bytes = frames (st_sha c) (st_encode c) start es,
                           lf_synced = length (frames (st_sha c) (st_encode c) start es)\<rparr>\<rparr>,
     Inr \<lparr>je_reducer = reducer, je_log = log_handle (st_sha c) (st_encode c) start es\<rparr>)"
proof -
  have reads: "log_reads (st_sha c) (st_encode c) snap start es (de_log disk)"
    using dir by (simp add: directory_def)
  have opened: "open_event_log (st_sha c) (st_decode c) snap (de_log disk') =
      (if rest = [] then de_log disk'
       else \<lparr>lf_bytes = frames (st_sha c) (st_encode c) start es,
             lf_synced = length (frames (st_sha c) (st_encode c) start es)\<rparr>,
       Inr (log_handle (st_sha c) (st_encode c) start es, pending_events snap start es))"
    using c by (intro open_log [OF _ _ reads disk'(1,3) rest]) (simp_all add: store_codec_ok_def)
  have base: "(case de_snapshot disk' of
        None \<Rightarrow> Inr (0, operation_snapshot_default)
      | Some (final_sequence, payload) \<Rightarrow>
          if final_sequence \<noteq> os_final_event_sequence payload
          then Inl (Corrupt ''operation snapshot sequence mismatch'')
          else Inr (final_sequence, payload)) = Inr (snap, base)"
    using dir replay by (auto simp: directory_def replays_def disk'(2))
  have loaded: "reducer_load base = Inr base" using replay by (simp add: replays_def reducer_load_def)
  have named: "\<not> (case os_operation reducer of None \<Rightarrow> False | Some operation \<Rightarrow> or_id operation \<noteq> i)"
    using owned by (auto simp: owned_def split: option.splits)
  show ?thesis
    unfolding load_entry_def base
    using opened loaded named replay by (simp add: replays_def)
qed

lemma load_entry_intact:
  assumes "store_codec_ok c" "entry_intact c i entry disk"
  shows "load_entry c i disk = (disk, Inr entry)"
proof -
  from assms(2) obtain snap base start es where dir: "directory c snap base start es disk"
      and replay: "replays c snap base start es (je_reducer entry)" and owned: "owned i (je_reducer entry)"
      and log: "je_log entry = log_handle (st_sha c) (st_encode c) start es"
    by (auto simp: entry_intact_def)
  have "lf_bytes (de_log disk) = frames (st_sha c) (st_encode c) start es @ []"
    "length (lf_bytes (de_log disk)) \<le> unat MAX_LOG_BYTES"
    using dir by (auto simp: directory_def log_reads_def)
  from load_directory [OF assms(1) dir replay owned this(1) refl this(2)] show ?thesis
    using log by simp
qed

text \<open>What loads at all is in order, and loading it again changes nothing.\<close>

lemma pending_snoc:
  assumes "log_reads sha encode snap start es f"
  shows "pending_events snap start (es @ [e]) = pending_events snap start es @ [(start + of_nat (length es), e)]"
proof -
  have "snap < start + of_nat (length es)"
    using log_next_sequence [OF assms] assms by (simp add: log_reads_def word_less_nat_alt)
  then show ?thesis by (simp add: pending_events_def numbered_append)
qed

lemma apply_operation_event_valid:
  "apply_operation_event s event = Inr s' \<Longrightarrow>
     validate_operation_snapshot s' = Inr () \<and> os_final_event_sequence s' = oe_sequence event
     \<and> unat (oe_sequence event) = unat (os_final_event_sequence s) + 1"
  by (auto simp: apply_operation_event_def result_simps Let_def checked_add_Some split: option.splits if_splits)

lemma replays_snoc:
  assumes reads: "log_reads (st_sha c) (st_encode c) snap start es f"
    and replay: "replays c snap base start es reducer"
    and event: "oe_sequence event = start + of_nat (length es)"
    and step: "apply_operation_event reducer event = Inr candidate"
  shows "replays c snap base start (es @ [event]) candidate"
proof -
  note out = apply_operation_event_valid [OF step]
  have "try_fold apply_logged base (pending_events snap start (es @ [event])) = Inr candidate"
    using replay event step
    by (simp add: replays_def pending_snoc [OF reads] try_fold_append apply_logged_def)
  with replay out show ?thesis by (simp add: replays_def)
qed

lemma next_sequence_eq:
  assumes "log_reads (st_sha c) (st_encode c) snap start es f" "replays c snap base start es reducer"
    "checked_add (os_final_event_sequence reducer) 1 = Some sequence"
  shows "sequence = start + of_nat (length es)"
  using assms(2,3) log_next_sequence [OF assms(1)]
  by (simp add: replays_def checked_add_Some word_unat_eq_iff)

section \<open>The journal as a whole\<close>

definition consistent :: "store_codec \<Rightarrow> file_journal \<Rightarrow> bool" where
  "consistent c j \<longleftrightarrow> hm_wf (fj_disk j) \<and> hm_wf (fj_entries j)
     \<and> (\<forall>i. hm_get (fj_entries j) i = None \<longleftrightarrow> hm_get (fj_disk j) i = None)
     \<and> (\<forall>i entry disk. hm_get (fj_entries j) i = Some entry \<longrightarrow> hm_get (fj_disk j) i = Some disk
          \<longrightarrow> entry_intact c i entry disk)"

definition reducer_of :: "uuid \<Rightarrow> file_journal \<Rightarrow> operation_snapshot option" where
  "reducer_of i j = map_option je_reducer (hm_get (fj_entries j) i)"

text \<open>An operation without a directory has the state of an empty one.\<close>

definition reducer_at :: "uuid \<Rightarrow> file_journal \<Rightarrow> operation_snapshot" where
  "reducer_at i j = (case reducer_of i j of None \<Rightarrow> operation_snapshot_default | Some s \<Rightarrow> s)"

lemma reducer_at_Some [simp]: "reducer_of i j = Some s \<Longrightarrow> reducer_at i j = s"
  by (simp add: reducer_at_def)

definition loads :: "store_codec \<Rightarrow> uuid \<Rightarrow> disk_entry \<Rightarrow> journal_entry \<Rightarrow> disk_entry \<Rightarrow> bool" where
  "loads c i disk entry disk' \<longleftrightarrow> load_entry c i disk = (disk', Inr entry) \<and> entry_intact c i entry disk'"

lemma load_entries_all:
  assumes "\<forall>(i, d) \<in> set D. snd (load_entry c i d) = Inr (E i)" "hm_wf D"
  shows "load_entries c D = (map (\<lambda>(i, d). (i, fst (load_entry c i d))) D, Inr (map (\<lambda>(i, d). (i, E i)) D))"
  using assms
proof (induction D)
  case (Cons x D)
  obtain i d where x: "x = (i, d)" by (cases x)
  obtain d' where "load_entry c i d = (d', Inr (E i))" using Cons.prems(1) x by (cases "load_entry c i d") auto
  with Cons x show ?case by (auto simp: hm_wf_def)
qed simp

lemma load_entries_fails:
  assumes "load_entries c D = (D', Inr E)"
  shows "\<forall>(i, d) \<in> set D. \<exists>e. snd (load_entry c i d) = Inr e"
  using assms
proof (induction D arbitrary: D' E)
  case (Cons x D)
  obtain i d where x: "x = (i, d)" by (cases x)
  obtain d' l where l: "load_entry c i d = (d', l)" by (cases "load_entry c i d")
  obtain D'' E' where D'': "load_entries c D = (D'', E')" by (cases "load_entries c D")
  from Cons.prems x l D'' show ?case using Cons.IH [of D''] by (auto simp: result_simps split: sum.splits)
qed simp

text \<open>Reloading a journal each of whose directories is in order or loads as one that is.\<close>

lemma reload_loads:
  assumes wf: "hm_wf (fj_disk j)"
    and all: "\<And>i d. hm_get (fj_disk j) i = Some d \<Longrightarrow> \<exists>d'. loads c i d (E i) d'"
    and readable: "io_readable io"
  shows "let j' = reload_after_unknown c io j in
    fj_poisoned j' = None \<and> consistent c j'
    \<and> (\<forall>i. hm_get (fj_entries j') i = (if hm_get (fj_disk j) i = None then None else Some (E i)))
    \<and> (\<forall>i. hm_get (fj_disk j') i = map_option (\<lambda>d. fst (load_entry c i d)) (hm_get (fj_disk j) i))"
proof -
  have each: "snd (load_entry c i d) = Inr (E i)" if "(i, d) \<in> set (fj_disk j)" for i d
    using all [of i d] hm_get_mem [OF wf that] by (auto simp: loads_def)
  have load: "load_entries c (fj_disk j) = (map (\<lambda>(i, d). (i, fst (load_entry c i d))) (fj_disk j),
      Inr (map (\<lambda>(i, d). (i, E i)) (fj_disk j)))"
    by (rule load_entries_all [OF _ wf]) (use each in auto)
  have ok: "entry_intact c i (E i) (fst (load_entry c i d))" if "hm_get (fj_disk j) i = Some d" for i d
    using all [OF that] by (auto simp: loads_def)
  show ?thesis
    using readable wf ok
    by (auto simp: reload_after_unknown_def load Let_def consistent_def hm_get_map hm_wf_map)
qed

lemma reload_poisoned_or_loads:
  assumes "fj_poisoned (reload_after_unknown c io j) = None" "fj_poisoned j = None" "hm_wf (fj_disk j)"
  shows "io_readable io \<and> (\<forall>i d. hm_get (fj_disk j) i = Some d \<longrightarrow> (\<exists>e. snd (load_entry c i d) = Inr e))"
proof -
  obtain D L where load: "load_entries c (fj_disk j) = (D, L)" by fastforce
  with assms(1) have readable: "io_readable io" and "\<exists>E. L = Inr E"
    by (auto simp: reload_after_unknown_def split: if_splits sum.splits)
  then obtain E where "load_entries c (fj_disk j) = (D, Inr E)" using load by auto
  from load_entries_fails [OF this] readable show ?thesis
    by (auto simp: hm_get_def dest!: map_of_SomeD)
qed

section \<open>Appending a transition\<close>

lemma put_entry_get [simp]:
  "hm_get (fj_entries (put_entry i e d j)) k = (if k = i then Some e else hm_get (fj_entries j) k)"
  "hm_get (fj_disk (put_entry i e d j)) k = (if k = i then Some d else hm_get (fj_disk j) k)"
  "fj_poisoned (put_entry i e d j) = fj_poisoned j"
  by (simp_all add: put_entry_def map_laws)

lemma consistent_put:
  assumes "consistent c j" "entry_intact c i e d" shows "consistent c (put_entry i e d j)"
proof -
  have "hm_wf (fj_disk (put_entry i e d j))" "hm_wf (fj_entries (put_entry i e d j))"
    using assms(1) by (auto simp: consistent_def put_entry_def)
  with assms show ?thesis unfolding consistent_def put_entry_get by auto
qed

definition event_of :: "u64 \<Rightarrow> uuid \<Rightarrow> operation_transition \<Rightarrow> operation_event" where
  "event_of sequence i t = \<lparr>oe_schema_version = SCHEMA_VERSION, oe_sequence = sequence,
     oe_operation_id = i, oe_transition = t\<rparr>"

definition directory_state ::
  "store_codec \<Rightarrow> uuid \<Rightarrow> u64 \<Rightarrow> operation_snapshot \<Rightarrow> u64 \<Rightarrow> operation_event list \<Rightarrow> operation_snapshot
     \<Rightarrow> disk_entry \<Rightarrow> bool" where
  "directory_state c i snap base start es reducer disk \<longleftrightarrow>
     directory c snap base start es disk \<and> replays c snap base start es reducer \<and> owned i reducer"

lemma directory_state_ok:
  "directory_state c i snap base start es reducer disk \<Longrightarrow>
     entry_intact c i \<lparr>je_reducer = reducer, je_log = log_handle (st_sha c) (st_encode c) start es\<rparr> disk"
  by (auto simp: directory_state_def entry_intact_def)

lemma entry_intactE:
  assumes "entry_intact c i entry disk"
  obtains snap base start es where "directory_state c i snap base start es (je_reducer entry) disk"
    "entry = \<lparr>je_reducer = je_reducer entry, je_log = log_handle (st_sha c) (st_encode c) start es\<rparr>"
  using assms by (auto simp: directory_state_def entry_intact_def)

text \<open>A directory with one more event on its log.\<close>

lemma directory_snoc:
  assumes state: "directory_state c i snap base start es reducer disk"
    and event: "oe_sequence event = start + of_nat (length es)"
    and step: "apply_operation_event reducer event = Inr candidate" and owned: "owned i candidate"
    and log: "loggable (st_encode c) event"
      "length (frames (st_sha c) (st_encode c) start (es @ [event])) \<le> unat MAX_LOG_BYTES"
      "unat start + length es + 1 < 2 ^ 64" "n \<le> length (frames (st_sha c) (st_encode c) start (es @ [event]))"
  shows "directory_state c i snap base start (es @ [event]) candidate
    (disk\<lparr>de_log := \<lparr>lf_bytes = frames (st_sha c) (st_encode c) start (es @ [event]), lf_synced = n\<rparr>\<rparr>)"
proof -
  have reads: "log_reads (st_sha c) (st_encode c) snap start es (de_log disk)"
    and replay: "replays c snap base start es reducer"
    using state by (simp_all add: directory_state_def directory_def)
  have "log_reads (st_sha c) (st_encode c) snap start (es @ [event])
      \<lparr>lf_bytes = frames (st_sha c) (st_encode c) start (es @ [event]), lf_synced = n\<rparr>"
    by (rule log_reads_snoc [OF reads log])
  moreover have "replays c snap base start (es @ [event]) candidate"
    by (rule replays_snoc [OF reads replay event step])
  ultimately show ?thesis using state owned by (simp add: directory_state_def directory_def)
qed

text \<open>An interrupted write leaves the directory loading the old state or the new one.\<close>

lemma written_loads:
  assumes c: "store_codec_ok c" and state: "directory_state c i snap base start es reducer disk"
    and event: "oe_sequence event = start + of_nat (length es)"
    and step: "apply_operation_event reducer event = Inr candidate" and owned: "owned i candidate"
    and log: "st_encode c event = Some p" "loggable (st_encode c) event"
      "length (frames (st_sha c) (st_encode c) start (es @ [event])) \<le> unat MAX_LOG_BYTES"
      "unat start + length es + 1 < 2 ^ 64"
    and file': "lf_bytes file' = lf_bytes (de_log disk)
        @ take n (encode_frame (st_sha c) (start + of_nat (length es)) p)" "lf_synced file' \<le> length (lf_bytes (de_log disk))"
  shows "\<exists>reducer' log' disk'. (reducer' = reducer \<or> reducer' = candidate)
    \<and> loads c i (disk\<lparr>de_log := file'\<rparr>) \<lparr>je_reducer = reducer', je_log = log'\<rparr> disk'"
proof -
  let ?F = "encode_frame (st_sha c) (start + of_nat (length es)) p"
  let ?all = "frames (st_sha c) (st_encode c) start (es @ [event])"
  have dir: "directory c snap base start es disk" and replay: "replays c snap base start es reducer"
    and mine: "owned i reducer" using state by (auto simp: directory_state_def)
  have bytes: "lf_bytes (de_log disk) = frames (st_sha c) (st_encode c) start es"
    using dir by (simp add: directory_def log_reads_def)
  have all: "?all = frames (st_sha c) (st_encode c) start es @ ?F" by (simp add: frames_append log(1))
  show ?thesis
  proof (cases "length ?F \<le> n")
    case True
    then have whole: "file' = \<lparr>lf_bytes = ?all, lf_synced = lf_synced file'\<rparr>"
      using file'(1) bytes all by simp
    have synced: "lf_synced file' \<le> length ?all" using file'(2) bytes all by simp
    have ok: "directory_state c i snap base start (es @ [event]) candidate (disk\<lparr>de_log := file'\<rparr>)"
      using directory_snoc [OF state event step owned log(2-4) synced] whole by simp
    from directory_state_ok [OF ok] load_entry_intact [OF c directory_state_ok [OF ok]] show ?thesis
      by (intro exI [of _ candidate]) (auto simp: loads_def)
  next
    case False
    let ?rest = "take n ?F"
    have disk': "lf_bytes (de_log (disk\<lparr>de_log := file'\<rparr>)) = frames (st_sha c) (st_encode c) start es @ ?rest"
      "length (lf_bytes (de_log (disk\<lparr>de_log := file'\<rparr>))) \<le> unat MAX_LOG_BYTES"
      using file'(1) bytes log(3) all by simp_all
    have torn: "?rest = [] \<or> (\<exists>e k m. loggable (st_encode c) e
        \<and> ?rest = take m (encode_frame (st_sha c) k (the (st_encode c e)))
        \<and> m < length (encode_frame (st_sha c) k (the (st_encode c e))))"
      using False log(1,2)
      by (intro disjI2 exI [of _ event] exI [of _ "start + of_nat (length es)"] exI [of _ n]) simp
    let ?disk' = "if ?rest = [] then disk\<lparr>de_log := file'\<rparr>
        else disk\<lparr>de_log := \<lparr>lf_bytes = frames (st_sha c) (st_encode c) start es,
            lf_synced = length (frames (st_sha c) (st_encode c) start es)\<rparr>\<rparr>"
    have load: "load_entry c i (disk\<lparr>de_log := file'\<rparr>) =
        (?disk', Inr \<lparr>je_reducer = reducer, je_log = log_handle (st_sha c) (st_encode c) start es\<rparr>)"
      using load_directory [OF c dir replay mine disk'(1) _ disk'(2) torn] by simp
    have "directory c snap base start es ?disk'"
      using dir bytes file' by (auto simp: directory_def log_reads_def)
    then have "entry_intact c i \<lparr>je_reducer = reducer, je_log = log_handle (st_sha c) (st_encode c) start es\<rparr> ?disk'"
      using replay mine by (intro directory_state_ok) (simp add: directory_state_def)
    with load show ?thesis by (intro exI [of _ reducer]) (auto simp: loads_def)
  qed
qed

text \<open>
  The compaction that follows an append. A stop between its two publications is
  excluded here: it is the one outcome after which the directory may not load.
\<close>

definition publishes_whole :: "journal_io \<Rightarrow> bool" where
  "publishes_whole io \<longleftrightarrow> \<not> (io_snapshot io = PublishDone \<and> io_log io = PublishRefused)"

lemma compacted_directory:
  assumes c: "store_codec_ok c" and state: "directory_state c i snap base start es reducer disk"
  shows "directory_state c i (start + of_nat (length es) - 1) reducer (start + of_nat (length es)) [] reducer
    \<lparr>de_snapshot = Some (start + of_nat (length es) - 1, reducer), de_log = empty_log_file\<rparr>"
    and "saturating_sub (start + of_nat (length es)) 1 = start + of_nat (length es) - 1"
    and "os_final_event_sequence reducer = start + of_nat (length es) - 1"
proof -
  let ?next = "start + of_nat (length es)" and ?snap = "start + of_nat (length es) - 1"
  have reads: "log_reads (st_sha c) (st_encode c) snap start es (de_log disk)"
    and replay: "replays c snap base start es reducer" and mine: "owned i reducer"
    using state by (simp_all add: directory_state_def directory_def)
  note final = log_final [OF reads]
  show "saturating_sub ?next 1 = ?snap" by (rule final(2))
  show last: "os_final_event_sequence reducer = ?snap"
    using replay final(1) by (auto simp: replays_def word_unat_eq_iff)
  have "replays c ?snap reducer ?next [] reducer"
    using replay last log_next_sequence [OF reads] final(1) by (auto simp: replays_def pending_events_def)
  with empty_log_reads [OF reads] mine show "directory_state c i ?snap reducer ?next [] reducer
      \<lparr>de_snapshot = Some (?snap, reducer), de_log = empty_log_file\<rparr>"
    by (simp add: directory_state_def directory_def)
qed

lemma consistent_entry:
  assumes "consistent c j" "hm_get (fj_disk j) i = Some d"
  obtains e where "hm_get (fj_entries j) i = Some e" "entry_intact c i e d"
proof (cases "hm_get (fj_entries j) i")
  case None
  with assms show thesis by (simp add: consistent_def)
next
  case (Some e)
  with assms that show thesis by (simp add: consistent_def)
qed

text \<open>
  A directory whose snapshot was published while its log is still the old one: if
  it loads at all, it loads the compacted state.
\<close>

lemma split_directory_loads:
  assumes c: "store_codec_ok c" and state: "directory_state c i snap base start es reducer disk"
    and load: "load_entry c i \<lparr>de_snapshot = Some (start + of_nat (length es) - 1, reducer), de_log = de_log disk\<rparr>
      = (disk', Inr entry')"
  shows "entry_intact c i entry' disk' \<and> je_reducer entry' = reducer \<and> de_log disk' = de_log disk"
proof -
  let ?next = "start + of_nat (length es)" and ?snap = "start + of_nat (length es) - 1"
  let ?split = "\<lparr>de_snapshot = Some (?snap, reducer), de_log = de_log disk\<rparr>"
  have reads: "log_reads (st_sha c) (st_encode c) snap start es (de_log disk)"
    and replay: "replays c snap base start es reducer" and mine: "owned i reducer"
    using state by (simp_all add: directory_state_def directory_def)
  have laws: "digest_length (st_sha c)" "codec (st_encode c) (st_decode c)"
    using c by (simp_all add: store_codec_ok_def)
  note final = compacted_directory(3) [OF c state]
  have valid: "reducer_load reducer = Inr reducer" using replay by (simp add: replays_def reducer_load_def)
  have "start = 1 \<or> es = []"
  proof (rule ccontr)
    assume late: "\<not> (start = 1 \<or> es = [])"
    then have "open_event_log (st_sha c) (st_decode c) ?snap (de_log disk)
        = (de_log disk, Inl (CorruptData ''unexpected event sequence''))"
      by (intro split_log_refused [OF laws(1) reads]) auto
    then have "\<exists>e. snd (load_entry c i ?split) = Inl e"
      using final valid by (auto simp: load_entry_def split: prod.split)
    with load show False by simp
  qed
  then have "log_reads (st_sha c) (st_encode c) ?snap start es (de_log disk)"
    by (rule split_log_reads [OF reads])
  moreover have "pending_events ?snap start es = []" by (rule split_log_pending [OF reads])
  ultimately have "directory_state c i ?snap reducer start es reducer ?split"
    using replay final mine by (simp add: directory_state_def directory_def replays_def)
  from load_entry_intact [OF c directory_state_ok [OF this]] directory_state_ok [OF this] load show ?thesis by auto
qed

text \<open>A reload after one directory changed.\<close>

lemma reload_one:
  assumes c: "store_codec_ok c" and ok: "consistent c j" and healthy: "fj_poisoned j = None"
    and changed: "\<And>entry' disk'. io_readable io \<Longrightarrow> load_entry c i disk = (disk', Inr entry') \<Longrightarrow>
        entry_intact c i entry' disk' \<and> P (je_reducer entry') disk'"
    and out: "j' = reload_after_unknown c io (put_entry i entry disk j)"
  shows "fj_poisoned j' \<noteq> None \<or> fj_poisoned j' = None \<and> consistent c j'
    \<and> (\<forall>k. k \<noteq> i \<longrightarrow> hm_get (fj_entries j') k = hm_get (fj_entries j) k)
    \<and> (\<exists>r d. reducer_of i j' = Some r \<and> hm_get (fj_disk j') i = Some d \<and> P r d)"
proof (cases "fj_poisoned j' = None")
  case True
  let ?j = "put_entry i entry disk j"
  have wf: "hm_wf (fj_disk ?j)" using ok by (auto simp: consistent_def put_entry_def)
  have loadable: "io_readable io \<and> (\<forall>k d. hm_get (fj_disk ?j) k = Some d \<longrightarrow>
      (\<exists>e. snd (load_entry c k d) = Inr e))"
    by (rule reload_poisoned_or_loads [OF True [unfolded out] _ wf]) (simp add: healthy)
  then have readable: "io_readable io" ..
  have "hm_get (fj_disk ?j) i = Some disk" by simp
  with loadable obtain entry' where "snd (load_entry c i disk) = Inr entry'" by blast
  then obtain disk' where entry': "load_entry c i disk = (disk', Inr entry')" by (metis prod.collapse)
  note changed' = changed [OF readable entry']
  let ?E = "\<lambda>k. if k = i then entry' else the (hm_get (fj_entries j) k)"
  have each: "\<exists>d'. loads c k d (?E k) d'" if "hm_get (fj_disk ?j) k = Some d" for k d
  proof (cases "k = i")
    case True
    with that have "d = disk" by simp
    with True entry' changed' show ?thesis unfolding loads_def by auto
  next
    case False
    with that have d: "hm_get (fj_disk j) k = Some d" by simp
    obtain e where e: "hm_get (fj_entries j) k = Some e" "entry_intact c k e d"
      by (rule consistent_entry [OF ok d])
    from load_entry_intact [OF c e(2)] e False have "loads c k d (?E k) d" by (simp add: loads_def)
    then show ?thesis ..
  qed
  from reload_loads [OF wf each readable] out have loaded: "consistent c j'"
      "hm_get (fj_entries j') k = (if hm_get (fj_disk ?j) k = None then None else Some (?E k))"
      "hm_get (fj_disk j') k = map_option (\<lambda>d. fst (load_entry c k d)) (hm_get (fj_disk ?j) k)" for k
    by (simp_all add: Let_def)
  have others: "hm_get (fj_entries j') k = hm_get (fj_entries j) k" if "k \<noteq> i" for k
  proof (cases "hm_get (fj_disk j) k")
    case None
    with ok have "hm_get (fj_entries j) k = None" by (simp add: consistent_def)
    with None that show ?thesis by (simp add: loaded(2))
  next
    case (Some d)
    obtain e where "hm_get (fj_entries j) k = Some e" by (rule consistent_entry [OF ok Some])
    with Some that show ?thesis by (simp add: loaded(2))
  qed
  have "reducer_of i j' = Some (je_reducer entry')" "hm_get (fj_disk j') i = Some disk'"
    by (simp_all add: reducer_of_def loaded(2,3) entry')
  with True loaded(1) others changed' show ?thesis by blast
qed simp

text \<open>Transitions keep the directory's identity.\<close>

lemma require_operation_Inr:
  "require_operation s i = Inr r \<longleftrightarrow> os_operation s = Some r \<and> or_id r = i"
  by (auto simp: require_operation_def split: option.splits)

lemma set_operation_updated_at_Inr:
  "set_operation_updated_at t r = Inr r' \<longleftrightarrow> 0 \<le> t \<and> or_created_at_ms r \<le> t \<and> r' = r\<lparr>or_updated_at_ms := t\<rparr>"
  by (auto simp: set_operation_updated_at_def checked_timestamp_def result_simps)

lemmas reducer_simps = result_simps require_operation_Inr set_operation_updated_at_Inr store_operation_def
  checked_timestamp_def

lemma reduce_operation_owned:
  assumes "reduce_operation i t s = Inr s'" "owned i s" shows "owned i s'"
  using assms by (cases t) (auto simp: reducer_simps owned_def split: option.splits if_splits)

definition transition_result ::
  "uuid \<Rightarrow> operation_transition \<Rightarrow> operation_snapshot \<Rightarrow> operation_snapshot \<Rightarrow> bool" where
  "transition_result i t s s' \<longleftrightarrow>
     (\<exists>sequence. apply_operation_event s (event_of sequence i t) = Inr s')"

lemma transition_result_owned: "transition_result i t s s' \<Longrightarrow> owned i s \<Longrightarrow> owned i s'"
  using reduce_operation_owned [of i t s]
  by (auto simp: transition_result_def apply_operation_event_def event_of_def result_simps Let_def owned_def
      split: option.splits if_splits)

text \<open>The log of an operation holds nothing that a crash could still lose.\<close>

definition synced_log :: "disk_entry \<Rightarrow> bool" where
  "synced_log disk \<longleftrightarrow> lf_synced (de_log disk) = length (lf_bytes (de_log disk))"

definition durable :: "uuid \<Rightarrow> file_journal \<Rightarrow> bool" where
  "durable i j \<longleftrightarrow> (\<exists>disk. hm_get (fj_disk j) i = Some disk \<and> synced_log disk)"

definition outcome ::
  "store_codec \<Rightarrow> uuid \<Rightarrow> operation_transition \<Rightarrow> file_journal \<Rightarrow> file_journal \<Rightarrow> (journal_error + unit) \<Rightarrow> bool" where
  "outcome c i t j j' r \<longleftrightarrow>
     fj_poisoned j' \<noteq> None \<and> r \<noteq> Inr ()
     \<or> fj_poisoned j' = None \<and> consistent c j'
       \<and> (\<forall>k. k \<noteq> i \<longrightarrow> hm_get (fj_entries j') k = hm_get (fj_entries j) k)
       \<and> (reducer_at i j' = reducer_at i j \<and> r \<noteq> Inr ()
          \<or> transition_result i t (reducer_at i j) (reducer_at i j') \<and> (r = Inr () \<longrightarrow> durable i j'))"

lemma compact_entry_outcome:
  assumes c: "store_codec_ok c" and whole: "publishes_whole io"
    and ok: "consistent c j" and healthy: "fj_poisoned j = None"
    and state: "directory_state c i snap base start es reducer disk"
    and entry: "entry = \<lparr>je_reducer = reducer, je_log = log_handle (st_sha c) (st_encode c) start es\<rparr>"
    and synced: "synced_log disk"
    and out: "j' = compact_entry c io i entry disk (put_entry i entry disk j)"
  shows "fj_poisoned j' \<noteq> None \<or> fj_poisoned j' = None \<and> consistent c j'
    \<and> (\<forall>k. k \<noteq> i \<longrightarrow> hm_get (fj_entries j') k = hm_get (fj_entries j) k)
    \<and> reducer_of i j' = Some reducer \<and> durable i j'"
proof -
  let ?next = "start + of_nat (length es)" and ?snap = "start + of_nat (length es) - 1"
  let ?j = "put_entry i entry disk j"
  let ?empty = "\<lparr>de_snapshot = Some (?snap, reducer), de_log = empty_log_file\<rparr>"
  let ?split = "\<lparr>de_snapshot = Some (?snap, reducer), de_log = de_log disk\<rparr>"
  note after = compacted_directory [OF c state]
  have entry_intact: "entry_intact c i entry disk" unfolding entry by (rule directory_state_ok [OF state])
  have ok': "consistent c ?j" by (rule consistent_put [OF ok entry_intact])
  have same: "compact_entry c io i entry disk ?j = ?j" if "io_snapshot io = PublishRefused"
    using that entry
    by (cases disk) (simp add: compact_entry_def compact_def log_handle_def atomic_write_def put_entry_def hm_insert_twice)
  consider "io_snapshot io = PublishRefused" | "io_snapshot io = ParentSyncFailed"
    | "io_snapshot io = PublishDone" "io_log io = ParentSyncFailed"
    | "io_snapshot io = PublishDone" "io_log io = PublishDone"
    using whole by (cases "io_snapshot io"; cases "io_log io") (auto simp: publishes_whole_def)
  then show ?thesis
  proof cases
    case 1
    with same out ok' healthy synced show ?thesis by (simp add: reducer_of_def entry durable_def)
  next
    case 2
    then have j': "j' = reload_after_unknown c io (put_entry i
        (entry\<lparr>je_log := (je_log entry)\<lparr>el_reload_required := True\<rparr>\<rparr>) ?split j)"
      using out entry after(2)
      by (simp add: compact_entry_def compact_def log_handle_def atomic_write_def put_entry_def hm_insert_twice)
    have "entry_intact c i entry' disk' \<and> je_reducer entry' = reducer \<and> synced_log disk'"
      if "load_entry c i ?split = (disk', Inr entry')" for entry' disk'
      using split_directory_loads [OF c state that] synced by (simp add: synced_log_def)
    from reload_one [OF c ok healthy this j'] show ?thesis by (auto simp: durable_def)
  next
    case 3
    then have j': "j' = reload_after_unknown c io (put_entry i
        (entry\<lparr>je_log := (je_log entry)\<lparr>el_reload_required := True\<rparr>\<rparr>) ?empty j)"
      using out entry after(2)
      by (simp add: compact_entry_def compact_def log_handle_def atomic_write_def put_entry_def hm_insert_twice)
    have "entry_intact c i entry' disk' \<and> je_reducer entry' = reducer \<and> synced_log disk'"
      if "load_entry c i ?empty = (disk', Inr entry')" for entry' disk'
      using load_entry_intact [OF c directory_state_ok [OF after(1)]] directory_state_ok [OF after(1)] that
      by (auto simp: synced_log_def empty_log_file_def)
    from reload_one [OF c ok healthy this j'] show ?thesis by (auto simp: durable_def)
  next
    case 4
    let ?e = "\<lparr>je_reducer = reducer, je_log = log_handle (st_sha c) (st_encode c) ?next []\<rparr>"
    have j': "j' = put_entry i ?e ?empty j"
      using 4 out entry after(2)
      by (simp add: compact_entry_def compact_def log_handle_def atomic_write_def put_entry_def hm_insert_twice)
    from consistent_put [OF ok directory_state_ok [OF after(1)]] show ?thesis
      by (simp add: j' healthy reducer_of_def durable_def synced_log_def empty_log_file_def)
  qed
qed

text \<open>
  One event on the log of an operation in state \<open>s\<close>, which takes it to
  \<open>candidate\<close>: the conditions under which the append is attempted.
\<close>

definition attempts ::
  "store_codec \<Rightarrow> uuid \<Rightarrow> operation_transition \<Rightarrow> u64 \<Rightarrow> operation_snapshot \<Rightarrow> u64 \<Rightarrow> operation_event list
     \<Rightarrow> operation_snapshot \<Rightarrow> disk_entry \<Rightarrow> operation_snapshot \<Rightarrow> bool" where
  "attempts c i t snap base start es s disk candidate \<longleftrightarrow>
     directory_state c i snap base start es s disk
     \<and> apply_operation_event s (event_of (start + of_nat (length es)) i t) = Inr candidate
     \<and> unat start + length es + 1 < 2 ^ 64"

lemma attempts_owned:
  assumes "attempts c i t snap base start es s disk candidate"
  shows "transition_result i t s candidate" "owned i candidate"
proof -
  show "transition_result i t s candidate" using assms by (auto simp: attempts_def transition_result_def)
  then show "owned i candidate"
    by (rule transition_result_owned) (use assms in \<open>simp add: attempts_def directory_state_def\<close>)
qed

lemma written_outcome:
  assumes c: "store_codec_ok c" and ok: "consistent c j" and healthy: "fj_poisoned j = None"
    and attempt: "attempts c i t snap base start es s disk candidate" and before: "reducer_at i j = s"
    and log: "st_encode c (event_of (start + of_nat (length es)) i t) = Some p"
      "loggable (st_encode c) (event_of (start + of_nat (length es)) i t)"
      "length (frames (st_sha c) (st_encode c) start (es @ [event_of (start + of_nat (length es)) i t]))
         \<le> unat MAX_LOG_BYTES"
      "lf_bytes log_file = lf_bytes (de_log disk) @ take n (encode_frame (st_sha c) (start + of_nat (length es)) p)"
      "lf_synced log_file = lf_synced (de_log disk)"
    and out: "j' = reload_after_unknown c io (put_entry i entry (disk\<lparr>de_log := log_file\<rparr>) j)" "r \<noteq> Inr ()"
  shows "outcome c i t j j' r"
proof -
  let ?event = "event_of (start + of_nat (length es)) i t" and ?disk' = "disk\<lparr>de_log := log_file\<rparr>"
  have state: "directory_state c i snap base start es s disk"
    and step: "apply_operation_event s ?event = Inr candidate" and bound: "unat start + length es + 1 < 2 ^ 64"
    using attempt by (simp_all add: attempts_def)
  have named: "oe_sequence ?event = start + of_nat (length es)" by (simp add: event_of_def)
  have synced: "lf_synced log_file \<le> length (lf_bytes (de_log disk))"
    using log(5) state by (auto simp: directory_state_def directory_def log_reads_def)
  obtain reducer' log' disk' where loaded: "reducer' = s \<or> reducer' = candidate"
      "loads c i ?disk' \<lparr>je_reducer = reducer', je_log = log'\<rparr> disk'"
    using written_loads [OF c state named step attempts_owned(2) [OF attempt] log(1-3) bound log(4) synced] by blast
  have "entry_intact c i e d \<and> (je_reducer e = s \<or> je_reducer e = candidate)"
    if "load_entry c i ?disk' = (d, Inr e)" for e d
    using that loaded by (auto simp: loads_def)
  from reload_one [where P = "\<lambda>x _. x = s \<or> x = candidate", OF c ok healthy this out(1)] show ?thesis
    using out(2) before attempts_owned(1) [OF attempt] by (auto simp: outcome_def)
qed

lemma logged_state:
  assumes attempt: "attempts c i t snap base start es s disk candidate"
    and log: "loggable (st_encode c) (event_of (start + of_nat (length es)) i t)"
      "length (frames (st_sha c) (st_encode c) start (es @ [event_of (start + of_nat (length es)) i t]))
         \<le> unat MAX_LOG_BYTES"
      "log_file = \<lparr>lf_bytes = frames (st_sha c) (st_encode c) start (es @ [event_of (start + of_nat (length es)) i t]),
         lf_synced = length (frames (st_sha c) (st_encode c) start
           (es @ [event_of (start + of_nat (length es)) i t]))\<rparr>"
  shows "directory_state c i snap base start (es @ [event_of (start + of_nat (length es)) i t]) candidate
    (disk\<lparr>de_log := log_file\<rparr>)"
  unfolding log(3) using attempt log(1,2)
  by (intro directory_snoc [where reducer = s] attempts_owned(2) [OF attempt]) (simp_all add: attempts_def event_of_def)

lemma logged_outcome:
  assumes c: "store_codec_ok c" and whole: "publishes_whole io"
    and ok: "consistent c j" and healthy: "fj_poisoned j = None"
    and result: "transition_result i t (reducer_at i j) candidate"
    and state: "directory_state c i snap base start es candidate disk"
    and entry: "entry = \<lparr>je_reducer = candidate, je_log = log_handle (st_sha c) (st_encode c) start es\<rparr>"
    and synced: "synced_log disk"
    and out: "j' = (if compacting then compact_entry c io i entry disk (put_entry i entry disk j)
                    else put_entry i entry disk j)" "r = ensure_healthy j'"
  shows "outcome c i t j j' r"
proof (cases compacting)
  case True
  with out have "j' = compact_entry c io i entry disk (put_entry i entry disk j)" by simp
  from compact_entry_outcome [OF c whole ok healthy state entry synced this] show ?thesis
    using out(2) result by (auto simp: outcome_def ensure_healthy_def split: option.splits)
next
  case False
  have "consistent c (put_entry i entry disk j)"
    unfolding entry by (rule consistent_put [OF ok directory_state_ok [OF state]])
  with False out healthy result entry synced show ?thesis
    by (auto simp: outcome_def ensure_healthy_def reducer_of_def durable_def)
qed

lemma append_attempt_outcome:
  assumes c: "store_codec_ok c" and whole: "publishes_whole io"
    and ok: "consistent c j" and healthy: "fj_poisoned j = None"
    and entry: "hm_get (fj_entries j) i = Some entry" and disk: "hm_get (fj_disk j) i = Some disk"
    and handle: "entry = \<lparr>je_reducer = s, je_log = log_handle (st_sha c) (st_encode c) start es\<rparr>"
    and attempt: "attempts c i t snap base start es s disk candidate"
    and sequence: "checked_add (os_final_event_sequence s) 1 = Some (start + of_nat (length es))"
    and run: "append_transition c io i t j = (j', r)"
  shows "outcome c i t j j' r"
proof -
  let ?event = "event_of (start + of_nat (length es)) i t"
  have state: "directory_state c i snap base start es s disk" using attempt by (simp add: attempts_def)
  then have reads: "log_reads (st_sha c) (st_encode c) snap start es (de_log disk)"
    and load: "reducer_load s = Inr s"
    by (simp_all add: directory_state_def directory_def replays_def reducer_load_def)
  have before: "reducer_at i j = s" by (simp add: reducer_at_def reducer_of_def entry handle)
  have sha: "digest_length (st_sha c)" using c by (simp add: store_codec_ok_def)
  obtain log log_file appended where append: "append_event (st_sha c) (st_encode c) (io_append io) ?event
      (log_handle (st_sha c) (st_encode c) start es) (de_log disk) = (log, log_file, appended)"
    by (metis prod_cases3)
  let ?disk' = "disk\<lparr>de_log := log_file\<rparr>"
  let ?j1 = "put_entry i (entry\<lparr>je_log := log\<rparr>) ?disk' j" and ?entry' = "\<lparr>je_reducer = candidate, je_log = log\<rparr>"
  have run': "(j', r) = (case appended of
        Inl e \<Rightarrow> (if mutation_unknown e then reload_after_unknown c io ?j1 else ?j1, Inl (journal_persistence_error e))
      | Inr _ \<Rightarrow> let j2 = (if should_compact log
            then compact_entry c io i ?entry' ?disk' (put_entry i ?entry' ?disk' j)
            else put_entry i ?entry' ?disk' j) in (j2, ensure_healthy j2))"
    using run healthy entry disk sequence load append attempt handle
    by (cases appended) (auto simp: append_transition_def ensure_healthy_def event_of_def Let_def attempts_def)
  from sha reads append show ?thesis
  proof (cases rule: append_event_cases)
    case (refused err)
    have eta: "entry\<lparr>je_log := log\<rparr> = entry" "?disk' = disk" using refused handle by simp_all
    have "consistent c (put_entry i entry disk j)"
      unfolding handle by (rule consistent_put [OF ok directory_state_ok [OF state]])
    with run' refused eta healthy show ?thesis
      by (auto simp: outcome_def reducer_of_def reducer_at_def entry)
  next
    case (written p n)
    have "j' = reload_after_unknown c io ?j1" "r \<noteq> Inr ()" using run' written(6) by auto
    from written_outcome [OF c ok healthy attempt before written(1-5) this] show ?thesis .
  next
    case logged
    have "?entry' = \<lparr>je_reducer = candidate, je_log = log_handle (st_sha c) (st_encode c) start (es @ [?event])\<rparr>"
      using logged(5) by simp
    moreover have "j' = (if should_compact log
          then compact_entry c io i ?entry' ?disk' (put_entry i ?entry' ?disk' j)
          else put_entry i ?entry' ?disk' j)" "r = ensure_healthy j'"
      using run' logged(4) by (auto simp: Let_def)
    moreover have "transition_result i t (reducer_at i j) candidate" "synced_log ?disk'"
      using attempts_owned(1) [OF attempt] before logged(3) by (simp_all add: synced_log_def)
    ultimately show ?thesis
      using logged_outcome [OF c whole ok healthy _ logged_state [OF attempt logged(1,2,3)]] by blast
  qed
qed

lemma append_transition_outcome:
  assumes c: "store_codec_ok c" and whole: "publishes_whole io"
    and ok: "consistent c j" and healthy: "fj_poisoned j = None"
    and room: "unat (os_final_event_sequence (reducer_at i j)) + 2 < 2 ^ 64"
    and run: "append_transition c io i t j = (j', r)"
  shows "outcome c i t j j' r"
proof -
  have unchanged: "outcome c i t j j (Inl e)" for e
    using ok healthy by (simp add: outcome_def)
  show ?thesis
  proof (cases "hm_get (fj_disk j) i")
    case None
    with ok have "hm_get (fj_entries j) i = None" by (simp add: consistent_def)
    with run None have "j' = j" "r = Inl (NotFound i)"
      by (simp_all add: append_transition_def ensure_healthy_def healthy)
    then show ?thesis by (simp add: unchanged)
  next
    case disk: (Some disk)
    obtain entry where entry: "hm_get (fj_entries j) i = Some entry" "entry_intact c i entry disk"
      by (rule consistent_entry [OF ok disk])
    obtain snap base start es where state: "directory_state c i snap base start es (je_reducer entry) disk"
        and handle: "entry = \<lparr>je_reducer = je_reducer entry,
          je_log = log_handle (st_sha c) (st_encode c) start es\<rparr>"
      by (rule entry_intactE [OF entry(2)])
    let ?s = "je_reducer entry" and ?next = "start + of_nat (length es)"
    have reads: "log_reads (st_sha c) (st_encode c) snap start es (de_log disk)"
      and replay: "replays c snap base start es ?s"
      using state by (simp_all add: directory_state_def directory_def)
    have before: "reducer_of i j = Some ?s" by (simp add: reducer_of_def entry)
    from room before replay have bound: "unat start + length es + 1 < 2 ^ 64"
      by (auto simp: replays_def)
    obtain n where "checked_add (os_final_event_sequence ?s) 1 = Some n"
      using room before by (cases "checked_add (os_final_event_sequence ?s) 1") (simp_all add: checked_add_None)
    with next_sequence_eq [OF reads replay]
    have sequence: "checked_add (os_final_event_sequence ?s) 1 = Some ?next" by simp
    have load: "reducer_load ?s = Inr ?s" using replay by (simp add: replays_def reducer_load_def)
    show ?thesis
    proof (cases "apply_operation_event ?s (event_of ?next i t)")
      case (Inl e)
      with run healthy entry disk sequence load have "j' = j" "r = Inl e"
        by (simp_all add: append_transition_def ensure_healthy_def event_of_def Let_def)
      then show ?thesis by (simp add: unchanged)
    next
      case (Inr candidate)
      then have "attempts c i t snap base start es ?s disk candidate"
        using state bound by (simp add: attempts_def)
      from append_attempt_outcome [OF c whole ok healthy entry(1) disk handle this sequence run] show ?thesis .
    qed
  qed
qed

section \<open>Inserting an operation\<close>

lemma fresh_directory:
  "directory_state c i 0 operation_snapshot_default 1 [] operation_snapshot_default
     \<lparr>de_snapshot = None, de_log = empty_log_file\<rparr>"
  by (simp add: directory_state_def directory_def replays_def owned_def log_reads_def empty_log_file_def
      pending_events_def operation_snapshot_default_def validate_operation_snapshot_def)

lemma intent_applies:
  assumes "validate_operation r = Inr ()" "or_state r = Intent"
  shows "\<exists>s. apply_operation_event operation_snapshot_default (event_of 1 (or_id r) (IntentInserted r)) = Inr s"
  using assms
  by (simp add: apply_operation_event_def event_of_def operation_snapshot_default_def checked_add_def
      store_operation_def validate_operation_snapshot_def Let_def)

lemma reload_ignores_entries:
  "fj_poisoned (reload_after_unknown c io (j\<lparr>fj_disk := d\<rparr>))
     = fj_poisoned (reload_after_unknown c io (j\<lparr>fj_entries := e, fj_disk := d\<rparr>))"
  "fj_poisoned j = None \<Longrightarrow> fj_poisoned (reload_after_unknown c io (j\<lparr>fj_disk := d\<rparr>)) = None \<Longrightarrow>
     reload_after_unknown c io (j\<lparr>fj_disk := d\<rparr>)
       = reload_after_unknown c io (j\<lparr>fj_entries := e, fj_disk := d\<rparr>)"
  by (auto simp: reload_after_unknown_def Let_def split: prod.splits sum.splits if_splits)

lemma consistent_forget:
  assumes "consistent c j" "hm_get (fj_entries j) i = None"
  shows "consistent c (j\<lparr>fj_disk := hm_remove i (hm_insert i d (fj_disk j))\<rparr>)"
proof -
  have "hm_get (hm_remove i (hm_insert i d (fj_disk j))) k = hm_get (fj_disk j) k" for k
    using assms by (auto simp: map_laws consistent_def)
  then show ?thesis using assms by (auto simp: consistent_def)
qed

text \<open>The insertion of an operation without a directory.\<close>

lemma insert_new_run:
  assumes c: "store_codec_ok c" and ok: "consistent c j" and healthy: "fj_poisoned j = None"
    and valid: "or_state r = Intent" "validate_operation r = Inr ()"
    and absent: "hm_get (fj_entries j) (or_id r) = None" and create: "io_create io"
    and applied: "apply_operation_event operation_snapshot_default (event_of 1 (or_id r) (IntentInserted r))
      = Inr candidate"
    and append: "append_event (st_sha c) (st_encode c) (io_append io) (event_of 1 (or_id r) (IntentInserted r))
      (log_handle (st_sha c) (st_encode c) 1 []) empty_log_file = (log, log_file, appended)"
  shows "insert_operation c io r j = (case appended of
      Inr sequence \<Rightarrow> if sequence = 1
        then (put_entry (or_id r) \<lparr>je_reducer = candidate, je_log = log\<rparr>
                \<lparr>de_snapshot = None, de_log = log_file\<rparr> j, Inr ())
        else (j\<lparr>fj_disk := hm_insert (or_id r) \<lparr>de_snapshot = None, de_log = log_file\<rparr> (fj_disk j)\<rparr>,
              Inl (Corrupt ''new operation event sequence is invalid''))
    | Inl e \<Rightarrow> (if mutation_unknown e
          then reload_after_unknown c io
            (j\<lparr>fj_disk := hm_insert (or_id r) \<lparr>de_snapshot = None, de_log = log_file\<rparr> (fj_disk j)\<rparr>)
          else j\<lparr>fj_disk := hm_remove (or_id r)
            (hm_insert (or_id r) \<lparr>de_snapshot = None, de_log = empty_log_file\<rparr> (fj_disk j))\<rparr>,
          Inl (journal_persistence_error e)))"
proof -
  have nodisk: "hm_get (fj_disk j) (or_id r) = None" using ok absent by (simp add: consistent_def)
  have reads: "log_reads (st_sha c) (st_encode c) 0 1 [] empty_log_file"
    by (simp add: log_reads_def empty_log_file_def)
  have "open_event_log (st_sha c) (st_decode c) 0 empty_log_file
      = (empty_log_file, Inr (log_handle (st_sha c) (st_encode c) 1 [], []))"
    using open_log [OF _ _ reads, of "st_decode c" empty_log_file "[]"] c
    by (simp add: store_codec_ok_def empty_log_file_def pending_events_def)
  with assms nodisk show ?thesis
    by (cases appended)
      (auto simp: insert_operation_def ensure_healthy_def event_of_def Let_def hm_insert_twice put_entry_def)
qed

lemma insert_new_outcome:
  assumes c: "store_codec_ok c" and whole: "publishes_whole io"
    and ok: "consistent c j" and healthy: "fj_poisoned j = None"
    and valid: "or_state r = Intent" "validate_operation r = Inr ()"
    and absent: "hm_get (fj_entries j) (or_id r) = None" and create: "io_create io"
    and run: "insert_operation c io r j = (j', out)"
  shows "outcome c (or_id r) (IntentInserted r) j j' out"
proof -
  let ?i = "or_id r" and ?t = "IntentInserted r" and ?s = operation_snapshot_default
  let ?disk = "\<lparr>de_snapshot = None, de_log = empty_log_file\<rparr>"
  have before: "reducer_at ?i j = ?s" by (simp add: reducer_at_def reducer_of_def absent)
  obtain candidate where applied: "apply_operation_event ?s (event_of 1 ?i ?t) = Inr candidate"
    using intent_applies [of r] valid by blast
  then have attempt: "attempts c ?i ?t 0 ?s 1 [] ?s ?disk candidate" by (simp add: attempts_def fresh_directory)
  obtain log log_file appended where append: "append_event (st_sha c) (st_encode c) (io_append io)
      (event_of 1 ?i ?t) (log_handle (st_sha c) (st_encode c) 1 []) empty_log_file = (log, log_file, appended)"
    by (metis prod_cases3)
  note run' = insert_new_run [OF c ok healthy valid absent create applied append, unfolded run]
  let ?disk' = "?disk\<lparr>de_log := log_file\<rparr>" and ?entry = "\<lparr>je_reducer = candidate, je_log = log\<rparr>"
  have sha: "digest_length (st_sha c)" using c by (simp add: store_codec_ok_def)
  have "log_reads (st_sha c) (st_encode c) 0 1 [] empty_log_file"
    by (simp add: log_reads_def empty_log_file_def)
  from sha this append [folded event_of_def] show ?thesis
  proof (cases rule: append_event_cases)
    case (refused err)
    from consistent_forget [OF ok absent] run' refused(1,2) healthy show ?thesis
      by (auto simp: outcome_def reducer_at_def reducer_of_def)
  next
    case (written p n)
    let ?j1 = "j\<lparr>fj_disk := hm_insert ?i ?disk' (fj_disk j)\<rparr>"
    have j': "j' = reload_after_unknown c io ?j1" "out \<noteq> Inr ()" using run' written(6) by auto
    show ?thesis
    proof (cases "fj_poisoned j' = None")
      case False
      with j'(2) show ?thesis by (simp add: outcome_def)
    next
      case True
      then have "j' = reload_after_unknown c io (put_entry ?i ?entry ?disk' j)"
        using reload_ignores_entries(2) [OF healthy, of c io "hm_insert ?i ?disk' (fj_disk j)"] j'(1)
        by (simp add: put_entry_def)
      with j'(2) written(1-5) show ?thesis
        by (intro written_outcome [OF c ok healthy attempt before]) simp_all
    qed
  next
    case logged
    have "directory_state c ?i 0 ?s 1 [event_of 1 ?i ?t] candidate ?disk'"
      using logged_state [OF attempt, of log_file] logged(1-3) by simp
    from logged_outcome [OF c whole ok healthy _ this, where compacting = False] show ?thesis
      using attempts_owned(1) [OF attempt] before run' logged(3-5) healthy by (simp add: ensure_healthy_def synced_log_def)
  qed
qed

lemma insert_operation_outcome:
  assumes c: "store_codec_ok c" and whole: "publishes_whole io"
    and ok: "consistent c j" and healthy: "fj_poisoned j = None"
    and room: "unat (os_final_event_sequence (reducer_at (or_id r) j)) + 2 < 2 ^ 64"
    and run: "insert_operation c io r j = (j', out)"
  shows "outcome c (or_id r) (IntentInserted r) j j' out"
proof -
  have unchanged: "outcome c (or_id r) (IntentInserted r) j j (Inl e)" for e
    using ok healthy by (simp add: outcome_def)
  consider e where
      "(if or_state r \<noteq> Intent then Inl (Conflict ''new operation must start in INTENT'')
        else validate_operation r) = Inl e"
    | "or_state r = Intent" "validate_operation r = Inr ()"
    by (cases "validate_operation r"; cases "or_state r = Intent") auto
  then show ?thesis
  proof cases
    case 1
    with run healthy have "j' = j" "out = Inl e" by (simp_all add: insert_operation_def ensure_healthy_def)
    then show ?thesis by (simp add: unchanged)
  next
    case valid: 2
    note start = run [unfolded insert_operation_def ensure_healthy_def healthy]
    show ?thesis
    proof (cases "hm_get (fj_entries j) (or_id r)")
      case entry: (Some entry)
      show ?thesis
      proof (cases "os_operation (je_reducer entry)")
        case None
        with start entry valid have "append_transition c io (or_id r) (IntentInserted r) j = (j', out)" by simp
        then show ?thesis by (rule append_transition_outcome [OF c whole ok healthy room])
      next
        case (Some _)
        with start entry valid show ?thesis using unchanged by auto
      qed
    next
      case absent: None
      show ?thesis
      proof (cases "io_create io")
        case True
        show ?thesis by (rule insert_new_outcome [OF c whole ok healthy valid absent True run])
      next
        case False
        with start absent valid show ?thesis using unchanged by auto
      qed
    qed
  qed
qed

end
