(* ===== verification/Memory_Journal.thy ===== *)
theory Memory_Journal
  imports Operation_Lifecycle "HOL-Library.Product_Lexorder"
begin

text \<open>
  The in-memory operation journal (\<open>crates/gateway/src/transaction/journal.rs\<close>,
  \<open>InMemoryOperationJournal\<close>), one definition per method of the
  \<open>OperationJournal\<close> trait, with its injected failures. The wall clock is the
  argument \<open>clock\<close> of the methods that read it.
\<close>

section \<open>State and operations\<close>

record memory_journal =
  mj_operations :: "(uuid, operation_record) hash_map"
  mj_parts :: "(uuid \<times> int, part_record) hash_map"
  mj_evidence :: "evidence_record list"
  mj_fail_committed_transitions :: nat
  mj_fail_evidence_appends :: nat
  mj_durable_for_test :: bool

definition memory_journal_new :: memory_journal where
  "memory_journal_new = \<lparr>mj_operations = [], mj_parts = [], mj_evidence = [],
     mj_fail_committed_transitions = 0, mj_fail_evidence_appends = 0, mj_durable_for_test = False\<rparr>"

type_synonym 'a journaled = "memory_journal \<times> (journal_error + 'a)"

definition put_operation :: "uuid \<Rightarrow> operation_record \<Rightarrow> memory_journal \<Rightarrow> memory_journal" where
  "put_operation operation_id operation j =
     j\<lparr>mj_operations := hm_insert operation_id operation (mj_operations j)\<rparr>"

definition insert_intent :: "operation_record \<Rightarrow> memory_journal \<Rightarrow> unit journaled" where
  "insert_intent operation j =
     (if or_state operation \<noteq> Intent then (j, Inl (Conflict ''new operation must start in INTENT''))
      else
        let replaced = hm_get (mj_operations j) (or_id operation);
            j' = put_operation (or_id operation) operation j
        in if replaced \<noteq> None then (j', Inl (Conflict ''duplicate operation id'')) else (j', Inr ()))"

definition get_operation :: "uuid \<Rightarrow> memory_journal \<Rightarrow> operation_record option journaled" where
  "get_operation operation_id j = (j, Inr (hm_get (mj_operations j) operation_id))"

definition set_open :: "uuid \<Rightarrow> string option \<Rightarrow> i64 \<Rightarrow> memory_journal \<Rightarrow> unit journaled" where
  "set_open operation_id upload_id clock j =
     (case hm_get (mj_operations j) operation_id of
        None \<Rightarrow> (j, Inl (NotFound operation_id))
      | Some operation \<Rightarrow>
          if or_state operation \<noteq> Intent then (j, Inl (Conflict ''expected INTENT''))
          else (put_operation operation_id
                  (operation\<lparr>or_state := Open, or_upload_id := upload_id, or_updated_at_ms := clock\<rparr>) j,
                Inr ()))"

definition compare_and_set_client_multipart_upload_reference ::
  "uuid \<Rightarrow> string option \<Rightarrow> string option \<Rightarrow> i64 \<Rightarrow> memory_journal \<Rightarrow> unit journaled" where
  "compare_and_set_client_multipart_upload_reference operation_id expected new clock j =
     (case hm_get (mj_operations j) operation_id of
        None \<Rightarrow> (j, Inl (NotFound operation_id))
      | Some operation \<Rightarrow>
          if or_client_multipart_upload_id operation \<noteq> expected
          then (j, Inl (Conflict ''client multipart reference changed''))
          else (put_operation operation_id
                  (operation\<lparr>or_client_multipart_upload_id := new, or_updated_at_ms := clock\<rparr>) j,
                Inr ()))"

definition set_expected :: "uuid \<Rightarrow> expected_object \<Rightarrow> i64 \<Rightarrow> memory_journal \<Rightarrow> unit journaled" where
  "set_expected operation_id expected clock j =
     (case hm_get (mj_operations j) operation_id of
        None \<Rightarrow> (j, Inl (NotFound operation_id))
      | Some operation \<Rightarrow>
          if \<not> (or_state operation = Intent \<or> or_state operation = Open)
          then (j, Inl (Conflict ''cannot update expected output''))
          else (put_operation operation_id
                  (operation\<lparr>or_expected := expected, or_updated_at_ms := clock\<rparr>) j, Inr ()))"

definition transition ::
  "uuid \<Rightarrow> operation_state \<Rightarrow> operation_state \<Rightarrow> stored_object_meta option \<Rightarrow> i64
     \<Rightarrow> memory_journal \<Rightarrow> unit journaled" where
  "transition operation_id expected new committed clock j =
     (if \<not> can_transition_to expected new then (j, Inl (Conflict ''illegal transition''))
      else if (new = Committed) \<noteq> (committed \<noteq> None)
      then (j, Inl (Conflict ''COMMITTED transitions require object metadata only''))
      else if new = Committed \<and> 0 < mj_fail_committed_transitions j
      then (j\<lparr>mj_fail_committed_transitions := mj_fail_committed_transitions j - 1\<rparr>,
            Inl (Persistence ''injected COMMITTED transition failure''))
      else case hm_get (mj_operations j) operation_id of
        None \<Rightarrow> (j, Inl (NotFound operation_id))
      | Some operation \<Rightarrow>
          if or_state operation \<noteq> expected then (j, Inl (Conflict ''unexpected operation state''))
          else (put_operation operation_id
                  (operation\<lparr>or_state := new, or_committed := committed, or_updated_at_ms := clock,
                             or_lease_owner := None, or_lease_expires_at_ms := None\<rparr>) j, Inr ()))"

definition same_part_result :: "part_record \<Rightarrow> part_record \<Rightarrow> bool" where
  "same_part_result existing part \<longleftrightarrow>
     pr_etag existing = pr_etag part \<and> pr_size_bytes existing = pr_size_bytes part
     \<and> pr_digest existing = pr_digest part"

definition record_part :: "part_record \<Rightarrow> memory_journal \<Rightarrow> unit journaled" where
  "record_part part j =
     (case hm_get (mj_parts j) (pr_operation_id part, pr_part_number part) of
        Some existing \<Rightarrow>
          (j, if same_part_result existing part then Inr ()
              else Inl (Conflict ''part retry body or result changed''))
      | None \<Rightarrow>
          (j\<lparr>mj_parts := hm_insert (pr_operation_id part, pr_part_number part) part (mj_parts j)\<rparr>, Inr ()))"

definition parts :: "uuid \<Rightarrow> memory_journal \<Rightarrow> part_record list journaled" where
  "parts operation_id j =
     (j, Inr (sort_key pr_part_number
        (filter (\<lambda>part. pr_operation_id part = operation_id) (hm_values (mj_parts j)))))"

definition append_evidence :: "evidence_record \<Rightarrow> memory_journal \<Rightarrow> unit journaled" where
  "append_evidence evidence j =
     (if 0 < mj_fail_evidence_appends j
      then (j\<lparr>mj_fail_evidence_appends := mj_fail_evidence_appends j - 1\<rparr>,
            Inl (Persistence ''injected evidence append failure''))
      else case find (\<lambda>r. er_id r = er_id evidence) (mj_evidence j) of
        Some existing \<Rightarrow>
          (j, if er_operation_id existing = er_operation_id evidence
                 \<and> er_kind existing = er_kind evidence \<and> er_detail existing = er_detail evidence
              then Inr () else Inl (Conflict ''evidence id conflicts with an existing record''))
      | None \<Rightarrow> (j\<lparr>mj_evidence := mj_evidence j @ [evidence]\<rparr>, Inr ()))"

definition evidence_of :: "uuid \<Rightarrow> memory_journal \<Rightarrow> evidence_record list journaled" where
  "evidence_of operation_id j =
     (j, Inr (filter (\<lambda>evidence. er_operation_id evidence = operation_id) (mj_evidence j)))"

definition record_mutation_launch :: "uuid \<Rightarrow> i64 \<Rightarrow> i64 \<Rightarrow> memory_journal \<Rightarrow> unit journaled" where
  "record_mutation_launch operation_id not_before_ms clock j =
     (case hm_get (mj_operations j) operation_id of
        None \<Rightarrow> (j, Inl (NotFound operation_id))
      | Some operation \<Rightarrow>
          if operation_is_terminal (or_state operation)
          then (j, Inl (Conflict ''terminal operation cannot launch a provider mutation''))
          else (put_operation operation_id
                  (operation\<lparr>or_mutation_not_before_ms := Some (max
                       (case or_mutation_not_before_ms operation of None \<Rightarrow> i64_min | Some t \<Rightarrow> t)
                       not_before_ms),
                     or_exact_absence_observed_at_ms := None, or_updated_at_ms := clock\<rparr>) j, Inr ()))"

definition confirm_exact_absence ::
  "uuid \<Rightarrow> i64 \<Rightarrow> i64 \<Rightarrow> i64 \<Rightarrow> memory_journal \<Rightarrow> bool journaled" where
  "confirm_exact_absence operation_id observed_at_ms minimum_separation_ms clock j =
     (case hm_get (mj_operations j) operation_id of
        None \<Rightarrow> (j, Inl (NotFound operation_id))
      | Some operation \<Rightarrow>
          if (case or_mutation_not_before_ms operation of
                None \<Rightarrow> False | Some not_before \<Rightarrow> observed_at_ms < not_before)
          then (j, Inr False)
          else case or_exact_absence_observed_at_ms operation of
            Some first \<Rightarrow> (j, Inr (i64_saturating_sub observed_at_ms first \<ge> minimum_separation_ms))
          | None \<Rightarrow>
              (put_operation operation_id
                 (operation\<lparr>or_exact_absence_observed_at_ms := Some observed_at_ms,
                            or_updated_at_ms := clock\<rparr>) j, Inr False))"

text \<open>Which operations a reconciler may claim.\<close>

definition reconcilable :: "i64 \<Rightarrow> i64 \<Rightarrow> operation_record \<Rightarrow> bool" where
  "reconcilable stale_before_ms now operation \<longleftrightarrow>
     \<not> operation_is_terminal (or_state operation)
     \<and> or_updated_at_ms operation \<le> stale_before_ms
     \<and> (case or_lease_expires_at_ms operation of None \<Rightarrow> True | Some expiry \<Rightarrow> expiry < now)"

definition leased :: "string \<Rightarrow> i64 \<Rightarrow> operation_record \<Rightarrow> operation_record" where
  "leased owner lease_until_ms operation =
     operation\<lparr>or_lease_owner := Some owner, or_lease_expires_at_ms := Some lease_until_ms\<rparr>"

fun claim_ids ::
  "string \<Rightarrow> i64 \<Rightarrow> uuid list \<Rightarrow> memory_journal \<Rightarrow> memory_journal \<times> operation_record list" where
  "claim_ids owner lease_until_ms [] j = (j, [])"
| "claim_ids owner lease_until_ms (operation_id # ids) j =
     (case hm_get (mj_operations j) operation_id of
        None \<Rightarrow> claim_ids owner lease_until_ms ids j
      | Some operation \<Rightarrow>
          let operation' = leased owner lease_until_ms operation;
              (j', claimed) = claim_ids owner lease_until_ms ids (put_operation operation_id operation' j)
          in (j', operation' # claimed))"

definition claim_reconcilable ::
  "string \<Rightarrow> i64 \<Rightarrow> i64 \<Rightarrow> nat \<Rightarrow> i64 \<Rightarrow> memory_journal \<Rightarrow> operation_record list journaled" where
  "claim_reconcilable owner stale_before_ms lease_until_ms limit now j =
     (let ids = take limit (sort
            (map (\<lambda>operation. (or_updated_at_ms operation, or_id operation))
              (filter (reconcilable stale_before_ms now) (hm_values (mj_operations j)))));
          (j', claimed) = claim_ids owner lease_until_ms (map snd ids) j
      in (j', Inr claimed))"

definition claim_reconcilable_operation ::
  "uuid \<Rightarrow> string \<Rightarrow> i64 \<Rightarrow> i64 \<Rightarrow> i64 \<Rightarrow> memory_journal \<Rightarrow> operation_record option journaled" where
  "claim_reconcilable_operation operation_id owner stale_before_ms lease_until_ms now j =
     (case hm_get (mj_operations j) operation_id of
        None \<Rightarrow> (j, Inr None)
      | Some operation \<Rightarrow>
          if operation_is_terminal (or_state operation)
             \<or> or_updated_at_ms operation > stale_before_ms
             \<or> (case or_lease_expires_at_ms operation of None \<Rightarrow> False | Some expiry \<Rightarrow> expiry \<ge> now)
          then (j, Inr None)
          else (put_operation operation_id (leased owner lease_until_ms operation) j,
                Inr (Some (leased owner lease_until_ms operation))))"

definition retire_terminal ::
  "uuid \<Rightarrow> operation_state \<Rightarrow> string option \<Rightarrow> memory_journal \<Rightarrow> unit journaled" where
  "retire_terminal operation_id expected_state expected_client_multipart_upload_id j =
     (if \<not> operation_is_terminal expected_state
      then (j, Inl (Conflict ''journal retirement requires a terminal state''))
      else case hm_get (mj_operations j) operation_id of
        None \<Rightarrow> (j, Inl (NotFound operation_id))
      | Some operation \<Rightarrow>
          if or_state operation \<noteq> expected_state
             \<or> or_client_multipart_upload_id operation \<noteq> expected_client_multipart_upload_id
          then (j, Inl (Conflict ''terminal state or multipart reference changed''))
          else (j\<lparr>mj_operations := hm_remove operation_id (mj_operations j),
                  mj_parts := hm_retain (\<lambda>key _. fst key \<noteq> operation_id) (mj_parts j),
                  mj_evidence := filter (\<lambda>item. er_operation_id item \<noteq> operation_id) (mj_evidence j)\<rparr>,
                Inr ()))"

section \<open>The journal as a state machine\<close>

datatype journal_operation =
    InsertIntent operation_record
  | SetOpen uuid "string option" i64
  | CompareAndSetReference uuid "string option" "string option" i64
  | SetExpected uuid expected_object i64
  | Transition uuid operation_state operation_state "stored_object_meta option" i64
  | RecordPart part_record
  | AppendEvidence evidence_record
  | RecordMutationLaunch uuid i64 i64
  | ConfirmExactAbsence uuid i64 i64 i64
  | ClaimReconcilable string i64 i64 nat i64
  | ClaimOperation uuid string i64 i64 i64
  | RetireTerminal uuid operation_state "string option"

fun journal_run :: "journal_operation \<Rightarrow> memory_journal \<Rightarrow> memory_journal" where
  "journal_run (InsertIntent r) j = fst (insert_intent r j)"
| "journal_run (SetOpen i u clock) j = fst (set_open i u clock j)"
| "journal_run (CompareAndSetReference i e n clock) j =
     fst (compare_and_set_client_multipart_upload_reference i e n clock j)"
| "journal_run (SetExpected i e clock) j = fst (set_expected i e clock j)"
| "journal_run (Transition i e n m clock) j = fst (transition i e n m clock j)"
| "journal_run (RecordPart p) j = fst (record_part p j)"
| "journal_run (AppendEvidence e) j = fst (append_evidence e j)"
| "journal_run (RecordMutationLaunch i nb clock) j = fst (record_mutation_launch i nb clock j)"
| "journal_run (ConfirmExactAbsence i seen sep clock) j = fst (confirm_exact_absence i seen sep clock j)"
| "journal_run (ClaimReconcilable owner stale until limit now) j =
     fst (claim_reconcilable owner stale until limit now j)"
| "journal_run (ClaimOperation i owner stale until now) j =
     fst (claim_reconcilable_operation i owner stale until now j)"
| "journal_run (RetireTerminal i e m) j = fst (retire_terminal i e m j)"

text \<open>Operation ids are fresh, and an intent is what \<open>operation_intent\<close> builds.\<close>

fun fresh_intent :: "journal_operation \<Rightarrow> memory_journal \<Rightarrow> bool" where
  "fresh_intent (InsertIntent r) j =
     (hm_get (mj_operations j) (or_id r) = None \<and> or_committed r = None
      \<and> or_exact_absence_observed_at_ms r = None)"
| "fresh_intent _ j = True"

definition journal_moves :: "memory_journal \<Rightarrow> memory_journal \<Rightarrow> bool" where
  "journal_moves j j' \<longleftrightarrow> (\<exists>op. fresh_intent op j \<and> j' = journal_run op j)"

definition journal_inv :: "memory_journal \<Rightarrow> bool" where
  "journal_inv j \<longleftrightarrow> hm_wf (mj_operations j) \<and> hm_wf (mj_parts j)
     \<and> (\<forall>i r. hm_get (mj_operations j) i = Some r \<longrightarrow> or_id r = i \<and> record_ok r)"

definition journal_record :: "uuid \<Rightarrow> memory_journal \<Rightarrow> operation_record option" where
  "journal_record i j = hm_get (mj_operations j) i"

lemma put_operation_fields [simp]:
  "mj_operations (put_operation i r j) = hm_insert i r (mj_operations j)"
  "mj_parts (put_operation i r j) = mj_parts j"
  "mj_evidence (put_operation i r j) = mj_evidence j"
  by (simp_all add: put_operation_def)

text \<open>A move of the operation table: every record present before and after makes a legal step.\<close>

definition records_move ::
  "(uuid, operation_record) hash_map \<Rightarrow> (uuid, operation_record) hash_map \<Rightarrow> bool" where
  "records_move m m' \<longleftrightarrow>
     (\<forall>i r'. hm_get m' i = Some r' \<longrightarrow>
        (\<forall>r. hm_get m i = Some r \<longrightarrow> record_step r r' \<and> (record_ok r \<longrightarrow> record_ok r'))
        \<and> (hm_get m i = None \<longrightarrow> or_id r' = i \<and> record_ok r'))"

lemma records_move_refl [simp]: "records_move m m"
  by (simp add: records_move_def)

lemma records_move_update:
  assumes "hm_get m i = Some r" "record_step r r'" "record_ok r \<Longrightarrow> record_ok r'"
  shows "records_move m (hm_insert i r' m)"
  using assms by (auto simp: records_move_def map_laws)

lemma records_move_new:
  "hm_get m (or_id r) = None \<Longrightarrow> record_ok r \<Longrightarrow> records_move m (hm_insert (or_id r) r m)"
  by (auto simp: records_move_def map_laws)

lemma records_move_remove: "records_move m (hm_remove i m)"
  by (auto simp: records_move_def map_laws)

lemma record_step_trans:
  "record_step a b \<Longrightarrow> record_step b c \<Longrightarrow> or_state b = or_state a \<Longrightarrow> record_step a c"
  unfolding record_step_def using window_grows_trans [of a b c] by metis

lemma leased_step [simp]: "record_step r (leased owner until r)" "record_ok (leased owner until r) = record_ok r"
  by (simp_all add: record_step_def record_ok_def leased_def)

lemma claim_ids_get:
  "hm_get (mj_operations (fst (claim_ids owner until ids j))) i =
     (case hm_get (mj_operations j) i of
        None \<Rightarrow> None
      | Some r \<Rightarrow> Some (if i \<in> set ids then leased owner until r else r))"
proof (induction ids arbitrary: j)
  case (Cons k ids)
  have twice: "leased owner until (leased owner until r) = leased owner until r" for r
    by (simp add: leased_def)
  show ?case
    by (cases "hm_get (mj_operations j) k")
      (auto simp: Cons Let_def case_prod_unfold map_laws twice split: option.split)
qed (simp split: option.split)

lemma claim_ids_parts [simp]: "mj_parts (fst (claim_ids owner until ids j)) = mj_parts j"
  by (induction ids arbitrary: j) (auto simp: Let_def case_prod_unfold split: option.split)

lemma claim_ids_wf [simp]:
  "hm_wf (mj_operations j) \<Longrightarrow> hm_wf (mj_operations (fst (claim_ids owner until ids j)))"
  by (induction ids arbitrary: j) (auto simp: Let_def case_prod_unfold map_laws split: option.split)

lemma claim_ids_claimed:
  assumes "\<And>k x. hm_get (mj_operations j) k = Some x \<Longrightarrow> or_id x = k"
  shows "or_id ` set (snd (claim_ids owner until ids j)) \<subseteq> set ids"
  using assms
proof (induction ids arbitrary: j)
  case (Cons k ids)
  show ?case
  proof (cases "hm_get (mj_operations j) k")
    case (Some x)
    have "or_id ` set (snd (claim_ids owner until ids (put_operation k (leased owner until x) j))) \<subseteq> set ids"
      using Cons.prems Some by (intro Cons.IH) (auto simp: map_laws leased_def split: if_splits)
    with Some Cons.prems [OF Some] show ?thesis
      by (auto simp: Let_def case_prod_unfold leased_def)
  qed (use Cons in auto)
qed simp

lemma claim_reconcilable_move:
  "records_move (mj_operations j) (mj_operations (fst (claim_reconcilable owner stale until limit now j)))"
  by (auto simp: claim_reconcilable_def Let_def case_prod_unfold records_move_def claim_ids_get
      split: option.splits if_splits)

lemma operation_moves:
  "records_move (mj_operations j) (mj_operations (fst (set_open i u clock j)))"
  "records_move (mj_operations j)
     (mj_operations (fst (compare_and_set_client_multipart_upload_reference i e n clock j)))"
  "records_move (mj_operations j) (mj_operations (fst (set_expected i x clock j)))"
  "records_move (mj_operations j) (mj_operations (fst (transition i a b m clock j)))"
  "records_move (mj_operations j) (mj_operations (fst (record_mutation_launch i t clock j)))"
  "records_move (mj_operations j) (mj_operations (fst (confirm_exact_absence i t sep clock j)))"
  by (auto simp: set_open_def compare_and_set_client_multipart_upload_reference_def set_expected_def
        transition_def record_mutation_launch_def confirm_exact_absence_def record_step_def record_ok_def
        operation_is_terminal_def window_grows_def
      split: option.splits intro!: records_move_update)

lemma insert_intent_move:
  "fresh_intent (InsertIntent r) j \<Longrightarrow>
     records_move (mj_operations j) (mj_operations (fst (insert_intent r j)))"
  by (auto simp: insert_intent_def record_ok_def intro!: records_move_new)

lemma journal_run_move:
  "fresh_intent op j \<Longrightarrow> records_move (mj_operations j) (mj_operations (journal_run op j))"
proof (cases op)
  case (RetireTerminal i e m)
  then show ?thesis
    by (auto simp: retire_terminal_def records_move_remove split: option.split)
qed (auto simp: operation_moves claim_reconcilable_move insert_intent_move record_part_def
      append_evidence_def claim_reconcilable_operation_def split: option.splits
      intro!: records_move_update)

lemma journal_run_wf:
  "hm_wf (mj_operations j) \<Longrightarrow> hm_wf (mj_operations (journal_run op j))"
  "hm_wf (mj_parts j) \<Longrightarrow> hm_wf (mj_parts (journal_run op j))"
  by (cases op;
    auto simp: insert_intent_def set_open_def compare_and_set_client_multipart_upload_reference_def
      set_expected_def transition_def record_part_def append_evidence_def record_mutation_launch_def
      confirm_exact_absence_def claim_reconcilable_def claim_reconcilable_operation_def
      retire_terminal_def Let_def case_prod_unfold split: option.splits)+

lemma journal_run_inv:
  assumes "journal_inv j" "fresh_intent op j" shows "journal_inv (journal_run op j)"
proof -
  have "or_id r = i \<and> record_ok r" if "hm_get (mj_operations (journal_run op j)) i = Some r" for i r
    using that journal_run_move [OF assms(2)] assms(1)
    by (cases "hm_get (mj_operations j) i") (auto simp: records_move_def journal_inv_def record_step_def)
  then show ?thesis using assms(1) journal_run_wf by (simp add: journal_inv_def)
qed

interpretation mjr: operation_machine journal_moves journal_inv "journal_record i" for i
proof
  fix j j' r r'
  show "journal_inv j'" if "journal_inv j" "journal_moves j j'"
    using that journal_run_inv by (auto simp: journal_moves_def)
  show "record_ok r" if "journal_inv j" "journal_record i j = Some r"
    using that by (simp add: journal_inv_def journal_record_def)
  show "record_step r r'" if "journal_inv j" "journal_moves j j'" "journal_record i j = Some r"
    "journal_record i j' = Some r'"
    using that journal_run_move by (auto simp: journal_moves_def records_move_def journal_record_def)
qed

lemma journal_inv_new: "journal_inv memory_journal_new"
  by (simp add: journal_inv_def memory_journal_new_def)

lemma confirm_exact_absence_True:
  assumes "confirm_exact_absence i seen sep clock j = (j', Inr True)"
  shows "\<exists>r first. hm_get (mj_operations j) i = Some r
    \<and> or_exact_absence_observed_at_ms r = Some first \<and> i64_saturating_sub seen first \<ge> sep"
  using assms by (auto simp: confirm_exact_absence_def split: option.splits if_splits)

lemma saturated_difference: "i64_saturating_sub a b \<ge> sep \<Longrightarrow> 0 \<le> sep \<Longrightarrow> b + sep \<le> a"
  by (auto simp: i64_saturating_sub_def i64_min_def max_def min_def split: if_splits)

section \<open>Properties\<close>

text \<open>
  Over every run of the in-memory journal an operation keeps its id,
  destination, tenant, epoch and creation time, its state follows the operation
  state machine, the expected output is frozen once the operation is completing,
  a terminal state is never left, and committed metadata, present exactly on
  committed operations, never changes.
\<close>

theorem journal_run_follows_machine:
  assumes "(\<lambda>s s'. journal_moves s s' \<and> journal_record i s' \<noteq> None)\<^sup>*\<^sup>* j t"
    and "journal_inv j" "journal_record i j = Some r" "journal_record i t = Some r'"
  shows "record_progress r r' \<and> (or_committed r' \<noteq> None \<longleftrightarrow> or_state r' = Committed)"
proof -
  have "journal_inv t" by (rule mjr.run_inv [OF assms(1,2)])
  then have "record_ok r'" using assms(4) by (rule mjr.inv_record)
  with mjr.run_progress [OF assms] show ?thesis by (simp add: record_ok_def)
qed

definition ex_intent :: operation_record where
  "ex_intent = operation_intent 7 10
     \<lparr>od_backend_id = ''b'', od_bucket = ''c'', od_logical_key = ''k'', od_physical_key = ''p'',
      od_workspace_binding = None\<rparr>
     \<lparr>eo_digest = None, eo_size = None, eo_metadata = []\<rparr>"

definition ex_journal :: memory_journal where
  "ex_journal = journal_run (InsertIntent ex_intent) memory_journal_new"

lemma ex_journal_record: "journal_record 7 ex_journal = Some ex_intent"
  by code_simp

lemma ex_journal_inv: "journal_inv ex_journal"
  unfolding ex_journal_def
  by (rule journal_run_inv [OF journal_inv_new])
    (simp add: memory_journal_new_def ex_intent_def operation_intent_def)

theorem journal_run_follows_machine_witness:
  "\<exists>r'. journal_record 7 (journal_run (SetOpen 7 None 11) ex_journal) = Some r'
     \<and> or_state r' = Open \<and> record_progress ex_intent r'"
proof -
  let ?t = "journal_run (SetOpen 7 None 11) ex_journal"
  have r': "journal_record 7 ?t = Some (ex_intent\<lparr>or_state := Open, or_updated_at_ms := 11\<rparr>)" by code_simp
  have "journal_moves ex_journal ?t"
    unfolding journal_moves_def by (rule exI [of _ "SetOpen 7 None 11"]) simp
  then have "(\<lambda>s s'. journal_moves s s' \<and> journal_record 7 s' \<noteq> None)\<^sup>*\<^sup>* ex_journal ?t"
    using r' by (intro r_into_rtranclp) simp
  from journal_run_follows_machine [OF this ex_journal_inv ex_journal_record r'] r' show ?thesis by simp
qed





text \<open>
  A recorded part result is immutable: recording the same result again
  succeeds, a different one is a conflict, and no operation other than the
  retirement of its operation changes it.
\<close>

theorem recorded_part_is_immutable:
  assumes "journal_inv j" "hm_get (mj_parts j) (pr_operation_id p, pr_part_number p) = Some p"
    and "\<And>e m. op \<noteq> RetireTerminal (pr_operation_id p) e m"
  shows "hm_get (mj_parts (journal_run op j)) (pr_operation_id p, pr_part_number p) = Some p
    \<and> (pr_operation_id q = pr_operation_id p \<longrightarrow> pr_part_number q = pr_part_number p \<longrightarrow>
         record_part q j = (j, if same_part_result p q then Inr ()
                               else Inl (Conflict ''part retry body or result changed'')))"
proof -
  have "hm_get (mj_parts (journal_run op j)) (pr_operation_id p, pr_part_number p) = Some p"
  proof (cases op)
    case (RetireTerminal i e m)
    with assms(3) have "i \<noteq> pr_operation_id p" by blast
    with RetireTerminal assms(1,2) show ?thesis
      by (auto simp: retire_terminal_def journal_inv_def map_laws split: option.splits)
  qed (use assms(2) in \<open>auto simp: insert_intent_def set_open_def
      compare_and_set_client_multipart_upload_reference_def set_expected_def transition_def record_part_def
      append_evidence_def record_mutation_launch_def confirm_exact_absence_def claim_reconcilable_def
      claim_reconcilable_operation_def Let_def case_prod_unfold map_laws split: option.splits\<close>)
  with assms(2) show ?thesis by (simp add: record_part_def)
qed

definition ex_part_record :: part_record where
  "ex_part_record = \<lparr>pr_operation_id = 7, pr_part_number = 1, pr_etag = ''e'', pr_size_bytes = 5,
     pr_digest = ''d'', pr_created_at_ms = 12\<rparr>"

theorem recorded_part_is_immutable_witness:
  "record_part (ex_part_record\<lparr>pr_etag := ''x''\<rparr>) (journal_run (RecordPart ex_part_record) ex_journal)
     = (journal_run (RecordPart ex_part_record) ex_journal, Inl (Conflict ''part retry body or result changed''))"
proof -
  let ?j = "journal_run (RecordPart ex_part_record) ex_journal"
  have "journal_inv ?j" by (rule journal_run_inv [OF ex_journal_inv]) simp
  moreover have "hm_get (mj_parts ?j) (pr_operation_id ex_part_record, pr_part_number ex_part_record) = Some ex_part_record"
    by code_simp
  ultimately show ?thesis
    using recorded_part_is_immutable [of ?j ex_part_record "SetOpen 7 None 13" "ex_part_record\<lparr>pr_etag := ''x''\<rparr>"]
    by (simp add: ex_part_record_def same_part_result_def)
qed

text \<open>
  Inserting an intent under an id that is taken reports a conflict, but the
  stored record has been replaced, whatever state it was in: a committed operation
  is an intent again.
\<close>

theorem duplicate_intent_overwrites:
  assumes "hm_get (mj_operations j) (or_id r) = Some old" "or_state r = Intent"
  shows "\<exists>j'. insert_intent r j = (j', Inl (Conflict ''duplicate operation id''))
    \<and> hm_get (mj_operations j') (or_id r) = Some r"
  using assms by (simp add: insert_intent_def Let_def map_laws)

theorem duplicate_intent_overwrites_witness:
  "snd (insert_intent (ex_intent\<lparr>or_created_at_ms := 99\<rparr>) ex_journal) = Inl (Conflict ''duplicate operation id'')"
proof -
  have "hm_get (mj_operations ex_journal) (or_id (ex_intent\<lparr>or_created_at_ms := 99\<rparr>)) = Some ex_intent"
    "or_state (ex_intent\<lparr>or_created_at_ms := 99\<rparr>) = Intent" by code_simp+
  from duplicate_intent_overwrites [OF this] show ?thesis by auto
qed

end
