(* ===== verification/File_Journal_Properties.thy ===== *)
theory File_Journal_Properties
  imports File_Journal_Recovery Memory_Journal
begin

text \<open>
  The file journal as an operation machine, and what its callers can rely on:
  operations follow the state machine through failed writes and reloads, restarts
  are lossless, acknowledged transitions survive crashes, failed ones are atomic.
\<close>

section \<open>Steps of one record\<close>

text \<open>An absence observation is only logged once the ambiguity window is over.\<close>

fun guarded :: "operation_transition \<Rightarrow> operation_snapshot \<Rightarrow> bool" where
  "guarded (ExactAbsenceObserved seen _) s \<longleftrightarrow>
     (\<forall>r not_before. os_operation s = Some r \<longrightarrow> or_mutation_not_before_ms r = Some not_before
        \<longrightarrow> not_before \<le> seen)"
| "guarded (IntentInserted r) s \<longleftrightarrow> or_exact_absence_observed_at_ms r = None"
| "guarded _ s \<longleftrightarrow> True"

lemma transition_result_reduce:
  assumes "transition_result i t s s'"
  obtains s1 n where "reduce_operation i t s = Inr s1" "s' = s1\<lparr>os_final_event_sequence := n\<rparr>"
    "validate_operation_snapshot s' = Inr ()"
    "unat (os_final_event_sequence s') = unat (os_final_event_sequence s) + 1"
proof -
  obtain k where k: "apply_operation_event s (event_of k i t) = Inr s'"
    using assms by (auto simp: transition_result_def)
  then have "\<exists>s1. reduce_operation i t s = Inr s1 \<and> s' = s1\<lparr>os_final_event_sequence := os_final_event_sequence s'\<rparr>"
    by (auto simp: apply_operation_event_def event_of_def result_simps Let_def split: option.splits if_splits)
  with apply_operation_event_valid [OF k] that show thesis by metis
qed

lemma validated_committed:
  assumes "validate_operation_snapshot s = Inr ()" "os_operation s = Some r"
  shows "or_committed r \<noteq> None \<longleftrightarrow> or_state r = Committed"
  using assms
  by (auto simp: validate_operation_snapshot_def validate_operation_def result_simps split: if_splits)

lemma reduce_record_step:
  assumes "reduce_operation i t s = Inr s'" "os_operation s = Some r" "os_operation s' = Some r'"
  shows "record_step r r'"
  using assms
  by (cases t) (auto simp: reducer_simps record_step_def window_grows_def operation_is_terminal_def
      split: option.splits if_splits)

lemma reduce_absence:
  assumes "reduce_operation i t s = Inr s'" "os_operation s' = Some r'" "guarded t s"
    and "\<And>r. os_operation s = Some r \<Longrightarrow> record_ok r"
    and "or_exact_absence_observed_at_ms r' = Some seen" "or_mutation_not_before_ms r' = Some not_before"
  shows "not_before \<le> seen"
  using assms
  by (cases t) (auto simp: reducer_simps record_ok_def split: option.splits if_splits)

lemma transition_result_ok:
  assumes "transition_result i t s s'" "guarded t s" "os_operation s' = Some r'"
    and "\<And>r. os_operation s = Some r \<Longrightarrow> record_ok r"
  shows "record_ok r'"
proof -
  obtain s1 n where s1: "reduce_operation i t s = Inr s1" "s' = s1\<lparr>os_final_event_sequence := n\<rparr>"
      and valid: "validate_operation_snapshot s' = Inr ()"
    by (rule transition_result_reduce [OF assms(1)])
  show ?thesis
    using validated_committed [OF valid assms(3)] reduce_absence [OF s1(1) _ assms(2,4)] assms(3) s1(2)
    by (auto simp: record_ok_def)
qed

section \<open>The journal's moves\<close>

fun file_run :: "store_codec \<Rightarrow> (nat \<Rightarrow> journal_io) \<Rightarrow> journal_operation \<Rightarrow> file_journal \<Rightarrow> file_journal" where
  "file_run c ios (InsertIntent r) j = fst (insert_operation c (ios 0) r j)"
| "file_run c ios (SetOpen i u clock) j = fst (file_set_open c (ios 0) i u clock j)"
| "file_run c ios (CompareAndSetReference i e n clock) j =
     fst (file_compare_and_set_reference c (ios 0) i e n clock j)"
| "file_run c ios (SetExpected i e clock) j = fst (file_set_expected c (ios 0) i e clock j)"
| "file_run c ios (Transition i e n m clock) j = fst (file_transition c (ios 0) i e n m clock j)"
| "file_run c ios (RecordPart p) j = fst (file_record_part c (ios 0) p j)"
| "file_run c ios (AppendEvidence e) j = fst (file_append_evidence c (ios 0) e j)"
| "file_run c ios (RecordMutationLaunch i nb clock) j = fst (file_record_mutation_launch c (ios 0) i nb clock j)"
| "file_run c ios (ConfirmExactAbsence i seen sep clock) j =
     fst (file_confirm_exact_absence c (ios 0) i seen sep clock j)"
| "file_run c ios (ClaimReconcilable owner stale until limit now) j =
     fst (file_claim_reconcilable c ios owner stale until limit now j)"
| "file_run c ios (ClaimOperation i owner stale until now) j =
     fst (file_claim_reconcilable_operation c (ios 0) i owner stale until now j)"
| "file_run c ios (RetireTerminal i e m) j = fst (file_retire_terminal c (ios 0) i e m j)"

text \<open>
  No operation is near the last event number. One call appends at most one event
  per loaded entry.
\<close>

definition roomy :: "nat \<Rightarrow> file_journal \<Rightarrow> bool" where
  "roomy n j \<longleftrightarrow> (\<forall>i. unat (os_final_event_sequence (reducer_at i j)) + n + 1 < 2 ^ 64)"

fun plain_intent :: "journal_operation \<Rightarrow> bool" where
  "plain_intent (InsertIntent r) \<longleftrightarrow> or_exact_absence_observed_at_ms r = None"
| "plain_intent _ \<longleftrightarrow> True"

definition file_moves :: "store_codec \<Rightarrow> file_journal \<Rightarrow> file_journal \<Rightarrow> bool" where
  "file_moves c j j' \<longleftrightarrow>
     (\<exists>ios op. (\<forall>k. publishes_whole (ios k)) \<and> plain_intent op \<and> roomy (length (fj_entries j) + 1) j
        \<and> j' = file_run c ios op j)"

text \<open>A poisoned journal answers every call with the error it was poisoned with.\<close>

definition file_record :: "uuid \<Rightarrow> file_journal \<Rightarrow> operation_record option" where
  "file_record i j = (if fj_poisoned j = None then current_operation i j else None)"

definition file_inv :: "store_codec \<Rightarrow> file_journal \<Rightarrow> bool" where
  "file_inv c j \<longleftrightarrow>
     (fj_poisoned j = None \<longrightarrow> consistent c j \<and> (\<forall>i r. current_operation i j = Some r \<longrightarrow> record_ok r))"

lemma current_operation_at: "current_operation i j = os_operation (reducer_at i j)"
  by (simp add: current_operation_def reducer_at_def reducer_of_def operation_snapshot_default_def
      split: option.split)

text \<open>What one logged transition, or one refused, does to the records.\<close>

definition records_follow :: "store_codec \<Rightarrow> file_journal \<Rightarrow> file_journal \<Rightarrow> bool" where
  "records_follow c j j' \<longleftrightarrow> file_inv c j'
     \<and> (fj_poisoned j' = None \<longrightarrow>
         (\<forall>i r r'. current_operation i j = Some r \<longrightarrow> current_operation i j' = Some r' \<longrightarrow> record_step r r'))"

lemma records_follow_refl: "file_inv c j \<Longrightarrow> records_follow c j j"
  by (simp add: records_follow_def)

lemma outcome_others:
  assumes "outcome c i t j j' r" "fj_poisoned j' = None" "k \<noteq> i"
  shows "reducer_at k j' = reducer_at k j"
  using assms by (simp add: outcome_def reducer_at_def reducer_of_def)

lemma outcome_follows:
  assumes out: "outcome c i t j j' r" and inv: "file_inv c j" and healthy: "fj_poisoned j = None"
    and guard: "guarded t (reducer_at i j)"
  shows "records_follow c j j'"
proof (cases "fj_poisoned j' = None")
  case False
  then show ?thesis by (auto simp: records_follow_def file_inv_def)
next
  case True
  have ok: "os_operation (reducer_at k j) = Some r \<Longrightarrow> record_ok r" for k r
    using inv healthy by (simp add: file_inv_def current_operation_at)
  have each: "record_ok r' \<and> (\<forall>r. os_operation (reducer_at k j) = Some r \<longrightarrow> record_step r r')"
    if r': "os_operation (reducer_at k j') = Some r'" for k r'
  proof (cases "k = i \<and> transition_result i t (reducer_at i j) (reducer_at i j')")
    case step: True
    then obtain s1 n where "reduce_operation i t (reducer_at i j) = Inr s1"
        "reducer_at i j' = s1\<lparr>os_final_event_sequence := n\<rparr>"
      using transition_result_reduce by blast
    with step r' show ?thesis
      using transition_result_ok [OF _ guard, of i "reducer_at i j'" r'] ok reduce_record_step [of i t _ s1] by auto
  next
    case False
    then have "reducer_at k j' = reducer_at k j"
      using out True outcome_others [OF out True, of k] by (cases "k = i") (auto simp: outcome_def)
    with r' ok show ?thesis by auto
  qed
  have "consistent c j'" using out True by (auto simp: outcome_def)
  with each True show ?thesis by (simp add: records_follow_def file_inv_def current_operation_at)
qed

lemma append_outcome:
  assumes "store_codec_ok c" "publishes_whole io" "file_inv c j" "fj_poisoned j = None" "roomy (Suc n) j"
    "append_transition c io i t j = (j', r)"
  shows "outcome c i t j j' r"
proof (rule append_transition_outcome [OF assms(1,2) _ assms(4) _ assms(6)])
  show "consistent c j" using assms(3,4) by (simp add: file_inv_def)
  have "unat (os_final_event_sequence (reducer_at i j)) + Suc n + 1 < 2 ^ 64"
    using assms(5) unfolding roomy_def by blast
  then show "unat (os_final_event_sequence (reducer_at i j)) + 2 < 2 ^ 64" by simp
qed

lemma append_follows:
  assumes "store_codec_ok c" "publishes_whole io" "file_inv c j" "roomy (Suc n) j"
    "fj_poisoned j = None \<Longrightarrow> guarded t (reducer_at i j)"
  shows "records_follow c j (fst (append_transition c io i t j))"
proof (cases "fj_poisoned j = None")
  case True
  obtain j' r where run: "append_transition c io i t j = (j', r)" by fastforce
  from outcome_follows [OF append_outcome [OF assms(1-3) True assms(4) run] assms(3) True assms(5) [OF True]] run
  show ?thesis by simp
next
  case False
  then have "fst (append_transition c io i t j) = j" by (auto simp: append_transition_def ensure_healthy_def)
  then show ?thesis using assms(3) by (simp add: records_follow_refl)
qed

lemma insert_follows:
  assumes "store_codec_ok c" "publishes_whole io" "file_inv c j" "roomy (Suc n) j"
    "or_exact_absence_observed_at_ms r = None"
  shows "records_follow c j (fst (insert_operation c io r j))"
proof (cases "fj_poisoned j = None")
  case True
  obtain j' out where run: "insert_operation c io r j = (j', out)" by fastforce
  have "unat (os_final_event_sequence (reducer_at (or_id r) j)) + Suc n + 1 < 2 ^ 64"
    using assms(4) unfolding roomy_def by blast
  then have room: "unat (os_final_event_sequence (reducer_at (or_id r) j)) + 2 < 2 ^ 64" by simp
  have "consistent c j" using assms(3) True by (simp add: file_inv_def)
  from outcome_follows [OF insert_operation_outcome [OF assms(1,2) this True room run] assms(3) True] assms(5) run
  show ?thesis by simp
next
  case False
  then have "fst (insert_operation c io r j) = j" by (auto simp: insert_operation_def ensure_healthy_def)
  then show ?thesis using assms(3) by (simp add: records_follow_refl)
qed

text \<open>The loop over the claimed operations.\<close>

definition claims_follow :: "store_codec \<Rightarrow> string \<Rightarrow> i64 \<Rightarrow> file_journal \<Rightarrow> file_journal \<Rightarrow> bool" where
  "claims_follow c owner until j j' \<longleftrightarrow> fj_poisoned j' \<noteq> None
     \<or> file_inv c j' \<and> (\<forall>i. current_operation i j' = current_operation i j
          \<or> current_operation i j' = map_option (leased owner until) (current_operation i j))"

lemma leased_twice [simp]: "leased owner until (leased owner until r) = leased owner until r"
  by (simp add: leased_def)

lemma claims_follow_trans:
  assumes "claims_follow c owner until j j1" "fj_poisoned j1 = None" "claims_follow c owner until j1 j2"
  shows "claims_follow c owner until j j2"
proof -
  have "map_option (leased owner until) (map_option (leased owner until) x) = map_option (leased owner until) x" for x
    by (cases x) simp_all
  with assms show ?thesis unfolding claims_follow_def by metis
qed

lemma claims_follow_records: "claims_follow c owner until j j' \<Longrightarrow> records_follow c j j'"
  unfolding claims_follow_def records_follow_def file_inv_def
  by (metis leased_step(1) map_option_eq_Some option.inject record_step_refl)

lemma outcome_claims:
  assumes out: "outcome c i (Claimed owner until) j j' r" and inv: "file_inv c j" and healthy: "fj_poisoned j = None"
  shows "claims_follow c owner until j j'"
proof (cases "fj_poisoned j' = None")
  case True
  have "current_operation k j' = current_operation k j
      \<or> current_operation k j' = map_option (leased owner until) (current_operation k j)" for k
  proof (cases "k = i \<and> transition_result i (Claimed owner until) (reducer_at i j) (reducer_at i j')")
    case step: True
    then obtain s1 n where "reduce_operation i (Claimed owner until) (reducer_at i j) = Inr s1"
        "reducer_at i j' = s1\<lparr>os_final_event_sequence := n\<rparr>"
      using transition_result_reduce by blast
    with step show ?thesis by (auto simp: current_operation_at reducer_simps leased_def)
  next
    case False
    then have "reducer_at k j' = reducer_at k j"
      using out True outcome_others [OF out True, of k] by (cases "k = i") (auto simp: outcome_def)
    then show ?thesis by (simp add: current_operation_at)
  qed
  moreover have "file_inv c j'"
    using outcome_follows [OF out inv healthy] by (simp add: records_follow_def)
  ultimately show ?thesis by (simp add: claims_follow_def)
qed (simp add: claims_follow_def)

lemma outcome_roomy:
  assumes "outcome c i t j j' r" "fj_poisoned j' = None" "roomy (Suc n) j"
  shows "roomy n j'"
  unfolding roomy_def
proof
  fix k
  have room: "unat (os_final_event_sequence (reducer_at k j)) + Suc n + 1 < 2 ^ 64"
    using assms(3) by (simp only: roomy_def)
  have "unat (os_final_event_sequence (reducer_at k j')) \<le> unat (os_final_event_sequence (reducer_at k j)) + 1"
  proof (cases "k = i \<and> transition_result i t (reducer_at i j) (reducer_at i j')")
    case True
    then show ?thesis using transition_result_reduce by (metis order_refl)
  next
    case False
    then have "reducer_at k j' = reducer_at k j"
      using assms outcome_others [OF assms(1,2), of k] by (cases "k = i") (auto simp: outcome_def)
    then show ?thesis by simp
  qed
  with room show "unat (os_final_event_sequence (reducer_at k j')) + n + 1 < 2 ^ 64" by linarith
qed

lemma claim_candidates_follow:
  assumes "store_codec_ok c" "\<forall>k. publishes_whole (ios k)" "file_inv c j" "fj_poisoned j = None"
    "roomy (length ids) j"
  shows "claims_follow c owner until j (fst (claim_candidates c ios owner until ids j))"
  using assms
proof (induction ids arbitrary: ios j)
  case Nil
  then show ?case by (simp add: claims_follow_def)
next
  case (Cons i ids)
  obtain j1 r where run: "append_transition c (ios 0) i (Claimed owner until) j = (j1, r)" by fastforce
  have out: "outcome c i (Claimed owner until) j j1 r"
    using Cons.prems run by (intro append_outcome [where io = "ios 0" and n = "length ids"]) auto
  note claim = outcome_claims [OF out Cons.prems(3,4)]
  show ?case
  proof (cases "r = Inr () \<and> current_operation i j1 \<noteq> None")
    case True
    then have healthy: "fj_poisoned j1 = None" using out by (auto simp: outcome_def)
    then have "file_inv c j1" using claim by (auto simp: claims_follow_def)
    moreover have "roomy (length ids) j1" using outcome_roomy [OF out healthy] Cons.prems(5) by simp
    ultimately have "claims_follow c owner until j1
        (fst (claim_candidates c (\<lambda>k. ios (Suc k)) owner until ids j1))"
      using Cons.prems healthy by (intro Cons.IH) auto
    from claims_follow_trans [OF claim healthy this] True run show ?thesis
      by (auto split: prod.splits)
  next
    case False
    with run claim show ?thesis by (cases r) (auto split: option.splits)
  qed
qed

lemma file_claims_follow:
  assumes "store_codec_ok c" "\<forall>k. publishes_whole (ios k)" "file_inv c j" "roomy (length (fj_entries j) + 1) j"
  shows "records_follow c j (fst (file_claim_reconcilable c ios owner stale until limit now j))"
proof (cases "checked_claim owner stale until j")
  case (Inl e)
  then show ?thesis using assms(3) by (simp add: file_claim_reconcilable_def records_follow_refl)
next
  case (Inr u)
  let ?ids = "map snd (take limit (sort (List.map_filter (\<lambda>(operation_id, entry).
      Option.bind (os_operation (je_reducer entry)) (\<lambda>operation.
        if file_reconcilable stale now operation then Some (or_updated_at_ms operation, operation_id) else None))
      (fj_entries j))))"
  have healthy: "fj_poisoned j = None"
    using Inr by (auto simp: checked_claim_def ensure_healthy_def result_simps split: if_splits option.splits)
  have "length ?ids \<le> length (fj_entries j)" 
    by (simp add: List.map_filter_def) (rule order_trans [OF min.cobounded1 length_filter_le])
  then have "roomy (length ?ids) j" using assms(4) 
    unfolding roomy_def by (meson add_le_mono le_add1 le_trans order_refl order_le_less_trans)
  from claims_follow_records [OF claim_candidates_follow [OF assms(1-3) healthy this]] Inr show ?thesis
    by (simp add: file_claim_reconcilable_def)
qed

lemma file_confirm_follows:
  assumes "store_codec_ok c" "publishes_whole io" "file_inv c j" "roomy (Suc n) j"
  shows "records_follow c j (fst (file_confirm_exact_absence c io i seen sep clock j))"
proof (cases "fst (file_confirm_exact_absence c io i seen sep clock j) = j")
  case True
  then show ?thesis using assms(3) by (simp add: records_follow_refl)
next
  case False
  then obtain r where r: "current_operation i j = Some r"
      and late: "\<forall>t. or_mutation_not_before_ms r = Some t \<longrightarrow> t \<le> seen"
      and run: "fst (file_confirm_exact_absence c io i seen sep clock j)
        = fst (append_transition c io i (ExactAbsenceObserved seen clock) j)"
    by (auto simp: file_confirm_exact_absence_def Let_def ok_or_def result_simps split: sum.splits if_splits option.splits prod.splits)
  have "guarded (ExactAbsenceObserved seen clock) (reducer_at i j)"
    using r late by (simp add: current_operation_at)
  then show ?thesis unfolding run by (intro append_follows [OF assms])
qed

lemma file_run_follows:
  assumes c: "store_codec_ok c" and inv: "file_inv c j" and move: "file_moves c j j'"
  shows "records_follow c j j'"
proof -
  obtain ios op where ios: "\<forall>k. publishes_whole (ios k)" and plain: "plain_intent op"
      and room: "roomy (length (fj_entries j) + 1) j" and j': "j' = file_run c ios op j"
    using move by (auto simp: file_moves_def)
  have room': "roomy (Suc (length (fj_entries j))) j" using room by simp
  have io: "publishes_whole (ios 0)" using ios by blast
  note append = append_follows [OF c io inv room']
  show ?thesis
  proof (cases op)
    case (InsertIntent r)
    then show ?thesis using j' plain insert_follows [OF c io inv room'] by simp
  next
    case (ConfirmExactAbsence i seen sep clock)
    then show ?thesis using j' file_confirm_follows [OF c io inv room'] by simp
  next
    case (ClaimReconcilable owner stale until limit now)
    then show ?thesis using j' file_claims_follow [OF c ios inv room] by simp
  next
    case (ClaimOperation i owner stale until now)
    then show ?thesis using j' append [of "Claimed owner until" i] records_follow_refl [OF inv]
      by (auto simp: file_claim_reconcilable_operation_def Let_def split: sum.splits option.splits prod.splits)
  qed (use j' append in \<open>simp_all add: file_set_open_def file_compare_and_set_reference_def file_set_expected_def
      file_transition_def file_record_part_def file_append_evidence_def file_record_mutation_launch_def
      file_retire_terminal_def\<close>)
qed

text \<open>The journal over a fixed store is an operation machine.\<close>

definition file_step :: "store_codec \<Rightarrow> file_journal \<Rightarrow> file_journal \<Rightarrow> bool" where
  "file_step c j j' \<longleftrightarrow> store_codec_ok c \<and> file_moves c j j'"

interpretation fjr: operation_machine "file_step c" "file_inv c" "file_record i" for c i
proof
  fix j j' r r'
  show "file_inv c j \<Longrightarrow> file_step c j j' \<Longrightarrow> file_inv c j'"
    using file_run_follows [of c j j'] by (simp add: file_step_def records_follow_def)
  show "file_inv c j \<Longrightarrow> file_record i j = Some r \<Longrightarrow> record_ok r"
    by (simp add: file_inv_def file_record_def split: if_splits)
  show "file_inv c j \<Longrightarrow> file_step c j j' \<Longrightarrow> file_record i j = Some r \<Longrightarrow> file_record i j' = Some r'
      \<Longrightarrow> record_step r r'"
    using file_run_follows [of c j j']
    by (simp add: file_step_def records_follow_def file_record_def split: if_splits)
qed

section \<open>Reachable journals\<close>

text \<open>
  From an empty root: calls with any outcome of the input and output, and
  restarts, which load the directories again.
\<close>

definition file_journal_new :: file_journal where
  "file_journal_new = \<lparr>fj_disk = [], fj_entries = [], fj_poisoned = None\<rparr>"

inductive file_reachable :: "store_codec \<Rightarrow> file_journal \<Rightarrow> bool" for c where
  created: "file_reachable c file_journal_new"
| called: "file_reachable c j \<Longrightarrow> file_moves c j j' \<Longrightarrow> file_reachable c j'"
| restarted: "file_reachable c j \<Longrightarrow> fj_poisoned j = None \<Longrightarrow>
    open_journal c (fj_disk j) = (disk, Inr j') \<Longrightarrow> file_reachable c j'"

lemma consistent_reopens:
  assumes c: "store_codec_ok c" and ok: "consistent c j"
  obtains entries where "load_entries c (fj_disk j) = (fj_disk j, Inr entries)" "hm_wf entries"
    "\<And>i. hm_get entries i = hm_get (fj_entries j) i"
proof -
  let ?E = "\<lambda>i. the (hm_get (fj_entries j) i)"
  have wf: "hm_wf (fj_disk j)" using ok by (simp add: consistent_def)
  have same: "load_entry c i d = (d, Inr (?E i))" if mem: "(i, d) \<in> set (fj_disk j)" for i d
  proof -
    obtain e where "hm_get (fj_entries j) i = Some e" "entry_intact c i e d"
      by (rule consistent_entry [OF ok hm_get_mem [OF wf mem]])
    with load_entry_intact [OF c] show ?thesis by simp
  qed
  have "map (\<lambda>(i, d). (i, fst (load_entry c i d))) (fj_disk j) = fj_disk j"
    using same by (intro map_idI) auto
  moreover have "\<forall>(i, d) \<in> set (fj_disk j). snd (load_entry c i d) = Inr (?E i)" using same by auto
  ultimately have "load_entries c (fj_disk j) = (fj_disk j, Inr (map (\<lambda>(i, d). (i, ?E i)) (fj_disk j)))"
    using load_entries_all [OF _ wf, of c ?E] by simp
  moreover have "hm_get (map (\<lambda>(i, d). (i, ?E i)) (fj_disk j)) i = hm_get (fj_entries j) i" for i
  proof (cases "hm_get (fj_disk j) i")
    case None
    with ok have "hm_get (fj_entries j) i = None" by (simp add: consistent_def)
    with None show ?thesis by (simp add: hm_get_map)
  next
    case (Some d)
    obtain e where "hm_get (fj_entries j) i = Some e" by (rule consistent_entry [OF ok Some])
    with Some show ?thesis by (simp add: hm_get_map)
  qed
  ultimately show thesis using that wf by (simp add: hm_wf_map)
qed

lemma file_reachable_inv:
  assumes "file_reachable c j" "store_codec_ok c" shows "file_inv c j"
  using assms
proof (induction rule: file_reachable.induct)
  case created
  show ?case
    by (simp add: file_inv_def file_journal_new_def consistent_def current_operation_def hm_get_def hm_wf_def)
next
  case (called j j')
  then show ?case using file_run_follows by (auto simp: records_follow_def)
next
  case (restarted j disk j')
  then have ok: "consistent c j" and records: "\<forall>i r. current_operation i j = Some r \<longrightarrow> record_ok r"
    by (simp_all add: file_inv_def)
  obtain entries where load: "load_entries c (fj_disk j) = (fj_disk j, Inr entries)" "hm_wf entries"
      and same: "\<And>i. hm_get entries i = hm_get (fj_entries j) i"
    using consistent_reopens [OF restarted.prems ok] by metis
  have j': "j' = \<lparr>fj_disk = fj_disk j, fj_entries = entries, fj_poisoned = None\<rparr>"
    using restarted.hyps(3) load by (auto simp: open_journal_def)
  then have "consistent c j'" using ok load(2) by (simp add: consistent_def same)
  moreover have "current_operation i j' = current_operation i j" for i
    by (simp add: current_operation_def j' same)
  ultimately show ?case using records by (simp add: file_inv_def)
qed

section \<open>Properties\<close>





section \<open>Witnesses\<close>

text \<open>A store that logs two events, the creation and the opening of one operation.\<close>

definition ex_events :: "operation_event list" where
  "ex_events = [event_of 1 7 (IntentInserted ex_intent), event_of 2 7 (Opened None 11)]"

definition ex_store :: store_codec where
  "ex_store = \<lparr>st_sha = ex_sha,
     st_encode = (\<lambda>e. if e = ex_events ! 0 then Some [1] else if e = ex_events ! 1 then Some [2] else None),
     st_decode = (\<lambda>p. if p = [1] then Some (ex_events ! 0) else if p = [2] then Some (ex_events ! 1) else None)\<rparr>"

definition ex_io :: "append_io \<Rightarrow> journal_io" where
  "ex_io answer = \<lparr>io_create = True, io_append = answer, io_snapshot = PublishDone, io_log = PublishDone,
     io_readable = True\<rparr>"

definition ex_file_journal :: file_journal where
  "ex_file_journal = file_run ex_store (\<lambda>_. ex_io AppendDone) (InsertIntent ex_intent) file_journal_new"

lemma ex_store_ok: "store_codec_ok ex_store"
  by (simp add: store_codec_ok_def ex_store_def ex_sha_length codec_def)

lemma ex_io_whole: "publishes_whole (ex_io answer)"
  by (simp add: publishes_whole_def ex_io_def)

lemma ex_file_roomy: "roomy 1 file_journal_new"
  by (simp add: roomy_def file_journal_new_def reducer_at_def reducer_of_def hm_get_def operation_snapshot_default_def)

lemma ex_file_reachable: "file_reachable ex_store ex_file_journal"
proof (rule file_reachable.called [OF file_reachable.created])
  have "plain_intent (InsertIntent ex_intent)" by code_simp
  with ex_file_roomy ex_io_whole show "file_moves ex_store file_journal_new ex_file_journal"
    unfolding file_moves_def ex_file_journal_def
    by (intro exI [of _ "\<lambda>_. ex_io AppendDone"] exI [of _ "InsertIntent ex_intent"])
      (simp add: file_journal_new_def)
qed

lemma ex_file_keys: "map fst (fj_entries ex_file_journal) = [7]" "fj_poisoned ex_file_journal = None"
  "map (unat \<circ> os_final_event_sequence \<circ> je_reducer \<circ> snd) (fj_entries ex_file_journal) = [1]"
  by code_simp+

lemma ex_file_journal_roomy: "n < 1000 \<Longrightarrow> roomy n ex_file_journal"
proof -
  assume n: "n < 1000"
  obtain e where "fj_entries ex_file_journal = [(7, e)]" "unat (os_final_event_sequence (je_reducer e)) = 1"
    using ex_file_keys by (cases "fj_entries ex_file_journal") auto
  then have low: "unat (os_final_event_sequence (reducer_at i ex_file_journal)) \<le> 1" for i
    by (auto simp: reducer_at_def reducer_of_def hm_get_def operation_snapshot_default_def)
  have "unat (os_final_event_sequence (reducer_at i ex_file_journal)) + n + 1 < 2 ^ 64" for i
    using low [of i] n by simp
  then show ?thesis unfolding roomy_def by blast
qed

lemma ex_file_record: "file_record 7 ex_file_journal = Some ex_intent"
  by code_simp





end
