(* ===== verification/Operation_Reconciler.thy ===== *)
theory Operation_Reconciler
  imports File_Journal_Properties
begin

text \<open>
  The reconciler of abandoned operations
  (\<open>OperationReconciler\<close> in \<open>crates/gateway/src/transaction/mod.rs\<close>). The journal
  and the destination backend are trait objects in the code; here they are records
  of operations on a state of their own, so the same definitions run over the
  in-memory journal, the file journal and any backend. The list \<open>w_calls\<close> is the
  history of backend calls with their answers.
\<close>

section \<open>Backends and errors\<close>

datatype backend_error_kind = Definitive | Ambiguous

record backend_error =
  be_kind :: backend_error_kind
  be_message :: string

record discovered_upload =
  du_upload_id :: string
  du_key :: string
  du_initiated_at_ms :: "i64 option"

datatype completion_probe =
    ProbeCommitted stored_object_meta
  | ProvenAbsent
  | ProvenAbsentExact
  | Inconclusive

datatype transaction_error =
    JournalFailed journal_error
  | BackendFailed backend_error
  | CapabilityMissing capability_error
  | Finished
  | CompletionAmbiguous
  | TooManyParts
  | Spool string
  | OutputMismatch
  | CapacityExceeded
  | Publication string
  | CommitAuthority string

text \<open>The methods of the two traits that the reconciler calls.\<close>

record 'j operation_journal =
  oj_claim_operation ::
    "uuid \<Rightarrow> string \<Rightarrow> i64 \<Rightarrow> i64 \<Rightarrow> 'j \<Rightarrow> 'j \<times> (journal_error + operation_record option)"
  oj_append_evidence :: "evidence_record \<Rightarrow> 'j \<Rightarrow> 'j \<times> (journal_error + unit)"
  oj_transition ::
    "uuid \<Rightarrow> operation_state \<Rightarrow> operation_state \<Rightarrow> stored_object_meta option \<Rightarrow> 'j
       \<Rightarrow> 'j \<times> (journal_error + unit)"
  oj_confirm_exact_absence :: "uuid \<Rightarrow> i64 \<Rightarrow> i64 \<Rightarrow> 'j \<Rightarrow> 'j \<times> (journal_error + bool)"

record 'b transaction_backend =
  tb_capabilities :: backend_capabilities
  tb_exact_version_recovery :: bool
  tb_abort_multipart :: "operation_record \<Rightarrow> string \<Rightarrow> 'b \<Rightarrow> 'b \<times> (backend_error + unit)"
  tb_discover_incomplete :: "operation_record \<Rightarrow> 'b \<Rightarrow> 'b \<times> (backend_error + discovered_upload list)"
  tb_delete_object_version :: "operation_record \<Rightarrow> string \<Rightarrow> 'b \<Rightarrow> 'b \<times> (backend_error + unit)"
  tb_probe_completion :: "operation_record \<Rightarrow> 'b \<Rightarrow> 'b \<times> (backend_error + completion_probe)"

datatype backend_call =
    AbortCall string "backend_error + unit"
  | DiscoverCall "backend_error + discovered_upload list"
  | DeleteCall string "backend_error + unit"
  | ProbeCall "backend_error + completion_probe"

record ('j, 'b) world =
  w_journal :: 'j
  w_backend :: 'b
  w_calls :: "backend_call list"

type_synonym ('j, 'b, 'a) tx = "('j, 'b) world \<Rightarrow> ('j, 'b) world \<times> (transaction_error + 'a)"

definition tx_return :: "'a \<Rightarrow> ('j, 'b, 'a) tx" where
  "tx_return x w = (w, Inr x)"

definition tx_then :: "('j, 'b, 'a) tx \<Rightarrow> ('a \<Rightarrow> ('j, 'b, 'c) tx) \<Rightarrow> ('j, 'b, 'c) tx" where
  "tx_then m f w = (case m w of (w, Inl e) \<Rightarrow> (w, Inl e) | (w, Inr x) \<Rightarrow> f x w)"

fun failed_with :: "('e \<Rightarrow> transaction_error) \<Rightarrow> 'e + 'a \<Rightarrow> transaction_error + 'a" where
  "failed_with f (Inl e) = Inl (f e)"
| "failed_with f (Inr x) = Inr x"

definition on_journal :: "('j \<Rightarrow> 'j \<times> (journal_error + 'a)) \<Rightarrow> ('j, 'b, 'a) tx" where
  "on_journal f w = (let (j, r) = f (w_journal w) in (w\<lparr>w_journal := j\<rparr>, failed_with JournalFailed r))"

definition on_backend ::
  "(backend_error + 'a \<Rightarrow> backend_call) \<Rightarrow> ('b \<Rightarrow> 'b \<times> (backend_error + 'a)) \<Rightarrow> ('j, 'b, 'a) tx" where
  "on_backend call f w =
     (let (b, r) = f (w_backend w)
      in (w\<lparr>w_backend := b, w_calls := w_calls w @ [call r]\<rparr>, failed_with BackendFailed r))"

section \<open>The reconciler\<close>

text \<open>
  \<open>rv_now\<close> and \<open>rv_observed_at\<close> are the readings of the clock, \<open>rv_evidence\<close> the
  identifier and time of the evidence of each kind; no run records a kind twice.
\<close>

record reconcile_env =
  rv_now :: i64
  rv_observed_at :: i64
  rv_evidence :: "string \<Rightarrow> uuid \<times> i64"

record ('j, 'b) operation_reconciler =
  rc_journal :: "'j operation_journal"
  rc_backend :: "'b transaction_backend"
  rc_owner :: string
  rc_lease :: nat
  rc_exact_absence_confirmation_delay :: nat

definition reconciler_new ::
  "'j operation_journal \<Rightarrow> 'b transaction_backend \<Rightarrow> string \<Rightarrow> capability_error + ('j, 'b) operation_reconciler" where
  "reconciler_new journal backend owner =
     and_then (streaming_eligibility (tb_capabilities backend)) (\<lambda>_.
     Inr \<lparr>rc_journal = journal, rc_backend = backend, rc_owner = owner, rc_lease = 30 * 1000,
          rc_exact_absence_confirmation_delay = EXACT_ABSENCE_CONFIRMATION_DELAY\<rparr>)"

definition duration_ms :: "nat \<Rightarrow> i64" where
  "duration_ms duration = min (int duration) i64_max"

definition json_option :: "string option \<Rightarrow> json" where
  "json_option value = (case value of None \<Rightarrow> JNull | Some s \<Rightarrow> JString s)"

definition evidence :: "('j, 'b) operation_reconciler \<Rightarrow> reconcile_env \<Rightarrow> uuid \<Rightarrow> string \<Rightarrow> json \<Rightarrow> ('j, 'b, unit) tx" where
  "evidence c env operation_id kind detail =
     on_journal (oj_append_evidence (rc_journal c)
       (evidence_new (fst (rv_evidence env kind)) (snd (rv_evidence env kind)) operation_id kind detail))"

definition change_state ::
  "('j, 'b) operation_reconciler \<Rightarrow> uuid \<Rightarrow> operation_state \<Rightarrow> operation_state \<Rightarrow> stored_object_meta option
     \<Rightarrow> ('j, 'b, unit) tx" where
  "change_state c operation_id expected new committed =
     on_journal (oj_transition (rc_journal c) operation_id expected new committed)"

definition abort_upload ::
  "('j, 'b) operation_reconciler \<Rightarrow> operation_record \<Rightarrow> string \<Rightarrow> ('j, 'b, unit) tx" where
  "abort_upload c operation upload_id =
     on_backend (AbortCall upload_id) (tb_abort_multipart (rc_backend c) operation upload_id)"

fun abort_all ::
  "('j, 'b) operation_reconciler \<Rightarrow> operation_record \<Rightarrow> discovered_upload list \<Rightarrow> ('j, 'b, unit) tx" where
  "abort_all c operation [] = tx_return ()"
| "abort_all c operation (upload # uploads) =
     tx_then (abort_upload c operation (du_upload_id upload)) (\<lambda>_. abort_all c operation uploads)"

definition abort_discovered :: "('j, 'b) operation_reconciler \<Rightarrow> operation_record \<Rightarrow> ('j, 'b, unit) tx" where
  "abort_discovered c operation =
     tx_then (on_backend DiscoverCall (tb_discover_incomplete (rc_backend c) operation)) (abort_all c operation)"

fun delete_superseded ::
  "('j, 'b) operation_reconciler \<Rightarrow> operation_record \<Rightarrow> string option \<Rightarrow> string list \<Rightarrow> ('j, 'b, unit) tx" where
  "delete_superseded c operation authoritative [] = tx_return ()"
| "delete_superseded c operation authoritative (version_id # versions) =
     (if authoritative = Some version_id
      then (\<lambda>w. (w, Inl (JournalFailed (Corrupt ''authoritative provider version was listed as redundant''))))
      else tx_then (on_backend (DeleteCall version_id)
                      (tb_delete_object_version (rc_backend c) operation version_id))
             (\<lambda>_. delete_superseded c operation authoritative versions))"

definition adopted_meta :: "('j, 'b) operation_reconciler \<Rightarrow> stored_object_meta \<Rightarrow> stored_object_meta" where
  "adopted_meta c meta =
     (if tb_exact_version_recovery (rc_backend c) then meta else meta\<lparr>om_version_history_complete := False\<rparr>)"

definition commit_found ::
  "('j, 'b) operation_reconciler \<Rightarrow> reconcile_env \<Rightarrow> operation_record \<Rightarrow> stored_object_meta \<Rightarrow> ('j, 'b, unit) tx" where
  "commit_found c env operation meta =
     (let meta = adopted_meta c meta
      in tx_then (delete_superseded c operation (om_version_id meta) (om_superseded_version_ids meta)) (\<lambda>_.
         tx_then (evidence c env (or_id operation)
             (if om_version_history_complete meta then ''provider_version_history_complete''
              else ''provider_version_history_ambiguous'')
             (JObject [(''reconciled'', JBool True),
                       (''superseded_version_ids'', JArray (map JString (om_superseded_version_ids meta))),
                       (''version_id'', json_option (om_version_id meta))])) (\<lambda>_.
         change_state c (or_id operation) CommitUnknown Committed (Some meta))))"

definition confirm_absence ::
  "('j, 'b) operation_reconciler \<Rightarrow> reconcile_env \<Rightarrow> operation_record \<Rightarrow> ('j, 'b, unit) tx" where
  "confirm_absence c env operation =
     tx_then (on_journal (oj_confirm_exact_absence (rc_journal c) (or_id operation) (rv_observed_at env)
                (duration_ms (rc_exact_absence_confirmation_delay c)))) (\<lambda>confirmed.
     if \<not> confirmed
     then evidence c env (or_id operation) ''completion_exact_absence_pending''
            (JObject [(''observed_at_ms'', JNumber (decimal_i64 (rv_observed_at env)))])
     else
       tx_then (abort_discovered c operation) (\<lambda>_.
       tx_then (evidence c env (or_id operation) ''completion_exactly_absent'' (JObject [])) (\<lambda>_.
       change_state c (or_id operation) CommitUnknown ProvenAborted None)))"

definition reconcile_unknown ::
  "('j, 'b) operation_reconciler \<Rightarrow> reconcile_env \<Rightarrow> operation_record \<Rightarrow> ('j, 'b, unit) tx" where
  "reconcile_unknown c env operation =
     tx_then (on_backend ProbeCall (tb_probe_completion (rc_backend c) operation)) (\<lambda>probe.
     case probe of
       ProbeCommitted meta \<Rightarrow> commit_found c env operation meta
     | ProvenAbsent \<Rightarrow> evidence c env (or_id operation) ''completion_absent_inconclusive'' (JObject [])
     | ProvenAbsentExact \<Rightarrow> confirm_absence c env operation
     | Inconclusive \<Rightarrow> tx_return ())"

definition finish_abort :: "('j, 'b) operation_reconciler \<Rightarrow> operation_record \<Rightarrow> ('j, 'b, unit) tx" where
  "finish_abort c operation =
     tx_then (abort_discovered c operation) (\<lambda>_. change_state c (or_id operation) Aborting ProvenAborted None)"

definition abort_known :: "('j, 'b) operation_reconciler \<Rightarrow> operation_record \<Rightarrow> ('j, 'b, unit) tx" where
  "abort_known c operation =
     (case or_upload_id operation of
        None \<Rightarrow> tx_return ()
      | Some upload_id \<Rightarrow> abort_upload c operation upload_id)"

definition reconcile ::
  "('j, 'b) operation_reconciler \<Rightarrow> reconcile_env \<Rightarrow> operation_record \<Rightarrow> ('j, 'b, unit) tx" where
  "reconcile c env operation =
     tx_then (evidence c env (or_id operation) ''reconcile_started''
        (JObject [(''owner'', JString (rc_owner c)), (''state'', JString (as_str (or_state operation)))])) (\<lambda>_.
     case or_state operation of
       Intent \<Rightarrow>
         tx_then (change_state c (or_id operation) Intent Aborting None) (\<lambda>_. finish_abort c operation)
     | Open \<Rightarrow>
         tx_then (change_state c (or_id operation) Open Aborting None) (\<lambda>_.
         tx_then (abort_known c operation) (\<lambda>_. finish_abort c operation))
     | Aborting \<Rightarrow> tx_then (abort_known c operation) (\<lambda>_. finish_abort c operation)
     | Completing \<Rightarrow>
         tx_then (change_state c (or_id operation) Completing CommitUnknown None) (\<lambda>_.
         reconcile_unknown c env operation)
     | CommitUnknown \<Rightarrow> reconcile_unknown c env operation
     | Committed \<Rightarrow> tx_return ()
     | ProvenAborted \<Rightarrow> tx_return ())"

definition reconcile_claimed ::
  "('j, 'b) operation_reconciler \<Rightarrow> reconcile_env \<Rightarrow> operation_record \<Rightarrow> ('j, 'b, unit) tx" where
  "reconcile_claimed c env operation =
     (if or_lease_owner operation \<noteq> Some (rc_owner c)
      then (\<lambda>w. (w, Inl (JournalFailed (Conflict ''reconciler does not own the claimed operation''))))
      else reconcile c env operation)"

definition reconcile_operation ::
  "('j, 'b) operation_reconciler \<Rightarrow> reconcile_env \<Rightarrow> uuid \<Rightarrow> nat \<Rightarrow> ('j, 'b, bool) tx" where
  "reconcile_operation c env operation_id stale_after =
     tx_then (on_journal (oj_claim_operation (rc_journal c) operation_id (rc_owner c)
         (i64_saturating_sub (rv_now env) (duration_ms stale_after))
         (i64_saturating_add (rv_now env) (duration_ms (rc_lease c))))) (\<lambda>claimed.
     case claimed of
       None \<Rightarrow> tx_return False
     | Some operation \<Rightarrow> tx_then (reconcile c env operation) (\<lambda>_. tx_return True))"

end
