(* ===== verification/Reconciler_Contracts.thy ===== *)
theory Reconciler_Contracts
  imports Operation_Reconciler
begin

text \<open>
  Postconditions for the reconciler's steps, and the contract of the journal it
  runs over. The locale proves, once for every journal that keeps the contract,
  what a reconciliation may conclude from the destination's answers.
\<close>

section \<open>Postconditions\<close>

text \<open>\<open>tx_post m w Q E\<close>: from \<open>w\<close>, a normal end satisfies \<open>Q\<close> and an early return \<open>E\<close>.\<close>

definition tx_post ::
  "('j, 'b, 'a) tx \<Rightarrow> ('j, 'b) world \<Rightarrow> ('a \<Rightarrow> ('j, 'b) world \<Rightarrow> bool) \<Rightarrow> (('j, 'b) world \<Rightarrow> bool) \<Rightarrow> bool" where
  "tx_post m w Q E \<longleftrightarrow> (case m w of (w', Inl e) \<Rightarrow> E w' | (w', Inr x) \<Rightarrow> Q x w')"

named_theorems tx_rules \<open>rules for the postconditions of reconciler steps\<close>

lemma tx_post_return [tx_rules]: "Q x w \<Longrightarrow> tx_post (tx_return x) w Q E"
  by (simp add: tx_post_def tx_return_def)

lemma tx_post_then [tx_rules]:
  "tx_post m w (\<lambda>x w'. tx_post (f x) w' Q E) E \<Longrightarrow> tx_post (tx_then m f) w Q E"
  by (auto simp: tx_post_def tx_then_def split: prod.splits sum.splits)

lemma tx_post_weaken:
  assumes "tx_post m w Q E" "\<And>x w'. Q x w' \<Longrightarrow> Q' x w'" "\<And>w'. E w' \<Longrightarrow> E' w'"
  shows "tx_post m w Q' E'"
  using assms by (auto simp: tx_post_def split: prod.splits sum.splits)

lemma tx_post_on_journal:
  assumes "\<And>j r. f (w_journal w) = (j, r) \<Longrightarrow>
    (\<forall>x. r = Inr x \<longrightarrow> Q x (w\<lparr>w_journal := j\<rparr>)) \<and> (\<forall>e. r = Inl e \<longrightarrow> E (w\<lparr>w_journal := j\<rparr>))"
  shows "tx_post (on_journal f) w Q E"
proof (cases "f (w_journal w)")
  case (Pair j r)
  with assms [OF Pair] show ?thesis by (cases r) (simp_all add: tx_post_def on_journal_def)
qed

lemma tx_post_on_backend:
  assumes "\<And>b r. f (w_backend w) = (b, r) \<Longrightarrow>
    (\<forall>x. r = Inr x \<longrightarrow> Q x (w\<lparr>w_backend := b, w_calls := w_calls w @ [call r]\<rparr>))
    \<and> (\<forall>e. r = Inl e \<longrightarrow> E (w\<lparr>w_backend := b, w_calls := w_calls w @ [call r]\<rparr>))"
  shows "tx_post (on_backend call f) w Q E"
proof (cases "f (w_backend w)")
  case (Pair b r)
  with assms [OF Pair] show ?thesis by (cases r) (simp_all add: tx_post_def on_backend_def)
qed

text \<open>A backend step leaves the journal alone and only adds to the history.\<close>

definition quiet :: "('j, 'b) world \<Rightarrow> ('j, 'b) world \<Rightarrow> bool" where
  "quiet w w' \<longleftrightarrow> w_journal w' = w_journal w \<and> set (w_calls w) \<subseteq> set (w_calls w')"

lemma quiet_refl [simp]: "quiet w w"
  by (simp add: quiet_def)

lemma quiet_trans: "quiet w v \<Longrightarrow> quiet v u \<Longrightarrow> quiet w u"
  by (auto simp: quiet_def)

lemma quiet_backend: "quiet w (w\<lparr>w_backend := b, w_calls := w_calls w @ calls\<rparr>)"
  by (auto simp: quiet_def)

lemma backend_step:
  "tx_post (on_backend call f) w (\<lambda>x w'. quiet w w' \<and> call (Inr x) \<in> set (w_calls w')) (quiet w)"
  by (rule tx_post_on_backend) (auto simp: quiet_backend)

definition aborted_all :: "discovered_upload list \<Rightarrow> ('j, 'b) world \<Rightarrow> bool" where
  "aborted_all uploads w \<longleftrightarrow> (\<forall>u \<in> set uploads. AbortCall (du_upload_id u) (Inr ()) \<in> set (w_calls w))"

definition aborted_discovered :: "('j, 'b) world \<Rightarrow> bool" where
  "aborted_discovered w \<longleftrightarrow> (\<exists>uploads. DiscoverCall (Inr uploads) \<in> set (w_calls w) \<and> aborted_all uploads w)"

lemma aborted_discovered_same: "aborted_discovered w \<Longrightarrow> w_calls w' = w_calls w \<Longrightarrow> aborted_discovered w'"
  by (simp add: aborted_discovered_def aborted_all_def)

lemma aborted_discovered_quiet: "aborted_discovered w \<Longrightarrow> set (w_calls w) \<subseteq> set (w_calls w') \<Longrightarrow> aborted_discovered w'"
  by (auto simp: aborted_discovered_def aborted_all_def)

lemma abort_all_post:
  "tx_post (abort_all c operation uploads) w (\<lambda>_ w'. quiet w w' \<and> aborted_all uploads w') (quiet w)"
proof (induction uploads arbitrary: w)
  case Nil
  show ?case by (simp add: tx_post_def tx_return_def aborted_all_def)
next
  case (Cons u us)
  have "tx_post (abort_all c operation us) w' (\<lambda>_ w''. quiet w w'' \<and> aborted_all (u # us) w'') (quiet w)"
    if "quiet w w' \<and> AbortCall (du_upload_id u) (Inr ()) \<in> set (w_calls w')" for w'
    using that by (intro tx_post_weaken [OF Cons.IH]) (auto simp: quiet_def aborted_all_def)
  then show ?case
    unfolding abort_all.simps abort_upload_def
    by (intro tx_post_then tx_post_weaken [OF backend_step]) auto
qed

lemma abort_discovered_post:
  "tx_post (abort_discovered c operation) w (\<lambda>_ w'. quiet w w' \<and> aborted_discovered w') (quiet w)"
proof -
  have "tx_post (abort_all c operation uploads) w' (\<lambda>_ w''. quiet w w'' \<and> aborted_discovered w'') (quiet w)"
    if "quiet w w' \<and> DiscoverCall (Inr uploads) \<in> set (w_calls w')" for w' uploads
    using that by (intro tx_post_weaken [OF abort_all_post]) (auto simp: quiet_def aborted_discovered_def)
  then show ?thesis
    unfolding abort_discovered_def by (intro tx_post_then tx_post_weaken [OF backend_step]) auto
qed

definition deleted_all :: "string option \<Rightarrow> string list \<Rightarrow> ('j, 'b) world \<Rightarrow> bool" where
  "deleted_all authoritative versions w \<longleftrightarrow>
     (\<forall>v \<in> set versions. DeleteCall v (Inr ()) \<in> set (w_calls w) \<and> authoritative \<noteq> Some v)"

lemma delete_superseded_post:
  "tx_post (delete_superseded c operation authoritative versions) w
     (\<lambda>_ w'. quiet w w' \<and> deleted_all authoritative versions w') (quiet w)"
proof (induction versions arbitrary: w)
  case Nil
  show ?case by (simp add: tx_post_def tx_return_def deleted_all_def)
next
  case (Cons v vs)
  show ?case
  proof (cases "authoritative = Some v")
    case True
    then show ?thesis by (simp add: tx_post_def)
  next
    case False
    then have "tx_post (delete_superseded c operation authoritative vs) w'
        (\<lambda>_ w''. quiet w w'' \<and> deleted_all authoritative (v # vs) w'') (quiet w)"
      if "quiet w w' \<and> DeleteCall v (Inr ()) \<in> set (w_calls w')" for w'
      using that by (intro tx_post_weaken [OF Cons.IH]) (auto simp: quiet_def deleted_all_def)
    with False show ?thesis
      by (auto intro!: tx_post_then tx_post_weaken [OF backend_step])
  qed
qed

section \<open>What the reconciler relies on\<close>

text \<open>
  The contract of the journal: \<open>inv n\<close> is its invariant while it has room for \<open>n\<close>
  more calls. After a call the record may be unavailable, which is how a poisoned
  journal shows.
\<close>

definition standing :: "operation_record \<Rightarrow> operation_record \<Rightarrow> bool" where
  "standing r r' \<longleftrightarrow> or_state r' = or_state r \<and> or_committed r' = or_committed r
     \<and> or_upload_id r' = or_upload_id r \<and> window_grows r r'"

lemma standing_refl [simp]: "standing r r"
  by (simp add: standing_def)

definition keeps :: "operation_record option \<Rightarrow> operation_record option \<Rightarrow> bool" where
  "keeps before after \<longleftrightarrow> after = None \<or> (\<exists>r r'. before = Some r \<and> after = Some r' \<and> standing r r')"

definition changes ::
  "operation_state \<Rightarrow> operation_state \<Rightarrow> stored_object_meta option
     \<Rightarrow> operation_record option \<Rightarrow> operation_record option \<Rightarrow> bool" where
  "changes expected new committed before after \<longleftrightarrow>
     (\<exists>r r'. before = Some r \<and> or_state r = expected \<and> after = Some r' \<and> or_state r' = new
        \<and> or_committed r' = committed \<and> window_grows r r')"

definition seen_absent :: "i64 \<Rightarrow> i64 \<Rightarrow> operation_record option \<Rightarrow> bool" where
  "seen_absent seen sep record \<longleftrightarrow>
     (\<exists>r first. record = Some r \<and> first + sep \<le> seen
        \<and> (\<forall>t. or_mutation_not_before_ms r = Some t \<longrightarrow> t \<le> first))"

text \<open>
  Why an operation with an unknown outcome may be called committed, and why it may
  be called absent; what the destination answered is read off the history.
\<close>

definition committed_by :: "('j, 'b) operation_reconciler \<Rightarrow> ('j, 'b) world \<Rightarrow> operation_record \<Rightarrow> bool" where
  "committed_by c w r \<longleftrightarrow> or_state r = Committed
     \<and> (\<exists>meta. ProbeCall (Inr (ProbeCommitted meta)) \<in> set (w_calls w)
          \<and> or_committed r = Some (adopted_meta c meta)
          \<and> deleted_all (om_version_id meta) (om_superseded_version_ids meta) w)"

definition confirmed_absent ::
  "('j, 'b) operation_reconciler \<Rightarrow> reconcile_env \<Rightarrow> operation_record \<Rightarrow> bool" where
  "confirmed_absent c env orig \<longleftrightarrow>
     (\<exists>first. first + duration_ms (rc_exact_absence_confirmation_delay c) \<le> rv_observed_at env
        \<and> (\<forall>t. or_mutation_not_before_ms orig = Some t \<longrightarrow> t \<le> first))"

definition absent_by ::
  "('j, 'b) operation_reconciler \<Rightarrow> reconcile_env \<Rightarrow> operation_record \<Rightarrow> ('j, 'b) world \<Rightarrow> operation_record \<Rightarrow> bool" where
  "absent_by c env orig w r \<longleftrightarrow> or_state r = ProvenAborted
     \<and> ProbeCall (Inr ProvenAbsentExact) \<in> set (w_calls w)
     \<and> confirmed_absent c env orig
     \<and> aborted_discovered w"

definition settled ::
  "('j, 'b) operation_reconciler \<Rightarrow> reconcile_env \<Rightarrow> operation_record \<Rightarrow> ('j, 'b) world \<Rightarrow> operation_record \<Rightarrow> bool" where
  "settled c env orig w r \<longleftrightarrow>
     or_state r \<in> {Completing, CommitUnknown} \<or> committed_by c w r \<or> absent_by c env orig w r"

text \<open>An aborted operation: every upload that was found, and the recorded one, were aborted.\<close>

definition aborted_by :: "operation_record \<Rightarrow> ('j, 'b) world \<Rightarrow> operation_record \<Rightarrow> bool" where
  "aborted_by orig w r \<longleftrightarrow> or_state r = ProvenAborted \<and> aborted_discovered w
     \<and> (\<forall>upload_id. or_upload_id orig = Some upload_id \<longrightarrow> or_state orig \<noteq> Intent
          \<longrightarrow> AbortCall upload_id (Inr ()) \<in> set (w_calls w))"

definition aborting :: "operation_record \<Rightarrow> ('j, 'b) world \<Rightarrow> operation_record \<Rightarrow> bool" where
  "aborting orig w r \<longleftrightarrow> or_state r \<in> {or_state orig, Aborting} \<or> aborted_by orig w r"

definition known_aborted :: "operation_record \<Rightarrow> ('j, 'b) world \<Rightarrow> bool" where
  "known_aborted orig w \<longleftrightarrow> (\<forall>upload_id. or_upload_id orig = Some upload_id \<longrightarrow> or_state orig \<noteq> Intent
     \<longrightarrow> AbortCall upload_id (Inr ()) \<in> set (w_calls w))"

lemma adopted_meta_versions [simp]:
  "om_version_id (adopted_meta c meta) = om_version_id meta"
  "om_superseded_version_ids (adopted_meta c meta) = om_superseded_version_ids meta"
  by (simp_all add: adopted_meta_def)

lemma duration_ms_nonneg [simp]: "0 \<le> duration_ms d"
  by (simp add: duration_ms_def i64_max_def)

locale reconciled_journal =
  fixes ops :: "'j operation_journal"
    and inv :: "nat \<Rightarrow> 'j \<Rightarrow> bool"
    and record_at :: "uuid \<Rightarrow> 'j \<Rightarrow> operation_record option"
  assumes claim_law: "inv (Suc n) j \<Longrightarrow> oj_claim_operation ops i owner stale until j = (j', r) \<Longrightarrow>
      inv n j' \<and> keeps (record_at i j) (record_at i j')
      \<and> (\<forall>operation. r = Inr (Some operation) \<longrightarrow> record_at i j' = Some operation \<and> or_id operation = i)"
    and evidence_law: "inv (Suc n) j \<Longrightarrow> oj_append_evidence ops e j = (j', u) \<Longrightarrow>
      inv n j' \<and> keeps (record_at i j) (record_at i j')"
    and transition_law: "inv (Suc n) j \<Longrightarrow> oj_transition ops i expected new committed j = (j', u) \<Longrightarrow>
      inv n j' \<and> (changes expected new committed (record_at i j) (record_at i j')
        \<or> u \<noteq> Inr () \<and> keeps (record_at i j) (record_at i j'))"
    and confirm_law: "inv (Suc n) j \<Longrightarrow> 0 \<le> sep \<Longrightarrow> oj_confirm_exact_absence ops i seen sep j = (j', b) \<Longrightarrow>
      inv n j' \<and> keeps (record_at i j) (record_at i j')
      \<and> (b = Inr True \<longrightarrow> seen_absent seen sep (record_at i j'))"
begin

text \<open>The record is unavailable or in one of the states, its window not earlier than that of \<open>orig\<close>.\<close>

definition held :: "uuid \<Rightarrow> operation_record \<Rightarrow> operation_state set \<Rightarrow> nat \<Rightarrow> ('j, 'b) world \<Rightarrow> bool" where
  "held i orig states n w \<longleftrightarrow> inv n (w_journal w)
     \<and> (\<forall>r. record_at i (w_journal w) = Some r \<longrightarrow> or_state r \<in> states \<and> window_grows orig r)"

lemma held_quiet: "held i orig S n w \<Longrightarrow> quiet w w' \<Longrightarrow> held i orig S n w'"
  by (simp add: held_def quiet_def)

lemma held_keeps:
  assumes "held i orig S n w" "inv m (w_journal w')" "keeps (record_at i (w_journal w)) (record_at i (w_journal w'))"
  shows "held i orig S m w'"
  using assms unfolding held_def keeps_def standing_def by (auto intro: window_grows_trans)

definition ends :: "uuid \<Rightarrow> (('j, 'b) world \<Rightarrow> operation_record \<Rightarrow> bool) \<Rightarrow> ('j, 'b) world \<Rightarrow> bool" where
  "ends i P w \<longleftrightarrow> (\<forall>r. record_at i (w_journal w) = Some r \<longrightarrow> P w r)"

lemma held_ends: "held i orig S n w \<Longrightarrow> (\<And>r. or_state r \<in> S \<Longrightarrow> P w r) \<Longrightarrow> ends i P w"
  by (auto simp: held_def ends_def)

lemma evidence_post:
  assumes "rc_journal c = ops" "held i orig S (Suc n) w"
  shows "tx_post (evidence c env k kind detail) w
    (\<lambda>_ w'. held i orig S n w' \<and> w_calls w' = w_calls w) (\<lambda>w'. held i orig S n w' \<and> w_calls w' = w_calls w)"
  unfolding evidence_def assms(1)
proof (rule tx_post_on_journal)
  fix j r
  assume run: "oj_append_evidence ops
      (evidence_new (fst (rv_evidence env kind)) (snd (rv_evidence env kind)) k kind detail) (w_journal w) = (j, r)"
  have "inv (Suc n) (w_journal w)" using assms(2) by (simp add: held_def)
  from evidence_law [OF this run, of i] have "held i orig S n (w\<lparr>w_journal := j\<rparr>)"
    by (intro held_keeps [OF assms(2)]) simp_all
  then show "(\<forall>x. r = Inr x \<longrightarrow> held i orig S n (w\<lparr>w_journal := j\<rparr>) \<and> w_calls (w\<lparr>w_journal := j\<rparr>) = w_calls w)
      \<and> (\<forall>e. r = Inl e \<longrightarrow> held i orig S n (w\<lparr>w_journal := j\<rparr>) \<and> w_calls (w\<lparr>w_journal := j\<rparr>) = w_calls w)"
    by simp
qed

text \<open>A failed transition may still have taken effect.\<close>

lemma change_state_post:
  assumes "rc_journal c = ops" "held i orig S (Suc n) w"
  shows "tx_post (change_state c i expected new committed) w
    (\<lambda>_ w'. held i orig {new} n w' \<and> w_calls w' = w_calls w
       \<and> (\<exists>r. record_at i (w_journal w') = Some r) \<and> ends i (\<lambda>_ r. or_committed r = committed) w')
    (\<lambda>w'. w_calls w' = w_calls w
       \<and> (held i orig S n w' \<or> held i orig {new} n w' \<and> ends i (\<lambda>_ r. or_committed r = committed) w'))"
  unfolding change_state_def assms(1)
proof (rule tx_post_on_journal)
  fix j u
  let ?w = "w\<lparr>w_journal := j\<rparr>"
  assume run: "oj_transition ops i expected new committed (w_journal w) = (j, u)"
  have "inv (Suc n) (w_journal w)" using assms(2) by (simp add: held_def)
  note law = transition_law [OF this run]
  have "held i orig S n ?w" if "keeps (record_at i (w_journal w)) (record_at i j)"
    using law that by (intro held_keeps [OF assms(2)]) simp_all
  moreover have "held i orig {new} n ?w \<and> ends i (\<lambda>_ r. or_committed r = committed) ?w
      \<and> (\<exists>r. record_at i j = Some r)"
    if "changes expected new committed (record_at i (w_journal w)) (record_at i j)"
    using that law assms(2) by (auto simp: held_def ends_def changes_def intro: window_grows_trans)
  ultimately show "(\<forall>x. u = Inr x \<longrightarrow> held i orig {new} n ?w \<and> w_calls ?w = w_calls w
         \<and> (\<exists>r. record_at i (w_journal ?w) = Some r) \<and> ends i (\<lambda>_ r. or_committed r = committed) ?w)
      \<and> (\<forall>e. u = Inl e \<longrightarrow> w_calls ?w = w_calls w
         \<and> (held i orig S n ?w \<or> held i orig {new} n ?w \<and> ends i (\<lambda>_ r. or_committed r = committed) ?w))"
    using law by (cases u) auto
qed

lemma commit_found_post:
  assumes c: "rc_journal c = ops" and i: "or_id operation = i" and held: "held i orig {CommitUnknown} (Suc (Suc n)) w"
    and probe: "ProbeCall (Inr (ProbeCommitted meta)) \<in> set (w_calls w)"
  shows "tx_post (commit_found c env operation meta) w (\<lambda>_. ends i (settled c env orig)) (ends i (settled c env orig))"
proof -
  let ?Z = "ends i (settled c env orig)"
  have unknown: "?Z w'" if "held i orig {CommitUnknown} m w'" for m w'
    using that by (rule held_ends) (simp add: settled_def)
  have committed: "?Z w'" if "held i orig {Committed} m w'"
      "ends i (\<lambda>_ r. or_committed r = Some (adopted_meta c meta)) w'"
      "deleted_all (om_version_id meta) (om_superseded_version_ids meta) w'"
      "ProbeCall (Inr (ProbeCommitted meta)) \<in> set (w_calls w')" for m w'
    using that by (auto simp: held_def ends_def settled_def committed_by_def)
  have step2: "tx_post (change_state c i CommitUnknown Committed (Some (adopted_meta c meta))) v (\<lambda>_. ?Z) ?Z"
    if v: "held i orig {CommitUnknown} (Suc n) v" "deleted_all (om_version_id meta) (om_superseded_version_ids meta) v"
      "ProbeCall (Inr (ProbeCommitted meta)) \<in> set (w_calls v)" for v
    using v(2,3)
    by (intro tx_post_weaken [OF change_state_post [OF c v(1)]])
      (auto intro: unknown committed simp: deleted_all_def)
  have step1: "tx_post (evidence c env i kind detail) v
      (\<lambda>_ v'. tx_post (change_state c i CommitUnknown Committed (Some (adopted_meta c meta))) v' (\<lambda>_. ?Z) ?Z) ?Z"
    if v: "quiet w v" "deleted_all (om_version_id meta) (om_superseded_version_ids meta) v" for v kind detail
    using v held_quiet [OF held v(1)] probe
    by (intro tx_post_weaken [OF evidence_post [OF c, where i = i and orig = orig and S = "{CommitUnknown}" and n = "Suc n"]])
      (auto intro!: step2 intro: unknown simp: deleted_all_def quiet_def)
  show ?thesis
    unfolding commit_found_def Let_def i
    by (intro tx_post_then tx_post_weaken [OF delete_superseded_post])
      (auto intro!: tx_post_then step1 intro: unknown [OF held_quiet [OF held]])
qed

lemma confirm_post:
  assumes "rc_journal c = ops" "held i orig S (Suc n) w"
  shows "tx_post (on_journal (oj_confirm_exact_absence (rc_journal c) i seen (duration_ms d))) w
    (\<lambda>confirmed w'. held i orig S n w' \<and> w_calls w' = w_calls w
       \<and> (confirmed \<longrightarrow> seen_absent seen (duration_ms d) (record_at i (w_journal w'))))
    (\<lambda>w'. held i orig S n w' \<and> w_calls w' = w_calls w)"
  unfolding assms(1)
proof (rule tx_post_on_journal)
  fix j b
  let ?w = "w\<lparr>w_journal := j\<rparr>"
  assume run: "oj_confirm_exact_absence ops i seen (duration_ms d) (w_journal w) = (j, b)"
  have "inv (Suc n) (w_journal w)" using assms(2) by (simp add: held_def)
  note law = confirm_law [OF this duration_ms_nonneg run]
  then have "held i orig S n ?w" by (intro held_keeps [OF assms(2)]) simp_all
  with law show "(\<forall>x. b = Inr x \<longrightarrow> held i orig S n ?w \<and> w_calls ?w = w_calls w
         \<and> (x \<longrightarrow> seen_absent seen (duration_ms d) (record_at i (w_journal ?w))))
      \<and> (\<forall>e. b = Inl e \<longrightarrow> held i orig S n ?w \<and> w_calls ?w = w_calls w)"
    by auto
qed

lemma seen_absent_window:
  assumes "seen_absent (rv_observed_at env) (duration_ms (rc_exact_absence_confirmation_delay c))
      (record_at i (w_journal w))" "held i orig S n w"
  shows "confirmed_absent c env orig"
proof -
  obtain r first where r: "record_at i (w_journal w) = Some r"
      "first + duration_ms (rc_exact_absence_confirmation_delay c) \<le> rv_observed_at env"
      "\<forall>t. or_mutation_not_before_ms r = Some t \<longrightarrow> t \<le> first"
    using assms(1) by (auto simp: seen_absent_def)
  have "window_grows orig r" using assms(2) r(1) by (simp add: held_def)
  with r(2,3) show ?thesis
    unfolding window_grows_def confirmed_absent_def by (intro exI [of _ first]) fastforce
qed

lemma confirm_absence_post:
  assumes c: "rc_journal c = ops" and i: "or_id operation = i"
    and held: "held i orig {CommitUnknown} (Suc (Suc (Suc n))) w"
    and probe: "ProbeCall (Inr ProvenAbsentExact) \<in> set (w_calls w)"
  shows "tx_post (confirm_absence c env operation) w (\<lambda>_. ends i (settled c env orig)) (ends i (settled c env orig))"
proof -
  let ?Z = "ends i (settled c env orig)" and ?window = "confirmed_absent c env orig"
  have unknown: "?Z w'" if "held i orig {CommitUnknown} m w'" for m w'
    using that by (rule held_ends) (simp add: settled_def)
  have absent: "?Z w'" if "held i orig {ProvenAborted} m w'" "aborted_discovered w'" ?window
      "ProbeCall (Inr ProvenAbsentExact) \<in> set (w_calls w')" for m w'
    using that by (auto simp: held_def ends_def settled_def absent_by_def)
  have step3: "tx_post (change_state c i CommitUnknown ProvenAborted None) v (\<lambda>_. ?Z) ?Z"
    if v: "held i orig {CommitUnknown} (Suc n) v" "aborted_discovered v" ?window
      "ProbeCall (Inr ProvenAbsentExact) \<in> set (w_calls v)" for v
    using v(2-4) by (intro tx_post_weaken [OF change_state_post [OF c v(1)]])
      (auto intro: unknown absent aborted_discovered_same)
  have step2: "tx_post (tx_then (evidence c env i kind detail)
      (\<lambda>_. change_state c i CommitUnknown ProvenAborted None)) v (\<lambda>_. ?Z) ?Z"
    if v: "held i orig {CommitUnknown} (Suc (Suc n)) v" "aborted_discovered v" ?window
      "ProbeCall (Inr ProvenAbsentExact) \<in> set (w_calls v)" for v kind detail
    using v(2-4) by (intro tx_post_then tx_post_weaken [OF evidence_post [OF c v(1)]])
      (auto intro!: step3 intro: unknown aborted_discovered_same)
  have step1: "tx_post (tx_then (abort_discovered c operation) (\<lambda>_. tx_then (evidence c env i kind detail)
      (\<lambda>_. change_state c i CommitUnknown ProvenAborted None))) v (\<lambda>_. ?Z) ?Z"
    if v: "held i orig {CommitUnknown} (Suc (Suc n)) v" ?window
      "ProbeCall (Inr ProvenAbsentExact) \<in> set (w_calls v)" for v kind detail
    using v(2,3) held_quiet [OF v(1)]
    by - (rule tx_post_then, rule tx_post_weaken [OF abort_discovered_post],
      auto intro!: step2 intro: unknown simp: quiet_def)
  have pending: "tx_post (evidence c env i kind detail) v (\<lambda>_. ?Z) ?Z"
    if v: "held i orig {CommitUnknown} (Suc (Suc n)) v" for v kind detail
    by (rule tx_post_weaken [OF evidence_post [OF c v]]) (auto intro: unknown)
  show ?thesis
    unfolding confirm_absence_def i
    using probe seen_absent_window
    by (intro tx_post_then tx_post_weaken [OF confirm_post [OF c held]])
      (auto intro!: step1 pending intro: unknown)
qed

lemma reconcile_unknown_post:
  assumes c: "rc_journal c = ops" and i: "or_id operation = i"
    and held: "held i orig {CommitUnknown} (Suc (Suc (Suc n))) w"
  shows "tx_post (reconcile_unknown c env operation) w (\<lambda>_. ends i (settled c env orig)) (ends i (settled c env orig))"
proof -
  let ?Z = "ends i (settled c env orig)"
  have unknown: "?Z w'" if "held i orig {CommitUnknown} m w'" for m w'
    using that by (rule held_ends) (simp add: settled_def)
  have quiet: "tx_post (evidence c env i kind detail) v (\<lambda>_. ?Z) ?Z" if "quiet w v" for v kind detail
    by (rule tx_post_weaken [OF evidence_post [OF c held_quiet [OF held that]]]) (auto intro: unknown)
  have "tx_post (case probe of
       ProbeCommitted meta \<Rightarrow> commit_found c env operation meta
     | ProvenAbsent \<Rightarrow> evidence c env i ''completion_absent_inconclusive'' (JObject [])
     | ProvenAbsentExact \<Rightarrow> confirm_absence c env operation
     | Inconclusive \<Rightarrow> tx_return ()) v (\<lambda>_. ?Z) ?Z"
    if v: "quiet w v" "ProbeCall (Inr probe) \<in> set (w_calls v)" for probe v
    using v(2) held_quiet [OF held v(1)]
    by (cases probe) (auto intro: commit_found_post [OF c i] confirm_absence_post [OF c i] quiet [OF v(1)]
        tx_post_return unknown)
  then show ?thesis
    unfolding reconcile_unknown_def i
    by (intro tx_post_then tx_post_weaken [OF backend_step]) (auto intro: unknown held_quiet [OF held])
qed

lemma finish_abort_post:
  assumes c: "rc_journal c = ops" and i: "or_id operation = i"
    and held: "held i orig {Aborting} (Suc n) w" and known: "known_aborted orig w"
  shows "tx_post (finish_abort c operation) w
    (\<lambda>_ w'. ends i (aborted_by orig) w' \<and> (\<exists>r. record_at i (w_journal w') = Some r)) (ends i (aborting orig))"
proof -
  have still: "ends i (aborting orig) w'" if "held i orig {Aborting} m w'" for m w'
    using that by (rule held_ends) (simp add: aborting_def)
  have proven: "ends i (aborted_by orig) w'" if "held i orig {ProvenAborted} m w'" "aborted_discovered w'" "known_aborted orig w'"
    for m w' using that by (auto simp: held_def ends_def aborted_by_def known_aborted_def)
  then have ended: "ends i (aborting orig) w'" if "held i orig {ProvenAborted} m w'" "aborted_discovered w'" "known_aborted orig w'"
    for m w' using that by (auto simp: ends_def aborting_def)
  have "tx_post (change_state c i Aborting ProvenAborted None) v
      (\<lambda>_ w'. ends i (aborted_by orig) w' \<and> (\<exists>r. record_at i (w_journal w') = Some r)) (ends i (aborting orig))"
    if v: "quiet w v" "aborted_discovered v" for v
  proof (rule tx_post_weaken [OF change_state_post [OF c held_quiet [OF held v(1)]]])
    have more: "known_aborted orig v'" "aborted_discovered v'" if "w_calls v' = w_calls v" for v'
      using that v known by (auto simp: known_aborted_def quiet_def intro: aborted_discovered_same)
    fix u w'
    assume "held i orig {ProvenAborted} n w' \<and> w_calls w' = w_calls v
      \<and> (\<exists>r. record_at i (w_journal w') = Some r) \<and> ends i (\<lambda>_ r. or_committed r = None) w'"
    then show "ends i (aborted_by orig) w' \<and> (\<exists>r. record_at i (w_journal w') = Some r)" using more proven by blast
  next
    have more: "known_aborted orig v'" "aborted_discovered v'" if "w_calls v' = w_calls v" for v'
      using that v known by (auto simp: known_aborted_def quiet_def intro: aborted_discovered_same)
    fix w'
    assume "w_calls w' = w_calls v \<and> (held i orig {Aborting} n w'
      \<or> held i orig {ProvenAborted} n w' \<and> ends i (\<lambda>_ r. or_committed r = None) w')"
    then show "ends i (aborting orig) w'" using more ended still by blast
  qed
  then show ?thesis
    unfolding finish_abort_def i
    by - (rule tx_post_then, rule tx_post_weaken [OF abort_discovered_post],
      auto intro: still held_quiet [OF held])
qed

lemma abort_known_post:
  assumes "or_upload_id operation = or_upload_id orig"
  shows "tx_post (abort_known c operation) w (\<lambda>_ w'. quiet w w' \<and> known_aborted orig w') (quiet w)"
proof (cases "or_upload_id orig")
  case None
  with assms show ?thesis
    unfolding abort_known_def by (simp add: tx_post_def tx_return_def known_aborted_def)
next
  case (Some upload_id)
  with assms show ?thesis
    unfolding abort_known_def abort_upload_def
    by simp (rule tx_post_weaken [OF backend_step], auto simp: known_aborted_def)
qed

lemma abort_rest_post:
  assumes c: "rc_journal c = ops" and i: "or_id operation = i"
    and upload: "or_upload_id operation = or_upload_id orig" and held: "held i orig {Aborting} (Suc n) w"
  shows "tx_post (tx_then (abort_known c operation) (\<lambda>_. finish_abort c operation)) w
    (\<lambda>_ w'. ends i (aborted_by orig) w' \<and> (\<exists>r. record_at i (w_journal w') = Some r)) (ends i (aborting orig))"
proof -
  have "ends i (aborting orig) w'" if "quiet w w'" for w'
    by (rule held_ends [OF held_quiet [OF held that]]) (simp add: aborting_def)
  then show ?thesis
    by - (rule tx_post_then, rule tx_post_weaken [OF abort_known_post [OF upload]],
      auto intro!: finish_abort_post [OF c i] held_quiet [OF held])
qed

lemma aborting_after_change:
  assumes "held i orig {or_state orig} n w \<or> held i orig {Aborting} n w \<and> P"
  shows "ends i (aborting orig) w"
  using assms held_ends [of i orig _ n w "aborting orig"] by (auto simp: aborting_def)

lemma reconcile_abort_post:
  assumes c: "rc_journal c = ops" and i: "or_id operation = i"
    and same: "or_state operation = or_state orig" "or_upload_id operation = or_upload_id orig"
    and state: "or_state orig \<in> {Intent, Open, Aborting}"
    and held: "held i orig {or_state orig} (Suc (Suc (Suc n))) w"
  shows "tx_post (reconcile c env operation) w
    (\<lambda>_ w'. ends i (aborted_by orig) w' \<and> (\<exists>r. record_at i (w_journal w') = Some r)) (ends i (aborting orig))"
    (is "tx_post _ _ ?Q ?E")
proof -
  have early: "?E w'" if "held i orig {or_state orig} m w'" for m w'
    using that by (rule held_ends) (simp add: aborting_def)
  have finish: "tx_post (finish_abort c operation) v ?Q ?E"
    if "or_state orig = Intent" "held i orig {Aborting} (Suc n) v" for v
    by (rule finish_abort_post [OF c i that(2)]) (simp add: known_aborted_def that(1))
  note rest = abort_rest_post [OF c i same(2)]
  have "tx_post (case or_state operation of
       Intent \<Rightarrow> tx_then (change_state c i Intent Aborting None) (\<lambda>_. finish_abort c operation)
     | Open \<Rightarrow>
         tx_then (change_state c i Open Aborting None) (\<lambda>_.
         tx_then (abort_known c operation) (\<lambda>_. finish_abort c operation))
     | Aborting \<Rightarrow> tx_then (abort_known c operation) (\<lambda>_. finish_abort c operation)
     | Completing \<Rightarrow>
         tx_then (change_state c i Completing CommitUnknown None) (\<lambda>_. reconcile_unknown c env operation)
     | CommitUnknown \<Rightarrow> reconcile_unknown c env operation
     | Committed \<Rightarrow> tx_return ()
     | ProvenAborted \<Rightarrow> tx_return ()) v ?Q ?E"
    if v: "held i orig {or_state orig} (Suc (Suc n)) v" for v
  proof -
    note change = change_state_post [OF c v, of _ Aborting None]
    from state consider "or_state orig = Intent" | "or_state orig = Open" | "or_state orig = Aborting" by auto
    then show ?thesis
    proof cases
      case 1
      have "tx_post (tx_then (change_state c i Intent Aborting None) (\<lambda>_. finish_abort c operation)) v ?Q ?E"
        by (rule tx_post_then, rule tx_post_weaken [OF change]) (auto intro: finish [OF 1] aborting_after_change)
      with 1 same show ?thesis by simp
    next
      case 2
      have "tx_post (tx_then (change_state c i Open Aborting None) (\<lambda>_.
          tx_then (abort_known c operation) (\<lambda>_. finish_abort c operation))) v ?Q ?E"
        by (rule tx_post_then, rule tx_post_weaken [OF change]) (auto intro: rest aborting_after_change)
      with 2 same show ?thesis by simp
    next
      case 3
      with v same show ?thesis by (auto intro: rest)
    qed
  qed
  then show ?thesis
    unfolding reconcile_def i
    by - (rule tx_post_then, rule tx_post_weaken [OF evidence_post [OF c held]], auto intro: early)
qed

lemma reconcile_settle_post:
  assumes c: "rc_journal c = ops" and i: "or_id operation = i"
    and same: "or_state operation = or_state orig" and state: "or_state orig \<in> {Completing, CommitUnknown}"
    and held: "held i orig {or_state orig} (Suc (Suc (Suc (Suc (Suc n))))) w"
  shows "tx_post (reconcile c env operation) w (\<lambda>_. ends i (settled c env orig)) (ends i (settled c env orig))"
proof -
  let ?Z = "ends i (settled c env orig)"
  have early: "?Z w'" if "held i orig S m w'" "S \<subseteq> {Completing, CommitUnknown}" for S m w'
    using that by (auto simp: held_def ends_def settled_def)
  note unknown = reconcile_unknown_post [OF c i]
  have changed: "tx_post (tx_then (change_state c i Completing CommitUnknown None)
      (\<lambda>_. reconcile_unknown c env operation)) v (\<lambda>_. ?Z) ?Z"
    if v: "held i orig S (Suc (Suc (Suc (Suc n)))) v" "S \<subseteq> {Completing, CommitUnknown}" for S v
    using v(2) by - (rule tx_post_then, rule tx_post_weaken [OF change_state_post [OF c v(1)]],
      auto intro: unknown early)
  show ?thesis
    unfolding reconcile_def i using state same
    by - (rule tx_post_then, rule tx_post_weaken [OF evidence_post [OF c held]],
      auto intro: changed unknown early)
qed

lemma claim_post:
  assumes "rc_journal c = ops" "inv (Suc n) (w_journal w)" "record_at i (w_journal w) = Some orig"
  shows "tx_post (on_journal (oj_claim_operation (rc_journal c) i owner stale until)) w
    (\<lambda>claimed w'. held i orig {or_state orig} n w' \<and> w_calls w' = w_calls w
       \<and> (\<forall>operation. claimed = Some operation \<longrightarrow> or_id operation = i \<and> standing orig operation))
    (\<lambda>w'. held i orig {or_state orig} n w')"
  unfolding assms(1)
proof (rule tx_post_on_journal)
  fix j r
  let ?w = "w\<lparr>w_journal := j\<rparr>"
  assume run: "oj_claim_operation ops i owner stale until (w_journal w) = (j, r)"
  note law = claim_law [OF assms(2) run]
  then have "held i orig {or_state orig} n ?w"
    using assms(3) by (auto simp: held_def keeps_def standing_def)
  moreover have "or_id operation = i \<and> standing orig operation" if "r = Inr (Some operation)" for operation
    using law assms(3) that by (auto simp: keeps_def)
  ultimately show "(\<forall>x. r = Inr x \<longrightarrow> held i orig {or_state orig} n ?w \<and> w_calls ?w = w_calls w
       \<and> (\<forall>operation. x = Some operation \<longrightarrow> or_id operation = i \<and> standing orig operation))
      \<and> (\<forall>e. r = Inl e \<longrightarrow> held i orig {or_state orig} n ?w)"
    by auto
qed

lemma reconcile_operation_settles:
  assumes c: "rc_journal c = ops" and inv: "inv (Suc (Suc (Suc (Suc (Suc (Suc n)))))) (w_journal w)"
    and orig: "record_at i (w_journal w) = Some orig" "or_state orig \<in> {Completing, CommitUnknown}"
    and run: "reconcile_operation c env i stale w = (w', r)"
  shows "ends i (settled c env orig) w'"
proof -
  let ?Z = "ends i (settled c env orig)"
  have early: "?Z v" if "held i orig {or_state orig} m v" for m v
    using that orig(2) by (auto simp: held_def ends_def settled_def)
  have settle: "tx_post (tx_then (reconcile c env operation) (\<lambda>_. tx_return True)) v (\<lambda>_. ?Z) ?Z"
    if "held i orig {or_state orig} (Suc (Suc (Suc (Suc (Suc n))))) v" "or_id operation = i" "standing orig operation"
    for operation v
    using that orig(2)
    by - (rule tx_post_then, rule tx_post_weaken [OF reconcile_settle_post [OF c]],
      auto simp: standing_def intro: tx_post_return)
  have "tx_post (reconcile_operation c env i stale) w (\<lambda>_. ?Z) ?Z"
    unfolding reconcile_operation_def
    by (rule tx_post_then, rule tx_post_weaken [OF claim_post [OF c inv orig(1)]])
      (auto intro: settle early tx_post_return split: option.split)
  with run show ?thesis by (auto simp: tx_post_def split: sum.splits)
qed

lemma reconcile_operation_aborts:
  assumes c: "rc_journal c = ops" and inv: "inv (Suc (Suc (Suc (Suc n)))) (w_journal w)"
    and orig: "record_at i (w_journal w) = Some orig" "or_state orig \<in> {Intent, Open, Aborting}"
    and run: "reconcile_operation c env i stale w = (w', r)"
  shows "ends i (aborting orig) w'
    \<and> (r = Inr True \<longrightarrow> (\<exists>r'. record_at i (w_journal w') = Some r' \<and> aborted_by orig w' r'))"
proof -
  let ?E = "ends i (aborting orig)"
  let ?Q = "\<lambda>worked w'. ?E w' \<and> (worked \<longrightarrow> (\<exists>r'. record_at i (w_journal w') = Some r' \<and> aborted_by orig w' r'))"
  have early: "?E v" if "held i orig {or_state orig} m v" for m v
    using that by (rule held_ends) (simp add: aborting_def)
  have finish: "tx_post (tx_then (reconcile c env operation) (\<lambda>_. tx_return True)) v ?Q ?E"
    if "held i orig {or_state orig} (Suc (Suc (Suc n))) v" "or_id operation = i" "standing orig operation"
    for operation v
    using that orig(2)
    by - (rule tx_post_then, rule tx_post_weaken [OF reconcile_abort_post [OF c]],
      auto simp: standing_def ends_def aborting_def intro!: tx_post_return)
  have "tx_post (reconcile_operation c env i stale) w ?Q ?E"
    unfolding reconcile_operation_def
    by (rule tx_post_then, rule tx_post_weaken [OF claim_post [OF c inv orig(1)]])
      (auto intro: finish early tx_post_return split: option.split)
  with run show ?thesis by (auto simp: tx_post_def split: sum.splits)
qed

end

end
