(* ===== verification/Reconciler_Properties.thy ===== *)
theory Reconciler_Properties
  imports Reconciler_Contracts
begin

text \<open>
  Both journals keep the reconciler's contract; the properties of a recovery over
  the file journal follow from it.
\<close>

section \<open>The in-memory journal\<close>

text \<open>Every call reads the clock anew; \<open>clock k\<close> is the reading of call \<open>k\<close>.\<close>

definition clocked ::
  "(i64 \<Rightarrow> memory_journal \<Rightarrow> 'a journaled) \<Rightarrow> memory_journal \<times> (nat \<Rightarrow> i64)
     \<Rightarrow> (memory_journal \<times> (nat \<Rightarrow> i64)) \<times> (journal_error + 'a)" where
  "clocked f s = (let (j, r) = f (snd s 0) (fst s) in ((j, \<lambda>k. snd s (Suc k)), r))"

definition memory_journal_ops :: "(memory_journal \<times> (nat \<Rightarrow> i64)) operation_journal" where
  "memory_journal_ops =
     \<lparr>oj_claim_operation = (\<lambda>i owner stale until. clocked (claim_reconcilable_operation i owner stale until)),
      oj_append_evidence = (\<lambda>e. clocked (\<lambda>_. append_evidence e)),
      oj_transition = (\<lambda>i expected new committed. clocked (transition i expected new committed)),
      oj_confirm_exact_absence = (\<lambda>i seen sep. clocked (confirm_exact_absence i seen sep))\<rparr>"

lemma clocked_eq: "clocked f s = (s', r) \<longleftrightarrow> (\<exists>j. f (snd s 0) (fst s) = (j, r) \<and> s' = (j, \<lambda>k. snd s (Suc k)))"
  by (auto simp: clocked_def split: prod.splits)

lemma keeps_refl [simp]: "keeps x x"
  by (cases x) (auto simp: keeps_def)

lemma memory_claim:
  assumes "journal_inv j" "claim_reconcilable_operation i owner stale until now j = (j', r)"
  shows "journal_inv j' \<and> keeps (journal_record i j) (journal_record i j')
    \<and> (\<forall>operation. r = Inr (Some operation) \<longrightarrow> journal_record i j' = Some operation \<and> or_id operation = i)"
proof -
  have "fst (claim_reconcilable_operation i owner stale until now j)
      = journal_run (ClaimOperation i owner stale until now) j" by simp
  then have inv: "journal_inv j'"
    using journal_run_inv [OF assms(1), of "ClaimOperation i owner stale until now"] assms(2) by simp
  show ?thesis
  proof (cases "j' = j \<and> r = Inr None")
    case True
    with inv show ?thesis by simp
  next
    case False
    then obtain x where x: "hm_get (mj_operations j) i = Some x"
        and out: "j' = put_operation i (leased owner until x) j" "r = Inr (Some (leased owner until x))"
      using assms(2) by (auto simp: claim_reconcilable_operation_def split: option.splits if_splits)
    have "or_id x = i" using assms(1) x by (simp add: journal_inv_def)
    with x out inv show ?thesis
      by (simp add: journal_record_def keeps_def standing_def leased_def map_laws)
  qed
qed

lemma memory_evidence:
  assumes "journal_inv j" "append_evidence e j = (j', r)"
  shows "journal_inv j' \<and> journal_record i j' = journal_record i j"
proof -
  have "mj_operations j' = mj_operations j" "mj_parts j' = mj_parts j"
    using assms(2) by (auto simp: append_evidence_def split: option.splits if_splits)
  then show ?thesis using assms(1) by (simp add: journal_inv_def journal_record_def)
qed

lemma memory_transition:
  assumes "journal_inv j" "transition i expected new committed clock j = (j', r)"
  shows "journal_inv j' \<and> (changes expected new committed (journal_record i j) (journal_record i j')
    \<or> r \<noteq> Inr () \<and> journal_record i j' = journal_record i j)"
proof -
  have inv: "journal_inv j'"
    using journal_run_inv [OF assms(1), of "Transition i expected new committed clock"] assms(2) by simp
  show ?thesis
  proof (cases "mj_operations j' = mj_operations j \<and> r \<noteq> Inr ()")
    case True
    with inv show ?thesis by (simp add: journal_record_def)
  next
    case False
    then obtain x where x: "hm_get (mj_operations j) i = Some x" "or_state x = expected"
        and out: "mj_operations j' = hm_insert i (x\<lparr>or_state := new, or_committed := committed,
          or_updated_at_ms := clock, or_lease_owner := None, or_lease_expires_at_ms := None\<rparr>) (mj_operations j)"
      using assms(2) by (auto simp: transition_def split: option.splits if_splits)
    with inv show ?thesis by (simp add: journal_record_def changes_def map_laws)
  qed
qed

lemma memory_confirm:
  assumes "journal_inv j" "0 \<le> sep" "confirm_exact_absence i seen sep clock j = (j', b)"
  shows "journal_inv j' \<and> keeps (journal_record i j) (journal_record i j')
    \<and> (b = Inr True \<longrightarrow> seen_absent seen sep (journal_record i j'))"
proof -
  have inv: "journal_inv j'"
    using journal_run_inv [OF assms(1), of "ConfirmExactAbsence i seen sep clock"] assms(3) by simp
  show ?thesis
  proof (cases "hm_get (mj_operations j) i")
    case None
    with assms(3) inv show ?thesis by (auto simp: confirm_exact_absence_def)
  next
    case (Some x)
    have ok: "record_ok x" using assms(1) Some by (simp add: journal_inv_def)
    have "keeps (journal_record i j) (journal_record i j')"
      using assms(3) Some
      by (auto simp: confirm_exact_absence_def journal_record_def keeps_def standing_def map_laws
          split: option.splits if_splits)
    moreover have "seen_absent seen sep (journal_record i j')" if yes: "b = Inr True"
    proof -
      obtain first where first: "or_exact_absence_observed_at_ms x = Some first" "j' = j"
          "i64_saturating_sub seen first \<ge> sep"
        using yes assms(3) Some by (auto simp: confirm_exact_absence_def split: option.splits if_splits)
      have "first + sep \<le> seen" by (rule saturated_difference [OF first(3) assms(2)])
      moreover have "\<forall>t. or_mutation_not_before_ms x = Some t \<longrightarrow> t \<le> first"
        using ok first(1) by (simp add: record_ok_def)
      ultimately show ?thesis using Some first(2) by (auto simp: seen_absent_def journal_record_def)
    qed
    ultimately show ?thesis using inv by blast
  qed
qed

interpretation mrj: reconciled_journal memory_journal_ops "\<lambda>_ s. journal_inv (fst s)" "\<lambda>i s. journal_record i (fst s)"
proof
  fix s s' :: "memory_journal \<times> (nat \<Rightarrow> i64)" and i owner stale until r
  show "journal_inv (fst s) \<Longrightarrow> oj_claim_operation memory_journal_ops i owner stale until s = (s', r) \<Longrightarrow>
      journal_inv (fst s') \<and> keeps (journal_record i (fst s)) (journal_record i (fst s'))
      \<and> (\<forall>operation. r = Inr (Some operation) \<longrightarrow> journal_record i (fst s') = Some operation \<and> or_id operation = i)"
    by (auto simp: memory_journal_ops_def clocked_eq dest: memory_claim)
next
  fix s s' :: "memory_journal \<times> (nat \<Rightarrow> i64)" and e u i
  show "journal_inv (fst s) \<Longrightarrow> oj_append_evidence memory_journal_ops e s = (s', u) \<Longrightarrow>
      journal_inv (fst s') \<and> keeps (journal_record i (fst s)) (journal_record i (fst s'))"
    by (auto simp: memory_journal_ops_def clocked_eq memory_evidence)
next
  fix s s' :: "memory_journal \<times> (nat \<Rightarrow> i64)" and i expected new committed u
  show "journal_inv (fst s) \<Longrightarrow> oj_transition memory_journal_ops i expected new committed s = (s', u) \<Longrightarrow>
      journal_inv (fst s') \<and> (changes expected new committed (journal_record i (fst s)) (journal_record i (fst s'))
        \<or> u \<noteq> Inr () \<and> keeps (journal_record i (fst s)) (journal_record i (fst s')))"
    by (auto simp: memory_journal_ops_def clocked_eq dest: memory_transition)
next
  fix s s' :: "memory_journal \<times> (nat \<Rightarrow> i64)" and i seen sep b
  show "journal_inv (fst s) \<Longrightarrow> 0 \<le> sep \<Longrightarrow> oj_confirm_exact_absence memory_journal_ops i seen sep s = (s', b) \<Longrightarrow>
      journal_inv (fst s') \<and> keeps (journal_record i (fst s)) (journal_record i (fst s'))
      \<and> (b = Inr True \<longrightarrow> seen_absent seen sep (journal_record i (fst s')))"
    by (auto simp: memory_journal_ops_def clocked_eq dest: memory_confirm)
qed

section \<open>The file journal\<close>

text \<open>Every call has the clock and the answers of the filesystem for itself.\<close>

definition served ::
  "(journal_io \<Rightarrow> i64 \<Rightarrow> file_journal \<Rightarrow> 'a file_journaled) \<Rightarrow> file_journal \<times> (nat \<Rightarrow> journal_io \<times> i64)
     \<Rightarrow> (file_journal \<times> (nat \<Rightarrow> journal_io \<times> i64)) \<times> (journal_error + 'a)" where
  "served f s = (let (j, r) = f (fst (snd s 0)) (snd (snd s 0)) (fst s) in ((j, \<lambda>k. snd s (Suc k)), r))"

definition file_journal_ops :: "store_codec \<Rightarrow> (file_journal \<times> (nat \<Rightarrow> journal_io \<times> i64)) operation_journal" where
  "file_journal_ops c =
     \<lparr>oj_claim_operation = (\<lambda>i owner stale until.
        served (\<lambda>io. file_claim_reconcilable_operation c io i owner stale until)),
      oj_append_evidence = (\<lambda>e. served (\<lambda>io _. file_append_evidence c io e)),
      oj_transition = (\<lambda>i expected new committed. served (\<lambda>io. file_transition c io i expected new committed)),
      oj_confirm_exact_absence = (\<lambda>i seen sep. served (\<lambda>io. file_confirm_exact_absence c io i seen sep))\<rparr>"

lemma served_eq: "served f s = (s', r) \<longleftrightarrow>
    (\<exists>j. f (fst (snd s 0)) (snd (snd s 0)) (fst s) = (j, r) \<and> s' = (j, \<lambda>k. snd s (Suc k)))"
  by (auto simp: served_def split: prod.splits)

definition serves :: "store_codec \<Rightarrow> nat \<Rightarrow> file_journal \<Rightarrow> bool" where
  "serves c n j \<longleftrightarrow> store_codec_ok c \<and> file_inv c j \<and> (fj_poisoned j = None \<longrightarrow> roomy n j)"

definition file_ready :: "store_codec \<Rightarrow> nat \<Rightarrow> file_journal \<times> (nat \<Rightarrow> journal_io \<times> i64) \<Rightarrow> bool" where
  "file_ready c n s \<longleftrightarrow> serves c n (fst s) \<and> (\<forall>k. publishes_whole (fst (snd s k)))"

lemma serves_less: "serves c (Suc n) j \<Longrightarrow> serves c n j"
  unfolding serves_def roomy_def by (metis Suc_lessD add_Suc_right add_Suc)

lemma file_record_at: "fj_poisoned j = None \<Longrightarrow> file_record i j = os_operation (reducer_at i j)"
  by (simp add: file_record_def current_operation_at)

text \<open>One appended transition, seen from the record of any operation.\<close>

lemma append_seen:
  assumes ready: "serves c (Suc n) j" and whole: "publishes_whole io"
    and run: "append_transition c io i t j = (j', r)"
    and guard: "fj_poisoned j = None \<Longrightarrow> guarded t (reducer_at i j)"
  shows "serves c n j'"
    and "fj_poisoned j' = None \<Longrightarrow> r = Inr () \<or> reducer_at i j' \<noteq> reducer_at i j
      \<Longrightarrow> transition_result i t (reducer_at i j) (reducer_at i j')"
    and "r = Inr () \<Longrightarrow> fj_poisoned j = None \<and> fj_poisoned j' = None"
    and "k \<noteq> i \<or> \<not> transition_result i t (reducer_at i j) (reducer_at i j') \<Longrightarrow>
      file_record k j' = None \<or> file_record k j' = file_record k j"
proof -
  have c: "store_codec_ok c" and inv: "file_inv c j" using ready by (simp_all add: serves_def)
  have poisoned: "j' = j \<and> r \<noteq> Inr ()" if "fj_poisoned j \<noteq> None"
    using run that by (auto simp: append_transition_def ensure_healthy_def)
  have out: "outcome c i t j j' r" if "fj_poisoned j = None"
    using append_outcome [OF c whole inv that _ run, of n] ready that by (simp add: serves_def)
  have "records_follow c j j'" if "fj_poisoned j = None"
    by (rule outcome_follows [OF out [OF that] inv that guard [OF that]])
  then have "file_inv c j'" using poisoned inv by (cases "fj_poisoned j") (auto simp: records_follow_def)
  moreover have "roomy n j'" if "fj_poisoned j' = None"
    using that poisoned ready outcome_roomy [OF out that] by (cases "fj_poisoned j") (auto simp: serves_def)
  ultimately show "serves c n j'" using c by (simp add: serves_def)
  show "transition_result i t (reducer_at i j) (reducer_at i j')"
    if "fj_poisoned j' = None" "r = Inr () \<or> reducer_at i j' \<noteq> reducer_at i j"
    using that poisoned out by (cases "fj_poisoned j") (auto simp: outcome_def)
  show ok: "fj_poisoned j = None \<and> fj_poisoned j' = None" if "r = Inr ()"
    using that poisoned out by (cases "fj_poisoned j") (auto simp: outcome_def)
  show "file_record k j' = None \<or> file_record k j' = file_record k j"
    if "k \<noteq> i \<or> \<not> transition_result i t (reducer_at i j) (reducer_at i j')"
  proof (cases "fj_poisoned j = None \<and> fj_poisoned j' = None")
    case True
    have "reducer_at k j' = reducer_at k j"
      using that out True outcome_others [of c i t j j' r k] by (cases "k = i") (auto simp: outcome_def)
    with True show ?thesis by (simp add: file_record_at)
  next
    case False
    with poisoned show ?thesis by (auto simp: file_record_def)
  qed
qed

text \<open>What a logged transition does to the operation's own record.\<close>

lemma transition_result_record:
  assumes "transition_result i t s s'"
  shows "(\<exists>s1. reduce_operation i t s = Inr s1 \<and> os_operation s' = os_operation s1)"
proof -
  obtain s1 n where "reduce_operation i t s = Inr s1" "s' = s1\<lparr>os_final_event_sequence := n\<rparr>"
    by (rule transition_result_reduce [OF assms])
  then show ?thesis by auto
qed

lemma keeps_append:
  assumes "serves c (Suc n) j" "publishes_whole io" "append_transition c io i t j = (j', r)"
    "fj_poisoned j = None \<Longrightarrow> guarded t (reducer_at i j)"
    and same: "\<And>s s' x. reduce_operation i t s = Inr s' \<Longrightarrow> os_operation s' = Some x \<Longrightarrow>
      \<exists>y. os_operation s = Some y \<and> standing y x"
  shows "keeps (file_record k j) (file_record k j')"
proof (cases "k \<noteq> i \<or> \<not> transition_result i t (reducer_at i j) (reducer_at i j') \<or> fj_poisoned j \<noteq> None
    \<or> fj_poisoned j' \<noteq> None")
  case True
  then have "file_record k j' = None \<or> file_record k j' = file_record k j"
  proof (elim disjE)
    assume "fj_poisoned j \<noteq> None"
    then have "j' = j" using assms(3) by (auto simp: append_transition_def ensure_healthy_def)
    then show ?thesis by simp
  next
    assume "fj_poisoned j' \<noteq> None"
    then show ?thesis by (auto simp: file_record_def)
  qed (use append_seen(4) [OF assms(1-4)] in blast)+
  then show ?thesis by (auto simp: keeps_def)
next
  case False
  then obtain s1 where "reduce_operation i t (reducer_at i j) = Inr s1"
      "os_operation (reducer_at i j') = os_operation s1"
    using transition_result_record by blast
  with same [of "reducer_at i j" s1] False show ?thesis
    by (cases "os_operation s1") (auto simp: keeps_def file_record_at)
qed

lemma file_evidence_law:
  assumes "serves c (Suc n) j" "publishes_whole io" "file_append_evidence c io e j = (j', r)"
  shows "serves c n j' \<and> keeps (file_record k j) (file_record k j')"
proof -
  let ?t = "EvidenceAppended e" and ?i = "er_operation_id e"
  have run: "append_transition c io ?i ?t j = (j', r)" using assms(3) by (simp add: file_append_evidence_def)
  have same: "\<exists>y. os_operation s = Some y \<and> standing y x"
    if "reduce_operation ?i ?t s = Inr s'" "os_operation s' = Some x" for s s' x
    using that by (auto simp: reducer_simps split: option.splits if_splits)
  show ?thesis
    using append_seen(1) [OF assms(1,2) run] keeps_append [OF assms(1,2) run _ same] by simp
qed

lemma file_transition_law:
  assumes "serves c (Suc n) j" "publishes_whole io" "file_transition c io i expected new committed clock j = (j', r)"
  shows "serves c n j' \<and> (changes expected new committed (file_record i j) (file_record i j')
    \<or> r \<noteq> Inr () \<and> keeps (file_record i j) (file_record i j'))"
proof -
  let ?t = "StateChanged expected new committed clock"
  have run: "append_transition c io i ?t j = (j', r)" using assms(3) by (simp add: file_transition_def)
  note seen = append_seen [OF assms(1,2) run, simplified]
  show ?thesis
  proof (cases "transition_result i ?t (reducer_at i j) (reducer_at i j') \<and> fj_poisoned j = None \<and> fj_poisoned j' = None")
    case True
    then obtain s1 where "reduce_operation i ?t (reducer_at i j) = Inr s1"
        "os_operation (reducer_at i j') = os_operation s1"
      using transition_result_record by blast
    with True have "changes expected new committed (file_record i j) (file_record i j')"
      by (auto simp: reducer_simps changes_def file_record_at split: if_splits)
    with seen(1) show ?thesis by blast
  next
    case False
    then have "r \<noteq> Inr ()" using seen(2,3) by auto
    moreover have "file_record i j' = None \<or> file_record i j' = file_record i j"
    proof (cases "fj_poisoned j = None \<and> fj_poisoned j' = None")
      case True
      with False show ?thesis using seen(4) [of i] by blast
    next
      case poisoned: False
      then show ?thesis
        using run by (auto simp: file_record_def append_transition_def ensure_healthy_def split: option.splits)
    qed
    ultimately show ?thesis using seen(1) by (auto simp: keeps_def)
  qed
qed

lemma file_record_id:
  assumes "serves c n j" "file_record i j = Some r" shows "or_id r = i" "record_ok r"
proof -
  have healthy: "fj_poisoned j = None" and r: "current_operation i j = Some r"
    using assms(2) by (auto simp: file_record_def split: if_splits)
  then have ok: "consistent c j" and "record_ok r" using assms(1) by (auto simp: serves_def file_inv_def)
  show "record_ok r" by fact
  obtain entry where entry: "hm_get (fj_entries j) i = Some entry" "os_operation (je_reducer entry) = Some r"
    using r by (auto simp: current_operation_def Option.bind_eq_Some_conv)
  have "hm_get (fj_entries j) i = None \<longleftrightarrow> hm_get (fj_disk j) i = None"
    using ok by (simp add: consistent_def)
  then obtain disk where disk: "hm_get (fj_disk j) i = Some disk" using entry(1) by auto
  have "entry_intact c i entry disk" using consistent_entry [OF ok disk] entry(1) by (metis option.inject)
  with entry(2) show "or_id r = i" by (auto simp: entry_intact_def owned_def)
qed

lemma file_claim_law:
  assumes "serves c (Suc n) j" "publishes_whole io"
    "file_claim_reconcilable_operation c io i owner stale until now j = (j', r)"
  shows "serves c n j' \<and> keeps (file_record i j) (file_record i j')
    \<and> (\<forall>operation. r = Inr (Some operation) \<longrightarrow> file_record i j' = Some operation \<and> or_id operation = i)"
proof (cases "j' = j \<and> \<not> (\<exists>operation. r = Inr (Some operation))")
  case True
  with serves_less [OF assms(1)] show ?thesis by auto
next
  case False
  let ?t = "Claimed owner until"
  obtain u where run: "append_transition c io i ?t j = (j', u)"
      and r: "r = and_then u (\<lambda>_. Inr (current_operation i j'))"
    using False assms(3)
    by (auto simp: file_claim_reconcilable_operation_def Let_def split: sum.splits option.splits if_splits prod.splits)
  note seen = append_seen [OF assms(1,2) run, simplified]
  have same: "\<exists>y. os_operation s = Some y \<and> standing y x"
    if "reduce_operation i ?t s = Inr s'" "os_operation s' = Some x" for s s' x
    using that by (auto simp: reducer_simps standing_def split: if_splits)
  have "file_record i j' = Some operation \<and> or_id operation = i" if "r = Inr (Some operation)" for operation
  proof -
    have "current_operation i j' = Some operation" "u = Inr ()" using that r by (auto simp: result_simps)
    with seen(3) have "file_record i j' = Some operation" by (simp add: file_record_def)
    with file_record_id(1) [OF seen(1)] show ?thesis by simp
  qed
  with seen(1) keeps_append [OF assms(1,2) run _ same, where k = i] show ?thesis by simp
qed

lemma file_confirm_law:
  assumes ready: "serves c (Suc n) j" "publishes_whole io" and sep: "0 \<le> sep"
    and run: "file_confirm_exact_absence c io i seen sep clock j = (j', b)"
  shows "serves c n j' \<and> keeps (file_record i j) (file_record i j')
    \<and> (b = Inr True \<longrightarrow> seen_absent seen sep (file_record i j'))"
proof (cases "j' = j")
  case True
  have "seen_absent seen sep (file_record i j)" if yes: "b = Inr True"
  proof -
    have healthy: "fj_poisoned j = None"
      using yes run by (auto simp: file_confirm_exact_absence_def ensure_healthy_def result_simps Let_def
          split: sum.splits option.splits if_splits prod.splits)
    obtain x first where x: "current_operation i j = Some x" "or_exact_absence_observed_at_ms x = Some first"
        "i64_saturating_sub seen first \<ge> sep"
      using yes run by (auto simp: file_confirm_exact_absence_def ok_or_def result_simps Let_def
          split: sum.splits option.splits if_splits prod.splits)
    have found: "file_record i j = Some x" using healthy x(1) by (simp add: file_record_def)
    have "first + sep \<le> seen" by (rule saturated_difference [OF x(3) sep])
    moreover have "\<forall>t. or_mutation_not_before_ms x = Some t \<longrightarrow> t \<le> first"
      using file_record_id(2) [OF ready(1) found] x(2) by (simp add: record_ok_def)
    ultimately show ?thesis using found by (auto simp: seen_absent_def)
  qed
  with True serves_less [OF ready(1)] show ?thesis by simp
next
  case False
  let ?t = "ExactAbsenceObserved seen clock"
  obtain x u where x: "current_operation i j = Some x"
      and late: "\<forall>t. or_mutation_not_before_ms x = Some t \<longrightarrow> t \<le> seen"
      and append: "append_transition c io i ?t j = (j', u)" and b: "b \<noteq> Inr True"
    using False run
    by (auto simp: file_confirm_exact_absence_def ok_or_def result_simps Let_def
        split: sum.splits option.splits if_splits prod.splits)
  have guard: "guarded ?t (reducer_at i j)" using x late by (simp add: current_operation_at)
  have same: "\<exists>y. os_operation s = Some y \<and> standing y x"
    if "reduce_operation i ?t s = Inr s'" "os_operation s' = Some x" for s s' x
    using that by (auto simp: reducer_simps standing_def split: if_splits)
  show ?thesis
    using append_seen(1) [OF ready append guard] keeps_append [OF ready append guard same, where k = i] b by simp
qed

lemma file_ready_call:
  assumes "file_ready c n s" "served f s = (s', r)"
  obtains j where "f (fst (snd s 0)) (snd (snd s 0)) (fst s) = (j, r)" "fst s' = j"
    "serves c n (fst s)" "publishes_whole (fst (snd s 0))"
    "\<And>m. serves c m j \<Longrightarrow> file_ready c m s'"
  using assms by (auto simp: served_eq file_ready_def)

interpretation frj: reconciled_journal "file_journal_ops c" "file_ready c" "\<lambda>i s. file_record i (fst s)" for c
proof
  fix s s' :: "file_journal \<times> (nat \<Rightarrow> journal_io \<times> i64)" and n i owner stale until r
  assume ready: "file_ready c (Suc n) s"
    and "oj_claim_operation (file_journal_ops c) i owner stale until s = (s', r)"
  then have "served (\<lambda>io. file_claim_reconcilable_operation c io i owner stale until) s = (s', r)"
    by (simp add: file_journal_ops_def)
  from ready this show "file_ready c n s' \<and> keeps (file_record i (fst s)) (file_record i (fst s'))
      \<and> (\<forall>operation. r = Inr (Some operation) \<longrightarrow> file_record i (fst s') = Some operation \<and> or_id operation = i)"
    by (rule file_ready_call) (metis file_claim_law)
next
  fix s s' :: "file_journal \<times> (nat \<Rightarrow> journal_io \<times> i64)" and n e u i
  assume ready: "file_ready c (Suc n) s" and "oj_append_evidence (file_journal_ops c) e s = (s', u)"
  then have "served (\<lambda>io _. file_append_evidence c io e) s = (s', u)" by (simp add: file_journal_ops_def)
  from ready this show "file_ready c n s' \<and> keeps (file_record i (fst s)) (file_record i (fst s'))"
    by (rule file_ready_call) (metis file_evidence_law)
next
  fix s s' :: "file_journal \<times> (nat \<Rightarrow> journal_io \<times> i64)" and n i expected new committed u
  assume ready: "file_ready c (Suc n) s"
    and "oj_transition (file_journal_ops c) i expected new committed s = (s', u)"
  then have "served (\<lambda>io. file_transition c io i expected new committed) s = (s', u)"
    by (simp add: file_journal_ops_def)
  from ready this show "file_ready c n s' \<and>
      (changes expected new committed (file_record i (fst s)) (file_record i (fst s'))
        \<or> u \<noteq> Inr () \<and> keeps (file_record i (fst s)) (file_record i (fst s')))"
    by (rule file_ready_call) (metis file_transition_law)
next
  fix s s' :: "file_journal \<times> (nat \<Rightarrow> journal_io \<times> i64)" and n i seen sep b
  assume ready: "file_ready c (Suc n) s" and sep: "0 \<le> sep"
    and "oj_confirm_exact_absence (file_journal_ops c) i seen sep s = (s', b)"
  then have "served (\<lambda>io. file_confirm_exact_absence c io i seen sep) s = (s', b)"
    by (simp add: file_journal_ops_def)
  from ready this show "file_ready c n s' \<and> keeps (file_record i (fst s)) (file_record i (fst s'))
      \<and> (b = Inr True \<longrightarrow> seen_absent seen sep (file_record i (fst s')))"
    by (rule file_ready_call) (metis file_confirm_law [OF _ _ sep])
qed

section \<open>Properties\<close>



section \<open>Witnesses\<close>

definition ex_meta :: stored_object_meta where
  "ex_meta = \<lparr>om_etag = Some ''e'', om_version_id = Some ''v1'', om_superseded_version_ids = [''v0''],
     om_version_history_complete = True\<rparr>"

definition ex_env :: reconcile_env where
  "ex_env = \<lparr>rv_now = 100000, rv_observed_at = 100010,
     rv_evidence = (\<lambda>kind. (if kind = ''reconcile_started'' then 1 else 2, 100000))\<rparr>"

definition ex_backend :: "unit transaction_backend" where
  "ex_backend =
     \<lparr>tb_capabilities = \<lparr>bc_incomplete_upload_discovery = OperationIdentity, bc_abort_incomplete_upload = True,
        bc_cleanup_sla = Some 1000, bc_lifecycle_rule = False, bc_versioning = VersioningOptional,
        bc_conditional_reads = Etag, bc_response_checksums = ChecksumUnsupported, bc_list_operations = V1AndV2,
        bc_multipart_responses = MultipartStandard, bc_completion_reconciliation = HeadWithOperationIdentity\<rparr>,
      tb_exact_version_recovery = False,
      tb_abort_multipart = (\<lambda>_ _ b. (b, Inr ())),
      tb_discover_incomplete = (\<lambda>_ b. (b, Inr [\<lparr>du_upload_id = ''u'', du_key = ''k'', du_initiated_at_ms = None\<rparr>])),
      tb_delete_object_version = (\<lambda>_ _ b. (b, Inr ())),
      tb_probe_completion = (\<lambda>_ b. (b, Inr (ProbeCommitted ex_meta)))\<rparr>"

definition ex_kept :: stored_object_meta where
  "ex_kept = ex_meta\<lparr>om_version_history_complete := False\<rparr>"

text \<open>The events of one operation that completes with an unknown outcome and is then found committed.\<close>

definition ex_history :: "operation_transition list" where
  "ex_history =
     [IntentInserted ex_intent, Opened None 11, StateChanged Open Completing None 12, Claimed ''w'' 130000,
      EvidenceAppended (evidence_new 1 100000 7 ''reconcile_started''
        (JObject [(''owner'', JString ''w''), (''state'', JString ''COMPLETING'')])),
      StateChanged Completing CommitUnknown None 100002,
      EvidenceAppended (evidence_new 2 100000 7 ''provider_version_history_ambiguous''
        (JObject [(''reconciled'', JBool True), (''superseded_version_ids'', JArray [JString ''v0'']),
                  (''version_id'', JString ''v1'')])),
      StateChanged CommitUnknown Committed (Some ex_kept) 100004]"

definition ex_abort_history :: "operation_transition list" where
  "ex_abort_history =
     [IntentInserted ex_intent, Claimed ''w'' 130000,
      EvidenceAppended (evidence_new 1 100000 7 ''reconcile_started''
        (JObject [(''owner'', JString ''w''), (''state'', JString ''INTENT'')])),
      StateChanged Intent Aborting None 100002, StateChanged Aborting ProvenAborted None 100003]"

text \<open>A store for the events of one history.\<close>

definition ex_logged_event :: "operation_transition list \<Rightarrow> nat \<Rightarrow> operation_event" where
  "ex_logged_event h k = event_of (of_nat k + 1) 7 (h ! k)"

definition ex_log_store :: "operation_transition list \<Rightarrow> store_codec" where
  "ex_log_store h = \<lparr>st_sha = ex_sha,
     st_encode = (\<lambda>e. let k = unat (oe_sequence e) - 1
        in if k < 8 \<and> e = ex_logged_event h k then Some [of_nat k] else None),
     st_decode = (\<lambda>p. case p of [b] \<Rightarrow> if unat b < 8 then Some (ex_logged_event h (unat b)) else None | _ \<Rightarrow> None)\<rparr>"

lemma ex_log_store_ok: "store_codec_ok (ex_log_store h)"
  by (auto simp: store_codec_ok_def ex_log_store_def ex_sha_length codec_def Let_def unat_of_nat split: if_splits)

definition ex_call :: "operation_transition list \<Rightarrow> journal_operation \<Rightarrow> file_journal \<Rightarrow> file_journal" where
  "ex_call h op j = file_run (ex_log_store h) (\<lambda>_. ex_io AppendDone) op j"

definition ex_intended :: "operation_transition list \<Rightarrow> file_journal" where
  "ex_intended h = ex_call h (InsertIntent ex_intent) file_journal_new"

definition ex_opened :: file_journal where
  "ex_opened = ex_call ex_history (SetOpen 7 None 11) (ex_intended ex_history)"

definition ex_completing :: file_journal where
  "ex_completing = ex_call ex_history (Transition 7 Open Completing None 12) ex_opened"

definition ex_outline :: "file_journal \<Rightarrow> uuid list \<times> nat list \<times> string option \<times> operation_state option" where
  "ex_outline j = (map fst (fj_entries j), map (unat \<circ> os_final_event_sequence \<circ> je_reducer \<circ> snd) (fj_entries j),
     fj_poisoned j, map_option or_state (file_record 7 j))"

lemma ex_outline_intended: "ex_outline (ex_intended ex_history) = ([7], [1], None, Some Intent)"
  by code_simp

lemma ex_outline_abort: "ex_outline (ex_intended ex_abort_history) = ([7], [1], None, Some Intent)"
  by code_simp

lemma ex_outline_opened: "ex_outline ex_opened = ([7], [2], None, Some Open)"
  by code_simp

lemma ex_outline_completing: "ex_outline ex_completing = ([7], [3], None, Some Completing)"
  by code_simp

lemmas ex_outlines = ex_outline_intended ex_outline_abort ex_outline_opened ex_outline_completing

lemma ex_roomy:
  assumes "ex_outline j = ([7], [n], None, st)" "n + m + 1 < 2 ^ 64" shows "roomy m j"
proof -
  obtain e where "fj_entries j = [(7, e)]" "unat (os_final_event_sequence (je_reducer e)) = n"
    using assms(1) by (cases "fj_entries j") (auto simp: ex_outline_def)
  then have low: "unat (os_final_event_sequence (reducer_at i j)) \<le> n" for i
    by (auto simp: reducer_at_def reducer_of_def hm_get_def operation_snapshot_default_def)
  have "unat (os_final_event_sequence (reducer_at i j)) + m + 1 < 2 ^ 64" for i using low [of i] assms(2) by simp
  then show ?thesis unfolding roomy_def by blast
qed

lemma ex_call_reachable:
  assumes "file_reachable (ex_log_store h) j" "plain_intent op" "roomy (length (fj_entries j) + 1) j"
  shows "file_reachable (ex_log_store h) (ex_call h op j)"
proof (rule file_reachable.called [OF assms(1)])
  show "file_moves (ex_log_store h) j (ex_call h op j)"
    unfolding file_moves_def ex_call_def
    using assms(2,3) ex_io_whole by (intro exI [of _ "\<lambda>_. ex_io AppendDone"] exI [of _ op]) simp
qed

lemma ex_outline_call:
  assumes "file_reachable (ex_log_store h) j" "plain_intent op" "ex_outline j = ([7], [n], None, st)" "n < 1000"
  shows "file_reachable (ex_log_store h) (ex_call h op j)"
proof (rule ex_call_reachable [OF assms(1,2)])
  have "length (fj_entries j) = 1" using assms(3) by (cases "fj_entries j") (auto simp: ex_outline_def)
  then show "roomy (length (fj_entries j) + 1) j" using ex_roomy [OF assms(3)] assms(4) by simp
qed

lemma ex_recovery_reachable:
  "file_reachable (ex_log_store h) (ex_intended h)" "file_reachable (ex_log_store ex_history) ex_completing"
proof -
  have plain: "plain_intent (InsertIntent ex_intent)" by code_simp
  show new: "file_reachable (ex_log_store h) (ex_intended h)" for h
    unfolding ex_intended_def using plain ex_file_roomy
    by (intro ex_call_reachable file_reachable.created) (simp_all add: file_journal_new_def)
  have "file_reachable (ex_log_store ex_history) ex_opened"
    unfolding ex_opened_def by (rule ex_outline_call [OF new _ ex_outlines(1)]) simp_all
  then show "file_reachable (ex_log_store ex_history) ex_completing"
    unfolding ex_completing_def by (rule ex_outline_call [OF _ _ ex_outlines(3)]) simp_all
qed

definition ex_reconciler ::
  "operation_transition list \<Rightarrow> (file_journal \<times> (nat \<Rightarrow> journal_io \<times> i64), unit) operation_reconciler" where
  "ex_reconciler h = \<lparr>rc_journal = file_journal_ops (ex_log_store h), rc_backend = ex_backend, rc_owner = ''w'',
     rc_lease = 30000, rc_exact_absence_confirmation_delay = EXACT_ABSENCE_CONFIRMATION_DELAY\<rparr>"

definition ex_world :: "file_journal \<Rightarrow> (file_journal \<times> (nat \<Rightarrow> journal_io \<times> i64), unit) world" where
  "ex_world j = \<lparr>w_journal = (j, \<lambda>k. (ex_io AppendDone, 100000 + int k)), w_backend = (), w_calls = []\<rparr>"

definition ex_end :: "(file_journal \<times> (nat \<Rightarrow> journal_io \<times> i64), unit) world \<times> (transaction_error + bool)
    \<Rightarrow> (transaction_error + bool) \<times> operation_state option \<times> stored_object_meta option" where
  "ex_end out = (snd out, map_option or_state (file_record 7 (fst (w_journal (fst out)))),
     Option.bind (file_record 7 (fst (w_journal (fst out)))) or_committed)"

lemma ex_reconciled_commit:
  "ex_end (reconcile_operation (ex_reconciler ex_history) ex_env 7 1000 (ex_world ex_completing))
     = (Inr True, Some Committed, Some ex_kept)"
  by code_simp

lemma ex_reconciled_abort:
  "ex_end (reconcile_operation (ex_reconciler ex_abort_history) ex_env 7 1000 (ex_world (ex_intended ex_abort_history)))
     = (Inr True, Some ProvenAborted, None)"
  by code_simp

lemma ex_ready:
  assumes "file_reachable (ex_log_store h) j" "ex_outline j = ([7], [n], None, st)" "n + m + 1 < 2 ^ 64"
  shows "file_ready (ex_log_store h) m (w_journal (ex_world j))"
  using assms file_reachable_inv ex_log_store_ok ex_roomy ex_io_whole
  by (simp add: file_ready_def serves_def ex_world_def)



end
