(* ===== verification/Pii_Redaction.thy ===== *)
theory Pii_Redaction
  imports Prelude "HOL-Library.Product_Lexorder"
begin

text \<open>
  Detection and redaction of personal data in the filter plugins
  (\<open>plugins/shared/pii/src/lib.rs\<close>, exported by the \<open>pii\<close>, \<open>email\<close>, \<open>ssn\<close> and
  \<open>payment-card\<close> filters). A text is its list of bytes. Slices are taken at
  positions next to ASCII bytes only, so no substring splits a character.
\<close>

section \<open>Kinds and validity\<close>

datatype pii_kind = Email | Card | Ssn

fun marker :: "pii_kind \<Rightarrow> string" where
  "marker Email = ''[REDACTED_EMAIL]''"
| "marker Card = ''[REDACTED_CARD]''"
| "marker Ssn = ''[REDACTED_SSN]''"

type_synonym span = "nat \<times> nat \<times> string"

definition is_ascii_digit :: "char \<Rightarrow> bool" where
  "is_ascii_digit c \<longleftrightarrow> 48 \<le> (of_char c :: nat) \<and> (of_char c :: nat) \<le> 57"

definition to_digit :: "char \<Rightarrow> nat" where
  "to_digit c = (if is_ascii_digit c then of_char c - 48 else 0)"

definition is_valid_email :: "string \<Rightarrow> bool" where
  "is_valid_email s \<longleftrightarrow> s \<noteq> [] \<and> CHR ''@'' \<in> set s \<and> CHR ''.'' \<in> set s \<and> length s \<le> 254"

definition luhn_digit :: "nat \<Rightarrow> char \<Rightarrow> nat" where
  "luhn_digit i c =
     (let d = to_digit c
      in if i mod 2 = 1 then (let doubled = d * 2 in if doubled > 9 then doubled - 9 else doubled) else d)"

definition luhn_check :: "string \<Rightarrow> bool" where
  "luhn_check s \<longleftrightarrow> sum_list (map (\<lambda>(i, c). luhn_digit i c) (List.enumerate 0 (rev s))) mod 10 = 0"

definition is_valid_card :: "string \<Rightarrow> bool" where
  "is_valid_card digits \<longleftrightarrow>
     \<not> (length digits < 13 \<or> length digits > 19 \<or> \<not> list_all is_ascii_digit digits) \<and> luhn_check digits"

definition is_valid_ssn_format :: "string \<Rightarrow> bool" where
  "is_valid_ssn_format s \<longleftrightarrow>
     length s = 9 \<and> list_all is_ascii_digit s
     \<or> length s = 11 \<and> s ! 3 = CHR ''-'' \<and> s ! 6 = CHR ''-''
       \<and> list_all is_ascii_digit (take 3 s) \<and> list_all is_ascii_digit (take 2 (drop 4 s))
       \<and> list_all is_ascii_digit (drop 7 s)"

definition parse_digits :: "string \<Rightarrow> nat" where
  "parse_digits s = foldl (\<lambda>n c. 10 * n + to_digit c) 0 s"

definition is_valid_ssn :: "string \<Rightarrow> bool" where
  "is_valid_ssn digits \<longleftrightarrow>
     length digits = 9 \<and> list_all is_ascii_digit digits
     \<and> (let area = parse_digits (take 3 digits); group = parse_digits (take 2 (drop 3 digits));
             serial = parse_digits (drop 5 digits)
        in \<not> (area = 0 \<or> area = 666 \<or> area > 899 \<or> group = 0 \<or> serial = 0))"

section \<open>Tokens\<close>

text \<open>The loops that move a position left and right while a class of bytes lasts.\<close>

fun scan_left :: "(char \<Rightarrow> bool) \<Rightarrow> string \<Rightarrow> nat \<Rightarrow> nat" where
  "scan_left p bytes 0 = 0"
| "scan_left p bytes (Suc s) = (if p (bytes ! s) then scan_left p bytes s else Suc s)"

function scan_right :: "(char \<Rightarrow> bool) \<Rightarrow> string \<Rightarrow> nat \<Rightarrow> nat" where
  "scan_right p bytes e = (if e < length bytes \<and> p (bytes ! e) then scan_right p bytes (Suc e) else e)"
  by pat_completeness auto
termination by (relation "measure (\<lambda>(p, bytes, e). length bytes - e)") auto

declare scan_right.simps [simp del]

definition run_byte :: "char \<Rightarrow> bool" where
  "run_byte b \<longleftrightarrow> is_ascii_digit b \<or> b = CHR '' '' \<or> b = CHR ''-''"

definition substring :: "string \<Rightarrow> nat \<Rightarrow> nat \<Rightarrow> string" where
  "substring s a b = take (b - a) (drop a s)"

definition find_digit_token :: "string \<Rightarrow> nat \<Rightarrow> (nat \<times> nat) option" where
  "find_digit_token bytes start =
     (let s = scan_left run_byte bytes start; e = scan_right run_byte bytes start
      in if e \<le> s then None
         else if length (filter is_ascii_digit (substring bytes s e)) = 0 then None
         else Some (s, e))"

definition email_boundary :: "char \<Rightarrow> bool" where
  "email_boundary b \<longleftrightarrow> b \<in> {CHR '' '', CHR 0x0A, CHR 0x0D, CHR 0x09, CHR '','', CHR 0x22, CHR ''&''}"

definition find_email_boundary :: "string \<Rightarrow> nat \<Rightarrow> (nat \<times> nat) option" where
  "find_email_boundary bytes at_pos =
     (let s = scan_left (\<lambda>b. \<not> email_boundary b) bytes at_pos;
          e = scan_right (\<lambda>b. \<not> email_boundary b) bytes (at_pos + 1)
      in if s < at_pos \<and> e > at_pos + 1 then Some (s, e) else None)"

section \<open>Spans\<close>

text \<open>The email found at one position.\<close>

definition email_at :: "string \<Rightarrow> nat \<Rightarrow> (nat \<times> nat) option" where
  "email_at input i =
     (if input ! i = CHR ''@'' then
        case find_email_boundary input i of
          None \<Rightarrow> None
        | Some (s, e) \<Rightarrow> if is_valid_email (substring input s e) then Some (s, e) else None
      else None)"

text \<open>The digit token around one position, without the separators at its ends.\<close>

fun trim_left :: "string \<Rightarrow> nat \<Rightarrow> nat \<Rightarrow> nat" where
  "trim_left bytes s 0 = s"
| "trim_left bytes s (Suc n) = (if \<not> is_ascii_digit (bytes ! s) then trim_left bytes (Suc s) n else s)"

fun trim_right :: "string \<Rightarrow> nat \<Rightarrow> nat \<Rightarrow> nat" where
  "trim_right bytes s 0 = 0"
| "trim_right bytes s (Suc e) =
     (if s < Suc e \<and> \<not> is_ascii_digit (bytes ! e) then trim_right bytes s e else Suc e)"

definition digits_at :: "string \<Rightarrow> nat \<Rightarrow> (nat \<times> nat) option" where
  "digits_at input i =
     (if is_ascii_digit (input ! i) then
        case find_digit_token input i of
          None \<Rightarrow> None
        | Some (start, end') \<Rightarrow>
            let s = trim_left input start (end' - start); e = trim_right input s end'
            in if s \<ge> e then None else Some (s, e)
      else None)"

definition digits_only :: "string \<Rightarrow> string" where
  "digits_only candidate = filter is_ascii_digit candidate"

definition is_card :: "string \<Rightarrow> bool" where
  "is_card candidate \<longleftrightarrow>
     13 \<le> length (digits_only candidate) \<and> length (digits_only candidate) \<le> 19
     \<and> is_valid_card (digits_only candidate)"

definition is_ssn :: "string \<Rightarrow> bool" where
  "is_ssn candidate \<longleftrightarrow>
     length (digits_only candidate) = 9 \<and> is_valid_ssn_format candidate \<and> is_valid_ssn (digits_only candidate)"

text \<open>What the body of each scan pushes at one position.\<close>

definition span_at :: "pii_kind \<Rightarrow> string \<Rightarrow> nat \<Rightarrow> span option" where
  "span_at kind input i =
     (if kind = Email then map_option (\<lambda>(s, e). (s, e, marker kind)) (email_at input i)
      else case digits_at input i of
        None \<Rightarrow> None
      | Some (s, e) \<Rightarrow>
          if (if kind = Card then is_card (substring input s e) else is_ssn (substring input s e))
          then Some (s, e, marker kind) else None)"

definition any_span_at :: "string \<Rightarrow> nat \<Rightarrow> span option" where
  "any_span_at input i =
     (case email_at input i of
        Some (s, e) \<Rightarrow> Some (s, e, marker Email)
      | None \<Rightarrow>
        (case digits_at input i of
           None \<Rightarrow> None
         | Some (s, e) \<Rightarrow>
             if is_card (substring input s e) then Some (s, e, marker Card)
             else if is_ssn (substring input s e) then Some (s, e, marker Ssn)
             else None))"

text \<open>Every span ends behind the position it was found at.\<close>

lemma scan_right_le: "e \<le> scan_right p bytes e"
  by (induction p bytes e rule: scan_right.induct) (subst scan_right.simps, auto)

lemma email_at_progress: "email_at input i = Some (s, e) \<Longrightarrow> i < e"
  by (auto simp: email_at_def find_email_boundary_def Let_def split: if_splits option.splits)

lemma trim_right_digit: "i < e \<Longrightarrow> is_ascii_digit (bytes ! i) \<Longrightarrow> i < trim_right bytes s e"
proof (induction e)
  case (Suc e)
  then show ?case by (cases "i = e") auto
qed simp

lemma digits_at_progress:
  assumes "digits_at input i = Some (s, e)" "i < length input" shows "i < e"
proof -
  have digit: "is_ascii_digit (input ! i)" using assms(1) by (auto simp: digits_at_def split: if_splits)
  have "i < scan_right run_byte input i"
    using assms(2) digit scan_right_le [of "Suc i" run_byte input]
    by (subst scan_right.simps) (auto simp: run_byte_def)
  then show ?thesis
    using assms(1) digit trim_right_digit
    by (auto simp: digits_at_def find_digit_token_def Let_def split: if_splits option.splits)
qed

lemma span_at_progress: "span_at kind input i = Some (s, e, m) \<Longrightarrow> i < length input \<Longrightarrow> i < e"
  by (auto simp: span_at_def dest: email_at_progress digits_at_progress split: if_splits option.splits)

lemma any_span_at_progress: "any_span_at input i = Some (s, e, m) \<Longrightarrow> i < length input \<Longrightarrow> i < e"
  by (auto simp: any_span_at_def dest: email_at_progress digits_at_progress split: if_splits option.splits)

function find_spans_loop :: "pii_kind \<Rightarrow> string \<Rightarrow> nat \<Rightarrow> span list \<Rightarrow> span list" where
  "find_spans_loop kind input i spans =
     (if i < length input then
        case span_at kind input i of
          Some (s, e, m) \<Rightarrow> find_spans_loop kind input e (spans @ [(s, e, m)])
        | None \<Rightarrow> find_spans_loop kind input (i + 1) spans
      else spans)"
  by pat_completeness auto
termination
  by (relation "measure (\<lambda>(kind, input, i, spans). length input - i)") (auto dest: span_at_progress)

declare find_spans_loop.simps [simp del]

definition find_spans :: "string \<Rightarrow> pii_kind \<Rightarrow> span list" where
  "find_spans input kind = find_spans_loop kind input 0 []"

function find_all_spans_loop :: "string \<Rightarrow> nat \<Rightarrow> span list \<Rightarrow> span list" where
  "find_all_spans_loop input i spans =
     (if i < length input then
        case any_span_at input i of
          Some (s, e, m) \<Rightarrow> find_all_spans_loop input e (spans @ [(s, e, m)])
        | None \<Rightarrow> find_all_spans_loop input (i + 1) spans
      else spans)"
  by pat_completeness auto
termination
  by (relation "measure (\<lambda>(input, i, spans). length input - i)") (auto dest: any_span_at_progress)

declare find_all_spans_loop.simps [simp del]

definition find_all_spans :: "string \<Rightarrow> span list" where
  "find_all_spans input = find_all_spans_loop input 0 []"

section \<open>Replacement\<close>

text \<open>\<open>dedup_by_key\<close> drops an element whose key is that of the last one kept.\<close>

fun dedup_by_start :: "nat option \<Rightarrow> span list \<Rightarrow> span list" where
  "dedup_by_start kept [] = []"
| "dedup_by_start kept ((s, e, m) # spans) =
     (if kept = Some s then dedup_by_start kept spans else (s, e, m) # dedup_by_start (Some s) spans)"

fun replace_loop :: "string \<Rightarrow> nat \<Rightarrow> string \<Rightarrow> span list \<Rightarrow> string" where
  "replace_loop input pos output [] = output @ drop pos input"
| "replace_loop input pos output ((start, end', replacement) # spans) =
     (if start < pos then replace_loop input pos output spans
      else replace_loop input end' (output @ substring input pos start @ replacement) spans)"

definition replace_spans :: "string \<Rightarrow> span list \<Rightarrow> string" where
  "replace_spans input spans =
     (let sorted = dedup_by_start None (sort_key (\<lambda>(start, end', _). (start, end')) spans);
          output = replace_loop input 0 [] sorted
      in if output = input then input else output)"

definition redact_pii :: "string \<Rightarrow> string" where
  "redact_pii input = replace_spans input (find_all_spans input)"

definition redact_emails :: "string \<Rightarrow> string" where
  "redact_emails input = replace_spans input (find_spans input Email)"

definition redact_cards :: "string \<Rightarrow> string" where
  "redact_cards input = replace_spans input (find_spans input Card)"

definition redact_ssns :: "string \<Rightarrow> string" where
  "redact_ssns input = replace_spans input (find_spans input Ssn)"

end
