(* ===== verification/Pii_Runs.thy ===== *)
theory Pii_Runs
  imports Pii_Redaction
begin

text \<open>
  What a scan followed by the replacement does to a text: it rewrites every maximal
  run of one class of bytes on its own. The locale \<open>run_scanner\<close> states what a scan
  has to satisfy for this; the scans of the four redactions are its instances.
\<close>

section \<open>Rewriting run by run\<close>

text \<open>
  The reference: \<open>classify\<close> gives, for a run to rewrite, the number of bytes that are
  kept at its left and right end, and the replacement of the rest.
\<close>

type_synonym verdict = "(nat \<times> nat \<times> string) option"

definition rewrite_run :: "verdict \<Rightarrow> string \<Rightarrow> string" where
  "rewrite_run v t =
     (case v of None \<Rightarrow> t | Some (l, r, m) \<Rightarrow> take l t @ m @ drop (length t - r) t)"

function map_runs :: "(char \<Rightarrow> bool) \<Rightarrow> (string \<Rightarrow> verdict) \<Rightarrow> string \<Rightarrow> string" where
  "map_runs p classify [] = []"
| "map_runs p classify (x # xs) =
     (if p x then
        (let t = takeWhile p (x # xs) in rewrite_run (classify t) t @ map_runs p classify (dropWhile p (x # xs)))
      else x # map_runs p classify xs)"
  by pat_completeness auto
termination
  by (relation "measure (\<lambda>(p, c, xs). length xs)") (auto simp: le_imp_less_Suc length_dropWhile_le)

fun run_span :: "nat \<Rightarrow> nat \<Rightarrow> verdict \<Rightarrow> span option" where
  "run_span i n None = None"
| "run_span i n (Some (l, r, m)) = Some (i + l, i + n - r, m)"

function run_spans :: "(char \<Rightarrow> bool) \<Rightarrow> (string \<Rightarrow> verdict) \<Rightarrow> nat \<Rightarrow> string \<Rightarrow> span list" where
  "run_spans p classify i [] = []"
| "run_spans p classify i (x # xs) =
     (if p x then
        (let t = takeWhile p (x # xs)
         in (case run_span i (length t) (classify t) of None \<Rightarrow> [] | Some s \<Rightarrow> [s])
            @ run_spans p classify (i + length t) (dropWhile p (x # xs)))
      else run_spans p classify (Suc i) xs)"
  by pat_completeness auto
termination
  by (relation "measure (\<lambda>(p, c, i, xs). length xs)") (auto simp: le_imp_less_Suc length_dropWhile_le)

section \<open>Maximal runs and positions\<close>

lemma scan_left_run:
  assumes "\<And>k. k < n \<Longrightarrow> p (t ! k)" "n \<le> length t" "pre = [] \<or> \<not> p (last pre)"
  shows "scan_left p (pre @ t @ post) (length pre + n) = length pre"
  using assms(1,2)
proof (induction n)
  case 0
  show ?case
  proof (cases "length pre")
    case (Suc k)
    then have "(pre @ t @ post) ! k = last pre" by (cases pre rule: rev_cases) (auto simp: nth_append)
    then show ?thesis using assms(3) Suc by auto
  qed simp
next
  case (Suc n)
  then show ?case by (simp add: nth_append)
qed

lemma scan_right_run:
  assumes "\<And>k. k < length t \<Longrightarrow> p (t ! k)" "n \<le> length t" "post = [] \<or> \<not> p (hd post)"
  shows "scan_right p (pre @ t @ post) (length pre + n) = length pre + length t"
  using assms(2)
proof (induction "length t - n" arbitrary: n)
  case 0
  then have n: "n = length t" by simp
  show ?case
    using assms(3) by (subst scan_right.simps) (auto simp: n nth_append hd_conv_nth)
next
  case (Suc d)
  then have n: "n < length t" "p (t ! n)" using assms(1) by auto
  have "scan_right p (pre @ t @ post) (length pre + Suc n) = length pre + length t"
    using Suc n by (intro Suc(1)) auto
  then show ?case using n by (subst scan_right.simps) (auto simp: nth_append)
qed

lemma substring_middle: "substring (pre @ t @ post) (length pre + a) (length pre + b) = substring (t @ post) a b"
  by (simp add: substring_def)

lemma substring_inside: "b \<le> length t \<Longrightarrow> substring (t @ post) a b = substring t a b"
  by (simp add: substring_def)

lemma takeWhile_all: "k < length (takeWhile p xs) \<Longrightarrow> p (takeWhile p xs ! k)"
  by (meson nth_mem set_takeWhileD)

lemma dropWhile_stops: "dropWhile p xs = [] \<or> \<not> p (hd (dropWhile p xs))"
  using hd_dropWhile [of p xs] by auto

section \<open>Replacing the spans of runs\<close>

definition fitting :: "(string \<Rightarrow> verdict) \<Rightarrow> bool" where
  "fitting classify \<longleftrightarrow> (\<forall>t l r m. classify t = Some (l, r, m) \<longrightarrow> l + r < length t)"

lemma run_spans_bounds:
  "fitting classify \<Longrightarrow> (s, e, m) \<in> set (run_spans p classify i xs) \<Longrightarrow> i \<le> s \<and> s < e"
proof (induction p classify i xs rule: run_spans.induct)
  case (2 p classify i x xs)
  show ?case
  proof (cases "p x")
    case True
    then show ?thesis
      using "2.prems" "2.IH"(1) [OF True refl]
      by (cases "classify (takeWhile p (x # xs))")
         (fastforce simp: Let_def fitting_def split: option.splits)+
  next
    case False
    then show ?thesis using 2 by fastforce
  qed
qed simp

lemma run_spans_sorted:
  "fitting classify \<Longrightarrow> sorted_wrt (\<lambda>a b. fst a < fst b) (run_spans p classify i xs)"
proof (induction p classify i xs rule: run_spans.induct)
  case (2 p classify i x xs)
  show ?case
  proof (cases "p x")
    case True
    then show ?thesis
      using "2.prems" "2.IH"(1) [OF True refl]
        run_spans_bounds [OF "2.prems", where p = p and i = "i + length (takeWhile p (x # xs))"
          and xs = "dropWhile p (x # xs)"]
      by (cases "classify (takeWhile p (x # xs))")
         (fastforce simp: Let_def fitting_def split: option.splits)+
  next
    case False
    then show ?thesis using 2 by simp
  qed
qed simp

lemma dedup_by_start_sorted:
  "sorted_wrt (\<lambda>a b. fst a < fst b) spans \<Longrightarrow> (\<And>k s. kept = Some k \<Longrightarrow> s \<in> set spans \<Longrightarrow> k < fst s)
   \<Longrightarrow> dedup_by_start kept spans = spans"
  by (induction kept spans rule: dedup_by_start.induct) fastforce+

lemma sort_key_starts:
  assumes "sorted_wrt (\<lambda>a b. fst a < fst b) spans"
  shows "sort_key (\<lambda>(start, end', _). (start, end')) spans = spans"
proof -
  have "sorted (map (\<lambda>(start, end', _). (start, end')) spans)"
    unfolding sorted_map using assms
    by (rule sorted_wrt_mono_rel [rotated]) (auto simp: less_eq_prod_def split: prod.splits)
  then show ?thesis by (rule sort_key_id_if_sorted)
qed

lemma replace_loop_output:
  "replace_loop input pos out spans = out @ replace_loop input pos [] spans"
proof (induction spans arbitrary: pos out)
  case (Cons a spans)
  obtain s e m where a: "a = (s, e, m)" by (cases a)
  show ?case
    using Cons [of e "out @ substring input pos s @ m"] Cons [of e "substring input pos s @ m"] Cons [of pos out]
    by (simp add: a)
qed simp

lemma substring_append: "a \<le> b \<Longrightarrow> b \<le> c \<Longrightarrow> substring s a b @ substring s b c = substring s a c"
  unfolding substring_def using take_add [of "b - a" "c - b" "drop a s"] by (simp add: add.commute)

lemma substring_rest: "pos \<le> length pre \<Longrightarrow> substring (pre @ suf) pos (length pre) @ suf = drop pos (pre @ suf)"
  by (simp add: substring_def)

lemma replace_run_spans:
  assumes "fitting classify"
  shows "pos \<le> length pre \<Longrightarrow>
    replace_loop (pre @ suf) pos [] (run_spans p classify (length pre) suf)
    = substring (pre @ suf) pos (length pre) @ map_runs p classify suf"
proof (induction "length suf" arbitrary: suf pre pos rule: less_induct)
  case less
  show ?case
  proof (cases suf)
    case Nil
    then show ?thesis by (simp add: substring_def)
  next
    case (Cons x xs)
    show ?thesis
    proof (cases "p x")
      case False
      have step: "substring (pre @ suf) pos (length pre) @ [x] = substring (pre @ suf) pos (Suc (length pre))"
        using less.prems Cons by (simp add: substring_def Suc_diff_le)
      show ?thesis
        using less.hyps [of xs pos "pre @ [x]"] less.prems step False Cons by simp
    next
      case True
      define t where "t = takeWhile p suf"
      define rest where "rest = dropWhile p suf"
      have suf: "suf = t @ rest" and shorter: "length rest < length suf" and t: "t \<noteq> []"
        using True Cons by (simp_all add: t_def rest_def le_imp_less_Suc length_dropWhile_le)
      have spans: "run_spans p classify (length pre) suf =
          (case run_span (length pre) (length t) (classify t) of None \<Rightarrow> [] | Some s \<Rightarrow> [s])
          @ run_spans p classify (length (pre @ t)) rest"
        and text': "map_runs p classify suf = rewrite_run (classify t) t @ map_runs p classify rest"
        using True Cons by (simp_all add: t_def rest_def Let_def)
      have hyp: "replace_loop (pre @ suf) q [] (run_spans p classify (length (pre @ t)) rest)
          = substring (pre @ suf) q (length (pre @ t)) @ map_runs p classify rest" if "q \<le> length (pre @ t)" for q
        using less.hyps [OF shorter that] suf by simp
      show ?thesis
      proof (cases "classify t")
        case None
        then show ?thesis
          using hyp [of pos] less.prems substring_append [of pos "length pre" "length (pre @ t)" "pre @ suf"]
            suf spans text' by (simp add: rewrite_run_def substring_def)
      next
        case (Some v)
        obtain l r m where v: "v = (l, r, m)" by (cases v)
        have fits: "l + r < length t" using assms Some v by (auto simp: fitting_def)
        have "replace_loop (pre @ suf) pos [] (run_spans p classify (length pre) suf)
            = substring (pre @ suf) pos (length pre + l) @ m
              @ replace_loop (pre @ suf) (length pre + length t - r) [] (run_spans p classify (length (pre @ t)) rest)"
          using less.prems fits Some v spans
          by (simp add: replace_loop_output [of _ "length pre + length t - r" "_ @ _"])
        also have "\<dots> = substring (pre @ suf) pos (length pre + l) @ m
              @ substring (pre @ suf) (length pre + length t - r) (length (pre @ t)) @ map_runs p classify rest"
          using fits by (subst hyp) auto
        also have "substring (pre @ suf) pos (length pre + l) = substring (pre @ suf) pos (length pre) @ take l t"
          using less.prems fits suf by (simp add: substring_def)
        also have "substring (pre @ suf) (length pre + length t - r) (length (pre @ t)) = drop (length t - r) t"
          using fits suf by (simp add: substring_def)
        finally show ?thesis using text' Some v by (simp add: rewrite_run_def)
      qed
    qed
  qed
qed

lemma replace_spans_of_runs:
  assumes "fitting classify"
  shows "replace_spans input (run_spans p classify 0 input) = map_runs p classify input"
proof -
  note sorted = run_spans_sorted [OF assms, of p 0 input]
  have "dedup_by_start None (run_spans p classify 0 input) = run_spans p classify 0 input"
    using sorted by (rule dedup_by_start_sorted) simp
  moreover have "replace_loop input 0 [] (run_spans p classify 0 input) = map_runs p classify input"
    using replace_run_spans [OF assms, of 0 "[]" input p] by (simp add: substring_def)
  ultimately show ?thesis by (simp add: replace_spans_def sort_key_starts [OF sorted] Let_def)
qed

section \<open>Scans that work run by run\<close>

text \<open>The equation of the loop around a scan step.\<close>

definition scans :: "(string \<Rightarrow> nat \<Rightarrow> span option) \<Rightarrow> string \<Rightarrow> (nat \<Rightarrow> span list \<Rightarrow> span list) \<Rightarrow> bool" where
  "scans step input loop \<longleftrightarrow>
     (\<forall>i spans. loop i spans =
        (if i < length input then
           case step input i of
             Some (s, e, m) \<Rightarrow> loop e (spans @ [(s, e, m)])
           | None \<Rightarrow> loop (i + 1) spans
         else spans))"

text \<open>
  A scan looks at every position. Inside a maximal run \<open>t\<close> its answer is the verdict on
  the whole run at the positions that trigger it, and outside it finds nothing.
\<close>

locale run_scanner =
  fixes admits :: "string \<Rightarrow> bool"
    and p :: "char \<Rightarrow> bool"
    and classify :: "string \<Rightarrow> verdict"
    and trigger :: "string \<Rightarrow> nat \<Rightarrow> bool"
    and step :: "string \<Rightarrow> nat \<Rightarrow> span option"
  assumes outside: "admits (pre @ x # post) \<Longrightarrow> \<not> p x \<Longrightarrow> step (pre @ x # post) (length pre) = None"
    and inside: "admits (pre @ t @ post) \<Longrightarrow> pre = [] \<or> \<not> p (last pre) \<Longrightarrow> post = [] \<or> \<not> p (hd post)
      \<Longrightarrow> (\<And>k. k < length t \<Longrightarrow> p (t ! k)) \<Longrightarrow> n < length t
      \<Longrightarrow> step (pre @ t @ post) (length pre + n)
          = (if trigger t n then run_span (length pre) (length t) (classify t) else None)"
    and fits: "fitting classify"
    and triggered: "classify t = Some (l, r, m) \<Longrightarrow> \<exists>n < length t - r. trigger t n"
    and trailing: "classify t = Some (l, r, m) \<Longrightarrow> length t - r \<le> n \<Longrightarrow> n < length t \<Longrightarrow> \<not> trigger t n"
begin

lemma quiet_stretch:
  assumes "scans step input loop" "i \<le> j" "j \<le> length input" "\<And>k. i \<le> k \<Longrightarrow> k < j \<Longrightarrow> step input k = None"
  shows "loop i spans = loop j spans"
  using assms(2-4)
proof (induction "j - i" arbitrary: i)
  case (Suc d)
  then have "loop (Suc i) spans = loop j spans" by (intro Suc(1)) auto
  moreover have "loop i spans = loop (Suc i) spans"
    using assms(1) Suc by (auto simp: scans_def)
  ultimately show ?case by simp
qed simp

lemma loop_run:
  assumes loop: "scans step (pre @ t @ post) loop" and ok: "admits (pre @ t @ post)"
    and cut: "pre = [] \<or> \<not> p (last pre)" "post = [] \<or> \<not> p (hd post)" "\<And>k. k < length t \<Longrightarrow> p (t ! k)"
  shows "loop (length pre) spans =
    loop (length pre + length t)
      (spans @ (case run_span (length pre) (length t) (classify t) of None \<Rightarrow> [] | Some s \<Rightarrow> [s]))"
proof (cases "classify t")
  case None
  have "step (pre @ t @ post) k = None" if "length pre \<le> k" "k < length pre + length t" for k
    using inside [OF ok cut, of "k - length pre"] that None by simp
  then show ?thesis using None by (simp add: quiet_stretch [OF loop, of "length pre" "length pre + length t"])
next
  case (Some v)
  obtain l r m where v: "classify t = Some (l, r, m)" using Some by (cases v) auto
  define first where "first = (LEAST n. trigger t n)"
  obtain n where n: "n < length t - r" "trigger t n" using triggered [OF v] by auto
  have first: "first \<le> n" "trigger t first" "\<And>k. k < first \<Longrightarrow> \<not> trigger t k"
    using n(2) unfolding first_def by (auto intro: Least_le LeastI dest: not_less_Least)
  define e where "e = length pre + length t - r"
  have at: "step (pre @ t @ post) (length pre + first) = Some (length pre + l, e, m)"
    using inside [OF ok cut, of first] first n v by (simp add: e_def)
  have before: "loop (length pre) spans = loop (length pre + first) spans"
  proof (rule quiet_stretch [OF loop])
    show "step (pre @ t @ post) k = None" if "length pre \<le> k" "k < length pre + first" for k
      using inside [OF ok cut, of "k - length pre"] that first n by simp
  qed (use first n in auto)
  have hit: "loop (length pre + first) spans = loop e (spans @ [(length pre + l, e, m)])"
  proof -
    have "length pre + first < length (pre @ t @ post)" using first n by simp
    then show ?thesis using loop [unfolded scans_def, rule_format, of "length pre + first" spans] at
      by (simp del: length_append)
  qed
  have after: "loop e spans' = loop (length pre + length t) spans'" for spans'
  proof (rule quiet_stretch [OF loop])
    show "step (pre @ t @ post) k = None" if "e \<le> k" "k < length pre + length t" for k
      using inside [OF ok cut, of "k - length pre"] that trailing [OF v, of "k - length pre"] n
      by (auto simp: e_def)
  qed (auto simp: e_def)
  show ?thesis using before hit after v by (simp add: e_def)
qed

lemma loop_spans:
  assumes "scans step (pre @ suf) loop" "admits (pre @ suf)" "pre = [] \<or> \<not> p (last pre) \<or> suf = [] \<or> \<not> p (hd suf)"
  shows "loop (length pre) spans = spans @ run_spans p classify (length pre) suf"
  using assms
proof (induction "length suf" arbitrary: suf pre spans rule: less_induct)
  case less
  show ?case
  proof (cases suf)
    case Nil
    then show ?thesis using less.prems by (simp add: scans_def)
  next
    case (Cons x xs)
    show ?thesis
    proof (cases "p x")
      case False
      then have "loop (length pre) spans = loop (length (pre @ [x])) spans"
        using less.prems Cons outside [of pre x xs] by (simp add: scans_def)
      then show ?thesis using less.hyps [of xs "pre @ [x]" spans] less.prems Cons False by simp
    next
      case True
      define t where "t = takeWhile p suf"
      define rest where "rest = dropWhile p suf"
      have suf: "suf = t @ rest" and shorter: "length rest < length suf"
        using True Cons by (simp_all add: t_def rest_def le_imp_less_Suc length_dropWhile_le)
      have start: "pre = [] \<or> \<not> p (last pre)" using less.prems(3) True Cons by simp
      have stop: "rest = [] \<or> \<not> p (hd rest)" unfolding rest_def by (rule dropWhile_stops)
      note cut = start stop takeWhile_all [of _ p suf, folded t_def]
      define found where "found = (case run_span (length pre) (length t) (classify t) of None \<Rightarrow> [] | Some s \<Rightarrow> [s])"
      have "loop (length pre) spans = loop (length (pre @ t)) (spans @ found)"
        using loop_run [OF _ _ cut, of loop spans] less.prems suf by (simp add: found_def)
      also have "\<dots> = (spans @ found) @ run_spans p classify (length (pre @ t)) rest"
        using less.hyps [OF shorter, of "pre @ t" "spans @ found"] less.prems suf cut(2) by simp
      finally show ?thesis using True Cons by (simp add: found_def t_def rest_def Let_def)
    qed
  qed
qed

lemma redacts_runs:
  assumes "scans step input loop" "admits input"
  shows "replace_spans input (loop 0 []) = map_runs p classify input"
  using loop_spans [of "[]" input loop "[]"] assms replace_spans_of_runs [OF fits] by simp

end

end
