(* ===== verification/Pii_Properties.thy ===== *)
theory Pii_Properties
  imports Pii_Runs
begin

text \<open>
  The redactions of the filter plugins: each one rewrites the runs it judges to be
  personal data and leaves every other byte alone. The last section has the limits
  of these judgements.
\<close>

section \<open>Emails\<close>

definition token_byte :: "char \<Rightarrow> bool" where
  "token_byte b \<longleftrightarrow> \<not> email_boundary b"

definition email_trigger :: "string \<Rightarrow> nat \<Rightarrow> bool" where
  "email_trigger t n \<longleftrightarrow> t ! n = CHR ''@'' \<and> 0 < n \<and> Suc n < length t"

definition email_verdict :: "string \<Rightarrow> verdict" where
  "email_verdict t =
     (if CHR ''@'' \<in> set (butlast (tl t)) \<and> CHR ''.'' \<in> set t \<and> length t \<le> 254
      then Some (0, 0, marker Email) else None)"

lemma inner_at: "CHR ''@'' \<in> set (butlast (tl t)) \<longleftrightarrow> (\<exists>n. email_trigger t n)"
proof -
  have "email_trigger t (Suc k) \<longleftrightarrow> k < length (butlast (tl t)) \<and> butlast (tl t) ! k = CHR ''@''" for k
    by (cases t) (auto simp: email_trigger_def nth_butlast)
  moreover have "\<not> email_trigger t 0" by (simp add: email_trigger_def)
  ultimately show ?thesis by (metis in_set_conv_nth not0_implies_Suc)
qed

lemma email_at_run:
  assumes "pre = [] \<or> \<not> token_byte (last pre)" "post = [] \<or> \<not> token_byte (hd post)"
    and "\<And>k. k < length t \<Longrightarrow> token_byte (t ! k)" and n: "n < length t"
  shows "email_at (pre @ t @ post) (length pre + n) =
    (if email_trigger t n then map_option (\<lambda>_. (length pre, length pre + length t)) (email_verdict t) else None)"
proof -
  have "scan_left token_byte (pre @ t @ post) (length pre + n) = length pre"
    using assms by (intro scan_left_run) auto
  moreover have "scan_right token_byte (pre @ t @ post) (length pre + Suc n) = length pre + length t"
    using assms by (intro scan_right_run) auto
  moreover have "substring (pre @ t @ post) (length pre) (length pre + length t) = t"
    by (simp add: substring_def)
  moreover have "(pre @ t @ post) ! (length pre + n) = t ! n" using n by (simp add: nth_append)
  moreover have "is_valid_email t \<longleftrightarrow> email_verdict t \<noteq> None" if "email_trigger t n"
  proof -
    have "CHR ''@'' \<in> set t" using nth_mem [OF n] that by (simp add: email_trigger_def)
    moreover have "t \<noteq> []" using n by auto
    moreover have "CHR ''@'' \<in> set (butlast (tl t))" using that inner_at by blast
    ultimately show ?thesis by (simp add: is_valid_email_def email_verdict_def)
  qed
  ultimately show ?thesis
    by (auto simp: email_at_def find_email_boundary_def email_trigger_def email_verdict_def token_byte_def [symmetric]
        Let_def split: if_splits)
qed

lemma email_verdict_None_Some: "email_verdict t = None \<or> email_verdict t = Some (0, 0, marker Email)"
  by (simp add: email_verdict_def)

lemma email_span_at_run:
  assumes "pre = [] \<or> \<not> token_byte (last pre)" "post = [] \<or> \<not> token_byte (hd post)"
    and "\<And>k. k < length t \<Longrightarrow> token_byte (t ! k)" and "n < length t"
  shows "map_option (\<lambda>(s, e). (s, e, marker Email)) (email_at (pre @ t @ post) (length pre + n)) =
    (if email_trigger t n then run_span (length pre) (length t) (email_verdict t) else None)"
  using email_verdict_None_Some [of t] by (auto simp: email_at_run [OF assms])

lemma email_at_boundary: "\<not> token_byte x \<Longrightarrow> email_at (pre @ x # post) (length pre) = None"
  by (auto simp: email_at_def token_byte_def email_boundary_def)

lemma email_verdict_fits: "fitting email_verdict"
  by (auto simp: fitting_def email_verdict_def)

lemma email_verdict_triggered: "email_verdict t = Some (l, r, m) \<Longrightarrow> \<exists>n<length t - r. email_trigger t n"
proof -
  assume "email_verdict t = Some (l, r, m)"
  then have "r = 0" "\<exists>n. email_trigger t n" using inner_at [of t] by (auto simp: email_verdict_def split: if_splits)
  then obtain n where "email_trigger t n" by blast
  then show ?thesis using \<open>r = 0\<close> by (intro exI [of _ n]) (auto simp: email_trigger_def)
qed

interpretation emails: run_scanner "\<lambda>_. True" token_byte email_verdict email_trigger "span_at Email"
proof
  show "span_at Email (pre @ x # post) (length pre) = None" if "\<not> token_byte x" for pre x post
    using email_at_boundary [OF that] by (simp add: span_at_def)
  show "span_at Email (pre @ t @ post) (length pre + n) =
      (if email_trigger t n then run_span (length pre) (length t) (email_verdict t) else None)"
    if "pre = [] \<or> \<not> token_byte (last pre)" "post = [] \<or> \<not> token_byte (hd post)"
      "\<And>k. k < length t \<Longrightarrow> token_byte (t ! k)" "n < length t" for pre t post n
    using email_span_at_run [OF that] by (simp add: span_at_def)
qed (auto simp: email_verdict_fits email_verdict_triggered, simp add: email_verdict_def split: if_splits)

section \<open>Card and social security numbers\<close>

definition separator :: "char \<Rightarrow> bool" where
  "separator b \<longleftrightarrow> \<not> is_ascii_digit b"

definition lead :: "string \<Rightarrow> nat" where
  "lead t = length (takeWhile separator t)"

definition trail :: "string \<Rightarrow> nat" where
  "trail t = length (takeWhile separator (rev t))"

definition digit_verdict :: "(string \<Rightarrow> string option) \<Rightarrow> string \<Rightarrow> verdict" where
  "digit_verdict judge t =
     map_option (\<lambda>m. (lead t, trail t, m)) (judge (substring t (lead t) (length t - trail t)))"

definition digit_trigger :: "string \<Rightarrow> nat \<Rightarrow> bool" where
  "digit_trigger t n \<longleftrightarrow> is_ascii_digit (t ! n)"

lemma trim_left_takeWhile:
  "s + n \<le> length bytes \<Longrightarrow> trim_left bytes s n = s + length (takeWhile separator (take n (drop s bytes)))"
proof (induction bytes s n rule: trim_left.induct)
  case (2 bytes s n)
  have "take (Suc n) (drop s bytes) = bytes ! s # take n (drop (Suc s) bytes)"
    using 2(2) by (simp add: Cons_nth_drop_Suc [symmetric])
  then show ?case using 2 by (auto simp: separator_def)
qed simp

lemma trim_right_takeWhile:
  "s \<le> k \<Longrightarrow> k < e \<Longrightarrow> is_ascii_digit (bytes ! k) \<Longrightarrow> e \<le> length bytes
   \<Longrightarrow> trim_right bytes s e = e - length (takeWhile separator (rev (take e bytes)))"
proof (induction e)
  case (Suc e)
  have "rev (take (Suc e) bytes) = bytes ! e # rev (take e bytes)"
    using Suc.prems by (simp add: take_Suc_conv_app_nth)
  then show ?case using Suc by (cases "k = e") (auto simp: separator_def)
qed simp

lemma digit_between:
  assumes "is_ascii_digit (t ! n)" "n < length t"
  shows "lead t \<le> n" "n < length t - trail t" "takeWhile separator (rev t @ us) = takeWhile separator (rev t)"
proof -
  have mem: "t ! n \<in> set t" "t ! n \<in> set (rev t)" "\<not> separator (t ! n)" using assms by (auto simp: separator_def)
  show "lead t \<le> n" unfolding lead_def
    using assms takeWhile_all [of n separator t] takeWhile_nth [of n separator t]
    by (metis not_le separator_def)
  show "takeWhile separator (rev t @ us) = takeWhile separator (rev t)"
    using mem by (intro takeWhile_append1) auto
  have "rev t ! (length t - Suc n) = t ! n" using assms(2) by (simp add: rev_nth)
  then have "trail t \<le> length t - Suc n" unfolding trail_def
    using assms takeWhile_all [of "length t - Suc n" separator "rev t"]
      takeWhile_nth [of "length t - Suc n" separator "rev t"]
    by (metis not_le separator_def)
  then show "n < length t - trail t" using assms(2) by simp
qed

lemma digits_at_run:
  assumes "pre = [] \<or> \<not> run_byte (last pre)" "post = [] \<or> \<not> run_byte (hd post)"
    and "\<And>k. k < length t \<Longrightarrow> run_byte (t ! k)" and n: "n < length t"
  shows "digits_at (pre @ t @ post) (length pre + n) =
    (if digit_trigger t n then Some (length pre + lead t, length pre + (length t - trail t)) else None)"
proof (cases "is_ascii_digit (t ! n)")
  case True
  note cut = digit_between [OF True n]
  have at: "(pre @ t @ post) ! (length pre + n) = t ! n" using n by (simp add: nth_append)
  have "scan_left run_byte (pre @ t @ post) (length pre + n) = length pre"
    using assms by (intro scan_left_run) auto
  moreover have "scan_right run_byte (pre @ t @ post) (length pre + n) = length pre + length t"
    using assms by (intro scan_right_run) auto
  moreover have "t ! n \<in> set (filter is_ascii_digit t)" using True n by simp
  then have "filter is_ascii_digit t \<noteq> []" by (metis empty_iff list.set(1))
  ultimately have token: "find_digit_token (pre @ t @ post) (length pre + n) = Some (length pre, length pre + length t)"
    using n by (auto simp: find_digit_token_def substring_def Let_def)
  have left: "trim_left (pre @ t @ post) (length pre) (length t) = length pre + lead t"
    by (simp add: trim_left_takeWhile lead_def)
  have "trim_right (pre @ t @ post) (length pre + lead t) (length pre + length t)
      = length pre + length t - length (takeWhile separator (rev (take (length pre + length t) (pre @ t @ post))))"
    using cut n at True by (intro trim_right_takeWhile [where k = "length pre + n"]) auto
  then have right: "trim_right (pre @ t @ post) (length pre + lead t) (length pre + length t)
      = length pre + (length t - trail t)"
    using cut(2) by (simp add: cut(3) trail_def)
  show ?thesis
    using True at token left right cut(1,2) by (simp add: digits_at_def digit_trigger_def Let_def)
next
  case False
  then show ?thesis using n by (simp add: digits_at_def digit_trigger_def nth_append)
qed

lemma digits_at_outside: "\<not> run_byte x \<Longrightarrow> digits_at (pre @ x # post) (length pre) = None"
  by (auto simp: digits_at_def run_byte_def)

lemma substring_core:
  "substring (pre @ t @ post) (length pre + lead t) (length pre + (length t - trail t))
   = substring t (lead t) (length t - trail t)"
  by (simp add: substring_middle substring_inside)

text \<open>
  A judgement that finds nothing in a text without digits.
\<close>

definition needs_digit :: "(string \<Rightarrow> string option) \<Rightarrow> bool" where
  "needs_digit judge \<longleftrightarrow> (\<forall>c. filter is_ascii_digit c = [] \<longrightarrow> judge c = None)"

lemma digit_verdict_has_digit:
  assumes "needs_digit judge" "digit_verdict judge t = Some (l, r, m)"
  obtains n where "n < length t" "is_ascii_digit (t ! n)" "l = lead t" "r = trail t"
proof -
  have c: "judge (substring t (lead t) (length t - trail t)) = Some m" "l = lead t" "r = trail t"
    using assms(2) by (auto simp: digit_verdict_def)
  then have "filter is_ascii_digit (substring t (lead t) (length t - trail t)) \<noteq> []"
    using assms(1) by (auto simp: needs_digit_def)
  then obtain d where "d \<in> set (substring t (lead t) (length t - trail t))" "is_ascii_digit d"
    by (auto simp: filter_empty_conv)
  then have "d \<in> set t" by (auto simp: substring_def dest: in_set_takeD in_set_dropD)
  then obtain n where "n < length t" "t ! n = d" by (metis in_set_conv_nth)
  then show thesis using that [of n] c(2,3) \<open>is_ascii_digit d\<close> by simp
qed

lemma digit_verdict_fits:
  assumes "needs_digit judge"
  shows "fitting (digit_verdict judge)"
  unfolding fitting_def
proof (intro allI impI)
  fix t l r m assume "digit_verdict judge t = Some (l, r, m)"
  then obtain n where n: "n < length t" "is_ascii_digit (t ! n)" "l = lead t" "r = trail t"
    using digit_verdict_has_digit [OF assms] by metis
  show "l + r < length t" using digit_between(1,2) [OF n(2,1)] n(3,4) by linarith
qed

lemma digit_verdict_triggered:
  assumes "needs_digit judge" "digit_verdict judge t = Some (l, r, m)"
  shows "\<exists>n<length t - r. digit_trigger t n"
proof -
  obtain n where "n < length t" "is_ascii_digit (t ! n)" "r = trail t"
    using digit_verdict_has_digit [OF assms] by auto
  then show ?thesis using digit_between(2) by (auto simp: digit_trigger_def)
qed

lemma digit_verdict_trailing:
  assumes "digit_verdict judge t = Some (l, r, m)" "length t - r \<le> n" "n < length t"
  shows "\<not> digit_trigger t n"
  using assms digit_between(2) [of t n] by (auto simp: digit_trigger_def digit_verdict_def)

definition card_verdict :: "string \<Rightarrow> string option" where
  "card_verdict c = (if is_card c then Some (marker Card) else None)"

definition ssn_verdict :: "string \<Rightarrow> string option" where
  "ssn_verdict c = (if is_ssn c then Some (marker Ssn) else None)"

definition number_verdict :: "string \<Rightarrow> string option" where
  "number_verdict c =
     (if is_card c then Some (marker Card) else if is_ssn c then Some (marker Ssn) else None)"

lemma verdicts_need_digits: "needs_digit card_verdict" "needs_digit ssn_verdict" "needs_digit number_verdict"
  by (auto simp: needs_digit_def card_verdict_def ssn_verdict_def number_verdict_def is_card_def is_ssn_def
      digits_only_def)

text \<open>A scan step that judges the digit token around the position.\<close>

definition judged_at :: "(string \<Rightarrow> string option) \<Rightarrow> string \<Rightarrow> nat \<Rightarrow> span option" where
  "judged_at judge input i =
     (case digits_at input i of None \<Rightarrow> None
      | Some (s, e) \<Rightarrow> map_option (\<lambda>m. (s, e, m)) (judge (substring input s e)))"

lemma judged_at_run:
  assumes "pre = [] \<or> \<not> run_byte (last pre)" "post = [] \<or> \<not> run_byte (hd post)"
    and "\<And>k. k < length t \<Longrightarrow> run_byte (t ! k)" and "n < length t"
  shows "judged_at judge (pre @ t @ post) (length pre + n) =
    (if digit_trigger t n then run_span (length pre) (length t) (digit_verdict judge t) else None)"
proof (cases "digit_trigger t n")
  case True
  then have "n < length t - trail t" using digit_between(2) assms(4) by (auto simp: digit_trigger_def)
  moreover have "substring (pre @ t @ post) (length pre + lead t) (length pre + length t - trail t)
      = substring t (lead t) (length t - trail t)"
    using substring_core [of pre t post] calculation by simp
  ultimately show ?thesis
    using True by (cases "judge (substring t (lead t) (length t - trail t))")
      (simp_all add: judged_at_def digits_at_run [OF assms] digit_verdict_def)
qed (simp add: judged_at_def digits_at_run [OF assms])

lemma judged_at_scanner:
  assumes "needs_digit judge" "\<And>input i. admits input \<Longrightarrow> i < length input \<Longrightarrow> step input i = judged_at judge input i"
  shows "run_scanner admits run_byte (digit_verdict judge) digit_trigger step"
proof
  show "step (pre @ x # post) (length pre) = None" if "admits (pre @ x # post)" "\<not> run_byte x" for pre x post
    using that digits_at_outside [of x pre post] by (simp add: assms(2) judged_at_def)
  show "step (pre @ t @ post) (length pre + n) =
      (if digit_trigger t n then run_span (length pre) (length t) (digit_verdict judge t) else None)"
    if "admits (pre @ t @ post)" "pre = [] \<or> \<not> run_byte (last pre)" "post = [] \<or> \<not> run_byte (hd post)"
      "\<And>k. k < length t \<Longrightarrow> run_byte (t ! k)" "n < length t" for pre t post n
    using that judged_at_run [OF that(2-5), of judge] by (simp add: assms(2))
qed (use assms(1) in \<open>auto simp: digit_verdict_fits digit_verdict_triggered dest: digit_verdict_trailing\<close>)

interpretation cards: run_scanner "\<lambda>_. True" run_byte "digit_verdict card_verdict" digit_trigger "span_at Card"
  by (rule judged_at_scanner [OF verdicts_need_digits(1)])
     (auto simp: span_at_def judged_at_def card_verdict_def split: option.splits)

interpretation ssns: run_scanner "\<lambda>_. True" run_byte "digit_verdict ssn_verdict" digit_trigger "span_at Ssn"
  by (rule judged_at_scanner [OF verdicts_need_digits(2)])
     (auto simp: span_at_def judged_at_def ssn_verdict_def split: option.splits)

section \<open>The combined filter\<close>

text \<open>
  Without an \<open>@\<close> the combined scan is the scan of digit runs, and without a digit it is
  the scan of email tokens.
\<close>

interpretation numbers: run_scanner "\<lambda>input. CHR ''@'' \<notin> set input" run_byte "digit_verdict number_verdict"
    digit_trigger any_span_at
proof (rule judged_at_scanner [OF verdicts_need_digits(3)])
  fix input i assume "CHR ''@'' \<notin> set input" "i < length input"
  then have "email_at input i = None" by (auto simp: email_at_def dest: nth_mem)
  then show "any_span_at input i = judged_at number_verdict input i"
    by (auto simp: any_span_at_def judged_at_def number_verdict_def split: option.splits)
qed

lemma no_digit_any_span:
  assumes "\<not> is_ascii_digit (input ! i)"
  shows "any_span_at input i = span_at Email input i"
proof -
  have "digits_at input i = None" using assms by (simp add: digits_at_def)
  then show ?thesis by (simp add: any_span_at_def span_at_def split: option.splits)
qed

interpretation addresses: run_scanner "\<lambda>input. \<forall>b\<in>set input. \<not> is_ascii_digit b" token_byte email_verdict
    email_trigger any_span_at
proof
  show "any_span_at (pre @ x # post) (length pre) = None"
    if "\<forall>b\<in>set (pre @ x # post). \<not> is_ascii_digit b" "\<not> token_byte x" for pre x post
    using that emails.outside [of x pre post] by (subst no_digit_any_span) auto
  show "any_span_at (pre @ t @ post) (length pre + n) =
      (if email_trigger t n then run_span (length pre) (length t) (email_verdict t) else None)"
    if "\<forall>b\<in>set (pre @ t @ post). \<not> is_ascii_digit b" "pre = [] \<or> \<not> token_byte (last pre)"
      "post = [] \<or> \<not> token_byte (hd post)" "\<And>k. k < length t \<Longrightarrow> token_byte (t ! k)" "n < length t" for pre t post n
  proof -
    have "t ! n \<in> set (pre @ t @ post)" using that(5) by simp
    then have "\<not> is_ascii_digit ((pre @ t @ post) ! (length pre + n))" using that(1,5) by (simp add: nth_append)
    then show ?thesis using emails.inside [OF _ that(2-5)] by (subst no_digit_any_span) auto
  qed
qed (rule emails.fits, erule emails.triggered, rule emails.trailing)

lemma find_spans_scans: "scans (span_at kind) input (find_spans_loop kind input)"
  unfolding scans_def by (intro allI, subst find_spans_loop.simps) simp

lemma find_all_spans_scans: "scans any_span_at input (find_all_spans_loop input)"
  unfolding scans_def by (intro allI, subst find_all_spans_loop.simps) simp

text \<open>
  C26: The email filter rewrites the text token by token. Tokens are the maximal runs
  between blanks, line ends, tabs, commas, quotes and ampersands. A token is replaced
  as a whole exactly when it has an at-sign that is neither its first nor its last
  byte, has a dot and is no longer than 254 bytes, and every other byte is kept.
\<close>

theorem redact_emails_tokenwise: "redact_emails input = map_runs token_byte email_verdict input"
  unfolding redact_emails_def find_spans_def by (rule emails.redacts_runs [OF find_spans_scans TrueI])

text \<open>
  C27: The card and the social security filter rewrite the text run by run. Runs are
  the maximal stretches of digits, blanks and dashes. The part of a run from its first
  to its last digit is replaced exactly when it is a card number (13 to 19 digits that
  pass the Luhn check) or an assignable social security number in one of its two
  formats, and every other byte is kept.
\<close>

theorem redact_numbers_runwise:
  "redact_cards input = map_runs run_byte (digit_verdict card_verdict) input
   \<and> redact_ssns input = map_runs run_byte (digit_verdict ssn_verdict) input"
  unfolding redact_cards_def redact_ssns_def find_spans_def
  by (intro conjI cards.redacts_runs [OF find_spans_scans TrueI] ssns.redacts_runs [OF find_spans_scans TrueI])

text \<open>
  The combined filter on a text without an at-sign rewrites the digit runs, a card
  number taking precedence over a social security number, and on a text without a
  digit it does what the email filter does.
\<close>

theorem redact_pii_composes:
  "(CHR ''@'' \<notin> set input \<longrightarrow> redact_pii input = map_runs run_byte (digit_verdict number_verdict) input)
   \<and> ((\<forall>b\<in>set input. \<not> is_ascii_digit b) \<longrightarrow> redact_pii input = redact_emails input)"
  unfolding redact_pii_def find_all_spans_def redact_emails_def find_spans_def
  using numbers.redacts_runs [OF find_all_spans_scans] addresses.redacts_runs [OF find_all_spans_scans]
    emails.redacts_runs [OF find_spans_scans TrueI] by metis

theorem redact_pii_composes_witness:
  "redact_pii ''ssn: 123-45-6789;'' = ''ssn: [REDACTED_SSN];''
   \<and> redact_pii ''to: a@b.example, x'' = ''to: [REDACTED_EMAIL], x''"
proof -
  have "CHR ''@'' \<notin> set ''ssn: 123-45-6789;''" by simp
  moreover have "\<forall>b\<in>set ''to: a@b.example, x''. \<not> is_ascii_digit b" by code_simp
  moreover have "map_runs run_byte (digit_verdict number_verdict) ''ssn: 123-45-6789;'' = ''ssn: [REDACTED_SSN];''"
    by code_simp
  moreover have "redact_emails ''to: a@b.example, x'' = ''to: [REDACTED_EMAIL], x''" by code_simp
  ultimately show ?thesis using redact_pii_composes by metis
qed

section \<open>The Luhn check\<close>

lemma luhn_digit_bound: "luhn_digit i c < 10"
  by (auto simp: luhn_digit_def to_digit_def is_ascii_digit_def Let_def)

lemma to_digit_inj: "is_ascii_digit c \<Longrightarrow> is_ascii_digit d \<Longrightarrow> to_digit c = to_digit d \<Longrightarrow> c = d"
proof -
  assume "is_ascii_digit c" "is_ascii_digit d" "to_digit c = to_digit d"
  then have "(of_char c :: nat) = of_char d" 
    unfolding to_digit_def is_ascii_digit_def by (metis eq_diff_iff)
  then show "c = d" by simp
qed

lemma luhn_digit_inj:
  assumes "is_ascii_digit c" "is_ascii_digit d" "luhn_digit i c = luhn_digit i d"
  shows "c = d"
proof -
  have "to_digit c \<le> 9" "to_digit d \<le> 9" by (auto simp: to_digit_def is_ascii_digit_def)
  then have "to_digit c = to_digit d" using assms(3)
    by (simp add: luhn_digit_def Let_def split: if_splits) presburger+
  then show ?thesis using assms to_digit_inj by blast
qed

definition luhn_total :: "string \<Rightarrow> nat" where
  "luhn_total xs = sum_list (map (\<lambda>(i, c). luhn_digit i c) (List.enumerate 0 xs))"

lemma luhn_total_sum: "luhn_total xs = (\<Sum>k<length xs. luhn_digit k (xs ! k))"
  unfolding luhn_total_def
  by (simp add: sum_list_sum_nth nth_enumerate_eq atLeast0LessThan)

lemma luhn_total_update:
  assumes "k < length xs"
  shows "luhn_total (xs[k := d]) + luhn_digit k (xs ! k) = luhn_total xs + luhn_digit k d"
proof -
  have "(\<Sum>j\<in>{..<length xs} - {k}. luhn_digit j (xs[k := d] ! j)) = (\<Sum>j\<in>{..<length xs} - {k}. luhn_digit j (xs ! j))"
    by (rule sum.cong) auto
  then show ?thesis
    using assms by (simp add: luhn_total_sum sum.remove [where x = k])
qed

lemma distinct_residues:
  assumes "(a :: nat) < 10" "b < 10" "a \<noteq> b" "x + a = y + b" "y mod 10 = 0"
  shows "x mod 10 \<noteq> 0"
  using assms by presburger

text \<open>
  C28: The Luhn check of a card number detects every mistyped digit: exchanging one
  digit of a number that passes for a different digit gives a number that fails.
\<close>

theorem luhn_detects_substitution:
  assumes "luhn_check s" "list_all is_ascii_digit s" "i < length s" "is_ascii_digit d" "d \<noteq> s ! i"
  shows "\<not> luhn_check (s[i := d])"
proof -
  define k where "k = length s - Suc i"
  have k: "k < length (rev s)" "rev s ! k = s ! i" using assms(3) by (auto simp: k_def rev_nth)
  have "luhn_digit k (s ! i) \<noteq> luhn_digit k d"
    using assms luhn_digit_inj by (metis list_all_length)
  then have "luhn_total ((rev s)[k := d]) mod 10 \<noteq> 0"
    using luhn_total_update [OF k(1), of d] assms(1) k(2)
    by (intro distinct_residues [OF luhn_digit_bound luhn_digit_bound])
       (auto simp: luhn_check_def luhn_total_def)
  moreover have "rev (s[i := d]) = (rev s)[k := d]" using assms(3) by (simp add: rev_update k_def)
  ultimately show ?thesis by (simp add: luhn_check_def luhn_total_def)
qed

theorem luhn_detects_substitution_witness: "\<not> luhn_check (''4111111111111111''[3 := CHR ''7''])"
  by (rule luhn_detects_substitution) code_simp+

section \<open>Limits of the judgements\<close>

lemma map_runs_single:
  assumes "list_all p input" "classify input = None"
  shows "map_runs p classify input = input"
proof (cases input)
  case (Cons x xs)
  then have "takeWhile p input = input" "dropWhile p input = []" "p x"
    using assms(1) by (auto simp: list_all_iff)
  then show ?thesis
    using assms(2) Cons map_runs.simps(2) [of p classify x xs] by (simp only: Let_def rewrite_run_def) simp
qed simp

lemma filter_drop_none: "filter P (take n xs) = [] \<Longrightarrow> filter P (drop n xs) = filter P xs"
  by (metis append_Nil append_take_drop_id filter_append)

lemma filter_take_none: "filter P (drop n xs) = [] \<Longrightarrow> filter P (take n xs) = filter P xs"
  by (metis append_Nil2 append_take_drop_id filter_append)

lemma digits_of_core: "filter is_ascii_digit (substring t (lead t) (length t - trail t)) = filter is_ascii_digit t"
proof -
  have "rev (drop (length t - trail t) t) = take (trail t) (rev t)"
    using length_takeWhile_le [of separator "rev t"] by (simp add: rev_drop trail_def)
  also have "\<dots> = takeWhile separator (rev t)" by (simp add: trail_def takeWhile_eq_take [symmetric])
  finally have "set (drop (length t - trail t) t) = set (takeWhile separator (rev t))" by (metis set_rev)
  then have right: "filter is_ascii_digit (drop (length t - trail t) t) = []"
    by (auto simp: filter_empty_conv separator_def dest: set_takeWhileD)
  have "set (take (lead t) (take (length t - trail t) t)) \<subseteq> set (take (lead t) t)"
    by (simp add: set_take_subset_set_take min.commute)
  also have "\<dots> = set (takeWhile separator t)" by (simp add: lead_def takeWhile_eq_take [symmetric])
  finally have left: "filter is_ascii_digit (take (lead t) (take (length t - trail t) t)) = []"
    unfolding filter_empty_conv by (meson separator_def set_takeWhileD subsetD)
  show ?thesis
    using filter_drop_none [OF left] filter_take_none [OF right] by (simp add: substring_def drop_take)
qed

text \<open>
  C37: The numbers of a run are judged together. A run of digits, blanks and dashes with
  more than 19 digits is left as it is by the card filter, the social security filter
  and the combined filter, whatever card numbers it is made of: two valid card numbers
  with a blank between them are both kept.
\<close>

theorem crowded_run_survives:
  assumes "list_all run_byte input" "length (digits_only input) > 19"
  shows "redact_cards input = input \<and> redact_ssns input = input \<and> redact_pii input = input"
proof -
  have count: "length (digits_only (substring input (lead input) (length input - trail input))) > 19"
    using assms(2) digits_of_core [of input] by (simp add: digits_only_def)
  have kept: "map_runs run_byte (digit_verdict judge) input = input"
    if "judge \<in> {card_verdict, ssn_verdict, number_verdict}" for judge
  proof (rule map_runs_single [OF assms(1)])
    show "digit_verdict judge input = None"
      using count that
      by (auto simp: digit_verdict_def card_verdict_def ssn_verdict_def number_verdict_def is_card_def is_ssn_def)
  qed
  have "CHR ''@'' \<notin> set input"
    using assms(1) by (auto simp: list_all_iff run_byte_def is_ascii_digit_def)
  then show ?thesis
    unfolding redact_cards_def redact_ssns_def redact_pii_def find_spans_def find_all_spans_def
    using kept [of card_verdict] kept [of ssn_verdict] kept [of number_verdict]
      cards.redacts_runs [OF find_spans_scans TrueI] ssns.redacts_runs [OF find_spans_scans TrueI]
      numbers.redacts_runs [OF find_all_spans_scans] by simp
qed

theorem crowded_run_survives_witness:
  "redact_pii ''4111111111111111 5500000000000004'' = ''4111111111111111 5500000000000004''
   \<and> is_card ''4111111111111111'' \<and> is_card ''5500000000000004''"
proof -
  have "list_all run_byte ''4111111111111111 5500000000000004''" by code_simp
  moreover have "length (digits_only ''4111111111111111 5500000000000004'') > 19" by code_simp
  ultimately have "redact_pii ''4111111111111111 5500000000000004'' = ''4111111111111111 5500000000000004''"
    using crowded_run_survives by blast
  moreover have "is_card ''4111111111111111''" "is_card ''5500000000000004''" by code_simp+
  ultimately show ?thesis by simp
qed

text \<open>
  The combined filter drops a span that overlaps one already written. A card number whose
  first digit ends an email token is found, but its span starts inside the token, so the
  other digits stay, while the card filter alone removes them.
\<close>

lemma overlapping_card_leaks:
  "redact_pii ''a@b.c4 111111111111111'' = ''[REDACTED_EMAIL] 111111111111111''"
  "redact_cards ''a@b.c4 111111111111111'' = ''a@b.c[REDACTED_CARD]''"
  by code_simp+

end
