(* ===== verification/Record_Decoder.thy ===== *)
theory Record_Decoder
  imports Policy_Gate
begin

text \<open>
  The streaming record decoder and the output validator
  (\<open>crates/gateway/src/record.rs\<close>). A decoder is fed with frames of an object and
  hands out its records one at a time. The JSON and CSV parsers are external crates,
  so their answers are arguments (\<open>text_parsers\<close>), as is the wording of an encoding
  error. UTF-8 itself is defined here.
\<close>

section \<open>Formats, limits and errors\<close>

datatype text_format = Jsonl | Json | Csv | Tsv | Text | Binary

definition DECODE_JSON :: string where "DECODE_JSON = ''decode.json''"

definition DECODE_CSV :: string where "DECODE_CSV = ''decode.csv''"

definition DECODE_JSONL :: string where "DECODE_JSONL = ''decode.jsonl''"

definition DECODE_ENCODING :: string where "DECODE_ENCODING = ''decode.encoding''"

definition LIMIT_INPUT_BYTES :: string where "LIMIT_INPUT_BYTES = ''limit.input_bytes''"

definition RECORD_TOO_LARGE :: string where "RECORD_TOO_LARGE = ''record.too_large''"

definition INTERNAL :: string where "INTERNAL = ''internal''"

definition DEFAULT_MAX_SOURCE_FRAME_BYTES :: nat where
  "DEFAULT_MAX_SOURCE_FRAME_BYTES = 1024 * 1024"

definition DEFAULT_MAX_RECORD_BYTES :: nat where
  "DEFAULT_MAX_RECORD_BYTES = 8 * 1024 * 1024"

definition DEFAULT_MAX_JSON_DOCUMENT_BYTES :: nat where
  "DEFAULT_MAX_JSON_DOCUMENT_BYTES = 8 * 1024 * 1024"

definition DEFAULT_MAX_CSV_FIELDS :: nat where
  "DEFAULT_MAX_CSV_FIELDS = 16384"

record text_record =
  tr_payload :: bytes
  tr_separator :: bytes

record decoder_limits =
  dl_max_source_frame_bytes :: nat
  dl_max_record_bytes :: nat
  dl_max_json_document_bytes :: nat
  dl_max_csv_fields :: nat

definition decoder_limits_default :: decoder_limits where
  "decoder_limits_default =
     \<lparr>dl_max_source_frame_bytes = DEFAULT_MAX_SOURCE_FRAME_BYTES,
      dl_max_record_bytes = DEFAULT_MAX_RECORD_BYTES,
      dl_max_json_document_bytes = DEFAULT_MAX_JSON_DOCUMENT_BYTES,
      dl_max_csv_fields = DEFAULT_MAX_CSV_FIELDS\<rparr>"

definition limit_error :: "string \<Rightarrow> string \<Rightarrow> nat \<Rightarrow> nat \<Rightarrow> maskura_error" where
  "limit_error code kind actual limit =
     Generic code (kind @ '' size '' @ decimal_nat actual @ '' exceeds limit '' @ decimal_nat limit)"

section \<open>External parsers\<close>

text \<open>
  \<open>serde_json\<close> accepts a document, reports that it ended too early, or reports
  another error. \<open>csv_core\<close> reads one record with room for a number of fields and
  reports whether it found a whole record, how many bytes it used and how many fields
  it found.
\<close>

datatype json_verdict = JsonValue | JsonEof string | JsonInvalid string

record text_parsers =
  tp_utf8_message :: "bytes \<Rightarrow> string"
  tp_json :: "bytes \<Rightarrow> json_verdict"
  tp_csv :: "bytes \<Rightarrow> nat \<Rightarrow> bool \<times> nat \<times> nat"

section \<open>UTF-8\<close>

definition continuation :: "8 word \<Rightarrow> bool" where
  "continuation b \<longleftrightarrow> 0x80 \<le> b \<and> b \<le> 0xBF"

text \<open>The length of the well-formed sequence at the start of a nonempty text, or none.\<close>

definition utf8_width :: "bytes \<Rightarrow> nat option" where
  "utf8_width bs =
     (let b = bs ! 0; c = bs ! 1 in
      if b \<le> 0x7F then Some 1
      else if 0xC2 \<le> b \<and> b \<le> 0xDF then
        (if 2 \<le> length bs \<and> continuation c then Some 2 else None)
      else if 0xE0 \<le> b \<and> b \<le> 0xEF then
        (if 3 \<le> length bs \<and> continuation c \<and> continuation (bs ! 2)
            \<and> (b = 0xE0 \<longrightarrow> 0xA0 \<le> c) \<and> (b = 0xED \<longrightarrow> c \<le> 0x9F)
         then Some 3 else None)
      else if 0xF0 \<le> b \<and> b \<le> 0xF4 then
        (if 4 \<le> length bs \<and> continuation c \<and> continuation (bs ! 2) \<and> continuation (bs ! 3)
            \<and> (b = 0xF0 \<longrightarrow> 0x90 \<le> c) \<and> (b = 0xF4 \<longrightarrow> c \<le> 0x8F)
         then Some 4 else None)
      else None)"

lemma utf8_width_pos: "utf8_width bs = Some n \<Longrightarrow> 0 < n"
  by (auto simp: utf8_width_def Let_def split: if_splits)

function from_utf8 :: "bytes \<Rightarrow> bool" where
  "from_utf8 bs =
     (if bs = [] then True
      else case utf8_width bs of None \<Rightarrow> False | Some n \<Rightarrow> from_utf8 (drop n bs))"
  by pat_completeness auto
termination by (relation "measure length") (auto dest: utf8_width_pos)

declare from_utf8.simps [simp del]

definition validate_utf8 :: "text_parsers \<Rightarrow> bytes \<Rightarrow> string \<Rightarrow> maskura_error + unit" where
  "validate_utf8 tp input code =
     (if from_utf8 input then Inr () else Inl (Generic code (tp_utf8_message tp input)))"

section \<open>The decoder\<close>

datatype csv_state = FieldStart | Unquoted | Quoted | QuoteClosed

record record_decoder =
  dc_format :: text_format
  dc_limits :: decoder_limits
  dc_pending :: bytes
  dc_ready :: "text_record option"
  dc_scan_offset :: nat
  dc_csv_state :: csv_state
  dc_csv_fields :: nat
  dc_finished :: bool
  dc_complete :: bool
  dc_input_seen :: bool
  dc_records_emitted :: nat

type_synonym 'a decoding = "record_decoder \<times> (maskura_error + 'a)"

definition decoder_new :: "text_format \<Rightarrow> decoder_limits \<Rightarrow> maskura_error + record_decoder" where
  "decoder_new format limits =
     (if dl_max_source_frame_bytes limits = 0 \<or> dl_max_record_bytes limits = 0
         \<or> dl_max_json_document_bytes limits = 0 \<or> dl_max_csv_fields limits = 0
      then Inl (Generic CONFIG_INVALID ''decoder limits must be greater than zero'')
      else Inr \<lparr>dc_format = format, dc_limits = limits, dc_pending = [], dc_ready = None,
        dc_scan_offset = 0, dc_csv_state = FieldStart, dc_csv_fields = 1, dc_finished = False,
        dc_complete = False, dc_input_seen = False, dc_records_emitted = 0\<rparr>)"

definition emit :: "text_parsers \<Rightarrow> nat \<Rightarrow> nat \<Rightarrow> nat \<Rightarrow> string \<Rightarrow> record_decoder \<Rightarrow> unit decoding" where
  "emit tp payload_end separator_start consumed utf8_code d =
     (if payload_end > dl_max_record_bytes (dc_limits d)
      then (d, Inl (limit_error RECORD_TOO_LARGE ''record'' payload_end (dl_max_record_bytes (dc_limits d))))
      else case validate_utf8 tp (take payload_end (dc_pending d)) utf8_code of
        Inl e \<Rightarrow> (d, Inl e)
      | Inr _ \<Rightarrow>
          let payload = take payload_end (dc_pending d);
              separator = take (consumed - separator_start) (drop separator_start (dc_pending d))
          in (d\<lparr>dc_pending := drop consumed (dc_pending d),
                 dc_ready := Some \<lparr>tr_payload = payload, tr_separator = separator\<rparr>,
                 dc_scan_offset := 0\<rparr>, Inr ()))"

definition emit_final :: "record_decoder \<Rightarrow> record_decoder" where
  "emit_final d =
     d\<lparr>dc_pending := [], dc_ready := Some \<lparr>tr_payload = dc_pending d, tr_separator = []\<rparr>,
       dc_input_seen := True, dc_complete := True, dc_scan_offset := 0\<rparr>"

definition reset_csv_state :: "record_decoder \<Rightarrow> record_decoder" where
  "reset_csv_state d = d\<lparr>dc_csv_state := FieldStart, dc_csv_fields := 1, dc_scan_offset := 0\<rparr>"

definition consume_csv_empty :: "nat \<Rightarrow> record_decoder \<Rightarrow> record_decoder" where
  "consume_csv_empty consumed d = reset_csv_state (d\<lparr>dc_pending := drop consumed (dc_pending d)\<rparr>)"

definition increment_csv_fields :: "record_decoder \<Rightarrow> unit decoding" where
  "increment_csv_fields d =
     (let d = d\<lparr>dc_csv_fields := dc_csv_fields d + 1\<rparr>
      in if dc_csv_fields d > dl_max_csv_fields (dc_limits d)
         then (d, Inl (limit_error RECORD_TOO_LARGE ''CSV field count'' (dc_csv_fields d)
                (dl_max_csv_fields (dc_limits d))))
         else (d, Inr ()))"

definition ensure_pending_limit :: "nat \<Rightarrow> string \<Rightarrow> record_decoder \<Rightarrow> maskura_error + unit" where
  "ensure_pending_limit mx kind d =
     (if length (dc_pending d) > mx
      then Inl (limit_error RECORD_TOO_LARGE kind (length (dc_pending d)) mx) else Inr ())"

definition prepare_binary :: "bool \<Rightarrow> record_decoder \<Rightarrow> unit decoding" where
  "prepare_binary at_eof d =
     (if dc_pending d = [] then (if at_eof then d\<lparr>dc_complete := True\<rparr> else d, Inr ())
      else
        let payload_end = length (dc_pending d)
        in if payload_end > dl_max_record_bytes (dc_limits d)
        then (d, Inl (limit_error RECORD_TOO_LARGE ''record'' payload_end (dl_max_record_bytes (dc_limits d))))
        else (d\<lparr>dc_pending := drop payload_end (dc_pending d),
                dc_ready := Some \<lparr>tr_payload = take payload_end (dc_pending d), tr_separator = []\<rparr>,
                dc_input_seen := True, dc_scan_offset := 0\<rparr>, Inr ()))"

definition prepare_line :: "text_parsers \<Rightarrow> bool \<Rightarrow> record_decoder \<Rightarrow> unit decoding" where
  "prepare_line tp at_eof d =
     (case position (\<lambda>byte. byte = 0x0A) (drop (dc_scan_offset d) (dc_pending d)) of
        Some relative_end \<Rightarrow>
          let end' = dc_scan_offset d + relative_end;
              payload_end = (if end' > 0 \<and> dc_pending d ! (end' - 1) = 0x0D then end' - 1 else end')
          in emit tp payload_end payload_end (end' + 1) DECODE_ENCODING d
      | None \<Rightarrow>
          let d = d\<lparr>dc_scan_offset := length (dc_pending d)\<rparr>
          in case ensure_pending_limit (dl_max_record_bytes (dc_limits d)) ''record'' d of
            Inl e \<Rightarrow> (d, Inl e)
          | Inr _ \<Rightarrow>
              if at_eof \<and> (dc_pending d \<noteq> [] \<or> \<not> dc_input_seen d) then
                (case validate_utf8 tp (dc_pending d) DECODE_ENCODING of
                   Inl e \<Rightarrow> (d, Inl e)
                 | Inr _ \<Rightarrow> (emit_final d, Inr ()))
              else if at_eof then (d\<lparr>dc_complete := True\<rparr>, Inr ())
              else (d, Inr ()))"

definition prepare_json :: "text_parsers \<Rightarrow> bool \<Rightarrow> record_decoder \<Rightarrow> unit decoding" where
  "prepare_json tp at_eof d =
     (case ensure_pending_limit (dl_max_json_document_bytes (dc_limits d)) ''JSON document'' d of
        Inl e \<Rightarrow> (d, Inl e)
      | Inr _ \<Rightarrow>
          if \<not> at_eof then (d, Inr ())
          else if dc_pending d = [] then (d\<lparr>dc_complete := True\<rparr>, Inr ())
          else case validate_utf8 tp (dc_pending d) DECODE_ENCODING of
            Inl e \<Rightarrow> (d, Inl e)
          | Inr _ \<Rightarrow>
              (case tp_json tp (dc_pending d) of
                 JsonValue \<Rightarrow> (emit_final d, Inr ())
               | JsonEof m \<Rightarrow> (d, Inl (Generic DECODE_JSON m))
               | JsonInvalid m \<Rightarrow> (d, Inl (Generic DECODE_JSON m))))"

section \<open>CSV\<close>

definition csv_boundary :: "nat \<Rightarrow> bool \<Rightarrow> record_decoder \<Rightarrow> (nat \<times> nat) option" where
  "csv_boundary at at_eof d =
     (if dc_pending d ! at = 0x0A then Some (at, at + 1)
      else if at + 1 < length (dc_pending d) then
        (if dc_pending d ! (at + 1) = 0x0A then Some (at, at + 2) else Some (at, at + 1))
      else if at_eof then Some (at, at + 1) else None)"

definition validate_csv :: "text_parsers \<Rightarrow> nat \<Rightarrow> record_decoder \<Rightarrow> maskura_error + unit" where
  "validate_csv tp payload_end d =
     (let input = take payload_end (dc_pending d) @ [0x0A];
          (is_record, consumed, fields) = tp_csv tp input (dl_max_csv_fields (dc_limits d))
      in if \<not> is_record \<or> consumed \<noteq> length input
         then Inl (Generic DECODE_CSV ''CSV parser did not produce one complete record'')
         else if fields > dl_max_csv_fields (dc_limits d)
         then Inl (limit_error RECORD_TOO_LARGE ''CSV field count'' fields (dl_max_csv_fields (dc_limits d)))
         else Inr ())"

definition emit_csv :: "text_parsers \<Rightarrow> nat \<Rightarrow> nat \<Rightarrow> record_decoder \<Rightarrow> unit decoding" where
  "emit_csv tp payload_end separator_end d =
     (case validate_csv tp payload_end d of
        Inl e \<Rightarrow> (d, Inl e)
      | Inr _ \<Rightarrow>
        (case validate_utf8 tp (take payload_end (dc_pending d)) DECODE_ENCODING of
           Inl e \<Rightarrow> (d, Inl e)
         | Inr _ \<Rightarrow>
           (case emit tp payload_end payload_end separator_end DECODE_CSV d of
              (d, Inl e) \<Rightarrow> (d, Inl e)
            | (d, Inr _) \<Rightarrow> (reset_csv_state d, Inr ()))))"

text \<open>
  One turn of the scanning loop: go on with the next byte, start over behind a blank
  line, leave the loop to wait for more input, or return from the whole operation.
\<close>

datatype csv_turn =
    Advance record_decoder
  | StartOver record_decoder
  | Leave
  | Return record_decoder "maskura_error + unit"

definition csv_line_end :: "text_parsers \<Rightarrow> bool \<Rightarrow> record_decoder \<Rightarrow> csv_turn" where
  "csv_line_end tp at_eof d =
     (case csv_boundary (dc_scan_offset d) at_eof d of
        Some (payload_end, separator_end) \<Rightarrow>
          let (d', r) = emit_csv tp payload_end separator_end d in Return d' r
      | None \<Rightarrow> Leave)"

definition csv_next_field :: "record_decoder \<Rightarrow> csv_turn" where
  "csv_next_field d =
     (case increment_csv_fields d of
        (d, Inl e) \<Rightarrow> Return d (Inl e)
      | (d, Inr _) \<Rightarrow> Advance (d\<lparr>dc_csv_state := FieldStart\<rparr>))"

definition csv_turn_at :: "text_parsers \<Rightarrow> bool \<Rightarrow> record_decoder \<Rightarrow> csv_turn" where
  "csv_turn_at tp at_eof d =
     (let byte = dc_pending d ! dc_scan_offset d in
      case dc_csv_state d of
        FieldStart \<Rightarrow>
          if byte = 0x22 then Advance (d\<lparr>dc_csv_state := Quoted\<rparr>)
          else if byte = 0x2C then csv_next_field d
          else if byte = 0x0A \<or> byte = 0x0D then
            (case csv_boundary (dc_scan_offset d) at_eof d of
               Some (payload_end, separator_end) \<Rightarrow>
                 if payload_end = 0 then StartOver (consume_csv_empty separator_end d)
                 else let (d', r) = emit_csv tp payload_end separator_end d in Return d' r
             | None \<Rightarrow> Leave)
          else Advance (d\<lparr>dc_csv_state := Unquoted\<rparr>)
      | Unquoted \<Rightarrow>
          if byte = 0x2C then csv_next_field d
          else if byte = 0x22 then Return d (Inl (Generic DECODE_CSV ''quote inside an unquoted CSV field''))
          else if byte = 0x0A \<or> byte = 0x0D then csv_line_end tp at_eof d
          else Advance d
      | Quoted \<Rightarrow>
          if byte = 0x22 then Advance (d\<lparr>dc_csv_state := QuoteClosed\<rparr>) else Advance d
      | QuoteClosed \<Rightarrow>
          if byte = 0x22 then Advance (d\<lparr>dc_csv_state := Quoted\<rparr>)
          else if byte = 0x2C then csv_next_field d
          else if byte = 0x0A \<or> byte = 0x0D then csv_line_end tp at_eof d
          else Return d (Inl (Generic DECODE_CSV ''unexpected byte after closing CSV quote'')))"

lemma csv_next_field_Advance:
  "csv_next_field d = Advance d' \<Longrightarrow> dc_pending d' = dc_pending d \<and> dc_scan_offset d' = dc_scan_offset d"
  by (auto simp: csv_next_field_def increment_csv_fields_def Let_def split: if_splits)

lemma csv_line_end_turns: "csv_line_end tp at_eof d \<noteq> Advance d'" "csv_line_end tp at_eof d \<noteq> StartOver d'"
  by (auto simp: csv_line_end_def split: option.splits prod.splits)

lemma csv_next_field_turns: "csv_next_field d \<noteq> StartOver d'" "csv_next_field d \<noteq> Leave"
  by (auto simp: csv_next_field_def split: prod.splits sum.splits)

lemma csv_turn_Advance:
  "csv_turn_at tp at_eof d = Advance d' \<Longrightarrow> dc_pending d' = dc_pending d \<and> dc_scan_offset d' = dc_scan_offset d"
  by (auto simp: csv_turn_at_def Let_def csv_line_end_turns dest: csv_next_field_Advance
      split: csv_state.splits if_splits option.splits prod.splits)

lemma csv_turn_StartOver:
  "csv_turn_at tp at_eof d = StartOver d' \<Longrightarrow> dc_scan_offset d < length (dc_pending d)
   \<Longrightarrow> length (dc_pending d') < length (dc_pending d)"
  by (auto simp: csv_turn_at_def Let_def csv_line_end_turns csv_next_field_turns csv_boundary_def
      consume_csv_empty_def reset_csv_state_def split: csv_state.splits if_splits option.splits prod.splits)

function csv_loop :: "text_parsers \<Rightarrow> bool \<Rightarrow> record_decoder \<Rightarrow> record_decoder \<times> (maskura_error + unit) option" where
  "csv_loop tp at_eof d =
     (if dc_scan_offset d < length (dc_pending d) then
        case csv_turn_at tp at_eof d of
          Advance d' \<Rightarrow> csv_loop tp at_eof (d'\<lparr>dc_scan_offset := dc_scan_offset d' + 1\<rparr>)
        | StartOver d' \<Rightarrow> csv_loop tp at_eof d'
        | Leave \<Rightarrow> (d, None)
        | Return d' r \<Rightarrow> (d', Some r)
      else (d, None))"
  by pat_completeness auto
termination
  by (relation "measures [\<lambda>(tp, e, d). length (dc_pending d), \<lambda>(tp, e, d). length (dc_pending d) - dc_scan_offset d]")
     (auto dest: csv_turn_StartOver csv_turn_Advance)

declare csv_loop.simps [simp del]

definition prepare_csv :: "text_parsers \<Rightarrow> bool \<Rightarrow> record_decoder \<Rightarrow> unit decoding" where
  "prepare_csv tp at_eof d =
     (case csv_loop tp at_eof d of
        (d, Some r) \<Rightarrow> (d, r)
      | (d, None) \<Rightarrow>
        (case ensure_pending_limit (dl_max_record_bytes (dc_limits d)) ''CSV record'' d of
           Inl e \<Rightarrow> (d, Inl e)
         | Inr _ \<Rightarrow>
             if at_eof then
               if dc_csv_state d = Quoted then (d, Inl (Generic DECODE_CSV ''unterminated quoted CSV field''))
               else if dc_pending d \<noteq> [] then
                 (case validate_csv tp (length (dc_pending d)) d of
                    Inl e \<Rightarrow> (d, Inl e)
                  | Inr _ \<Rightarrow>
                    (case validate_utf8 tp (dc_pending d) DECODE_ENCODING of
                       Inl e \<Rightarrow> (d, Inl e)
                     | Inr _ \<Rightarrow> (reset_csv_state (emit_final d), Inr ())))
               else (d\<lparr>dc_complete := True\<rparr>, Inr ())
             else (d, Inr ())))"

section \<open>Operations\<close>

definition prepare_next :: "text_parsers \<Rightarrow> bool \<Rightarrow> record_decoder \<Rightarrow> unit decoding" where
  "prepare_next tp at_eof d =
     (if dc_ready d \<noteq> None \<or> dc_complete d then (d, Inr ())
      else case dc_format d of
        Text \<Rightarrow> prepare_line tp at_eof d
      | Jsonl \<Rightarrow> prepare_line tp at_eof d
      | Tsv \<Rightarrow> prepare_line tp at_eof d
      | Csv \<Rightarrow> prepare_csv tp at_eof d
      | Json \<Rightarrow> prepare_json tp at_eof d
      | Binary \<Rightarrow> prepare_binary at_eof d)"

definition push :: "text_parsers \<Rightarrow> bytes \<Rightarrow> record_decoder \<Rightarrow> unit decoding" where
  "push tp chunk d =
     (if dc_finished d then (d, Inl (Generic INTERNAL ''cannot push after decoder finish''))
      else if dc_ready d \<noteq> None
      then (d, Inl (Generic INTERNAL ''drain the ready record before pushing another source frame''))
      else if length chunk > dl_max_source_frame_bytes (dc_limits d)
      then (d, Inl (limit_error LIMIT_INPUT_BYTES ''source frame'' (length chunk)
                     (dl_max_source_frame_bytes (dc_limits d))))
      else prepare_next tp False
             (d\<lparr>dc_input_seen := (dc_input_seen d \<or> chunk \<noteq> []), dc_pending := dc_pending d @ chunk\<rparr>))"

definition next_record :: "text_parsers \<Rightarrow> record_decoder \<Rightarrow> text_record option decoding" where
  "next_record tp d =
     (case (if dc_ready d = None then prepare_next tp (dc_finished d) d else (d, Inr ())) of
        (d, Inl e) \<Rightarrow> (d, Inl e)
      | (d, Inr _) \<Rightarrow>
          (case dc_ready d of
             None \<Rightarrow> (d, Inr None)
           | Some r \<Rightarrow>
               (d\<lparr>dc_ready := None, dc_records_emitted := dc_records_emitted d + 1\<rparr>, Inr (Some r))))"

definition finish :: "text_parsers \<Rightarrow> record_decoder \<Rightarrow> unit decoding" where
  "finish tp d =
     (if dc_finished d then (d, Inr ())
      else if dc_ready d \<noteq> None
      then (d, Inl (Generic INTERNAL ''drain the ready record before finishing the decoder''))
      else case prepare_next tp True (d\<lparr>dc_finished := True\<rparr>) of
        (d, Inl e) \<Rightarrow> (d, Inl e)
      | (d, Inr _) \<Rightarrow>
          if dc_format d = Csv \<and> dc_ready d = None \<and> dc_records_emitted d = 0
          then (d, Inl (Generic DECODE_CSV ''no CSV records found'')) else (d, Inr ()))"

definition buffered_bytes :: "record_decoder \<Rightarrow> nat" where
  "buffered_bytes d =
     length (dc_pending d)
     + (case dc_ready d of None \<Rightarrow> 0 | Some r \<Rightarrow> length (tr_payload r) + length (tr_separator r))"

definition end_of_segment :: "text_parsers \<Rightarrow> record_decoder \<Rightarrow> unit decoding" where
  "end_of_segment tp d =
     (if dc_format d \<noteq> Json \<or> dc_pending d = [] \<or> dc_ready d \<noteq> None then (d, Inr ())
      else case tp_json tp (dc_pending d) of
        JsonValue \<Rightarrow>
          (d\<lparr>dc_pending := [], dc_ready := Some \<lparr>tr_payload = dc_pending d, tr_separator = []\<rparr>,
             dc_input_seen := True, dc_scan_offset := 0\<rparr>, Inr ())
      | JsonEof _ \<Rightarrow> (d, Inr ())
      | JsonInvalid m \<Rightarrow> (d, Inl (Generic DECODE_JSON m)))"

section \<open>Progress\<close>

text \<open>A record that is handed out uses up input, or is the last one.\<close>

definition undecoded :: "record_decoder \<Rightarrow> nat" where
  "undecoded d = length (dc_pending d) + (if dc_complete d then 0 else 1)"

lemma emit_outcome:
  assumes "emit tp pe ss n code d = (d', r)"
  shows "case r of
      Inl _ \<Rightarrow> d' = d
    | Inr _ \<Rightarrow> pe \<le> dl_max_record_bytes (dc_limits d) \<and> from_utf8 (take pe (dc_pending d))
        \<and> d' = d\<lparr>dc_pending := drop n (dc_pending d),
             dc_ready := Some \<lparr>tr_payload = take pe (dc_pending d),
               tr_separator = take (n - ss) (drop ss (dc_pending d))\<rparr>,
             dc_scan_offset := 0\<rparr>"
  using assms by (auto simp: emit_def validate_utf8_def Let_def split: if_splits sum.splits)

lemma emit_csv_outcome:
  assumes "emit_csv tp pe se d = (d', r)"
  shows "case r of
      Inl _ \<Rightarrow> d' = d
    | Inr _ \<Rightarrow> pe \<le> dl_max_record_bytes (dc_limits d) \<and> from_utf8 (take pe (dc_pending d))
        \<and> d' = reset_csv_state (d\<lparr>dc_pending := drop se (dc_pending d),
             dc_ready := Some \<lparr>tr_payload = take pe (dc_pending d),
               tr_separator = take (se - pe) (drop pe (dc_pending d))\<rparr>,
             dc_scan_offset := 0\<rparr>)"
  using assms by (auto simp: emit_csv_def split: prod.splits sum.splits dest!: emit_outcome)

lemma csv_boundary_bounds:
  "csv_boundary at e d = Some (pe, se) \<Longrightarrow> at < length (dc_pending d) \<Longrightarrow> pe = at \<and> at < se \<and> se \<le> length (dc_pending d)"
  by (auto simp: csv_boundary_def split: if_splits)

text \<open>What a turn of the CSV loop that returns has done.\<close>

lemma csv_turn_Return:
  assumes "csv_turn_at tp e d = Return d' (Inr u)" "dc_scan_offset d < length (dc_pending d)"
  shows "\<exists>se. csv_boundary (dc_scan_offset d) e d = Some (dc_scan_offset d, se)
    \<and> emit_csv tp (dc_scan_offset d) se d = (d', Inr u)"
  using assms
  by (auto simp: csv_turn_at_def csv_line_end_def csv_next_field_def Let_def
      dest: csv_boundary_bounds split: csv_state.splits if_splits option.splits prod.splits sum.splits)

lemma csv_next_field_keeps:
  "csv_next_field d = Advance d' \<Longrightarrow> dc_ready d' = dc_ready d \<and> dc_complete d' = dc_complete d \<and> dc_limits d' = dc_limits d
    \<and> dc_finished d' = dc_finished d \<and> dc_input_seen d' = dc_input_seen d \<and> dc_records_emitted d' = dc_records_emitted d
    \<and> dc_format d' = dc_format d"
  by (auto simp: csv_next_field_def increment_csv_fields_def Let_def split: if_splits)

text \<open>The fields that scanning leaves alone.\<close>

definition same_frame :: "record_decoder \<Rightarrow> record_decoder \<Rightarrow> bool" where
  "same_frame d d' \<longleftrightarrow> dc_format d' = dc_format d \<and> dc_limits d' = dc_limits d \<and> dc_finished d' = dc_finished d
     \<and> dc_complete d' = dc_complete d \<and> dc_input_seen d' = dc_input_seen d
     \<and> dc_records_emitted d' = dc_records_emitted d"

lemma same_frame_trans: "same_frame a b \<Longrightarrow> same_frame b c \<Longrightarrow> same_frame a c"
  by (simp add: same_frame_def)

lemma csv_turn_keeps:
  "csv_turn_at tp e d = Advance d' \<Longrightarrow> same_frame d d' \<and> dc_ready d' = dc_ready d"
  "csv_turn_at tp e d = StartOver d' \<Longrightarrow> same_frame d d' \<and> dc_ready d' = dc_ready d"
  by (auto simp: csv_turn_at_def Let_def csv_line_end_turns csv_next_field_turns same_frame_def
      consume_csv_empty_def reset_csv_state_def dest: csv_next_field_keeps
      split: csv_state.splits if_splits option.splits prod.splits)

lemma emit_csv_keeps: "emit_csv tp pe se d = (d', r) \<Longrightarrow> same_frame d d'"
  by (auto simp: same_frame_def reset_csv_state_def dest!: emit_csv_outcome split: sum.splits)

lemma csv_loop_progress:
  "csv_loop tp e d = (d', r) \<Longrightarrow>
     (r = None \<longrightarrow> same_frame d d' \<and> dc_ready d' = dc_ready d \<and> length (dc_pending d') \<le> length (dc_pending d))
   \<and> (r = Some (Inr ()) \<longrightarrow> same_frame d d' \<and> length (dc_pending d') < length (dc_pending d))"
proof (induction tp e d rule: csv_loop.induct)
  case (1 tp e d)
  show ?case
  proof (cases "dc_scan_offset d < length (dc_pending d)")
    case False
    with "1.prems" show ?thesis by (subst (asm) csv_loop.simps) (auto simp: same_frame_def)
  next
    case True
    note loop = "1.prems" [unfolded csv_loop.simps [of tp e d], simplified True if_True]
    show ?thesis
    proof (cases "csv_turn_at tp e d")
      case (Advance x)
      have "same_frame d (x\<lparr>dc_scan_offset := dc_scan_offset x + 1\<rparr>)"
        using csv_turn_keeps(1) [OF Advance] by (simp add: same_frame_def)
      then show ?thesis
        using "1.IH"(1) [OF True Advance] loop Advance csv_turn_Advance [OF Advance] csv_turn_keeps(1) [OF Advance]
        by (auto dest: same_frame_trans)
    next
      case (StartOver x)
      then show ?thesis
        using "1.IH"(2) [OF True StartOver] loop csv_turn_StartOver [OF StartOver True] csv_turn_keeps(2) [OF StartOver]
        by (auto dest: same_frame_trans)
    next
      case Leave
      then show ?thesis using loop by (auto simp: same_frame_def)
    next
      case (Return x y)
      show ?thesis
      proof (cases "y = Inr ()")
        case ok: True
        obtain se where se: "csv_boundary (dc_scan_offset d) e d = Some (dc_scan_offset d, se)"
            "emit_csv tp (dc_scan_offset d) se d = (x, Inr ())"
          using csv_turn_Return [of tp e d x "()"] Return True ok by auto
        show ?thesis
          using loop Return ok emit_csv_keeps [OF se(2)] emit_csv_outcome [OF se(2)] csv_boundary_bounds [OF se(1) True]
          by (auto simp: reset_csv_state_def)
      next
        case False
        then show ?thesis using loop Return by auto
      qed
    qed
  qed
qed

lemma prepare_csv_progress:
  assumes "prepare_csv tp e d = (d', Inr ())" "\<not> dc_complete d"
  shows "dc_ready d' = dc_ready d \<and> undecoded d' \<le> undecoded d \<or> undecoded d' < undecoded d"
proof -
  obtain x r where loop: "csv_loop tp e d = (x, r)" by fastforce
  show ?thesis
  proof (cases r)
    case None
    then show ?thesis
      using assms loop csv_loop_progress [OF loop]
      by (auto simp: prepare_csv_def undecoded_def emit_final_def reset_csv_state_def same_frame_def
          split: sum.splits if_splits)
  next
    case (Some y)
    then show ?thesis
      using assms loop csv_loop_progress [OF loop] by (auto simp: prepare_csv_def undecoded_def same_frame_def)
  qed
qed

lemma prepare_line_progress:
  assumes "prepare_line tp e d = (d', Inr ())" "\<not> dc_complete d"
  shows "dc_ready d' = dc_ready d \<and> undecoded d' \<le> undecoded d \<or> undecoded d' < undecoded d"
proof (cases "position (\<lambda>byte. byte = 0x0A) (drop (dc_scan_offset d) (dc_pending d))")
  case None
  then show ?thesis
    using assms by (auto simp: prepare_line_def undecoded_def emit_final_def Let_def split: sum.splits if_splits)
next
  case (Some rel)
  then have "dc_scan_offset d + rel < length (dc_pending d)" by (auto simp: position_Some)
  then show ?thesis
    using assms Some by (auto simp: prepare_line_def Let_def undecoded_def dest!: emit_outcome)
qed

lemma prepare_next_progress:
  assumes "prepare_next tp e d = (d', Inr ())"
  shows "dc_ready d' = dc_ready d \<and> undecoded d' \<le> undecoded d \<or> undecoded d' < undecoded d"
proof (cases "dc_ready d \<noteq> None \<or> dc_complete d")
  case True
  then show ?thesis using assms by (auto simp: prepare_next_def)
next
  case False
  then show ?thesis
    using assms prepare_line_progress [of tp e d d'] prepare_csv_progress [of tp e d d']
    by (cases "dc_format d")
       (auto simp: prepare_next_def prepare_json_def prepare_binary_def emit_final_def undecoded_def Let_def
         split: sum.splits if_splits json_verdict.splits)
qed

definition undelivered :: "record_decoder \<Rightarrow> nat" where
  "undelivered d = undecoded d + (if dc_ready d = None then 0 else 1)"

lemma next_record_progress:
  "next_record tp d = (d', Inr (Some r)) \<Longrightarrow> undelivered d' < undelivered d"
  using prepare_next_progress [of tp "dc_finished d" d]
  by (fastforce simp: next_record_def undelivered_def undecoded_def split: if_splits prod.splits sum.splits option.splits)

section \<open>The output validator\<close>

record output_validator =
  ov_format :: text_format
  ov_decoder :: record_decoder
  ov_max_frame_bytes :: nat
  ov_input_seen :: bool
  ov_finished :: bool

definition validator_new :: "text_format \<Rightarrow> decoder_limits \<Rightarrow> maskura_error + output_validator" where
  "validator_new format limits =
     and_then (decoder_new format limits) (\<lambda>decoder.
     Inr \<lparr>ov_format = format, ov_decoder = decoder, ov_max_frame_bytes = dl_max_source_frame_bytes limits,
       ov_input_seen = False, ov_finished = False\<rparr>)"

definition check_jsonl :: "text_parsers \<Rightarrow> text_format \<Rightarrow> text_record \<Rightarrow> maskura_error + unit" where
  "check_jsonl tp format r =
     (if format = Jsonl then
        and_then (validate_utf8 tp (tr_payload r) DECODE_ENCODING) (\<lambda>_.
        case tp_json tp (tr_payload r) of
          JsonValue \<Rightarrow> Inr ()
        | JsonEof m \<Rightarrow> Inl (Generic DECODE_JSONL m)
        | JsonInvalid m \<Rightarrow> Inl (Generic DECODE_JSONL m))
      else Inr ())"

function drain_records :: "text_parsers \<Rightarrow> text_format \<Rightarrow> record_decoder \<Rightarrow> unit decoding" where
  "drain_records tp format d =
     (case next_record tp d of
        (d', Inl e) \<Rightarrow> (d', Inl e)
      | (d', Inr None) \<Rightarrow> (d', Inr ())
      | (d', Inr (Some r)) \<Rightarrow>
          (case check_jsonl tp format r of
             Inl e \<Rightarrow> (d', Inl e)
           | Inr _ \<Rightarrow> drain_records tp format d'))"
  by pat_completeness auto
termination
  by (relation "measure (\<lambda>(tp, f, d). undelivered d)") (auto dest: next_record_progress [OF sym])

declare drain_records.simps [simp del]

lemma drain_records_code [code]:
  "drain_records tp format d =
     (let x = next_record tp d in
      case snd x of
        Inl e \<Rightarrow> (fst x, Inl e)
      | Inr r \<Rightarrow>
          (case r of
             None \<Rightarrow> (fst x, Inr ())
           | Some r \<Rightarrow>
               (case check_jsonl tp format r of
                  Inl e \<Rightarrow> (fst x, Inl e)
                | Inr _ \<Rightarrow> drain_records tp format (fst x))))"
  by (subst drain_records.simps) (auto simp: Let_def split: prod.splits sum.splits option.splits)

text \<open>\<open>slice::chunks\<close>; a size of zero panics and is excluded by the limits.\<close>

function chunks :: "nat \<Rightarrow> 'a list \<Rightarrow> 'a list list" where
  "chunks n xs = (if n = 0 \<or> xs = [] then [] else take n xs # chunks n (drop n xs))"
  by pat_completeness auto
termination by (relation "measure (\<lambda>(n, xs). length xs)") auto

declare chunks.simps [simp del]

fun push_chunks :: "text_parsers \<Rightarrow> text_format \<Rightarrow> bytes list \<Rightarrow> record_decoder \<Rightarrow> unit decoding" where
  "push_chunks tp format [] d = (d, Inr ())"
| "push_chunks tp format (c # cs) d =
     (case push tp c d of
        (d, Inl e) \<Rightarrow> (d, Inl e)
      | (d, Inr _) \<Rightarrow>
          (case drain_records tp format d of
             (d, Inl e) \<Rightarrow> (d, Inl e)
           | (d, Inr _) \<Rightarrow> push_chunks tp format cs d))"

definition push_bytes :: "text_parsers \<Rightarrow> bytes \<Rightarrow> output_validator \<Rightarrow> output_validator \<times> (maskura_error + unit)" where
  "push_bytes tp bs v =
     (let v = v\<lparr>ov_input_seen := (ov_input_seen v \<or> bs \<noteq> [])\<rparr>;
          (d, r) = push_chunks tp (ov_format v) (chunks (ov_max_frame_bytes v) bs) (ov_decoder v)
      in (v\<lparr>ov_decoder := d\<rparr>, r))"

definition push_record ::
  "text_parsers \<Rightarrow> text_record \<Rightarrow> output_validator \<Rightarrow> output_validator \<times> (maskura_error + unit)" where
  "push_record tp r v =
     (if ov_finished v then (v, Inl (Generic INTERNAL ''cannot validate output after finish''))
      else case push_bytes tp (tr_payload r) v of
        (v, Inl e) \<Rightarrow> (v, Inl e)
      | (v, Inr _) \<Rightarrow> push_bytes tp (tr_separator r) v)"

definition validator_finish :: "text_parsers \<Rightarrow> output_validator \<Rightarrow> output_validator \<times> (maskura_error + unit)" where
  "validator_finish tp v =
     (if ov_finished v then (v, Inr ())
      else
        let v = v\<lparr>ov_finished := True\<rparr>
        in if \<not> ov_input_seen v then (v, Inr ())
        else case finish tp (ov_decoder v) of
          (d, Inl e) \<Rightarrow> (v\<lparr>ov_decoder := d\<rparr>, Inl e)
        | (d, Inr _) \<Rightarrow> (let (d, r) = drain_records tp (ov_format v) d in (v\<lparr>ov_decoder := d\<rparr>, r)))"

fun push_records ::
  "text_parsers \<Rightarrow> text_record list \<Rightarrow> output_validator \<Rightarrow> output_validator \<times> (maskura_error + unit)" where
  "push_records tp [] v = (v, Inr ())"
| "push_records tp (r # rs) v =
     (case push_record tp r v of (v, Inl e) \<Rightarrow> (v, Inl e) | (v, Inr _) \<Rightarrow> push_records tp rs v)"

definition validate_output_records ::
  "text_parsers \<Rightarrow> text_format \<Rightarrow> text_record list \<Rightarrow> decoder_limits \<Rightarrow> maskura_error + unit" where
  "validate_output_records tp format records limits =
     and_then (validator_new format limits) (\<lambda>v.
     case push_records tp records v of
       (v, Inl e) \<Rightarrow> Inl e
     | (v, Inr _) \<Rightarrow> snd (validator_finish tp v))"

end
