(* ===== verification/Record_Streams.thy ===== *)
theory Record_Streams
  imports Record_Decoder
begin

text \<open>
  Decoding a whole object: frames are pushed one by one, every record that is ready is
  taken out after each frame, and after the last frame the decoder is finished and
  drained again. The lemmas follow the bytes that a decoder holds through every
  operation.
\<close>

section \<open>Reading an object\<close>

function drain :: "text_parsers \<Rightarrow> record_decoder \<Rightarrow> text_record list decoding" where
  "drain tp d =
     (case next_record tp d of
        (d', Inl e) \<Rightarrow> (d', Inl e)
      | (d', Inr None) \<Rightarrow> (d', Inr [])
      | (d', Inr (Some r)) \<Rightarrow>
          (case drain tp d' of (d'', Inl e) \<Rightarrow> (d'', Inl e) | (d'', Inr rs) \<Rightarrow> (d'', Inr (r # rs))))"
  by pat_completeness auto
termination
  by (relation "measure (\<lambda>(tp, d). undelivered d)") (auto dest: next_record_progress [OF sym])

declare drain.simps [simp del]

lemma drain_code [code]:
  "drain tp d =
     (let x = next_record tp d in
      case snd x of
        Inl e \<Rightarrow> (fst x, Inl e)
      | Inr r \<Rightarrow>
          (case r of
             None \<Rightarrow> (fst x, Inr [])
           | Some r \<Rightarrow> (let y = drain tp (fst x) in (fst y, and_then (snd y) (\<lambda>rs. Inr (r # rs))))))"
  by (subst drain.simps) (auto simp: Let_def and_then_def split: prod.splits sum.splits option.splits)

fun decode_frames :: "text_parsers \<Rightarrow> bytes list \<Rightarrow> record_decoder \<Rightarrow> maskura_error + text_record list" where
  "decode_frames tp [] d =
     (case finish tp d of (d, Inl e) \<Rightarrow> Inl e | (d, Inr _) \<Rightarrow> snd (drain tp d))"
| "decode_frames tp (frame # frames) d =
     (case push tp frame d of
        (d, Inl e) \<Rightarrow> Inl e
      | (d, Inr _) \<Rightarrow>
          (case drain tp d of
             (d, Inl e) \<Rightarrow> Inl e
           | (d, Inr rs) \<Rightarrow> and_then (decode_frames tp frames d) (\<lambda>more. Inr (rs @ more))))"

definition read_object ::
  "text_parsers \<Rightarrow> text_format \<Rightarrow> decoder_limits \<Rightarrow> bytes list \<Rightarrow> maskura_error + text_record list" where
  "read_object tp format limits frames = and_then (decoder_new format limits) (decode_frames tp frames)"

definition record_bytes :: "text_record \<Rightarrow> bytes" where
  "record_bytes r = tr_payload r @ tr_separator r"

section \<open>The bytes a decoder holds\<close>

definition held_bytes :: "record_decoder \<Rightarrow> bytes" where
  "held_bytes d = (case dc_ready d of None \<Rightarrow> [] | Some r \<Rightarrow> record_bytes r) @ dc_pending d"

text \<open>Blank CSV lines are skipped, so for CSV the line breaks are left out of the account.\<close>

definition kept_bytes :: "text_format \<Rightarrow> bytes \<Rightarrow> bytes" where
  "kept_bytes format bs = (if format = Csv then filter (\<lambda>b. b \<noteq> 0x0A \<and> b \<noteq> 0x0D) bs else bs)"

lemma kept_bytes_append [simp]: "kept_bytes f (xs @ ys) = kept_bytes f xs @ kept_bytes f ys"
  by (simp add: kept_bytes_def)

lemma kept_bytes_Nil [simp]: "kept_bytes f [] = []"
  by (simp add: kept_bytes_def)

definition decoder_settled :: "record_decoder \<Rightarrow> bool" where
  "decoder_settled d \<longleftrightarrow> (dc_complete d \<longrightarrow> dc_pending d = [] \<and> dc_finished d)"

lemma cut_bytes: "a \<le> n \<Longrightarrow> take a xs @ take (n - a) (drop a xs) @ drop n xs = xs"
  by (metis append.assoc append_take_drop_id le_add_diff_inverse take_add)

lemma emit_held:
  assumes "emit tp a a n code d = (d', Inr u)" "a \<le> n" "dc_ready d = None"
  shows "held_bytes d' = held_bytes d" "dc_format d' = dc_format d" "dc_complete d' = dc_complete d" "dc_finished d' = dc_finished d"
  using emit_outcome [OF assms(1)] assms(2,3) cut_bytes [of a n "dc_pending d"]
  by (auto simp: held_bytes_def record_bytes_def)

lemma emit_csv_held:
  assumes "emit_csv tp a n d = (d', Inr u)" "a \<le> n" "dc_ready d = None"
  shows "held_bytes d' = held_bytes d"
  using emit_csv_outcome [OF assms(1)] assms(2,3) cut_bytes [of a n "dc_pending d"]
  by (auto simp: held_bytes_def record_bytes_def reset_csv_state_def)

lemma csv_blank_bytes:
  assumes "csv_boundary 0 e d = Some (0, se)" "dc_pending d \<noteq> []" "dc_pending d ! 0 = 0x0A \<or> dc_pending d ! 0 = 0x0D"
  shows "kept_bytes Csv (drop se (dc_pending d)) = kept_bytes Csv (dc_pending d)"
proof -
  have "kept_bytes Csv (take se (dc_pending d)) = []"
    using assms
    by (cases "dc_pending d"; cases "tl (dc_pending d)") (auto simp: csv_boundary_def kept_bytes_def split: if_splits)
  then show ?thesis by (metis append_Nil append_take_drop_id kept_bytes_append)
qed

lemma csv_turn_StartOver_held:
  assumes "csv_turn_at tp e d = StartOver d'" "dc_scan_offset d < length (dc_pending d)"
  shows "kept_bytes Csv (held_bytes d') = kept_bytes Csv (held_bytes d)"
proof -
  obtain pe se where b: "csv_boundary (dc_scan_offset d) e d = Some (pe, se)" "pe = 0"
      "d' = consume_csv_empty se d" "dc_pending d ! dc_scan_offset d = 0x0A \<or> dc_pending d ! dc_scan_offset d = 0x0D"
    using assms(1)
    by (auto simp: csv_turn_at_def Let_def csv_line_end_turns csv_next_field_turns
        split: csv_state.splits if_splits option.splits prod.splits)
  then have "dc_scan_offset d = 0" using csv_boundary_bounds [OF b(1) assms(2)] by simp
  with b assms(2) have "kept_bytes Csv (drop se (dc_pending d)) = kept_bytes Csv (dc_pending d)"
    by (intro csv_blank_bytes [of e d se]) auto
  with b show ?thesis by (simp add: held_bytes_def consume_csv_empty_def reset_csv_state_def)
qed

lemma csv_loop_held:
  "csv_loop tp e d = (d', r) \<Longrightarrow> dc_ready d = None \<Longrightarrow> r = None \<or> r = Some (Inr ())
   \<Longrightarrow> kept_bytes Csv (held_bytes d') = kept_bytes Csv (held_bytes d) \<and> (r \<noteq> None \<longrightarrow> dc_ready d' \<noteq> None)"
proof (induction tp e d rule: csv_loop.induct)
  case (1 tp e d)
  show ?case
  proof (cases "dc_scan_offset d < length (dc_pending d)")
    case False
    with "1.prems" show ?thesis by (subst (asm) csv_loop.simps) auto
  next
    case True
    note loop = "1.prems"(1) [unfolded csv_loop.simps [of tp e d], simplified True if_True]
    show ?thesis
    proof (cases "csv_turn_at tp e d")
      case (Advance x)
      then show ?thesis
        using "1.IH"(1) [OF True Advance] loop "1.prems"(2,3) csv_turn_Advance [OF Advance] csv_turn_keeps(1) [OF Advance]
        by (auto simp: held_bytes_def)
    next
      case (StartOver x)
      then show ?thesis
        using "1.IH"(2) [OF True StartOver] loop "1.prems"(2,3) csv_turn_StartOver_held [OF StartOver True]
          csv_turn_keeps(2) [OF StartOver] by auto
    next
      case Leave
      then show ?thesis using loop by auto
    next
      case (Return x y)
      then have "y = Inr ()" "d' = x" using loop "1.prems"(3) by auto
      then obtain se where se: "csv_boundary (dc_scan_offset d) e d = Some (dc_scan_offset d, se)"
          "emit_csv tp (dc_scan_offset d) se d = (d', Inr ())"
        using csv_turn_Return [of tp e d x "()"] Return True by auto
      then show ?thesis
        using emit_csv_held [OF se(2)] emit_csv_outcome [OF se(2)] csv_boundary_bounds [OF se(1) True] "1.prems"(2)
        by (auto simp: reset_csv_state_def)
    qed
  qed
qed

lemma prepare_line_held:
  assumes "prepare_line tp e d = (d', Inr u)" "dc_ready d = None" "\<not> dc_complete d" "e \<longrightarrow> dc_finished d"
  shows "held_bytes d' = held_bytes d \<and> dc_format d' = dc_format d \<and> decoder_settled d' \<and> (e \<and> dc_ready d' = None \<longrightarrow> dc_pending d' = [])"
proof (cases "position (\<lambda>byte. byte = 0x0A) (drop (dc_scan_offset d) (dc_pending d))")
  case None
  then show ?thesis
    using assms by (auto simp: prepare_line_def emit_final_def held_bytes_def record_bytes_def decoder_settled_def Let_def
        split: sum.splits if_splits)
next
  case (Some rel)
  define stop where "stop = dc_scan_offset d + rel"
  define pe where "pe = (if stop > 0 \<and> dc_pending d ! (stop - 1) = 0x0D then stop - 1 else stop)"
  have emit: "emit tp pe pe (stop + 1) DECODE_ENCODING d = (d', Inr u)"
    using assms(1) by (simp only: prepare_line_def Some option.case Let_def stop_def pe_def)
  have "pe \<le> stop + 1" unfolding pe_def by simp linarith
  from emit_held [OF emit this assms(2)] emit_outcome [OF emit] assms(3) show ?thesis
    by (auto simp: decoder_settled_def)
qed

lemma prepare_csv_held:
  assumes "prepare_csv tp e d = (d', Inr u)" "dc_ready d = None" "\<not> dc_complete d" "e \<longrightarrow> dc_finished d"
  shows "kept_bytes Csv (held_bytes d') = kept_bytes Csv (held_bytes d) \<and> dc_format d' = dc_format d \<and> decoder_settled d'
    \<and> (e \<and> dc_ready d' = None \<longrightarrow> dc_pending d' = [])"
proof -
  obtain x r where loop: "csv_loop tp e d = (x, r)" by fastforce
  have r: "r = None \<or> r = Some (Inr ())" using assms(1) loop by (cases r) (auto simp: prepare_csv_def)
  note held_bytes = csv_loop_held [OF loop assms(2) r]
  note frame = csv_loop_progress [OF loop]
  show ?thesis
  proof (cases r)
    case None
    then show ?thesis
      using assms loop frame held_bytes
      by (auto simp: prepare_csv_def emit_final_def reset_csv_state_def same_frame_def decoder_settled_def
          held_bytes_def record_bytes_def split: sum.splits if_splits)
  next
    case (Some y)
    then show ?thesis
      using assms loop frame held_bytes by (auto simp: prepare_csv_def same_frame_def decoder_settled_def)
  qed
qed


lemma prepare_next_held:
  assumes "prepare_next tp e d = (d', Inr u)" "decoder_settled d" "e \<longrightarrow> dc_finished d"
  shows "kept_bytes (dc_format d) (held_bytes d') = kept_bytes (dc_format d) (held_bytes d) \<and> dc_format d' = dc_format d
    \<and> decoder_settled d' \<and> (e \<and> dc_ready d' = None \<longrightarrow> dc_pending d' = [])"
proof (cases "dc_ready d \<noteq> None \<or> dc_complete d")
  case True
  then show ?thesis using assms by (auto simp: prepare_next_def decoder_settled_def)
next
  case False
  then have idle: "dc_ready d = None" "\<not> dc_complete d" by auto
  show ?thesis
  proof (cases "dc_format d = Csv")
    case True
    then show ?thesis using assms idle prepare_csv_held [of tp e d d'] by (auto simp: prepare_next_def)
  next
    case False
    then show ?thesis
      using assms idle prepare_line_held [of tp e d d']
      by (cases "dc_format d")
         (auto simp: prepare_next_def prepare_json_def prepare_binary_def emit_final_def held_bytes_def record_bytes_def
           decoder_settled_def Let_def split: sum.splits if_splits json_verdict.splits)
  qed
qed

lemma next_record_held:
  assumes "next_record tp d = (d', Inr r)" "decoder_settled d"
  shows "kept_bytes (dc_format d) (case r of None \<Rightarrow> [] | Some x \<Rightarrow> record_bytes x)
      @ kept_bytes (dc_format d) (held_bytes d') = kept_bytes (dc_format d) (held_bytes d)"
    "dc_format d' = dc_format d" "decoder_settled d'" "r = None \<Longrightarrow> dc_ready d' = None"
    "r = None \<Longrightarrow> dc_finished d \<Longrightarrow> held_bytes d' = []"
proof -
  obtain x where x: "(if dc_ready d = None then prepare_next tp (dc_finished d) d else (d, Inr ())) = (x, Inr ())"
      "r = dc_ready x" "d' = (if r = None then x else x\<lparr>dc_ready := None, dc_records_emitted := dc_records_emitted x + 1\<rparr>)"
    using assms(1) by (auto simp: next_record_def split: prod.splits sum.splits option.splits if_splits)
  have step: "kept_bytes (dc_format d) (held_bytes x) = kept_bytes (dc_format d) (held_bytes d)" "dc_format x = dc_format d"
      "decoder_settled x" "dc_finished d \<and> dc_ready x = None \<longrightarrow> dc_pending x = []"
    using x(1) prepare_next_held [of tp "dc_finished d" d x "()"] assms(2) by (auto split: if_splits)
  have "kept_bytes (dc_format d) (held_bytes x)
      = kept_bytes (dc_format d) (case r of None \<Rightarrow> [] | Some y \<Rightarrow> record_bytes y) @ kept_bytes (dc_format d) (dc_pending x)"
    unfolding x(2) held_bytes_def by simp
  then show "kept_bytes (dc_format d) (case r of None \<Rightarrow> [] | Some y \<Rightarrow> record_bytes y)
      @ kept_bytes (dc_format d) (held_bytes d') = kept_bytes (dc_format d) (held_bytes d)"
    using step(1) x(2,3) by (auto simp: held_bytes_def split: if_splits)
  show "dc_format d' = dc_format d" "decoder_settled d'" using step x(3) by (auto simp: decoder_settled_def)
  show "r = None \<Longrightarrow> dc_ready d' = None" using x by simp
  show "r = None \<Longrightarrow> dc_finished d \<Longrightarrow> held_bytes d' = []" using x step by (simp add: held_bytes_def)
qed

lemma csv_loop_finished: "csv_loop tp e d = (d', r) \<Longrightarrow> r = None \<or> r = Some (Inr ()) \<Longrightarrow> dc_finished d' = dc_finished d"
  using csv_loop_progress [of tp e d d' r] by (auto simp: same_frame_def)

lemma prepare_next_finished: "prepare_next tp e d = (d', Inr u) \<Longrightarrow> dc_finished d' = dc_finished d"
  by (auto simp: prepare_next_def prepare_line_def prepare_csv_def prepare_json_def prepare_binary_def emit_final_def
      reset_csv_state_def Let_def dest!: emit_outcome dest: csv_loop_finished
      split: if_splits text_format.splits option.splits sum.splits prod.splits json_verdict.splits)

lemma next_record_finished: "next_record tp d = (d', Inr r) \<Longrightarrow> dc_finished d' = dc_finished d"
  by (auto simp: next_record_def dest: prepare_next_finished split: if_splits prod.splits sum.splits option.splits)

lemma drain_held:
  "drain tp d = (d', Inr rs) \<Longrightarrow> decoder_settled d \<Longrightarrow>
     kept_bytes (dc_format d) (concat (map record_bytes rs)) @ kept_bytes (dc_format d) (held_bytes d')
       = kept_bytes (dc_format d) (held_bytes d)
   \<and> dc_format d' = dc_format d \<and> decoder_settled d' \<and> dc_ready d' = None \<and> dc_finished d' = dc_finished d
   \<and> (dc_finished d \<longrightarrow> held_bytes d' = [])"
proof (induction tp d arbitrary: rs rule: drain.induct)
  case (1 tp d)
  obtain x r where step: "next_record tp d = (x, Inr r)"
    using "1.prems"(1) by (subst (asm) drain.simps) (auto split: prod.splits sum.splits)
  note held_bytes = next_record_held [OF step "1.prems"(2)]
  show ?case
  proof (cases r)
    case None
    then show ?thesis
      using "1.prems"(1) held_bytes step next_record_finished [OF step] by (subst (asm) drain.simps) auto
  next
    case (Some y)
    obtain ys where ys: "drain tp x = (d', Inr ys)" "rs = y # ys"
      using "1.prems"(1) step Some by (subst (asm) drain.simps) (auto split: prod.splits sum.splits)
    have "kept_bytes (dc_format x) (concat (map record_bytes ys)) @ kept_bytes (dc_format x) (held_bytes d')
        = kept_bytes (dc_format x) (held_bytes x)
      \<and> dc_format d' = dc_format x \<and> decoder_settled d' \<and> dc_ready d' = None \<and> dc_finished d' = dc_finished x
      \<and> (dc_finished x \<longrightarrow> held_bytes d' = [])"
      using "1.IH" [OF step [symmetric] refl Some ys(1) held_bytes(3)] .
    then show ?thesis using held_bytes(1,2) ys(2) Some next_record_finished [OF step] by (auto simp flip: held_bytes(1))
  qed
qed

lemma decode_frames_held:
  "decode_frames tp frames d = Inr rs \<Longrightarrow> decoder_settled d \<Longrightarrow> \<not> dc_finished d \<Longrightarrow> dc_ready d = None \<Longrightarrow>
     kept_bytes (dc_format d) (concat (map record_bytes rs)) = kept_bytes (dc_format d) (held_bytes d @ concat frames)"
proof (induction frames arbitrary: d rs)
  case Nil
  obtain x where fin: "finish tp d = (x, Inr ())" "snd (drain tp x) = Inr rs"
    using Nil.prems(1) by (auto split: prod.splits sum.splits)
  have prep: "prepare_next tp True (d\<lparr>dc_finished := True\<rparr>) = (x, Inr ())"
    using fin(1) Nil.prems by (auto simp: finish_def split: prod.splits sum.splits if_splits)
  have "decoder_settled (d\<lparr>dc_finished := True\<rparr>)" using Nil.prems(2) by (simp add: decoder_settled_def)
  from prepare_next_held [OF prep this, simplified] prepare_next_finished [OF prep]
  have x: "kept_bytes (dc_format d) (held_bytes x) = kept_bytes (dc_format d) (held_bytes d)" "decoder_settled x" "dc_finished x"
    "dc_format x = dc_format d" by (auto simp: held_bytes_def)
  obtain y where "drain tp x = (y, Inr rs)" using fin(2) by (metis prod.collapse)
  from drain_held [OF this x(2)] x show ?case by fastforce
next
  case (Cons frame frames)
  obtain x y ys zs where run: "push tp frame d = (x, Inr ())" "drain tp x = (y, Inr ys)"
      "decode_frames tp frames y = Inr zs" "rs = ys @ zs"
    using Cons.prems(1) by (auto simp: result_simps split: prod.splits sum.splits)
  let ?d = "d\<lparr>dc_input_seen := (dc_input_seen d \<or> frame \<noteq> []), dc_pending := dc_pending d @ frame\<rparr>"
  have prep: "prepare_next tp False ?d = (x, Inr ())"
    using run(1) by (auto simp: push_def split: if_splits)
  have "decoder_settled ?d" using Cons.prems(2,3) by (auto simp: decoder_settled_def)
  from prepare_next_held [OF prep this, simplified] prepare_next_finished [OF prep]
  have x: "kept_bytes (dc_format d) (held_bytes x) = kept_bytes (dc_format d) (held_bytes d @ frame)" "decoder_settled x" "\<not> dc_finished x"
    "dc_format x = dc_format d" using Cons.prems(3,4) by (auto simp: held_bytes_def)
  from drain_held [OF run(2) x(2)] have y: "decoder_settled y" "dc_ready y = None" "dc_format y = dc_format d"
      "kept_bytes (dc_format d) (concat (map record_bytes ys)) @ kept_bytes (dc_format d) (held_bytes y)
        = kept_bytes (dc_format d) (held_bytes x)" using x by auto
  have "\<not> dc_finished y" using drain_held [OF run(2) x(2)] x(3) by simp
  from Cons.IH [OF run(3) y(1) this y(2)] y x run(4) show ?case by simp
qed


text \<open>
  C30: Decoding loses no byte. Whatever the frames an object arrives in, the records
  that are read carry, payloads and separators in order, exactly the bytes of the
  object. For CSV, whose blank lines are skipped, this holds for all bytes other than
  line breaks.
\<close>

theorem decoding_is_lossless:
  assumes "read_object tp format limits frames = Inr records"
  shows "(format \<noteq> Csv \<longrightarrow> concat (map record_bytes records) = concat frames)
    \<and> (format = Csv \<longrightarrow> filter (\<lambda>b. b \<noteq> 0x0A \<and> b \<noteq> 0x0D) (concat (map record_bytes records))
         = filter (\<lambda>b. b \<noteq> 0x0A \<and> b \<noteq> 0x0D) (concat frames))"
proof -
  obtain d where new: "decoder_new format limits = Inr d" and run: "decode_frames tp frames d = Inr records"
    using assms by (auto simp: read_object_def result_simps)
  have d: "decoder_settled d" "\<not> dc_finished d" "dc_ready d = None" "dc_format d = format" "held_bytes d = []"
    using new by (auto simp: decoder_new_def decoder_settled_def held_bytes_def result_simps)
  from decode_frames_held [OF run d(1-3)] d(4,5) show ?thesis by (auto simp: kept_bytes_def)
qed

section \<open>Lines\<close>

text \<open>The reference: the records of a text are its lines, with the line end that each one has.\<close>

definition line_record :: "bytes \<Rightarrow> text_record" where
  "line_record l =
     (if l \<noteq> [] \<and> last l = 0x0D then \<lparr>tr_payload = butlast l, tr_separator = [0x0D, 0x0A]\<rparr>
      else \<lparr>tr_payload = l, tr_separator = [0x0A]\<rparr>)"

function split_lines :: "bytes \<Rightarrow> text_record list \<times> bytes" where
  "split_lines bs =
     (if 0x0A \<in> set bs then
        let (rs, t) = split_lines (tl (dropWhile (\<lambda>b. b \<noteq> 0x0A) bs))
        in (line_record (takeWhile (\<lambda>b. b \<noteq> 0x0A) bs) # rs, t)
      else ([], bs))"
  by pat_completeness auto
termination
  by (relation "measure length")
     (auto simp: length_dropWhile_le less_le_trans [OF diff_less] dropWhile_eq_Nil_conv intro!: less_le_trans [OF diff_less])

declare split_lines.simps [simp del]

definition text_records :: "bytes \<Rightarrow> text_record list" where
  "text_records bs =
     (if bs = [] then [\<lparr>tr_payload = [], tr_separator = []\<rparr>]
      else let (rs, t) = split_lines bs in rs @ (if t = [] then [] else [\<lparr>tr_payload = t, tr_separator = []\<rparr>]))"

lemma split_lines_none: "0x0A \<notin> set bs \<Longrightarrow> split_lines bs = ([], bs)"
  by (subst split_lines.simps) simp

lemma split_lines_cons:
  assumes "0x0A \<notin> set l"
  shows "split_lines (l @ 0x0A # rest) = (line_record l # fst (split_lines rest), snd (split_lines rest))"
proof -
  have "takeWhile (\<lambda>b. b \<noteq> 0x0A) (l @ 0x0A # rest) = l" "dropWhile (\<lambda>b. b \<noteq> 0x0A) (l @ 0x0A # rest) = 0x0A # rest"
    using assms by (auto simp: takeWhile_append dropWhile_append)
  then show ?thesis by (subst split_lines.simps) (simp add: case_prod_unfold Let_def)
qed

lemma first_line:
  assumes "(0x0A :: 8 word) \<in> set bs"
  obtains l rest where "bs = l @ 0x0A # rest" "0x0A \<notin> set l"
  using split_list_first [OF assms] by blast

lemma split_lines_rest: "0x0A \<notin> set (snd (split_lines bs))"
proof (induction bs rule: split_lines.induct)
  case (1 bs)
  then show ?case by (subst split_lines.simps) (auto simp: case_prod_unfold Let_def)
qed

lemma split_lines_append:
  "split_lines (a @ b) =
     (fst (split_lines a) @ fst (split_lines (snd (split_lines a) @ b)), snd (split_lines (snd (split_lines a) @ b)))"
proof (induction "length a" arbitrary: a rule: less_induct)
  case less
  show ?case
  proof (cases "0x0A \<in> set a")
    case True
    then obtain l rest where a: "a = l @ 0x0A # rest" "0x0A \<notin> set l" by (rule first_line)
    then show ?thesis using less [of rest] by (simp add: split_lines_cons)
  qed (simp add: split_lines_none)
qed


definition line_format :: "text_format \<Rightarrow> bool" where
  "line_format f \<longleftrightarrow> f \<in> {Text, Jsonl, Tsv}"

text \<open>Between two operations a line decoder has only scanned bytes that are not line ends.\<close>

definition scanning :: "record_decoder \<Rightarrow> bool" where
  "scanning d \<longleftrightarrow> line_format (dc_format d) \<and> dc_ready d = None \<and> \<not> dc_complete d
     \<and> dc_scan_offset d \<le> length (dc_pending d) \<and> 0x0A \<notin> set (take (dc_scan_offset d) (dc_pending d))"

definition max_record :: "record_decoder \<Rightarrow> nat" where
  "max_record d = dl_max_record_bytes (dc_limits d)"

definition record_within :: "nat \<Rightarrow> text_record \<Rightarrow> bool" where
  "record_within mx r \<longleftrightarrow> length (tr_payload r) \<le> mx \<and> from_utf8 (tr_payload r)"

lemma scanning_offset:
  assumes "scanning d" "dc_pending d = l @ 0x0A # rest"
  shows "dc_scan_offset d \<le> length l"
proof (rule ccontr)
  assume "\<not> dc_scan_offset d \<le> length l"
  then have "0x0A \<in> set (take (dc_scan_offset d) (dc_pending d))"
    using assms(2) by (cases "dc_scan_offset d - length l") auto
  with assms(1) show False by (simp add: scanning_def)
qed

lemma position_after: "0x0A \<notin> set l \<Longrightarrow> position (\<lambda>b. b = (0x0A :: 8 word)) (l @ 0x0A # rest) = Some (length l)"
  by (induction l) auto

lemma prepare_line_newline:
  assumes "scanning d" "dc_pending d = l @ 0x0A # rest" "0x0A \<notin> set l"
  shows "if record_within (max_record d) (line_record l)
     then prepare_line tp e d = (d\<lparr>dc_pending := rest, dc_ready := Some (line_record l), dc_scan_offset := 0\<rparr>, Inr ())
     else \<exists>err. prepare_line tp e d = (d, Inl err)"
proof -
  note off = scanning_offset [OF assms(1,2)]
  let ?pe = "length (tr_payload (line_record l))"
  have drop: "drop (dc_scan_offset d) (dc_pending d) = drop (dc_scan_offset d) l @ 0x0A # rest"
    using off assms(2) by simp
  have "position (\<lambda>byte. byte = 0x0A) (drop (dc_scan_offset d) (dc_pending d)) = Some (length l - dc_scan_offset d)"
    unfolding drop using assms(3) by (subst position_after) (auto dest: in_set_dropD)
  moreover have "(if length l > 0 \<and> dc_pending d ! (length l - 1) = 0x0D then length l - 1 else length l) = ?pe"
    using assms(2) by (cases l rule: rev_cases) (auto simp: line_record_def nth_append)
  ultimately have line: "prepare_line tp e d = emit tp ?pe ?pe (length l + 1) DECODE_ENCODING d"
    using off unfolding prepare_line_def by (simp add: Let_def)
  have "take ?pe (dc_pending d) = tr_payload (line_record l)"
    "take (length l + 1 - ?pe) (drop ?pe (dc_pending d)) = tr_separator (line_record l)"
    "drop (length l + 1) (dc_pending d) = rest"
    using assms(2) by (cases l rule: rev_cases; auto simp: line_record_def numeral_2_eq_2)+
  then show ?thesis
    unfolding line by (auto simp: emit_def record_within_def max_record_def validate_utf8_def Let_def)
qed

lemma prepare_line_none:
  assumes "0x0A \<notin> set (dc_pending d)"
  shows "prepare_line tp False d =
    (d\<lparr>dc_scan_offset := length (dc_pending d)\<rparr>,
     if length (dc_pending d) \<le> max_record d then Inr ()
     else Inl (limit_error RECORD_TOO_LARGE ''record'' (length (dc_pending d)) (max_record d)))"
proof -
  have "position (\<lambda>byte. byte = 0x0A) (drop (dc_scan_offset d) (dc_pending d)) = None"
    using assms by (auto simp: position_None dest: in_set_dropD)
  then show ?thesis by (simp add: prepare_line_def ensure_pending_limit_def max_record_def Let_def)
qed

lemma prepare_next_line: "scanning d \<Longrightarrow> prepare_next tp e d = prepare_line tp e d"
  by (auto simp: prepare_next_def scanning_def line_format_def)

lemma scanning_rest: "scanning d \<Longrightarrow> scanning (d\<lparr>dc_pending := rest, dc_scan_offset := 0, dc_records_emitted := n\<rparr>)"
  by (simp add: scanning_def)

text \<open>Draining a line decoder yields the complete lines and keeps the beginning of the next one.\<close>

lemma drain_lines:
  "scanning d \<Longrightarrow> \<not> dc_finished d \<Longrightarrow>
   (if (\<forall>r \<in> set (fst (split_lines (dc_pending d))). record_within (max_record d) r)
       \<and> length (snd (split_lines (dc_pending d))) \<le> max_record d
    then drain tp d =
      (d\<lparr>dc_pending := snd (split_lines (dc_pending d)), dc_scan_offset := length (snd (split_lines (dc_pending d))),
         dc_records_emitted := dc_records_emitted d + length (fst (split_lines (dc_pending d)))\<rparr>,
       Inr (fst (split_lines (dc_pending d))))
    else \<exists>x err. drain tp d = (x, Inl err))"
proof (induction "length (dc_pending d)" arbitrary: d rule: less_induct)
  case less
  have idle: "dc_ready d = None" using less.prems by (simp add: scanning_def)
  show ?case
  proof (cases "0x0A \<in> set (dc_pending d)")
    case False
    then have "split_lines (dc_pending d) = ([], dc_pending d)" by (rule split_lines_none)
    then show ?thesis
      using less.prems idle prepare_line_none [OF False, of tp]
      by (subst (1 2) drain.simps) (auto simp: next_record_def prepare_next_line)
  next
    case True
    then obtain l rest where split: "dc_pending d = l @ 0x0A # rest" "0x0A \<notin> set l" by (rule first_line)
    let ?d = "d\<lparr>dc_pending := rest, dc_scan_offset := 0, dc_records_emitted := dc_records_emitted d + 1\<rparr>"
    note lines = split_lines_cons [OF split(2), of rest, folded split(1)]
    note line = prepare_line_newline [OF less.prems(1) split, of tp False]
    show ?thesis
    proof (cases "record_within (max_record d) (line_record l)")
      case bad: False
      then obtain err where "prepare_line tp False d = (d, Inl err)" using line by auto
      then have "drain tp d = (d, Inl err)"
        using less.prems idle by (subst drain.simps) (simp add: next_record_def prepare_next_line)
      then show ?thesis using bad lines by auto
    next
      case ok: True
      then have "next_record tp d = (?d, Inr (Some (line_record l)))"
        using line less.prems idle by (simp add: next_record_def prepare_next_line)
      then have "drain tp d =
          (case drain tp ?d of (x, Inl e) \<Rightarrow> (x, Inl e) | (x, Inr rs) \<Rightarrow> (x, Inr (line_record l # rs)))"
        by (subst drain.simps) simp
      moreover note less.hyps [of ?d] scanning_rest [OF less.prems(1)]
      ultimately show ?thesis using less.prems(2) split(1) ok lines by (auto simp: max_record_def split: if_splits)
    qed
  qed
qed


text \<open>Preparing a record early, as a push does, does not change what is read next.\<close>

lemma prepare_then_drain:
  assumes "scanning d" "\<not> dc_finished d"
  shows "case prepare_next tp False d of
      (x, Inl e) \<Rightarrow> \<exists>y. drain tp d = (y, Inl e)
    | (x, Inr _) \<Rightarrow> drain tp x = drain tp d"
proof (cases "0x0A \<in> set (dc_pending d)")
  case True
  then obtain l rest where split: "dc_pending d = l @ 0x0A # rest" "0x0A \<notin> set l" by (rule first_line)
  have idle: "dc_ready d = None" using assms by (simp add: scanning_def)
  note line = prepare_line_newline [OF assms(1) split, of tp False]
  show ?thesis
  proof (cases "record_within (max_record d) (line_record l)")
    case ok: True
    let ?x = "d\<lparr>dc_pending := rest, dc_ready := Some (line_record l), dc_scan_offset := 0\<rparr>"
    have prep: "prepare_next tp False d = (?x, Inr ())" using line ok by (simp add: prepare_next_line assms)
    then have "next_record tp d = next_record tp ?x"
      using assms(2) idle by (simp add: next_record_def)
    then have "drain tp ?x = drain tp d" by (simp add: drain.simps [of tp ?x] drain.simps [of tp d])
    then show ?thesis using prep by simp
  next
    case False
    then obtain err where "prepare_next tp False d = (d, Inl err)"
      using line by (auto simp: prepare_next_line assms)
    then show ?thesis using assms(2) idle by (subst drain.simps) (simp add: next_record_def)
  qed
next
  case False
  have idle: "dc_ready d = None" using assms by (simp add: scanning_def)
  let ?x = "d\<lparr>dc_scan_offset := length (dc_pending d)\<rparr>"
  have x: "scanning ?x" using assms(1) False by (simp add: scanning_def)
  have "prepare_next tp False ?x = prepare_next tp False d"
    using prepare_line_none [of d tp] prepare_line_none [of ?x tp] False
    by (simp add: prepare_next_line assms x max_record_def)
  then have same: "next_record tp ?x = next_record tp d"
    using assms(2) idle by (simp add: next_record_def)
  have drain: "drain tp ?x = drain tp d" by (simp add: drain.simps [of tp ?x] drain.simps [of tp d] same)
  show ?thesis
  proof (cases "length (dc_pending d) \<le> max_record d")
    case True
    then show ?thesis using drain prepare_line_none [of d tp] False by (simp add: prepare_next_line assms)
  next
    case large: False
    let ?e = "limit_error RECORD_TOO_LARGE ''record'' (length (dc_pending d)) (max_record d)"
    have prep: "prepare_next tp False d = (?x, Inl ?e)"
      using large prepare_line_none [of d tp] False by (simp add: prepare_next_line assms)
    then have "drain tp d = (?x, Inl ?e)"
      using assms(2) idle by (subst drain.simps) (simp add: next_record_def)
    then show ?thesis using prep by auto
  qed
qed

text \<open>What is left after the last frame becomes the last record.\<close>

definition last_record :: "bool \<Rightarrow> bytes \<Rightarrow> text_record list" where
  "last_record seen t = (if t \<noteq> [] \<or> \<not> seen then [\<lparr>tr_payload = t, tr_separator = []\<rparr>] else [])"

lemma finish_line:
  assumes "scanning d" "\<not> dc_finished d" "0x0A \<notin> set (dc_pending d)"
  shows "if (\<forall>r \<in> set (last_record (dc_input_seen d) (dc_pending d)). record_within (max_record d) r)
     then decode_frames tp [] d = Inr (last_record (dc_input_seen d) (dc_pending d))
     else \<exists>err. decode_frames tp [] d = Inl err"
proof -
  let ?d = "d\<lparr>dc_finished := True\<rparr>"
  let ?final = "dc_pending d \<noteq> [] \<or> \<not> dc_input_seen d"
  have "position (\<lambda>byte. byte = 0x0A) (drop (dc_scan_offset d) (dc_pending d)) = None"
    using assms(3) by (auto simp: position_None dest: in_set_dropD)
  then have "prepare_line tp True ?d =
      (if length (dc_pending d) > max_record d
       then (?d\<lparr>dc_scan_offset := length (dc_pending d)\<rparr>,
             Inl (limit_error RECORD_TOO_LARGE ''record'' (length (dc_pending d)) (max_record d)))
       else if ?final then
         (if from_utf8 (dc_pending d) then (emit_final (?d\<lparr>dc_scan_offset := length (dc_pending d)\<rparr>), Inr ())
          else (?d\<lparr>dc_scan_offset := length (dc_pending d)\<rparr>,
                Inl (Generic DECODE_ENCODING (tp_utf8_message tp (dc_pending d)))))
       else (?d\<lparr>dc_scan_offset := length (dc_pending d), dc_complete := True\<rparr>, Inr ()))"
    by (auto simp: prepare_line_def ensure_pending_limit_def max_record_def validate_utf8_def Let_def)
  moreover have "prepare_next tp True ?d = prepare_line tp True ?d"
    using assms(1) by (intro prepare_next_line) (simp add: scanning_def)
  moreover have "dc_format d \<noteq> Csv" "dc_ready d = None" using assms(1) by (auto simp: scanning_def line_format_def)
  moreover have "drain tp x = (x, Inr [])" if "dc_complete x" "dc_ready x = None" for x
    using that by (subst drain.simps) (simp add: next_record_def prepare_next_def)
  moreover have "drain tp x = (x\<lparr>dc_ready := None, dc_records_emitted := dc_records_emitted x + 1\<rparr>, Inr [r])"
    if "dc_complete x" "dc_ready x = Some r" for x r
    using that calculation(5) by (subst drain.simps) (simp add: next_record_def prepare_next_def)
  ultimately show ?thesis
    using assms(2) by (auto simp: finish_def last_record_def record_within_def emit_final_def)
qed

lemma push_drain_line:
  fixes frame :: bytes
  assumes "scanning d" "\<not> dc_finished d"
  defines "x \<equiv> d\<lparr>dc_input_seen := (dc_input_seen d \<or> frame \<noteq> []), dc_pending := dc_pending d @ frame\<rparr>"
  shows "decode_frames tp (frame # frames) d = Inr rs \<longleftrightarrow>
    length frame \<le> dl_max_source_frame_bytes (dc_limits d)
    \<and> (\<exists>y ys zs. drain tp x = (y, Inr ys) \<and> decode_frames tp frames y = Inr zs \<and> rs = ys @ zs)"
proof -
  have x: "scanning x" "\<not> dc_finished x" using assms by (auto simp: scanning_def)
  have idle: "dc_ready d = None" using assms by (simp add: scanning_def)
  show ?thesis
  proof (cases "length frame \<le> dl_max_source_frame_bytes (dc_limits d)")
    case True
    then have push: "push tp frame d = prepare_next tp False x"
      using assms idle by (simp add: push_def)
    show ?thesis
      using True prepare_then_drain [OF x, of tp] unfolding decode_frames.simps push
      by (auto simp: result_simps split: prod.splits sum.splits)
  next
    case False
    then show ?thesis using assms idle by (auto simp: push_def)
  qed
qed

lemma decode_lines_only:
  assumes "decode_frames tp frames d = Inr rs" "scanning d" "\<not> dc_finished d" "0x0A \<notin> set (dc_pending d)"
  shows "rs = fst (split_lines (dc_pending d @ concat frames))
    @ last_record (dc_input_seen d \<or> concat frames \<noteq> []) (snd (split_lines (dc_pending d @ concat frames)))"
  using assms
proof (induction frames arbitrary: d rs)
  case Nil
  then show ?case
    using finish_line [of d tp] by (auto simp: split_lines_none split: if_splits)
next
  case (Cons frame frames)
  let ?x = "d\<lparr>dc_input_seen := (dc_input_seen d \<or> frame \<noteq> []), dc_pending := dc_pending d @ frame\<rparr>"
  obtain y ys zs where run: "drain tp ?x = (y, Inr ys)" "decode_frames tp frames y = Inr zs" "rs = ys @ zs"
    using Cons.prems push_drain_line by blast
  have x: "scanning ?x" "\<not> dc_finished ?x" using Cons.prems by (auto simp: scanning_def)
  let ?s = "split_lines (dc_pending d @ frame)"
  have y: "ys = fst ?s" "dc_pending y = snd ?s" "dc_input_seen y = (dc_input_seen d \<or> frame \<noteq> [])"
      "scanning y" "\<not> dc_finished y"
    using drain_lines [OF x, of tp] run(1) x split_lines_rest [of "dc_pending d @ frame"]
    by (auto simp: scanning_def split: if_splits)
  have "zs = fst (split_lines (snd ?s @ concat frames))
      @ last_record (dc_input_seen y \<or> concat frames \<noteq> []) (snd (split_lines (snd ?s @ concat frames)))"
    using Cons.IH [OF run(2) y(4,5)] y(2) split_lines_rest by simp
  then show ?case
    using run(3) y(1,3) split_lines_append [of "dc_pending d @ frame" "concat frames"] by (simp add: disj_assoc)
qed


text \<open>A record fits when its bytes, up to the line feed, stay within the record limit.\<close>

definition record_fits :: "nat \<Rightarrow> text_record \<Rightarrow> bool" where
  "record_fits mx r \<longleftrightarrow> from_utf8 (tr_payload r)
     \<and> length (record_bytes r) \<le> mx + (if tr_separator r = [] then 0 else 1)"

lemma line_record_bytes: "record_bytes (line_record l) = l @ [0x0A]"
  by (cases l rule: rev_cases) (auto simp: line_record_def record_bytes_def)

lemma line_record_separator: "tr_separator (line_record l) \<noteq> []"
  by (simp add: line_record_def)

lemma split_lines_separator: "r \<in> set (fst (split_lines bs)) \<Longrightarrow> tr_separator r \<noteq> []"
proof (induction bs rule: split_lines.induct)
  case (1 bs)
  then show ?case
    by (subst (asm) (2) split_lines.simps)
       (auto simp: case_prod_unfold Let_def line_record_separator split: if_splits)
qed

lemma record_fits_ok: "record_fits mx r \<Longrightarrow> record_within mx r"
  by (cases "tr_separator r") (auto simp: record_fits_def record_within_def record_bytes_def)

lemma open_line_fits:
  assumes "\<forall>r \<in> set (fst (split_lines (t @ b))). record_fits mx r" "length (snd (split_lines (t @ b))) \<le> mx"
    "0x0A \<notin> set t"
  shows "length t \<le> mx"
proof (cases "0x0A \<in> set b")
  case True
  then obtain l rest where b: "b = l @ 0x0A # rest" "0x0A \<notin> set l" by (rule first_line)
  then have "record_fits mx (line_record (t @ l))"
    using assms(1,3) split_lines_cons [of "t @ l" rest] by simp
  then show ?thesis by (simp add: record_fits_def line_record_bytes line_record_separator)
next
  case False
  then show ?thesis using assms split_lines_none [of "t @ b"] by simp
qed

lemma decode_lines_succeeds:
  assumes "scanning d" "\<not> dc_finished d" "0x0A \<notin> set (dc_pending d)"
    and "\<forall>frame \<in> set frames. length frame \<le> dl_max_source_frame_bytes (dc_limits d)"
    and "\<forall>r \<in> set (fst (split_lines (dc_pending d @ concat frames))). record_fits (max_record d) r"
    and "\<forall>r \<in> set (last_record False (snd (split_lines (dc_pending d @ concat frames)))). record_within (max_record d) r"
  shows "\<exists>rs. decode_frames tp frames d = Inr rs"
  using assms
proof (induction frames arbitrary: d)
  case Nil
  have "\<forall>r \<in> set (last_record (dc_input_seen d) (dc_pending d)). record_within (max_record d) r"
    using Nil.prems(3,6) by (auto simp: split_lines_none last_record_def split: if_splits)
  then show ?case using finish_line [OF Nil.prems(1-3), of tp] by auto
next
  case (Cons frame frames)
  let ?x = "d\<lparr>dc_input_seen := (dc_input_seen d \<or> frame \<noteq> []), dc_pending := dc_pending d @ frame\<rparr>"
  let ?s = "split_lines (dc_pending d @ frame)"
  have x: "scanning ?x" "\<not> dc_finished ?x" using Cons.prems by (auto simp: scanning_def)
  note cut = split_lines_append [of "dc_pending d @ frame" "concat frames"]
  have rest: "\<forall>r \<in> set (fst (split_lines (snd ?s @ concat frames))). record_fits (max_record d) r"
    "\<forall>r \<in> set (last_record False (snd (split_lines (snd ?s @ concat frames)))). record_within (max_record d) r"
    and done': "\<forall>r \<in> set (fst ?s). record_fits (max_record d) r"
    using Cons.prems(5,6) cut by auto
  have "length (snd ?s) \<le> max_record d"
    using open_line_fits [OF rest(1)] rest(2) split_lines_rest by (simp add: last_record_def record_within_def)
  moreover have "\<forall>r \<in> set (fst ?s). record_within (max_record d) r" using done' record_fits_ok by auto
  ultimately obtain y where y: "drain tp ?x = (y, Inr (fst ?s))" "dc_pending y = snd ?s" "dc_limits y = dc_limits d"
      "scanning y" "\<not> dc_finished y"
    using drain_lines [OF x, of tp] x split_lines_rest [of "dc_pending d @ frame"]
    by (fastforce simp: scanning_def max_record_def split: if_splits)
  obtain zs where "decode_frames tp frames y = Inr zs"
    using Cons.IH [OF y(4,5)] y(2,3) split_lines_rest rest Cons.prems(4) by (auto simp: max_record_def)
  then show ?case
    using Cons.prems(4) y(1) push_drain_line [OF Cons.prems(1,2), of tp frame frames] by auto
qed



lemma utf8_empty: "from_utf8 []"
  by (simp add: from_utf8.simps)

text \<open>
  C38: The record limit is not independent of the framing at its edge. A line whose
  content has exactly the permitted length and that ends in a carriage return and a
  line feed is read when both arrive in its frame, and is refused as too large when a
  frame ends between the two.
\<close>

theorem split_line_end_refused:
  assumes "format = Text \<or> format = Jsonl \<or> format = Tsv" "decoder_new format limits = Inr d"
    and "length p = dl_max_record_bytes limits" "from_utf8 p" "0x0A \<notin> set p"
    and "length p + 2 \<le> dl_max_source_frame_bytes limits"
  shows "read_object tp format limits [p @ [0x0D, 0x0A]] = Inr [\<lparr>tr_payload = p, tr_separator = [0x0D, 0x0A]\<rparr>]
    \<and> read_object tp format limits [p @ [0x0D], [0x0A]]
        = Inl (limit_error RECORD_TOO_LARGE ''record'' (length p + 1) (length p))"
proof -
  have d: "scanning d" "\<not> dc_finished d" "dc_pending d = []" "dc_limits d = limits" "dc_ready d = None"
    using assms(1,2) by (auto simp: decoder_new_def scanning_def line_format_def result_simps)
  let ?r = "\<lparr>tr_payload = p, tr_separator = [0x0D, 0x0A]\<rparr>"
  let ?x = "d\<lparr>dc_input_seen := True, dc_pending := p @ [0x0D, 0x0A]\<rparr>"
  have "split_lines (p @ [0x0D, 0x0A]) = ([?r], [])"
    using split_lines_cons [of "p @ [0x0D]" "[]"] assms(5) by (simp add: line_record_def split_lines_none)
  moreover have "scanning ?x" "\<not> dc_finished ?x" using d by (auto simp: scanning_def)
  ultimately obtain y where y: "drain tp ?x = (y, Inr [?r])" "scanning y" "\<not> dc_finished y" "dc_pending y = []" "dc_input_seen y"
    using drain_lines [of ?x tp] assms(3,4) d by (fastforce simp: record_within_def max_record_def scanning_def)
  have "decode_frames tp [] y = Inr []" using finish_line [OF y(2,3), of tp] y(4,5) by (simp add: last_record_def)
  then have "decode_frames tp [p @ [0x0D, 0x0A]] d = Inr [?r]"
    using push_drain_line [OF d(1,2), of tp "p @ [0x0D, 0x0A]" "[]" "[?r]"] y(1) d assms(6) by auto
  moreover have "push tp (p @ [0x0D]) d =
      (d\<lparr>dc_input_seen := True, dc_pending := p @ [0x0D], dc_scan_offset := length p + 1\<rparr>,
       Inl (limit_error RECORD_TOO_LARGE ''record'' (length p + 1) (length p)))"
    using d assms(3,5,6) prepare_line_none [of "d\<lparr>dc_input_seen := True, dc_pending := p @ [0x0D]\<rparr>" tp]
    by (simp add: push_def prepare_next_line scanning_def max_record_def)
  ultimately show ?thesis using assms(2) by (simp add: read_object_def)
qed

section \<open>Examples\<close>

definition ex_parsers :: text_parsers where
  "ex_parsers = \<lparr>tp_utf8_message = (\<lambda>_. ''invalid utf-8''), tp_json = (\<lambda>_. JsonValue),
     tp_csv = (\<lambda>input fields. (True, length input, 1))\<rparr>"

definition ex_limits :: decoder_limits where
  "ex_limits = \<lparr>dl_max_source_frame_bytes = 4, dl_max_record_bytes = 2, dl_max_json_document_bytes = 8,
     dl_max_csv_fields = 3\<rparr>"

definition ex_csv_frames :: "bytes list" where
  "ex_csv_frames = [[0x0A, 0x22], [0x2C, 0x22, 0x0D], [0x0A, 0x62]]"

definition ex_csv_records :: "text_record list" where
  "ex_csv_records = [\<lparr>tr_payload = [0x22, 0x2C, 0x22], tr_separator = [0x0D, 0x0A]\<rparr>,
     \<lparr>tr_payload = [0x62], tr_separator = []\<rparr>]"

lemma ex_csv_read: "read_object ex_parsers Csv (ex_limits\<lparr>dl_max_record_bytes := 5\<rparr>) ex_csv_frames = Inr ex_csv_records"
  by code_simp

theorem decoding_is_lossless_witness:
  "filter (\<lambda>b. b \<noteq> 0x0A \<and> b \<noteq> 0x0D) (concat (map record_bytes ex_csv_records)) =
     filter (\<lambda>b. b \<noteq> 0x0A \<and> b \<noteq> 0x0D) (concat ex_csv_frames)"
  using decoding_is_lossless [OF ex_csv_read] by blast

definition ex_text_frames :: "bytes list" where
  "ex_text_frames = [[0x61, 0x0D], [], [0x0A, 0x62, 0x0A], [0xC3], [0xA9]]"


theorem split_line_end_refused_witness:
  "read_object ex_parsers Jsonl ex_limits [[0x61, 0x62, 0x0D, 0x0A]]
       = Inr [\<lparr>tr_payload = [0x61, 0x62], tr_separator = [0x0D, 0x0A]\<rparr>]
   \<and> read_object ex_parsers Jsonl ex_limits [[0x61, 0x62, 0x0D], [0x0A]]
       = Inl (limit_error RECORD_TOO_LARGE ''record'' 3 2)"
proof -
  obtain d where new: "decoder_new Jsonl ex_limits = Inr d" by (simp add: decoder_new_def ex_limits_def)
  have "from_utf8 [0x61, 0x62]" by code_simp
  then have "read_object ex_parsers Jsonl ex_limits [[0x61, 0x62] @ [0x0D, 0x0A]]
       = Inr [\<lparr>tr_payload = [0x61, 0x62], tr_separator = [0x0D, 0x0A]\<rparr>]
     \<and> read_object ex_parsers Jsonl ex_limits [[0x61, 0x62] @ [0x0D], [0x0A]]
       = Inl (limit_error RECORD_TOO_LARGE ''record'' (length [0x61, 0x62 :: 8 word] + 1) (length [0x61, 0x62 :: 8 word]))"
    by (intro split_line_end_refused [OF _ new]) (simp_all add: ex_limits_def)
  then show ?thesis by (simp add: numeral_3_eq_3 numeral_2_eq_2)
qed

end
