(* ===== verification/Managed_Types.thy ===== *)
theory Managed_Types
  imports Byte_Codec
begin

text \<open>
  Vocabulary of the managed object repository (\<open>managed/types.rs\<close>,
  \<open>constants.rs\<close>, \<open>placement.rs\<close>, \<open>physical.rs\<close>, \<open>operations.rs\<close>,
  \<open>listing.rs\<close>): authorities, logical operations and their machine, workspace
  usage, physical write intents and version targets, list cursors, purges, and
  the validators that guard them. What the code takes from its surroundings
  (clock readings, fresh identifiers, SHA-256, UUID derivation and formatting,
  the JSON encoder) is the record \<open>managed_env\<close>.
\<close>

section \<open>Surroundings\<close>

text \<open>
  One record serves one call: \<open>me_clock k\<close> is its \<open>k\<close>-th reading of the
  clock and \<open>me_fresh k\<close> the \<open>k\<close>-th identifier it draws.
\<close>

record managed_env =
  me_clock :: "nat \<Rightarrow> i64"
  me_fresh :: "nat \<Rightarrow> uuid"
  me_sha256 :: "bytes \<Rightarrow> bytes"
  me_hex :: "bytes \<Rightarrow> string"
  me_uuid_text :: "uuid \<Rightarrow> string"
  me_uuid_v5 :: "uuid \<Rightarrow> bytes \<Rightarrow> uuid"
  me_to_vec :: "json \<Rightarrow> string + bytes"

definition NAMESPACE_URL :: uuid where
  "NAMESPACE_URL = 0x6ba7b8119dad11d180b400c04fd430c8"

definition NAMESPACE_OID :: uuid where
  "NAMESPACE_OID = 0x6ba7b8129dad11d180b400c04fd430c8"

section \<open>Constants\<close>

definition PHYSICAL_WRITE_LEASE_MS :: i64 where
  "PHYSICAL_WRITE_LEASE_MS = 2 * 60 * 60 * 1000"

definition MAX_REPAIR_ATTEMPTS :: u32 where
  "MAX_REPAIR_ATTEMPTS = 8"

definition REPAIR_BACKOFF_BASE_MS :: i64 where
  "REPAIR_BACKOFF_BASE_MS = 30000"

definition REPAIR_BACKOFF_MAX_MS :: i64 where
  "REPAIR_BACKOFF_MAX_MS = 4 * 60 * 60 * 1000"

definition i64_saturating_mul :: "i64 \<Rightarrow> i64 \<Rightarrow> i64" where
  "i64_saturating_mul a b = max i64_min (min i64_max (a * b))"

definition repair_backoff_ms :: "u32 \<Rightarrow> i64" where
  "repair_backoff_ms attempts =
     min (i64_saturating_mul REPAIR_BACKOFF_BASE_MS (2 ^ unat (min attempts 10))) REPAIR_BACKOFF_MAX_MS"

definition MANAGED_VISIBLE_LIMIT_BYTES :: u64 where
  "MANAGED_VISIBLE_LIMIT_BYTES = 1024 * 1024 * 1024"

definition MANAGED_REPLACEMENT_HEADROOM_BYTES :: u64 where
  "MANAGED_REPLACEMENT_HEADROOM_BYTES = 128 * 1024 * 1024"

definition MANAGED_LIST_CURSOR_TTL_MS :: i64 where
  "MANAGED_LIST_CURSOR_TTL_MS = 15 * 60 * 1000"

definition MANAGED_LIST_CURSOR_WORKSPACE_LIMIT :: nat where
  "MANAGED_LIST_CURSOR_WORKSPACE_LIMIT = 100"

definition MANAGED_LIST_CURSOR_GLOBAL_LIMIT :: nat where
  "MANAGED_LIST_CURSOR_GLOBAL_LIMIT = 10000"

definition MANAGED_LIST_CURSOR_RESPONSE_MAX_BYTES :: nat where
  "MANAGED_LIST_CURSOR_RESPONSE_MAX_BYTES = 64 * 1024"

definition MANAGED_LIST_CURSOR_WORKSPACE_MAX_BYTES :: u64 where
  "MANAGED_LIST_CURSOR_WORKSPACE_MAX_BYTES = 1024 * 1024"

definition MANAGED_LIST_CURSOR_GLOBAL_MAX_BYTES :: u64 where
  "MANAGED_LIST_CURSOR_GLOBAL_MAX_BYTES = 64 * 1024 * 1024"

definition MANAGED_AUTHORITY_LIST_MAX_KEYS :: u64 where
  "MANAGED_AUTHORITY_LIST_MAX_KEYS = 1000"

definition MANAGED_PUBLICATION_RECIPE_VERSION :: int where
  "MANAGED_PUBLICATION_RECIPE_VERSION = 1"

section \<open>Authorities\<close>

datatype managed_streaming_mode = Off | Observe | Enforce

definition allows_mutations :: "managed_streaming_mode \<Rightarrow> bool" where
  "allows_mutations mode \<longleftrightarrow> mode = Enforce"

record logical_object_key =
  lk_tenant_id :: string
  lk_bucket :: string
  lk_key :: string

definition object_key :: "logical_object_key \<Rightarrow> string" where
  "object_key k = lk_bucket k @ ''/'' @ lk_key k"

datatype copy_status = Ready | RepairPending | Absent

type_synonym metadata = "(string \<times> string) list"

record object_authority =
  oa_logical :: logical_object_key
  oa_generation :: uuid
  oa_digest :: string
  oa_size :: u64
  oa_metadata :: metadata
  oa_placement_version :: u32
  oa_primary_backend_id :: string
  oa_primary_version_id :: "string option"
  oa_replica_backend_id :: "string option"
  oa_primary_status :: copy_status
  oa_replica_status :: copy_status
  oa_tombstone :: bool
  oa_cas_version :: u64
  oa_created_at_ms :: i64
  oa_updated_at_ms :: i64

datatype managed_mutation_kind = PutMutation | DeleteMutation

datatype managed_logical_operation_state =
    LogicalIntent
  | LogicalOpen
  | LogicalCompleting
  | LogicalCommitUnknown
  | LogicalRecoveryBlocked
  | LogicalCommitted
  | LogicalProvenAborted

definition logical_terminal :: "managed_logical_operation_state \<Rightarrow> bool" where
  "logical_terminal s \<longleftrightarrow> s = LogicalCommitted \<or> s = LogicalProvenAborted"

definition valid_logical_transition ::
  "managed_logical_operation_state \<Rightarrow> managed_logical_operation_state \<Rightarrow> bool" where
  "valid_logical_transition from to \<longleftrightarrow>
     (from, to) \<in> {(LogicalOpen, LogicalCompleting), (LogicalOpen, LogicalCommitUnknown),
       (LogicalCompleting, LogicalCommitUnknown), (LogicalCommitUnknown, LogicalCompleting)}"

datatype managed_error =
    InvalidMode string
  | MutationDisabled managed_streaming_mode
  | OffAfterAuthority
  | ManagedConflict
  | ManagedCorrupt string
  | ManagedPersistence string
  | NamespaceFenced
  | InvalidLogicalTransition managed_logical_operation_state managed_logical_operation_state
  | MutationInProgress
  | ManagedQuotaExceeded
  | RecoveryBlocked string
  | CursorExpired
  | CursorQueryMismatch
  | CursorLimitExceeded

datatype managed_settlement_state = SettlementPending | Settled | Released

record managed_route_fence =
  rf_namespace_epoch :: u64
  rf_routing_epoch :: u64

section \<open>Placement\<close>

record placement =
  pc_version :: u32
  pc_primary_backend_id :: string
  pc_replica_backend_id :: "string option"

record managed_placement_backend_fact =
  bf_backend_id :: string
  bf_placement_weight :: u64
  bf_placement_capacity_units :: u64

record managed_placement_policy =
  pp_version :: u32
  pp_fingerprint :: string
  pp_backend_facts :: "managed_placement_backend_fact list"
  pp_activated_at_ms :: i64

definition generation_physical_key :: "managed_env \<Rightarrow> logical_object_key \<Rightarrow> uuid \<Rightarrow> string" where
  "generation_physical_key env logical generation =
     ''__maskura/generations/''
     @ me_hex env (me_sha256 env (lp_field (str_bytes (lk_tenant_id logical))
         @ lp_field (str_bytes (lk_bucket logical)) @ lp_field (str_bytes (lk_key logical))))
     @ ''/'' @ me_uuid_text env generation"

section \<open>Physical writes\<close>

record managed_publication_recipe =
  pr_version :: int
  pr_placement_version :: u32
  pr_primary_backend_id :: string
  pr_replica_backend_id :: "string option"
  pr_metadata :: metadata
  pr_primary_status :: copy_status
  pr_replica_status :: copy_status

record exact_physical_commit =
  ec_selected_version_id :: "string option"
  ec_superseded_version_ids :: "string list"
  ec_version_history_complete :: bool

datatype logical_abort_proof = NoChildStarted | ChildProvenAborted

record provider_storage_identity =
  si_provider_kind :: string
  si_provider_instance_id :: string
  si_provider_account_id :: string
  si_canonical_endpoint :: string
  si_region :: string

datatype backend_versioning_mode = Unversioned | VersioningEnabled | VersioningSuspended | VersioningUnknown

datatype backend_versioning_capability = VersioningUnsupported | VersioningOptional | VersioningRequired

record physical_write_intent =
  wi_intent_id :: uuid
  wi_tenant_id :: string
  wi_backend_id :: string
  wi_storage_identity :: provider_storage_identity
  wi_credential_epoch :: u64
  wi_provider_bucket :: string
  wi_physical_key :: string
  wi_versioning_mode :: backend_versioning_mode
  wi_versioning_capability :: backend_versioning_capability
  wi_lease_owner :: string

record physical_write_lease =
  wl_intent_id :: uuid
  wl_namespace_epoch :: u64
  wl_owner :: string
  wl_token :: uuid

record durable_physical_write_intent =
  dw_intent :: physical_write_intent
  dw_namespace_epoch :: u64
  dw_blocked_reason :: "string option"
  dw_lease_expires_at_ms :: i64
  dw_lease :: physical_write_lease

record physical_version_target =
  vt_tenant_id :: string
  vt_namespace_epoch :: u64
  vt_backend_id :: string
  vt_storage_identity :: provider_storage_identity
  vt_credential_epoch :: u64
  vt_provider_bucket :: string
  vt_physical_key :: string
  vt_version_id :: "string option"
  vt_versioning_mode :: backend_versioning_mode
  vt_versioning_capability :: backend_versioning_capability
  vt_write_operation_id :: uuid

definition checked_mul :: "u64 \<Rightarrow> u64 \<Rightarrow> u64 option" where
  "checked_mul a b = (if unat a * unat b < 2 ^ 64 then Some (a * b) else None)"

lemma checked_mul_Some [checked_arith]:
  "checked_mul a b = Some c \<longleftrightarrow> c = a * b \<and> unat c = unat a * unat b \<and> unat a * unat b < 2 ^ 64"
  by (auto simp: checked_mul_def unat_word_ariths)

definition physical_allocation :: "u64 \<Rightarrow> u64 \<Rightarrow> managed_error + u64" where
  "physical_allocation expected_size exact_version_count =
     (if exact_version_count = 0
      then Inl (ManagedPersistence ''managed logical operation cannot settle before its child is ledgered'')
      else ok_or ManagedQuotaExceeded (checked_mul expected_size exact_version_count))"

definition exact_version_ids :: "exact_physical_commit \<Rightarrow> string list" where
  "exact_version_ids result =
     ec_superseded_version_ids result
     @ [case ec_selected_version_id result of Some version_id \<Rightarrow> version_id | None \<Rightarrow> []]"

definition validate_exact_physical_commit :: "exact_physical_commit \<Rightarrow> managed_error + unit" where
  "validate_exact_physical_commit result =
     (if \<not> ec_version_history_complete result \<or> ec_selected_version_id result = Some []
         \<or> [] \<in> set (ec_superseded_version_ids result)
      then Inl (RecoveryBlocked ''invalid_exact_version_history'')
      else if distinct (exact_version_ids result) then Inr ()
      else Inl (RecoveryBlocked ''duplicate_exact_version''))"

definition validate_physical_commit_versioning ::
  "physical_write_intent \<Rightarrow> exact_physical_commit \<Rightarrow> managed_error + unit" where
  "validate_physical_commit_versioning intent result =
     (let versionless = (ec_selected_version_id result = None);
          provably_unversioned =
            (wi_versioning_mode intent = Unversioned \<and> wi_versioning_capability intent = VersioningUnsupported)
      in if wi_versioning_mode intent = VersioningUnknown \<or> versionless \<noteq> provably_unversioned
           \<or> (versionless \<and> ec_superseded_version_ids result \<noteq> [])
         then Inl (RecoveryBlocked ''physical_versioning_contract_mismatch'')
         else Inr ())"

definition physical_intent_supports_exact_history :: "physical_write_intent \<Rightarrow> bool" where
  "physical_intent_supports_exact_history intent \<longleftrightarrow>
     wi_versioning_mode intent \<noteq> VersioningUnknown
     \<and> (wi_versioning_mode intent \<noteq> Unversioned \<or> wi_versioning_capability intent = VersioningUnsupported)"

definition version_target ::
  "physical_write_intent \<Rightarrow> u64 \<Rightarrow> uuid \<Rightarrow> string option \<Rightarrow> physical_version_target" where
  "version_target intent namespace_epoch write_operation_id version_id =
     \<lparr> vt_tenant_id = wi_tenant_id intent, vt_namespace_epoch = namespace_epoch,
       vt_backend_id = wi_backend_id intent, vt_storage_identity = wi_storage_identity intent,
       vt_credential_epoch = wi_credential_epoch intent, vt_provider_bucket = wi_provider_bucket intent,
       vt_physical_key = wi_physical_key intent, vt_version_id = version_id,
       vt_versioning_mode = wi_versioning_mode intent,
       vt_versioning_capability = wi_versioning_capability intent,
       vt_write_operation_id = write_operation_id \<rparr>"

definition expected_physical_targets ::
  "physical_write_intent \<Rightarrow> u64 \<Rightarrow> exact_physical_commit \<Rightarrow> physical_version_target list" where
  "expected_physical_targets intent namespace_epoch result =
     map (\<lambda>version_id. version_target intent namespace_epoch (wi_intent_id intent)
            (if version_id = [] then None else Some version_id))
       (exact_version_ids result)"

definition validate_physical_intent :: "physical_write_intent \<Rightarrow> managed_error + unit" where
  "validate_physical_intent intent =
     (let identity = wi_storage_identity intent
      in if wi_tenant_id intent = [] \<or> wi_backend_id intent = [] \<or> wi_provider_bucket intent = []
           \<or> wi_physical_key intent = [] \<or> wi_credential_epoch intent = 0
           \<or> si_provider_kind identity = [] \<or> si_provider_instance_id identity = []
           \<or> si_provider_account_id identity = [] \<or> si_canonical_endpoint identity = []
           \<or> si_region identity = []
         then Inl ManagedConflict else Inr ())"

section \<open>Logical operations\<close>

datatype request_kind = WriteRequest | ReadRequest

datatype usage_route =
    PutObject | GetObject | HeadObject | ListObjects | DeleteObject | AbortMultipartUpload | CompleteMultipartUpload

record managed_logical_operation_intent =
  li_operation_id :: uuid
  li_receipt_id :: uuid
  li_logical :: logical_object_key
  li_kind :: managed_mutation_kind
  li_generation :: uuid
  li_fence :: managed_route_fence
  li_expected_authority_cas :: "u64 option"
  li_prior_logical_size :: u64
  li_primary_child_operation_id :: uuid
  li_backend_id :: string
  li_provider_bucket :: string
  li_physical_key :: string
  li_occurred_at_ms :: i64
  li_rate_version :: int
  li_route :: usage_route
  li_request_kind :: request_kind
  li_max_processed_bytes :: u64
  li_publication_recipe :: "managed_publication_recipe option"

record managed_delete_request =
  dq_operation_id :: uuid
  dq_receipt_id :: uuid
  dq_logical :: logical_object_key
  dq_placement :: placement
  dq_provider_bucket :: string
  dq_occurred_at_micros :: i64
  dq_rate_version :: int
  dq_max_processed_bytes :: u64

record managed_usage_evidence =
  ue_expected_output_digest :: "string option"
  ue_expected_output_size :: u64
  ue_source_bytes :: u64
  ue_processed_bytes :: u64
  ue_payload :: json

record managed_logical_operation =
  lo_intent :: managed_logical_operation_intent
  lo_evidence :: "managed_usage_evidence option"
  lo_reserved_physical_bytes :: u64
  lo_committed_physical_bytes :: u64
  lo_released_physical_bytes :: u64
  lo_state :: managed_logical_operation_state
  lo_committed_authority_version :: "u64 option"
  lo_settlement_state :: managed_settlement_state
  lo_last_error_class :: "string option"
  lo_recovery_owner :: "string option"
  lo_recovery_token :: "uuid option"
  lo_recovery_expires_at_ms :: "i64 option"
  lo_created_at_ms :: i64
  lo_updated_at_ms :: i64
  lo_committed_at_ms :: "i64 option"
  lo_aborted_at_ms :: "i64 option"

record managed_recovery_claim =
  rc_operation :: managed_logical_operation
  rc_claim_owner :: string
  rc_token :: uuid
  rc_expires_at_ms :: i64

record managed_workspace_usage =
  wu_tenant_id :: string
  wu_visible_logical_bytes :: u64
  wu_physical_allocated_bytes :: u64
  wu_reserved_bytes :: u64
  wu_visible_limit_bytes :: u64
  wu_replacement_headroom_bytes :: u64
  wu_active_operation_id :: "uuid option"
  wu_version :: u64
  wu_created_at_ms :: i64
  wu_updated_at_ms :: i64

record managed_operation_commit =
  oc_operation :: managed_logical_operation
  oc_authority :: object_authority
  oc_usage :: managed_workspace_usage

record managed_proven_physical_allocation =
  pa_authority :: object_authority
  pa_allocated_bytes :: u64

definition recovery_unclaimed :: "managed_logical_operation \<Rightarrow> bool" where
  "recovery_unclaimed operation \<longleftrightarrow>
     lo_recovery_owner operation = None \<and> lo_recovery_token operation = None
     \<and> lo_recovery_expires_at_ms operation = None"

definition validate_recovery_authority ::
  "managed_logical_operation \<Rightarrow> managed_recovery_claim option \<Rightarrow> i64 \<Rightarrow> managed_error + unit" where
  "validate_recovery_authority operation claim now =
     (case claim of
        Some claim \<Rightarrow>
          if li_operation_id (lo_intent (rc_operation claim)) = li_operation_id (lo_intent operation)
             \<and> lo_recovery_owner operation = Some (rc_claim_owner claim)
             \<and> lo_recovery_token operation = Some (rc_token claim)
             \<and> lo_recovery_expires_at_ms operation = Some (rc_expires_at_ms claim)
             \<and> now < rc_expires_at_ms claim
          then Inr () else Inl ManagedConflict
      | None \<Rightarrow> if recovery_unclaimed operation then Inr () else Inl ManagedConflict)"

definition recipe_statuses_ok :: "managed_publication_recipe \<Rightarrow> bool" where
  "recipe_statuses_ok recipe \<longleftrightarrow>
     pr_primary_status recipe = Ready
     \<and> (pr_replica_backend_id recipe = None \<longrightarrow> pr_replica_status recipe = Absent)
     \<and> (pr_replica_backend_id recipe \<noteq> None \<longrightarrow> pr_replica_status recipe = RepairPending)"

definition validate_logical_intent :: "managed_logical_operation_intent \<Rightarrow> managed_error + unit" where
  "validate_logical_intent intent =
     (if lk_tenant_id (li_logical intent) = [] \<or> lk_bucket (li_logical intent) = []
         \<or> li_backend_id intent = [] \<or> li_provider_bucket intent = [] \<or> li_physical_key intent = []
         \<or> rf_namespace_epoch (li_fence intent) = 0 \<or> rf_routing_epoch (li_fence intent) = 0
         \<or> li_rate_version intent \<le> 0 \<or> li_occurred_at_ms intent < 0
         \<or> li_request_kind intent \<noteq> WriteRequest
         \<or> \<not> (li_kind intent = PutMutation \<and> li_route intent = PutObject
              \<or> li_kind intent = DeleteMutation \<and> li_route intent = DeleteObject)
         \<or> (case li_kind intent of
              PutMutation \<Rightarrow>
                (case li_publication_recipe intent of
                   None \<Rightarrow> True
                 | Some recipe \<Rightarrow>
                     pr_version recipe \<noteq> MANAGED_PUBLICATION_RECIPE_VERSION
                     \<or> pr_placement_version recipe = 0
                     \<or> pr_primary_backend_id recipe \<noteq> li_backend_id intent
                     \<or> pr_primary_backend_id recipe = []
                     \<or> pr_replica_backend_id recipe = Some []
                     \<or> \<not> recipe_statuses_ok recipe)
            | DeleteMutation \<Rightarrow> li_publication_recipe intent \<noteq> None)
      then Inl ManagedConflict else Inr ())"

fun json_member :: "string \<Rightarrow> json \<Rightarrow> json option" where
  "json_member k (JObject members) = map_of members k"
| "json_member k _ = None"

fun json_as_i64 :: "json \<Rightarrow> i64 option" where
  "json_as_i64 (JNumber digits) = parse_i64 digits"
| "json_as_i64 _ = None"

definition delete_request_matches_operation ::
  "managed_delete_request \<Rightarrow> managed_logical_operation \<Rightarrow> bool" where
  "delete_request_matches_operation request operation \<longleftrightarrow>
     (let intent = lo_intent operation
      in li_operation_id intent = dq_operation_id request
         \<and> li_receipt_id intent = dq_receipt_id request
         \<and> li_logical intent = dq_logical request
         \<and> li_kind intent = DeleteMutation
         \<and> li_backend_id intent = pc_primary_backend_id (dq_placement request)
         \<and> li_provider_bucket intent = dq_provider_bucket request
         \<and> li_occurred_at_ms intent = dq_occurred_at_micros request div 1000
         \<and> li_rate_version intent = dq_rate_version request
         \<and> li_route intent = DeleteObject
         \<and> li_request_kind intent = WriteRequest
         \<and> li_max_processed_bytes intent = dq_max_processed_bytes request
         \<and> (case lo_evidence operation of
              None \<Rightarrow> False
            | Some evidence \<Rightarrow>
                Option.bind (json_member ''occurred_at_micros'' (ue_payload evidence)) json_as_i64
                = Some (dq_occurred_at_micros request))
         \<and> (case li_publication_recipe intent of
              None \<Rightarrow> False
            | Some recipe \<Rightarrow>
                pr_version recipe = MANAGED_PUBLICATION_RECIPE_VERSION
                \<and> pr_placement_version recipe = pc_version (dq_placement request)
                \<and> pr_primary_backend_id recipe = pc_primary_backend_id (dq_placement request)
                \<and> pr_replica_backend_id recipe = pc_replica_backend_id (dq_placement request)
                \<and> pr_metadata recipe = []
                \<and> pr_primary_status recipe = Absent
                \<and> pr_replica_status recipe = Absent))"

definition committed_delete_replay_authority ::
  "managed_logical_operation \<Rightarrow> object_authority option \<Rightarrow> managed_error + object_authority" where
  "committed_delete_replay_authority operation authority =
     and_then (ok_or ManagedConflict authority) (\<lambda>authority.
     and_then (ok_or ManagedConflict (lo_committed_authority_version operation)) (\<lambda>committed_authority_version.
       let original_tombstone_matches =
             (oa_tombstone authority \<and> oa_generation authority = li_generation (lo_intent operation)
              \<and> oa_digest authority = [] \<and> oa_size authority = 0)
       in if oa_logical authority \<noteq> li_logical (lo_intent operation)
             \<or> oa_cas_version authority < committed_authority_version
             \<or> (oa_cas_version authority = committed_authority_version \<and> \<not> original_tombstone_matches)
          then Inl ManagedConflict
          else Inr authority))"

section \<open>Listings, cursors and purges\<close>

record authority_list_query =
  aq_tenant_id :: string
  aq_bucket :: string
  aq_prefix :: string
  aq_after :: "string option"
  aq_max_keys :: u64

record authority_list_page =
  ap_objects :: "object_authority list"
  ap_next_after :: "string option"

record authority_placement_cursor =
  ax_tenant_id :: string
  ax_bucket :: string
  ax_key :: string

record authority_placement_page_query =
  ag_target_placement_version :: u32
  ag_after :: "authority_placement_cursor option"
  ag_limit :: u64

record authority_placement_page =
  an_objects :: "object_authority list"
  an_next_after :: "authority_placement_cursor option"

record authority_placement_stats =
  as_remaining :: u64
  as_oldest_updated_at_ms :: "i64 option"

datatype managed_list_version = V1 | V2

record managed_list_cursor_binding =
  cb_tenant_id :: string
  cb_bucket :: string
  cb_prefix :: string
  cb_delimiter :: "string option"
  cb_version :: managed_list_version

record managed_list_cursor_position =
  cq_last_key :: "string option"
  cq_last_common_prefix :: "string option"

datatype managed_list_cursor_state = CursorActive | CursorUsed

record managed_list_cursor =
  mc_id :: uuid
  mc_binding :: managed_list_cursor_binding
  mc_fence :: managed_route_fence
  mc_position :: managed_list_cursor_position
  mc_response_state :: json
  mc_response_state_bytes :: u64
  mc_final_page :: bool
  mc_state :: managed_list_cursor_state
  mc_created_at_ms :: i64
  mc_expires_at_ms :: i64
  mc_first_used_at_ms :: "i64 option"

record managed_list_cursor_request =
  cw_binding :: managed_list_cursor_binding
  cw_position :: managed_list_cursor_position
  cw_response_state :: json
  cw_final_page :: bool

record namespace_purge_request =
  np_tenant_id :: string
  np_operation_id :: uuid

datatype namespace_purge_status =
    PurgePending
  | PurgeRunning
  | PurgeComplete u64
  | PurgeBlocked string
  | PurgeUnsupported string

definition serialize_cursor_response_state :: "managed_env \<Rightarrow> json \<Rightarrow> managed_error + bytes" where
  "serialize_cursor_response_state env response_state =
     (case me_to_vec env response_state of
        Inl error \<Rightarrow> Inl (ManagedCorrupt (''invalid cursor response state: '' @ error))
      | Inr serialized \<Rightarrow>
          if MANAGED_LIST_CURSOR_RESPONSE_MAX_BYTES < length serialized
          then Inl CursorLimitExceeded else Inr serialized)"

definition cursor_matches_request :: "managed_list_cursor \<Rightarrow> managed_list_cursor_request \<Rightarrow> bool" where
  "cursor_matches_request cursor request \<longleftrightarrow>
     mc_binding cursor = cw_binding request \<and> mc_position cursor = cw_position request
     \<and> mc_response_state cursor = cw_response_state request \<and> mc_final_page cursor = cw_final_page request"

end
