(* ===== verification/Managed_Repair.thy ===== *)
theory Managed_Repair
  imports Managed_Types
begin

text \<open>
  Repairs of managed objects (\<open>managed/repair.rs\<close>): the record of a copy or
  cleanup that a worker still owes, the repairs a publication, a replacement
  or a new placement asks for, and what completing one changes in the object's
  authority.
\<close>

datatype repair_kind = ReplicaRepair | PlacementRepair | DeleteGeneration

datatype repair_target_role = PrimaryRole | ReplicaRole | CleanupRole

record repair_record =
  rr_id :: uuid
  rr_repair_id :: uuid
  rr_kind :: repair_kind
  rr_logical :: logical_object_key
  rr_namespace_epoch :: u64
  rr_authority_cas_version :: u64
  rr_generation :: uuid
  rr_digest :: string
  rr_size :: u64
  rr_metadata :: metadata
  rr_physical_key :: string
  rr_source_backend_id :: "string option"
  rr_target_backend_id :: string
  rr_target_role :: repair_target_role
  rr_placement_version :: u32
  rr_placement_primary_backend_id :: "string option"
  rr_placement_replica_backend_id :: "string option"
  rr_attempts :: u32
  rr_lease_owner :: "string option"
  rr_lease_token :: "uuid option"
  rr_lease_expires_at_ms :: "i64 option"
  rr_not_before_ms :: i64
  rr_created_at_ms :: i64
  rr_updated_at_ms :: i64

record repair_state_counts =
  rs_pending :: u64
  rs_leased :: u64
  rs_dead :: u64

text \<open>The \<open>k\<close>-th clock reading and identifier of the call go into the new record.\<close>

definition repair_copy ::
  "managed_env \<Rightarrow> nat \<Rightarrow> repair_kind \<Rightarrow> object_authority \<Rightarrow> string option \<Rightarrow> string
     \<Rightarrow> repair_target_role \<Rightarrow> u32 \<Rightarrow> repair_record" where
  "repair_copy env k kind authority source_backend_id target_backend_id target_role placement_version =
     \<lparr> rr_id = me_fresh env k, rr_repair_id = me_fresh env k, rr_kind = kind,
       rr_logical = oa_logical authority, rr_namespace_epoch = 0,
       rr_authority_cas_version = oa_cas_version authority, rr_generation = oa_generation authority,
       rr_digest = oa_digest authority, rr_size = oa_size authority, rr_metadata = oa_metadata authority,
       rr_physical_key = generation_physical_key env (oa_logical authority) (oa_generation authority),
       rr_source_backend_id = source_backend_id, rr_target_backend_id = target_backend_id,
       rr_target_role = target_role, rr_placement_version = placement_version,
       rr_placement_primary_backend_id = None, rr_placement_replica_backend_id = None,
       rr_attempts = 0, rr_lease_owner = None, rr_lease_token = None, rr_lease_expires_at_ms = None,
       rr_not_before_ms = 0, rr_created_at_ms = me_clock env k, rr_updated_at_ms = me_clock env k \<rparr>"

definition repair_placement ::
  "managed_env \<Rightarrow> nat \<Rightarrow> object_authority \<Rightarrow> string option \<Rightarrow> string \<Rightarrow> repair_target_role
     \<Rightarrow> placement \<Rightarrow> repair_record" where
  "repair_placement env k authority source_backend_id target_backend_id target_role placement =
     (repair_copy env k PlacementRepair authority source_backend_id target_backend_id target_role
        (pc_version placement))
     \<lparr> rr_placement_primary_backend_id := Some (pc_primary_backend_id placement),
       rr_placement_replica_backend_id := pc_replica_backend_id placement \<rparr>"

definition cleanup_repair :: "managed_env \<Rightarrow> nat \<Rightarrow> object_authority \<Rightarrow> string \<Rightarrow> repair_record" where
  "cleanup_repair env k authority backend =
     repair_copy env k DeleteGeneration authority None backend CleanupRole (oa_placement_version authority)"

definition cleanup_repairs :: "managed_env \<Rightarrow> nat \<Rightarrow> object_authority \<Rightarrow> repair_record list" where
  "cleanup_repairs env k authority =
     cleanup_repair env k authority (oa_primary_backend_id authority)
     # (case oa_replica_backend_id authority of
          Some replica \<Rightarrow> [cleanup_repair env (Suc k) authority replica]
        | None \<Rightarrow> [])"

definition stale_repair_cleanup :: "managed_env \<Rightarrow> nat \<Rightarrow> repair_record \<Rightarrow> repair_record" where
  "stale_repair_cleanup env k repair =
     \<lparr> rr_id = me_fresh env k, rr_repair_id = me_fresh env k, rr_kind = DeleteGeneration,
       rr_logical = rr_logical repair, rr_namespace_epoch = rr_namespace_epoch repair,
       rr_authority_cas_version = rr_authority_cas_version repair, rr_generation = rr_generation repair,
       rr_digest = rr_digest repair, rr_size = rr_size repair, rr_metadata = rr_metadata repair,
       rr_physical_key = rr_physical_key repair, rr_source_backend_id = None,
       rr_target_backend_id = rr_target_backend_id repair, rr_target_role = CleanupRole,
       rr_placement_version = rr_placement_version repair,
       rr_placement_primary_backend_id = None, rr_placement_replica_backend_id = None,
       rr_attempts = 0, rr_lease_owner = None, rr_lease_token = None, rr_lease_expires_at_ms = None,
       rr_not_before_ms = 0, rr_created_at_ms = me_clock env k, rr_updated_at_ms = me_clock env k \<rparr>"

definition publication_repairs :: "managed_env \<Rightarrow> nat \<Rightarrow> object_authority \<Rightarrow> repair_record list" where
  "publication_repairs env k authority =
     (case (oa_replica_backend_id authority, oa_replica_status authority) of
        (Some replica, RepairPending) \<Rightarrow>
          [repair_copy env k ReplicaRepair authority (Some (oa_primary_backend_id authority)) replica
             ReplicaRole (oa_placement_version authority)]
      | _ \<Rightarrow> [])"

text \<open>The collected set of old locations is listed in the order of first occurrence.\<close>

definition placement_cleanup_repairs ::
  "managed_env \<Rightarrow> nat \<Rightarrow> object_authority \<Rightarrow> object_authority \<Rightarrow> repair_record list" where
  "placement_cleanup_repairs env k previous authority =
     (let old_locations =
            remdups (filter (\<lambda>backend. backend \<noteq> oa_primary_backend_id authority
                \<and> oa_replica_backend_id authority \<noteq> Some backend)
              (oa_primary_backend_id previous
               # (case oa_replica_backend_id previous of Some replica \<Rightarrow> [replica] | None \<Rightarrow> [])))
      in map (\<lambda>(i, backend). cleanup_repair env (k + i) authority backend) (List.enumerate 0 old_locations))"

text \<open>
  \<open>Inr None\<close> is the source's \<open>Ok(false)\<close>, which leaves the authority alone;
  \<open>Inr (Some authority)\<close> its \<open>Ok(true)\<close> with the authority as updated.
\<close>

definition apply_repair_to_authority ::
  "object_authority \<Rightarrow> repair_record \<Rightarrow> managed_error + object_authority option" where
  "apply_repair_to_authority authority repair =
     (if rr_kind repair = PlacementRepair
      then (case rr_placement_primary_backend_id repair of
              None \<Rightarrow> Inl (ManagedCorrupt ''placement repair has no requested primary backend'')
            | Some primary \<Rightarrow>
                if rr_placement_version repair < oa_placement_version authority then Inr None
                else and_then
                  (if rr_target_role repair = PrimaryRole \<and> rr_target_backend_id repair = primary
                   then Inr (let authority = authority\<lparr>oa_primary_backend_id := primary, oa_primary_status := Ready\<rparr>
                             in if rr_placement_replica_backend_id repair = None
                                then authority\<lparr>oa_replica_backend_id := None, oa_replica_status := Absent\<rparr>
                                else authority)
                   else if rr_target_role repair = ReplicaRole
                        \<and> rr_placement_replica_backend_id repair = Some (rr_target_backend_id repair)
                   then Inr (authority\<lparr>oa_replica_backend_id := Some (rr_target_backend_id repair),
                               oa_replica_status := Ready\<rparr>)
                   else Inl (ManagedCorrupt ''placement repair target does not match requested placement''))
                  (\<lambda>authority. Inr (Some
                     (if oa_primary_backend_id authority = primary \<and> oa_primary_status authority = Ready
                         \<and> (case rr_placement_replica_backend_id repair of
                              Some replica \<Rightarrow> oa_replica_backend_id authority = Some replica
                                \<and> oa_replica_status authority = Ready
                            | None \<Rightarrow> oa_replica_backend_id authority = None
                                \<and> oa_replica_status authority = Absent)
                      then authority\<lparr>oa_placement_version := rr_placement_version repair\<rparr>
                      else authority))))
      else (case rr_target_role repair of
              PrimaryRole \<Rightarrow> Inr (Some (authority\<lparr>oa_primary_backend_id := rr_target_backend_id repair,
                 oa_primary_status := Ready\<rparr>))
            | ReplicaRole \<Rightarrow> Inr (Some (authority\<lparr>oa_replica_backend_id := Some (rr_target_backend_id repair),
                 oa_replica_status := Ready\<rparr>))
            | CleanupRole \<Rightarrow> Inr None))"

definition repair_target_is_authoritative :: "object_authority \<Rightarrow> repair_record \<Rightarrow> bool" where
  "repair_target_is_authoritative authority repair \<longleftrightarrow>
     \<not> oa_tombstone authority \<and> oa_generation authority = rr_generation repair
     \<and> (oa_primary_backend_id authority = rr_target_backend_id repair
        \<or> oa_replica_backend_id authority = Some (rr_target_backend_id repair))"

section \<open>Properties of repairs\<close>

text \<open>A completed repair touches only the placement of the object, never its content.\<close>

lemma apply_repair_keeps_content:
  assumes "apply_repair_to_authority authority repair = Inr (Some authority')"
  shows "oa_logical authority' = oa_logical authority" "oa_generation authority' = oa_generation authority"
    "oa_digest authority' = oa_digest authority" "oa_size authority' = oa_size authority"
    "oa_metadata authority' = oa_metadata authority" "oa_tombstone authority' = oa_tombstone authority"
    "oa_cas_version authority' = oa_cas_version authority"
    "oa_primary_version_id authority' = oa_primary_version_id authority"
  using assms unfolding apply_repair_to_authority_def
  by (auto simp: result_simps Let_def split: if_splits option.splits repair_target_role.splits)

text \<open>Every copy the updated authority relies on was relied on before or is the repaired target.\<close>

lemma apply_repair_locations:
  assumes "apply_repair_to_authority authority repair = Inr (Some authority')"
  shows "oa_primary_backend_id authority' \<in> {oa_primary_backend_id authority, rr_target_backend_id repair}"
    "oa_replica_backend_id authority'
       \<in> {None, oa_replica_backend_id authority, Some (rr_target_backend_id repair)}"
  using assms unfolding apply_repair_to_authority_def
  by (auto simp: result_simps Let_def split: if_splits option.splits repair_target_role.splits)

text \<open>Between two failed attempts a repair waits at least 30 seconds and at most four hours, ever longer.\<close>

lemma min_attempts_bound: "unat (min attempts (10 :: u32)) = min (unat attempts) 10"
  by (simp add: min_def word_le_nat_alt)

lemma repair_backoff_exact:
  "repair_backoff_ms attempts = min (30000 * 2 ^ min (unat attempts) 10) 14400000"
proof -
  have "(2 :: int) ^ min (unat attempts) 10 \<le> 2 ^ 10" by (rule power_increasing) simp_all
  moreover have "(0 :: int) < 2 ^ min (unat attempts) 10" by simp
  moreover have "i64_saturating_mul 30000 x = 30000 * x" if "0 < x" "x \<le> 2 ^ 10" for x
    using that by (simp add: i64_saturating_mul_def i64_min_def i64_max_def)
  ultimately have "i64_saturating_mul 30000 (2 ^ min (unat attempts) 10) = 30000 * 2 ^ min (unat attempts) 10"
    by blast
  then show ?thesis
    by (simp add: repair_backoff_ms_def REPAIR_BACKOFF_BASE_MS_def REPAIR_BACKOFF_MAX_MS_def min_attempts_bound)
qed

lemma repair_backoff_monotone: "a \<le> b \<Longrightarrow> repair_backoff_ms a \<le> repair_backoff_ms b"
proof -
  assume "a \<le> b"
  then have "min (unat a) 10 \<le> min (unat b) 10" by (simp add: word_le_nat_alt)
  then have "(2 :: int) ^ min (unat a) 10 \<le> 2 ^ min (unat b) 10" by (rule power_increasing) simp
  then show ?thesis unfolding repair_backoff_exact by linarith
qed

lemma repair_backoff_bounds: "30000 \<le> repair_backoff_ms a" "repair_backoff_ms a \<le> 14400000"
proof -
  have "(1 :: int) \<le> 2 ^ min (unat a) 10" by simp
  then show "30000 \<le> repair_backoff_ms a" unfolding repair_backoff_exact by linarith
  show "repair_backoff_ms a \<le> 14400000" unfolding repair_backoff_exact by linarith
qed

end
