(* ===== verification/Managed_State.thy ===== *)
theory Managed_State
  imports Managed_Repair
begin

text \<open>
  The state behind the lock of the in-memory managed repository
  (\<open>MemoryState\<close> of \<open>managed/memory.rs\<close>) and the helpers its operations
  share: namespace fences and epochs, the usage row of a workspace, the
  physical-version ledger and the repair queue. An operation takes its
  surroundings, its arguments and the state, and returns the new state with
  its result; an early return keeps what the call changed before it. Clock
  readings and identifiers are numbered in the order a call takes them, with
  gaps where a branch takes fewer.
\<close>

record memory_purge =
  mp_tenant_id :: string
  mp_status :: namespace_purge_status
  mp_deleted_versions :: u64

record managed_state =
  mr_authorities :: "(logical_object_key, object_authority) hash_map"
  mr_logical_operations :: "(uuid, managed_logical_operation) hash_map"
  mr_workspace_usage :: "(string, managed_workspace_usage) hash_map"
  mr_list_cursors :: "(uuid, managed_list_cursor) hash_map"
  mr_list_cursor_successors :: "(uuid, uuid) hash_map"
  mr_repairs :: "(uuid, repair_record \<times> string) hash_map"
  mr_write_intents :: "(uuid, physical_write_intent) hash_map"
  mr_blocked_write_intents :: "(uuid, string) hash_map"
  mr_write_leases :: "(uuid, i64) hash_map"
  mr_write_tokens :: "(uuid, uuid) hash_map"
  mr_write_epochs :: "(uuid, u64) hash_map"
  mr_versions :: "physical_version_target list"
  mr_fenced_namespaces :: "(string, uuid) hash_map"
  mr_purges :: "(uuid, memory_purge) hash_map"
  mr_namespace_epochs :: "(string, u64) hash_map"
  mr_routing_epochs :: "(string, u64) hash_map"
  mr_multipart_activities :: "(string, string \<times> u64) hash_map"
  mr_confirmed_multipart_activities :: "string list"
  mr_multipart_registration_expiry :: "(string, i64) hash_map"
  mr_placement_policy_fingerprints :: "(u32, string) hash_map"

definition managed_state_default :: managed_state where
  "managed_state_default =
     \<lparr> mr_authorities = [], mr_logical_operations = [], mr_workspace_usage = [], mr_list_cursors = [],
       mr_list_cursor_successors = [], mr_repairs = [], mr_write_intents = [], mr_blocked_write_intents = [],
       mr_write_leases = [], mr_write_tokens = [], mr_write_epochs = [], mr_versions = [],
       mr_fenced_namespaces = [], mr_purges = [], mr_namespace_epochs = [], mr_routing_epochs = [],
       mr_multipart_activities = [], mr_confirmed_multipart_activities = [],
       mr_multipart_registration_expiry = [], mr_placement_policy_fingerprints = [] \<rparr>"

type_synonym 'a managed_result = "managed_state \<times> (managed_error + 'a)"

section \<open>Namespaces\<close>

definition namespace_fenced :: "managed_state \<Rightarrow> string \<Rightarrow> bool" where
  "namespace_fenced st tenant_id \<longleftrightarrow> hm_get (mr_fenced_namespaces st) tenant_id \<noteq> None"

definition epoch_or_1 :: "(string, u64) hash_map \<Rightarrow> string \<Rightarrow> u64" where
  "epoch_or_1 epochs tenant_id = (case hm_get epochs tenant_id of Some epoch \<Rightarrow> epoch | None \<Rightarrow> 1)"

abbreviation namespace_epoch :: "managed_state \<Rightarrow> string \<Rightarrow> u64" where
  "namespace_epoch st \<equiv> epoch_or_1 (mr_namespace_epochs st)"

abbreviation routing_epoch :: "managed_state \<Rightarrow> string \<Rightarrow> u64" where
  "routing_epoch st \<equiv> epoch_or_1 (mr_routing_epochs st)"

definition current_fence :: "managed_state \<Rightarrow> string \<Rightarrow> managed_route_fence" where
  "current_fence st tenant_id =
     \<lparr>rf_namespace_epoch = namespace_epoch st tenant_id, rf_routing_epoch = routing_epoch st tenant_id\<rparr>"

definition enter_namespace_epoch :: "string \<Rightarrow> managed_state \<Rightarrow> managed_state" where
  "enter_namespace_epoch tenant_id st =
     st\<lparr>mr_namespace_epochs := hm_or_insert tenant_id 1 (mr_namespace_epochs st)\<rparr>"

definition enter_epochs :: "string \<Rightarrow> managed_state \<Rightarrow> managed_state" where
  "enter_epochs tenant_id st =
     st\<lparr>mr_namespace_epochs := hm_or_insert tenant_id 1 (mr_namespace_epochs st),
        mr_routing_epochs := hm_or_insert tenant_id 1 (mr_routing_epochs st)\<rparr>"

definition admitted_fence_lost :: "managed_state \<Rightarrow> managed_logical_operation_intent \<Rightarrow> bool" where
  "admitted_fence_lost st intent \<longleftrightarrow>
     (let tenant_id = lk_tenant_id (li_logical intent)
      in namespace_fenced st tenant_id
         \<or> namespace_epoch st tenant_id \<noteq> rf_namespace_epoch (li_fence intent)
         \<or> routing_epoch st tenant_id \<noteq> rf_routing_epoch (li_fence intent))"

section \<open>Workspace usage\<close>

definition usage_default :: "i64 \<Rightarrow> string \<Rightarrow> managed_workspace_usage" where
  "usage_default now tenant_id =
     \<lparr> wu_tenant_id = tenant_id, wu_visible_logical_bytes = 0, wu_physical_allocated_bytes = 0,
       wu_reserved_bytes = 0, wu_visible_limit_bytes = MANAGED_VISIBLE_LIMIT_BYTES,
       wu_replacement_headroom_bytes = MANAGED_REPLACEMENT_HEADROOM_BYTES,
       wu_active_operation_id = None, wu_version = 1, wu_created_at_ms = now, wu_updated_at_ms = now \<rparr>"

definition enter_usage :: "i64 \<Rightarrow> string \<Rightarrow> managed_state \<Rightarrow> managed_state" where
  "enter_usage now tenant_id st =
     st\<lparr>mr_workspace_usage := hm_or_insert tenant_id (usage_default now tenant_id) (mr_workspace_usage st)\<rparr>"

definition usage_in :: "i64 \<Rightarrow> string \<Rightarrow> managed_state \<Rightarrow> managed_workspace_usage" where
  "usage_in now tenant_id st =
     (case hm_get (mr_workspace_usage st) tenant_id of Some usage \<Rightarrow> usage | None \<Rightarrow> usage_default now tenant_id)"

definition set_usage :: "string \<Rightarrow> managed_workspace_usage \<Rightarrow> managed_state \<Rightarrow> managed_state" where
  "set_usage tenant_id usage st = st\<lparr>mr_workspace_usage := hm_insert tenant_id usage (mr_workspace_usage st)\<rparr>"

definition touch_usage :: "i64 \<Rightarrow> managed_workspace_usage \<Rightarrow> managed_workspace_usage" where
  "touch_usage now usage = usage\<lparr>wu_version := saturating_add (wu_version usage) 1, wu_updated_at_ms := now\<rparr>"

section \<open>Logical operations\<close>

definition get_logical :: "managed_state \<Rightarrow> uuid \<Rightarrow> managed_logical_operation option" where
  "get_logical st operation_id = hm_get (mr_logical_operations st) operation_id"

definition set_logical :: "uuid \<Rightarrow> managed_logical_operation \<Rightarrow> managed_state \<Rightarrow> managed_state" where
  "set_logical operation_id operation st =
     st\<lparr>mr_logical_operations := hm_insert operation_id operation (mr_logical_operations st)\<rparr>"

definition clear_recovery :: "managed_logical_operation \<Rightarrow> managed_logical_operation" where
  "clear_recovery operation =
     operation\<lparr>lo_recovery_owner := None, lo_recovery_token := None, lo_recovery_expires_at_ms := None\<rparr>"

definition unresolved_child :: "managed_state \<Rightarrow> uuid \<Rightarrow> bool" where
  "unresolved_child st intent_id \<longleftrightarrow>
     list_ex (\<lambda>operation. \<not> logical_terminal (lo_state operation)
         \<and> li_primary_child_operation_id (lo_intent operation) = intent_id)
       (hm_values (mr_logical_operations st))"

section \<open>Physical versions and write intents\<close>

definition same_version :: "physical_version_target \<Rightarrow> physical_version_target \<Rightarrow> bool" where
  "same_version existing target \<longleftrightarrow>
     vt_tenant_id existing = vt_tenant_id target \<and> vt_backend_id existing = vt_backend_id target
     \<and> vt_provider_bucket existing = vt_provider_bucket target
     \<and> vt_physical_key existing = vt_physical_key target \<and> vt_version_id existing = vt_version_id target"

fun ledger_versions :: "physical_version_target list \<Rightarrow> physical_version_target list \<Rightarrow> physical_version_target list" where
  "ledger_versions [] versions = versions"
| "ledger_versions (target # targets) versions =
     ledger_versions targets
       (if list_ex (\<lambda>existing. same_version existing target) versions then versions else versions @ [target])"

definition child_version :: "managed_logical_operation_intent \<Rightarrow> physical_version_target \<Rightarrow> bool" where
  "child_version intent target \<longleftrightarrow>
     vt_write_operation_id target = li_primary_child_operation_id intent
     \<and> vt_tenant_id target = lk_tenant_id (li_logical intent)
     \<and> vt_backend_id target = li_backend_id intent
     \<and> vt_provider_bucket target = li_provider_bucket intent
     \<and> vt_physical_key target = li_physical_key intent"

definition lease_held :: "managed_state \<Rightarrow> i64 \<Rightarrow> physical_write_lease \<Rightarrow> bool" where
  "lease_held st now lease \<longleftrightarrow>
     hm_get (mr_write_tokens st) (wl_intent_id lease) = Some (wl_token lease)
     \<and> hm_get (mr_write_epochs st) (wl_intent_id lease) = Some (wl_namespace_epoch lease)
     \<and> (case hm_get (mr_write_leases st) (wl_intent_id lease) of Some expiry \<Rightarrow> now < expiry | None \<Rightarrow> False)"

definition owns_intent :: "managed_state \<Rightarrow> physical_write_lease \<Rightarrow> bool" where
  "owns_intent st lease \<longleftrightarrow>
     (case hm_get (mr_write_intents st) (wl_intent_id lease) of
        Some intent \<Rightarrow> wi_lease_owner intent = wl_owner lease | None \<Rightarrow> False)"

definition drop_write_intent :: "uuid \<Rightarrow> managed_state \<Rightarrow> managed_state" where
  "drop_write_intent intent_id st =
     st\<lparr>mr_write_intents := hm_remove intent_id (mr_write_intents st),
        mr_blocked_write_intents := hm_remove intent_id (mr_blocked_write_intents st),
        mr_write_leases := hm_remove intent_id (mr_write_leases st),
        mr_write_tokens := hm_remove intent_id (mr_write_tokens st),
        mr_write_epochs := hm_remove intent_id (mr_write_epochs st)\<rparr>"

section \<open>The repair queue\<close>

definition same_repair :: "repair_record \<Rightarrow> repair_record \<Rightarrow> bool" where
  "same_repair existing repair \<longleftrightarrow>
     rr_kind existing = rr_kind repair \<and> rr_generation existing = rr_generation repair
     \<and> rr_target_backend_id existing = rr_target_backend_id repair"

definition insert_memory_repair :: "i64 \<Rightarrow> repair_record \<Rightarrow> managed_state \<Rightarrow> managed_state" where
  "insert_memory_repair now repair st =
     (case find (\<lambda>(_, existing, _). same_repair existing repair) (mr_repairs st) of
        Some (k, existing, status) \<Rightarrow>
          if status = ''DONE''
          then let repair_id = rr_repair_id existing
               in st\<lparr>mr_repairs := hm_insert k
                    (repair\<lparr>rr_id := repair_id, rr_repair_id := repair_id, rr_updated_at_ms := now,
                       rr_lease_owner := None, rr_lease_token := None, rr_lease_expires_at_ms := None\<rparr>,
                     ''PENDING'') (mr_repairs st)\<rparr>
          else st
      | None \<Rightarrow> st\<lparr>mr_repairs := hm_insert (rr_repair_id repair) (repair, ''PENDING'') (mr_repairs st)\<rparr>)"

definition insert_memory_waiting_placement_cleanup :: "repair_record \<Rightarrow> managed_state \<Rightarrow> managed_state" where
  "insert_memory_waiting_placement_cleanup repair st =
     (if list_ex (\<lambda>(existing, _). same_repair existing repair) (hm_values (mr_repairs st)) then st
      else st\<lparr>mr_repairs := hm_insert (rr_repair_id repair) (repair, ''WAITING_CUTOVER'') (mr_repairs st)\<rparr>)"

definition repair_has_target :: "managed_state \<Rightarrow> repair_record \<Rightarrow> bool" where
  "repair_has_target st repair \<longleftrightarrow>
     list_ex (\<lambda>target. vt_tenant_id target = lk_tenant_id (rr_logical repair)
         \<and> vt_backend_id target = rr_target_backend_id repair
         \<and> vt_physical_key target = rr_physical_key repair)
       (mr_versions st)"

fun insert_repairs :: "(nat \<Rightarrow> i64) \<Rightarrow> repair_record list \<Rightarrow> managed_state \<Rightarrow> managed_state" where
  "insert_repairs clock [] st = st"
| "insert_repairs clock (repair # repairs) st =
     insert_repairs (\<lambda>i. clock (Suc i)) repairs (insert_memory_repair (clock 0) repair st)"

text \<open>The loop over \<open>cleanup_repairs\<close>: a copy without a ledgered version needs no cleanup.\<close>

fun insert_cleanups :: "(nat \<Rightarrow> i64) \<Rightarrow> u64 \<Rightarrow> repair_record list \<Rightarrow> managed_state \<Rightarrow> managed_state" where
  "insert_cleanups clock epoch [] st = st"
| "insert_cleanups clock epoch (repair # repairs) st =
     insert_cleanups (\<lambda>i. clock (Suc i)) epoch repairs
       (if repair_has_target st repair
        then insert_memory_repair (clock 0) (repair\<lparr>rr_namespace_epoch := epoch\<rparr>) st else st)"

definition readings :: "managed_env \<Rightarrow> nat \<Rightarrow> nat \<Rightarrow> i64" where
  "readings env k i = me_clock env (k + i)"

definition schedule_cleanup ::
  "managed_env \<Rightarrow> u64 \<Rightarrow> object_authority option \<Rightarrow> managed_state \<Rightarrow> managed_state" where
  "schedule_cleanup env epoch existing st =
     (case existing of
        Some existing \<Rightarrow>
          if oa_tombstone existing then st
          else insert_cleanups (readings env 50) epoch (cleanup_repairs env 40 existing) st
      | None \<Rightarrow> st)"

text \<open>
  What publishing an authority over \<open>existing\<close> schedules: the copy to a pending
  replica, then the cleanup of the replaced generation.
\<close>

definition schedule_publication ::
  "managed_env \<Rightarrow> u64 \<Rightarrow> object_authority option \<Rightarrow> object_authority \<Rightarrow> managed_state \<Rightarrow> managed_state" where
  "schedule_publication env epoch existing authority st =
     schedule_cleanup env epoch existing
       (insert_repairs (readings env 30)
          (map (\<lambda>repair. repair\<lparr>rr_namespace_epoch := epoch\<rparr>) (publication_repairs env 20 authority)) st)"

end
