(* ===== verification/Managed_Logical.thy ===== *)
theory Managed_Logical
  imports Managed_State
begin

text \<open>
  Logical operations of the in-memory managed repository
  (\<open>managed/memory.rs\<close>, lines 312 to 1730): admission under a namespace fence,
  the reservation of physical bytes, recorded evidence, the commit of a put or
  a delete, recovery claims, and the proven abort.
\<close>

section \<open>Fences\<close>

definition assert_namespace_active :: "string \<Rightarrow> managed_state \<Rightarrow> managed_error + unit" where
  "assert_namespace_active tenant_id st = (if namespace_fenced st tenant_id then Inl NamespaceFenced else Inr ())"

definition route_fence :: "string \<Rightarrow> managed_state \<Rightarrow> managed_route_fence managed_result" where
  "route_fence tenant_id st =
     (if namespace_fenced st tenant_id then (st, Inl NamespaceFenced)
      else let st = enter_epochs tenant_id st in (st, Inr (current_fence st tenant_id)))"

definition advance_routing_epoch :: "string \<Rightarrow> u64 \<Rightarrow> managed_state \<Rightarrow> managed_route_fence managed_result" where
  "advance_routing_epoch tenant_id expected_routing_epoch st =
     (if namespace_fenced st tenant_id then (st, Inl NamespaceFenced)
      else let st = enter_epochs tenant_id st
           in if routing_epoch st tenant_id \<noteq> expected_routing_epoch then (st, Inl ManagedConflict)
              else (case checked_add (routing_epoch st tenant_id) 1 of
                      None \<Rightarrow> (st, Inl (ManagedCorrupt ''managed routing epoch overflow''))
                    | Some epoch \<Rightarrow>
                        let st = st\<lparr>mr_routing_epochs := hm_insert tenant_id epoch (mr_routing_epochs st)\<rparr>
                        in (st, Inr (current_fence st tenant_id))))"

section \<open>Admission\<close>

definition fresh_operation :: "i64 \<Rightarrow> managed_logical_operation_intent \<Rightarrow> managed_logical_operation" where
  "fresh_operation now intent =
     \<lparr> lo_intent = intent, lo_evidence = None, lo_reserved_physical_bytes = 0,
       lo_committed_physical_bytes = 0, lo_released_physical_bytes = 0, lo_state = LogicalIntent,
       lo_committed_authority_version = None, lo_settlement_state = SettlementPending,
       lo_last_error_class = None, lo_recovery_owner = None, lo_recovery_token = None,
       lo_recovery_expires_at_ms = None, lo_created_at_ms = now, lo_updated_at_ms = now,
       lo_committed_at_ms = None, lo_aborted_at_ms = None \<rparr>"

definition insert_logical_operation ::
  "managed_env \<Rightarrow> managed_logical_operation_intent \<Rightarrow> managed_state \<Rightarrow> managed_logical_operation managed_result" where
  "insert_logical_operation env intent st =
     (let tenant_id = lk_tenant_id (li_logical intent)
      in case validate_logical_intent intent of
           Inl error \<Rightarrow> (st, Inl error)
         | Inr _ \<Rightarrow>
             if namespace_fenced st tenant_id then (st, Inl NamespaceFenced)
             else let st = enter_epochs tenant_id st
                  in if li_fence intent \<noteq> current_fence st tenant_id then (st, Inl ManagedConflict)
                     else (case get_logical st (li_operation_id intent) of
                             Some existing \<Rightarrow>
                               if lo_intent existing = intent then (st, Inr existing) else (st, Inl ManagedConflict)
                           | None \<Rightarrow>
                               if list_ex (\<lambda>operation. li_receipt_id (lo_intent operation) = li_receipt_id intent
                                      \<or> li_primary_child_operation_id (lo_intent operation)
                                        = li_primary_child_operation_id intent)
                                    (hm_values (mr_logical_operations st))
                                  \<or> hm_get (mr_write_intents st) (li_primary_child_operation_id intent) \<noteq> None
                                  \<or> list_ex (\<lambda>target. vt_write_operation_id target
                                        = li_primary_child_operation_id intent) (mr_versions st)
                               then (st, Inl ManagedConflict)
                               else let operation = fresh_operation (me_clock env 0) intent
                                    in (set_logical (li_operation_id intent) operation st, Inr operation)))"

definition logical_operation :: "uuid \<Rightarrow> managed_state \<Rightarrow> managed_logical_operation option" where
  "logical_operation operation_id st = get_logical st operation_id"

definition oldest_operations ::
  "(managed_logical_operation \<Rightarrow> bool) \<Rightarrow> u64 \<Rightarrow> managed_state \<Rightarrow> managed_logical_operation list" where
  "oldest_operations P limit st =
     take (unat limit) (sort_key lo_updated_at_ms (filter P (hm_values (mr_logical_operations st))))"

definition pending_logical_operations :: "u64 \<Rightarrow> managed_state \<Rightarrow> managed_logical_operation list" where
  "pending_logical_operations = oldest_operations (\<lambda>operation. \<not> logical_terminal (lo_state operation))"

definition pending_delete_settlements :: "u64 \<Rightarrow> managed_state \<Rightarrow> managed_logical_operation list" where
  "pending_delete_settlements =
     oldest_operations (\<lambda>operation. li_kind (lo_intent operation) = DeleteMutation
       \<and> lo_state operation = LogicalCommitted \<and> lo_settlement_state operation = SettlementPending)"

definition mark_logical_operation_settled ::
  "managed_env \<Rightarrow> uuid \<Rightarrow> uuid \<Rightarrow> managed_state \<Rightarrow> unit managed_result" where
  "mark_logical_operation_settled env operation_id receipt_id st =
     (case get_logical st operation_id of
        None \<Rightarrow> (st, Inl ManagedConflict)
      | Some operation \<Rightarrow>
          if li_receipt_id (lo_intent operation) \<noteq> receipt_id
             \<or> li_kind (lo_intent operation) \<noteq> DeleteMutation
             \<or> lo_state operation \<noteq> LogicalCommitted
             \<or> \<not> (lo_settlement_state operation = SettlementPending \<or> lo_settlement_state operation = Settled)
          then (st, Inl ManagedConflict)
          else (set_logical operation_id
                  (operation\<lparr>lo_settlement_state := Settled, lo_updated_at_ms := me_clock env 0\<rparr>) st, Inr ()))"

definition defer_delete_settlement ::
  "managed_env \<Rightarrow> uuid \<Rightarrow> uuid \<Rightarrow> managed_state \<Rightarrow> unit managed_result" where
  "defer_delete_settlement env operation_id receipt_id st =
     (case get_logical st operation_id of
        None \<Rightarrow> (st, Inl ManagedConflict)
      | Some operation \<Rightarrow>
          if li_receipt_id (lo_intent operation) \<noteq> receipt_id
             \<or> li_kind (lo_intent operation) \<noteq> DeleteMutation
             \<or> lo_state operation \<noteq> LogicalCommitted
             \<or> lo_settlement_state operation \<noteq> SettlementPending
          then (st, Inl ManagedConflict)
          else (set_logical operation_id
                  (operation\<lparr>lo_updated_at_ms := i64_saturating_add (me_clock env 0) 60000\<rparr>) st, Inr ()))"

section \<open>Recovery claims\<close>

text \<open>
  The identifiers come from the map itself, under the same lock, so the lookup
  that the source unwraps finds an operation.
\<close>

fun claim_operations ::
  "managed_env \<Rightarrow> string \<Rightarrow> i64 \<Rightarrow> nat \<Rightarrow> uuid list \<Rightarrow> managed_state
     \<Rightarrow> managed_state \<times> managed_recovery_claim list" where
  "claim_operations env owner expires k [] st = (st, [])"
| "claim_operations env owner expires k (operation_id # ids) st =
     (case get_logical st operation_id of
        None \<Rightarrow> claim_operations env owner expires (Suc k) ids st
      | Some operation \<Rightarrow>
          let token = me_fresh env k;
              operation = operation\<lparr>lo_recovery_owner := Some owner, lo_recovery_token := Some token,
                 lo_recovery_expires_at_ms := Some expires\<rparr>;
              claim = \<lparr>rc_operation = operation, rc_claim_owner = owner, rc_token = token, rc_expires_at_ms = expires\<rparr>;
              rest = claim_operations env owner expires (Suc k) ids (set_logical operation_id operation st)
          in (fst rest, claim # snd rest))"

definition stale_operation :: "i64 \<Rightarrow> i64 \<Rightarrow> managed_logical_operation \<Rightarrow> bool" where
  "stale_operation now stale_before_ms operation \<longleftrightarrow>
     \<not> logical_terminal (lo_state operation)
     \<and> li_kind (lo_intent operation) = PutMutation
     \<and> lo_updated_at_ms operation \<le> stale_before_ms
     \<and> (case lo_recovery_expires_at_ms operation of None \<Rightarrow> True | Some expires \<Rightarrow> expires \<le> now)"

definition stale_ids :: "i64 \<Rightarrow> i64 \<Rightarrow> u64 \<Rightarrow> managed_state \<Rightarrow> uuid list" where
  "stale_ids now stale_before_ms limit st =
     map snd (take (unat limit) (sort_key fst (sort_key snd
       (map (\<lambda>operation. (lo_updated_at_ms operation, li_operation_id (lo_intent operation)))
          (filter (stale_operation now stale_before_ms) (hm_values (mr_logical_operations st)))))))"

definition claim_stale_logical_operations ::
  "managed_env \<Rightarrow> string \<Rightarrow> i64 \<Rightarrow> i64 \<Rightarrow> u64 \<Rightarrow> managed_state \<Rightarrow> managed_recovery_claim list managed_result" where
  "claim_stale_logical_operations env owner stale_before_ms claim_expires_at_ms limit st =
     (let now = me_clock env 0
      in if owner = [] \<or> 256 < length owner \<or> claim_expires_at_ms \<le> now then (st, Inl ManagedConflict)
         else let claimed = claim_operations env owner claim_expires_at_ms 0
                              (stale_ids now stale_before_ms limit st) st
              in (fst claimed, Inr (snd claimed)))"

definition claim_current :: "managed_logical_operation \<Rightarrow> managed_recovery_claim \<Rightarrow> i64 \<Rightarrow> bool" where
  "claim_current operation claim now \<longleftrightarrow>
     lo_recovery_owner operation = Some (rc_claim_owner claim)
     \<and> lo_recovery_token operation = Some (rc_token claim)
     \<and> lo_recovery_expires_at_ms operation = Some (rc_expires_at_ms claim)
     \<and> now < rc_expires_at_ms claim
     \<and> \<not> logical_terminal (lo_state operation)"

definition mark_logical_recovery_blocked ::
  "managed_env \<Rightarrow> managed_recovery_claim \<Rightarrow> string \<Rightarrow> managed_state \<Rightarrow> managed_logical_operation managed_result" where
  "mark_logical_recovery_blocked env claim reason st =
     (let operation_id = li_operation_id (lo_intent (rc_operation claim))
      in case get_logical st operation_id of
           None \<Rightarrow> (st, Inl ManagedConflict)
         | Some operation \<Rightarrow>
             if \<not> claim_current operation claim (me_clock env 0) then (st, Inl ManagedConflict)
             else let operation = (clear_recovery operation)
                        \<lparr>lo_state := LogicalRecoveryBlocked, lo_last_error_class := Some (take 128 reason),
                         lo_updated_at_ms := me_clock env 1\<rparr>
                  in (set_logical operation_id operation st, Inr operation))"

definition renew_logical_recovery_claim ::
  "managed_env \<Rightarrow> managed_recovery_claim \<Rightarrow> i64 \<Rightarrow> managed_state \<Rightarrow> managed_recovery_claim managed_result" where
  "renew_logical_recovery_claim env claim claim_expires_at_ms st =
     (let now = me_clock env 0; operation_id = li_operation_id (lo_intent (rc_operation claim))
      in if claim_expires_at_ms \<le> now then (st, Inl ManagedConflict)
         else (case get_logical st operation_id of
                 None \<Rightarrow> (st, Inl ManagedConflict)
               | Some operation \<Rightarrow>
                   if \<not> claim_current operation claim now then (st, Inl ManagedConflict)
                   else let operation = operation\<lparr>lo_recovery_expires_at_ms := Some claim_expires_at_ms\<rparr>
                        in (set_logical operation_id operation st,
                            Inr \<lparr>rc_operation = operation, rc_claim_owner = rc_claim_owner claim,
                                 rc_token = rc_token claim, rc_expires_at_ms = claim_expires_at_ms\<rparr>)))"

section \<open>Reservation and evidence\<close>

definition reservation :: "managed_workspace_usage \<Rightarrow> u64 \<Rightarrow> u64 option" where
  "reservation usage physical_bytes =
     Option.bind (checked_add (wu_visible_limit_bytes usage) (wu_replacement_headroom_bytes usage)) (\<lambda>bound.
     Option.bind (checked_add (wu_reserved_bytes usage) physical_bytes) (\<lambda>reserved.
     Option.bind (checked_add (wu_physical_allocated_bytes usage) reserved) (\<lambda>allocated.
     if bound < allocated then None else Some reserved)))"

definition reserve_logical_operation ::
  "managed_env \<Rightarrow> uuid \<Rightarrow> u64 \<Rightarrow> managed_state \<Rightarrow> managed_workspace_usage managed_result" where
  "reserve_logical_operation env operation_id physical_bytes st =
     (case get_logical st operation_id of
        None \<Rightarrow> (st, Inl ManagedConflict)
      | Some operation \<Rightarrow>
          if admitted_fence_lost st (lo_intent operation) then (st, Inl NamespaceFenced)
          else
            let tenant_id = lk_tenant_id (li_logical (lo_intent operation));
                usage = usage_in (me_clock env 0) tenant_id st;
                st = enter_usage (me_clock env 0) tenant_id st
            in if lo_state operation = LogicalOpen \<and> lo_reserved_physical_bytes operation = physical_bytes
                  \<and> wu_active_operation_id usage = Some operation_id
               then (st, Inr usage)
               else if lo_state operation \<noteq> LogicalIntent
               then (st, Inl (InvalidLogicalTransition (lo_state operation) LogicalOpen))
               else if wu_active_operation_id usage \<noteq> None then (st, Inl MutationInProgress)
               else (case reservation usage physical_bytes of
                       None \<Rightarrow> (st, Inl ManagedQuotaExceeded)
                     | Some reserved \<Rightarrow>
                        let now = me_clock env 1;
                            usage = touch_usage now (usage\<lparr>wu_reserved_bytes := reserved,
                                      wu_active_operation_id := Some operation_id\<rparr>);
                            st = set_usage tenant_id usage st
                        in (set_logical operation_id
                              (operation\<lparr>lo_reserved_physical_bytes := physical_bytes,
                                 lo_state := LogicalOpen, lo_updated_at_ms := now\<rparr>) st,
                            Inr usage)))"

text \<open>
  The three critical sections of \<open>admit_logical_operation\<close>, each of which takes
  the lock anew: \<open>env1\<close> to \<open>env3\<close> are their surroundings, \<open>between\<close> and
  \<open>between'\<close> what other callers do to the state in the gaps.
\<close>

definition admit_logical_operation ::
  "managed_env \<Rightarrow> managed_env \<Rightarrow> managed_env \<Rightarrow> (managed_state \<Rightarrow> managed_state) \<Rightarrow> (managed_state \<Rightarrow> managed_state)
     \<Rightarrow> managed_logical_operation_intent \<Rightarrow> u64 \<Rightarrow> managed_state
     \<Rightarrow> (managed_logical_operation \<times> managed_workspace_usage) managed_result" where
  "admit_logical_operation env1 env2 env3 between between' intent reservation_cap st =
     (case insert_logical_operation env1 intent st of
        (st, Inl error) \<Rightarrow> (st, Inl error)
      | (st, Inr _) \<Rightarrow>
          let st = between st;
              tenant_id = lk_tenant_id (li_logical intent);
              usage = usage_in (me_clock env2 0) tenant_id st;
              st = enter_usage (me_clock env2 0) tenant_id st;
              available = max 1 (saturating_sub (saturating_sub
                 (saturating_add (wu_visible_limit_bytes usage) (wu_replacement_headroom_bytes usage))
                 (wu_physical_allocated_bytes usage)) (wu_reserved_bytes usage));
              reserved = min reservation_cap available;
              st = between' st
          in case reserve_logical_operation env3 (li_operation_id intent) reserved st of
               (st, Inl error) \<Rightarrow> (st, Inl error)
             | (st, Inr usage) \<Rightarrow>
                 (case get_logical st (li_operation_id intent) of
                    None \<Rightarrow> (st, Inl ManagedConflict)
                  | Some operation \<Rightarrow> (st, Inr (operation, usage))))"

definition evidence_inconsistent :: "managed_usage_evidence \<Rightarrow> bool" where
  "evidence_inconsistent evidence \<longleftrightarrow>
     ue_processed_bytes evidence \<noteq> max (ue_source_bytes evidence) (ue_expected_output_size evidence)"

definition evidence_unfit :: "managed_logical_operation_intent \<Rightarrow> managed_usage_evidence \<Rightarrow> bool" where
  "evidence_unfit intent evidence \<longleftrightarrow>
     li_max_processed_bytes intent < ue_processed_bytes evidence
     \<or> (li_kind intent = PutMutation \<and> ue_expected_output_digest evidence = None)
     \<or> (li_kind intent = DeleteMutation
        \<and> (ue_expected_output_size evidence \<noteq> 0 \<or> ue_source_bytes evidence \<noteq> 0
           \<or> ue_processed_bytes evidence \<noteq> 0))"

definition record_logical_usage ::
  "managed_env \<Rightarrow> uuid \<Rightarrow> managed_usage_evidence \<Rightarrow> managed_state \<Rightarrow> managed_logical_operation managed_result" where
  "record_logical_usage env operation_id evidence st =
     (if evidence_inconsistent evidence then (st, Inl ManagedConflict)
      else case get_logical st operation_id of
             None \<Rightarrow> (st, Inl ManagedConflict)
           | Some operation \<Rightarrow>
               if lo_evidence operation = Some evidence then (st, Inr operation)
               else if lo_evidence operation \<noteq> None \<or> lo_state operation = LogicalIntent
                       \<or> logical_terminal (lo_state operation) \<or> evidence_unfit (lo_intent operation) evidence
               then (st, Inl ManagedConflict)
               else let operation = operation\<lparr>lo_evidence := Some evidence, lo_updated_at_ms := me_clock env 0\<rparr>
                    in (set_logical operation_id operation st, Inr operation))"

section \<open>Committing a put\<close>

text \<open>A repeated call for a committed operation: every recorded fact must agree with the request.\<close>

definition original_authority_matches ::
  "managed_logical_operation \<Rightarrow> managed_usage_evidence \<Rightarrow> managed_publication_recipe \<Rightarrow> string
     \<Rightarrow> exact_physical_commit \<Rightarrow> object_authority \<Rightarrow> bool" where
  "original_authority_matches operation evidence recipe digest result persisted \<longleftrightarrow>
     oa_generation persisted = li_generation (lo_intent operation)
     \<and> oa_digest persisted = digest
     \<and> oa_size persisted = ue_expected_output_size evidence
     \<and> oa_metadata persisted = pr_metadata recipe
     \<and> oa_placement_version persisted = pr_placement_version recipe
     \<and> oa_primary_backend_id persisted = pr_primary_backend_id recipe
     \<and> oa_primary_version_id persisted = ec_selected_version_id result
     \<and> oa_replica_backend_id persisted = pr_replica_backend_id recipe
     \<and> oa_primary_status persisted = pr_primary_status recipe
     \<and> oa_replica_status persisted = pr_replica_status recipe
     \<and> \<not> oa_tombstone persisted"

definition next_cas :: "managed_logical_operation_intent \<Rightarrow> u64" where
  "next_cas intent =
     saturating_add (case li_expected_authority_cas intent of Some cas \<Rightarrow> cas | None \<Rightarrow> 0) 1"

definition target_strays ::
  "managed_logical_operation_intent \<Rightarrow> physical_version_target \<Rightarrow> physical_version_target \<Rightarrow> bool" where
  "target_strays intent canonical target \<longleftrightarrow>
     vt_tenant_id target \<noteq> lk_tenant_id (li_logical intent)
     \<or> vt_namespace_epoch target \<noteq> rf_namespace_epoch (li_fence intent)
     \<or> vt_backend_id target \<noteq> li_backend_id intent
     \<or> vt_provider_bucket target \<noteq> li_provider_bucket intent
     \<or> vt_physical_key target \<noteq> li_physical_key intent
     \<or> vt_storage_identity target \<noteq> vt_storage_identity canonical
     \<or> vt_credential_epoch target \<noteq> vt_credential_epoch canonical
     \<or> vt_versioning_mode target \<noteq> vt_versioning_mode canonical
     \<or> vt_versioning_capability target \<noteq> vt_versioning_capability canonical"

definition committed_put_authority ::
  "managed_logical_operation \<Rightarrow> exact_physical_commit \<Rightarrow> managed_state \<Rightarrow> managed_error + object_authority" where
  "committed_put_authority operation result st =
     (let intent = lo_intent operation;
          persisted_targets = filter (\<lambda>version. vt_write_operation_id version = li_primary_child_operation_id intent)
             (mr_versions st);
          persisted_ids = remdups (map (\<lambda>version. case vt_version_id version of Some v \<Rightarrow> v | None \<Rightarrow> []) persisted_targets)
      in and_then (ok_or ManagedConflict (hm_get (mr_authorities st) (li_logical intent))) (\<lambda>persisted.
         and_then (ok_or ManagedConflict (case persisted_targets of t # _ \<Rightarrow> Some t | [] \<Rightarrow> None)) (\<lambda>canonical_target.
         and_then (ok_or ManagedConflict (lo_evidence operation)) (\<lambda>evidence.
         and_then (ok_or ManagedConflict (li_publication_recipe intent)) (\<lambda>recipe.
         and_then (ok_or ManagedConflict (lo_committed_authority_version operation)) (\<lambda>committed_authority_version.
         and_then (if oa_generation persisted = li_generation intent
                   then ok_or ManagedConflict (ue_expected_output_digest evidence) else Inr []) (\<lambda>digest.
         if oa_logical persisted \<noteq> li_logical intent
            \<or> committed_authority_version \<noteq> next_cas intent
            \<or> oa_cas_version persisted < committed_authority_version
            \<or> (oa_cas_version persisted = committed_authority_version
               \<and> \<not> original_authority_matches operation evidence recipe digest result persisted)
            \<or> set persisted_ids \<noteq> set (exact_version_ids result)
            \<or> list_ex (target_strays intent canonical_target) persisted_targets
         then Inl ManagedConflict
         else and_then (physical_allocation (ue_expected_output_size evidence) (of_nat (length persisted_ids)))
                (\<lambda>allocation. if lo_committed_physical_bytes operation \<noteq> allocation then Inl ManagedConflict
                   else Inr persisted))))))))"

definition lease_unfit ::
  "managed_state \<Rightarrow> i64 \<Rightarrow> managed_logical_operation \<Rightarrow> physical_write_lease \<Rightarrow> physical_write_intent \<Rightarrow> bool" where
  "lease_unfit st now operation physical_lease physical_intent \<longleftrightarrow>
     (let intent = lo_intent operation
      in wl_intent_id physical_lease \<noteq> li_primary_child_operation_id intent
         \<or> wi_tenant_id physical_intent \<noteq> lk_tenant_id (li_logical intent)
         \<or> wi_backend_id physical_intent \<noteq> li_backend_id intent
         \<or> wi_provider_bucket physical_intent \<noteq> li_provider_bucket intent
         \<or> wi_physical_key physical_intent \<noteq> li_physical_key intent
         \<or> wi_lease_owner physical_intent \<noteq> wl_owner physical_lease
         \<or> \<not> lease_held st now physical_lease
         \<or> (case lo_recovery_owner operation of None \<Rightarrow> False | Some owner \<Rightarrow> owner \<noteq> wl_owner physical_lease))"

definition prior_size :: "object_authority option \<Rightarrow> u64" where
  "prior_size existing =
     (case existing of Some authority \<Rightarrow> if oa_tombstone authority then 0 else oa_size authority | None \<Rightarrow> 0)"

definition authority_moved :: "managed_logical_operation_intent \<Rightarrow> object_authority option \<Rightarrow> bool" where
  "authority_moved intent existing \<longleftrightarrow>
     map_option oa_cas_version existing \<noteq> li_expected_authority_cas intent
     \<or> prior_size existing \<noteq> li_prior_logical_size intent"

definition put_authority ::
  "i64 \<Rightarrow> managed_logical_operation_intent \<Rightarrow> managed_usage_evidence \<Rightarrow> managed_publication_recipe \<Rightarrow> string
     \<Rightarrow> exact_physical_commit \<Rightarrow> object_authority option \<Rightarrow> object_authority" where
  "put_authority now intent evidence recipe digest result existing =
     \<lparr> oa_logical = li_logical intent, oa_generation = li_generation intent, oa_digest = digest,
       oa_size = ue_expected_output_size evidence, oa_metadata = pr_metadata recipe,
       oa_placement_version = pr_placement_version recipe,
       oa_primary_backend_id = pr_primary_backend_id recipe,
       oa_primary_version_id = ec_selected_version_id result,
       oa_replica_backend_id = pr_replica_backend_id recipe,
       oa_primary_status = pr_primary_status recipe, oa_replica_status = pr_replica_status recipe,
       oa_tombstone = False, oa_cas_version = next_cas intent,
       oa_created_at_ms = (case existing of Some authority \<Rightarrow> oa_created_at_ms authority | None \<Rightarrow> now),
       oa_updated_at_ms = now \<rparr>"

text \<open>
  The part of the commit that writes: the authority, its repairs, the usage
  row, the operation, and the end of the write intent.
\<close>

definition publish_put ::
  "managed_env \<Rightarrow> uuid \<Rightarrow> managed_logical_operation \<Rightarrow> u64 \<Rightarrow> u64 \<Rightarrow> object_authority option
     \<Rightarrow> object_authority \<Rightarrow> uuid \<Rightarrow> managed_state \<Rightarrow> managed_operation_commit managed_result" where
  "publish_put env operation_id operation visible allocation existing authority intent_id st =
     (let intent = lo_intent operation;
          now = me_clock env 0;
          tenant_id = lk_tenant_id (li_logical intent);
          st = st\<lparr>mr_authorities := hm_insert (oa_logical authority) authority (mr_authorities st)\<rparr>;
          st = schedule_publication env (rf_namespace_epoch (li_fence intent)) existing authority st;
          usage = (usage_in (me_clock env 60) tenant_id st)\<lparr>wu_visible_logical_bytes := visible\<rparr>;
          st = set_usage tenant_id usage st
      in case checked_add (wu_physical_allocated_bytes usage) allocation of
           None \<Rightarrow> (st, Inl ManagedQuotaExceeded)
         | Some allocated \<Rightarrow>
             let usage = usage\<lparr>wu_physical_allocated_bytes := allocated\<rparr>;
                 st = set_usage tenant_id usage st
             in case checked_sub (wu_reserved_bytes usage) (lo_reserved_physical_bytes operation) of
                  None \<Rightarrow> (st, Inl ManagedConflict)
                | Some reserved \<Rightarrow>
                    let usage = touch_usage now (usage\<lparr>wu_reserved_bytes := reserved, wu_active_operation_id := None\<rparr>);
                        st = set_usage tenant_id usage st;
                        operation = (clear_recovery operation)
                          \<lparr>lo_state := LogicalCommitted, lo_committed_physical_bytes := allocation,
                           lo_committed_authority_version := Some (oa_cas_version authority),
                           lo_updated_at_ms := now, lo_committed_at_ms := Some now\<rparr>;
                        st = drop_write_intent intent_id (set_logical operation_id operation st)
                    in (st, Inr \<lparr>oc_operation = operation, oc_authority = authority, oc_usage = usage\<rparr>))"

text \<open>The checks between the ledger entry and the commit, in the order of the source.\<close>

definition settle_put ::
  "managed_env \<Rightarrow> uuid \<Rightarrow> managed_logical_operation \<Rightarrow> managed_usage_evidence \<Rightarrow> managed_publication_recipe
     \<Rightarrow> physical_version_target list \<Rightarrow> exact_physical_commit \<Rightarrow> uuid \<Rightarrow> managed_state
     \<Rightarrow> managed_operation_commit managed_result" where
  "settle_put env operation_id operation evidence recipe expected_targets result intent_id st =
     (let intent = lo_intent operation;
          tenant_id = lk_tenant_id (li_logical intent);
          child_versions = filter (child_version intent) (mr_versions st)
      in case physical_allocation (ue_expected_output_size evidence) (of_nat (length child_versions)) of
           Inl error \<Rightarrow> (st, Inl error)
         | Inr allocation \<Rightarrow>
             if length child_versions \<noteq> length expected_targets
                \<or> \<not> list_all (\<lambda>expected. expected \<in> set child_versions) expected_targets
                \<or> lo_reserved_physical_bytes operation < allocation
             then (st, Inl (RecoveryBlocked ''physical_version_mismatch''))
             else let existing = hm_get (mr_authorities st) (li_logical intent)
                  in if authority_moved intent existing then (st, Inl (RecoveryBlocked ''authority_fence_changed''))
                     else let usage = usage_in (me_clock env 2) tenant_id st;
                              st = enter_usage (me_clock env 2) tenant_id st
                          in if wu_active_operation_id usage \<noteq> Some operation_id
                                \<or> wu_reserved_bytes usage < lo_reserved_physical_bytes operation
                             then (st, Inl ManagedConflict)
                             else (case Option.bind (checked_sub (wu_visible_logical_bytes usage) (li_prior_logical_size intent))
                                          (\<lambda>value. checked_add value (ue_expected_output_size evidence)) of
                                     None \<Rightarrow> (st, Inl ManagedQuotaExceeded)
                                   | Some visible \<Rightarrow>
                                       if wu_visible_limit_bytes usage < visible then (st, Inl ManagedQuotaExceeded)
                                       else (case ue_expected_output_digest evidence of
                                               None \<Rightarrow> (st, Inl ManagedConflict)
                                             | Some digest \<Rightarrow>
                                                 publish_put env operation_id operation visible allocation existing
                                                   (put_authority (me_clock env 0) intent evidence recipe digest result existing)
                                                   intent_id st)))"

definition finalize_logical_put ::
  "managed_env \<Rightarrow> uuid \<Rightarrow> physical_write_lease \<Rightarrow> exact_physical_commit \<Rightarrow> managed_recovery_claim option
     \<Rightarrow> managed_state \<Rightarrow> managed_operation_commit managed_result" where
  "finalize_logical_put env operation_id physical_lease result recovery_claim st =
     (case and_then (validate_exact_physical_commit result) (\<lambda>_. ok_or ManagedConflict (get_logical st operation_id)) of
        Inl error \<Rightarrow> (st, Inl error)
      | Inr operation \<Rightarrow>
          if lo_state operation = LogicalCommitted
          then (case committed_put_authority operation result st of
                  Inl error \<Rightarrow> (st, Inl error)
                | Inr persisted \<Rightarrow>
                    let tenant_id = lk_tenant_id (li_logical (lo_intent operation));
                        usage = usage_in (me_clock env 1) tenant_id st
                    in (enter_usage (me_clock env 1) tenant_id st,
                        Inr \<lparr>oc_operation = operation, oc_authority = persisted, oc_usage = usage\<rparr>))
          else (case and_then (validate_recovery_authority operation recovery_claim (me_clock env 0)) (\<lambda>_.
                       and_then (ok_or ManagedConflict (lo_evidence operation)) (\<lambda>evidence.
                       and_then (ok_or ManagedConflict (li_publication_recipe (lo_intent operation))) (\<lambda>recipe.
                       if li_kind (lo_intent operation) \<noteq> PutMutation
                          \<or> lo_state operation \<notin> {LogicalCompleting, LogicalCommitUnknown, LogicalRecoveryBlocked}
                          \<or> (lo_state operation = LogicalRecoveryBlocked \<and> recovery_claim = None)
                          \<or> pr_version recipe \<noteq> MANAGED_PUBLICATION_RECIPE_VERSION
                          \<or> pr_primary_backend_id recipe \<noteq> li_backend_id (lo_intent operation)
                       then Inl ManagedConflict
                       else if admitted_fence_lost st (lo_intent operation)
                       then Inl (RecoveryBlocked ''namespace_fence_changed'')
                       else and_then (ok_or ManagedConflict (hm_get (mr_write_intents st) (wl_intent_id physical_lease)))
                         (\<lambda>physical_intent.
                       and_then (validate_physical_commit_versioning physical_intent result) (\<lambda>_.
                       if lease_unfit st (me_clock env 1) operation physical_lease physical_intent
                       then Inl ManagedConflict
                       else let expected_targets = expected_physical_targets physical_intent
                                  (wl_namespace_epoch physical_lease) result
                            in if list_ex (\<lambda>existing. existing \<notin> set expected_targets)
                                 (filter (\<lambda>target. vt_write_operation_id target
                                     = li_primary_child_operation_id (lo_intent operation)) (mr_versions st))
                               then Inl (RecoveryBlocked ''physical_version_mismatch'')
                               else Inr (evidence, recipe, expected_targets)))))) of
                  Inl error \<Rightarrow> (st, Inl error)
                | Inr (evidence, recipe, expected_targets) \<Rightarrow>
                    settle_put env operation_id operation evidence recipe expected_targets result
                      (wl_intent_id physical_lease)
                      (st\<lparr>mr_versions := ledger_versions expected_targets (mr_versions st)\<rparr>)))"

section \<open>Committing a delete\<close>

definition tombstone_authority ::
  "i64 \<Rightarrow> logical_object_key \<Rightarrow> uuid \<Rightarrow> placement \<Rightarrow> u64 \<Rightarrow> object_authority option \<Rightarrow> object_authority" where
  "tombstone_authority now logical generation placement cas_version existing =
     \<lparr> oa_logical = logical, oa_generation = generation, oa_digest = [], oa_size = 0, oa_metadata = [],
       oa_placement_version = pc_version placement, oa_primary_backend_id = pc_primary_backend_id placement,
       oa_primary_version_id = None, oa_replica_backend_id = pc_replica_backend_id placement,
       oa_primary_status = Absent, oa_replica_status = Absent, oa_tombstone = True,
       oa_cas_version = cas_version,
       oa_created_at_ms = (case existing of Some authority \<Rightarrow> oa_created_at_ms authority | None \<Rightarrow> now),
       oa_updated_at_ms = now \<rparr>"

definition commit_logical_delete ::
  "managed_env \<Rightarrow> uuid \<Rightarrow> placement \<Rightarrow> managed_state \<Rightarrow> managed_operation_commit managed_result" where
  "commit_logical_delete env operation_id placement st =
     (case get_logical st operation_id of
        None \<Rightarrow> (st, Inl ManagedConflict)
      | Some operation \<Rightarrow>
          let intent = lo_intent operation;
              tenant_id = lk_tenant_id (li_logical intent);
              existing = hm_get (mr_authorities st) (li_logical intent);
              usage = usage_in (me_clock env 0) tenant_id st;
              entered = enter_usage (me_clock env 0) tenant_id st
          in if lo_state operation = LogicalCommitted
             then (case existing of
                     Some authority \<Rightarrow>
                       if oa_tombstone authority \<and> oa_generation authority = li_generation intent
                       then (entered, Inr \<lparr>oc_operation = operation, oc_authority = authority, oc_usage = usage\<rparr>)
                       else (st, Inl ManagedConflict)
                   | None \<Rightarrow> (st, Inl ManagedConflict))
             else if li_kind intent \<noteq> DeleteMutation \<or> lo_reserved_physical_bytes operation \<noteq> 0
                \<or> (case lo_evidence operation of
                     None \<Rightarrow> True
                   | Some evidence \<Rightarrow> ue_expected_output_size evidence \<noteq> 0 \<or> ue_source_bytes evidence \<noteq> 0
                       \<or> ue_processed_bytes evidence \<noteq> 0)
                \<or> lo_state operation \<notin> {LogicalCompleting, LogicalCommitUnknown}
             then (st, Inl (InvalidLogicalTransition (lo_state operation) LogicalCommitted))
             else if admitted_fence_lost st intent then (st, Inl NamespaceFenced)
             else if authority_moved intent existing then (st, Inl ManagedConflict)
             else if wu_active_operation_id usage \<noteq> Some operation_id then (entered, Inl ManagedConflict)
             else (case checked_sub (wu_visible_logical_bytes usage) (li_prior_logical_size intent) of
                     None \<Rightarrow> (entered, Inl ManagedConflict)
                   | Some visible \<Rightarrow>
                       let now = me_clock env 1;
                           authority = tombstone_authority now (li_logical intent) (li_generation intent) placement
                             (next_cas intent) existing;
                           st = entered\<lparr>mr_authorities := hm_insert (oa_logical authority) authority (mr_authorities entered)\<rparr>;
                           st = schedule_cleanup env (rf_namespace_epoch (li_fence intent)) existing st;
                           usage = touch_usage now ((usage_in (me_clock env 60) tenant_id st)
                             \<lparr>wu_visible_logical_bytes := visible, wu_active_operation_id := None\<rparr>);
                           st = set_usage tenant_id usage st;
                           operation = operation\<lparr>lo_state := LogicalCommitted,
                             lo_committed_authority_version := Some (oa_cas_version authority),
                             lo_updated_at_ms := now, lo_committed_at_ms := Some now\<rparr>
                       in (set_logical operation_id operation st,
                           Inr \<lparr>oc_operation = operation, oc_authority = authority, oc_usage = usage\<rparr>)))"

definition delete_generation :: "managed_env \<Rightarrow> managed_delete_request \<Rightarrow> object_authority option \<Rightarrow> uuid" where
  "delete_generation env request existing =
     (case existing of
        Some authority \<Rightarrow> if oa_tombstone authority then oa_generation authority
          else me_uuid_v5 env NAMESPACE_URL (uuid_bytes (dq_operation_id request))
      | None \<Rightarrow> me_uuid_v5 env NAMESPACE_URL (uuid_bytes (dq_operation_id request)))"

definition delete_intent ::
  "managed_env \<Rightarrow> managed_delete_request \<Rightarrow> managed_route_fence \<Rightarrow> object_authority option
     \<Rightarrow> managed_logical_operation_intent" where
  "delete_intent env request fence existing =
     \<lparr> li_operation_id = dq_operation_id request, li_receipt_id = dq_receipt_id request,
       li_logical = dq_logical request, li_kind = DeleteMutation,
       li_generation = delete_generation env request existing, li_fence = fence,
       li_expected_authority_cas = map_option oa_cas_version existing,
       li_prior_logical_size = prior_size existing,
       li_primary_child_operation_id = me_uuid_v5 env NAMESPACE_OID (uuid_bytes (dq_operation_id request)),
       li_backend_id = pc_primary_backend_id (dq_placement request),
       li_provider_bucket = dq_provider_bucket request,
       li_physical_key = generation_physical_key env (dq_logical request) (delete_generation env request existing),
       li_occurred_at_ms = dq_occurred_at_micros request div 1000,
       li_rate_version = dq_rate_version request, li_route = DeleteObject, li_request_kind = WriteRequest,
       li_max_processed_bytes = dq_max_processed_bytes request,
       li_publication_recipe = Some
         \<lparr> pr_version = MANAGED_PUBLICATION_RECIPE_VERSION,
           pr_placement_version = pc_version (dq_placement request),
           pr_primary_backend_id = pc_primary_backend_id (dq_placement request),
           pr_replica_backend_id = pc_replica_backend_id (dq_placement request),
           pr_metadata = [], pr_primary_status = Absent, pr_replica_status = Absent \<rparr> \<rparr>"

definition deleted_operation ::
  "i64 \<Rightarrow> managed_delete_request \<Rightarrow> managed_logical_operation_intent \<Rightarrow> u64 \<Rightarrow> managed_logical_operation" where
  "deleted_operation now request intent cas_version =
     (fresh_operation now intent)
     \<lparr> lo_evidence := Some
         \<lparr> ue_expected_output_digest = None, ue_expected_output_size = 0, ue_source_bytes = 0,
           ue_processed_bytes = 0,
           ue_payload = JObject [(''occurred_at_micros'', JNumber (decimal_i64 (dq_occurred_at_micros request)))] \<rparr>,
       lo_state := LogicalCommitted, lo_committed_authority_version := Some cas_version,
       lo_committed_at_ms := Some now \<rparr>"

text \<open>An object that is already deleted keeps its tombstone.\<close>

definition delete_authority ::
  "managed_env \<Rightarrow> i64 \<Rightarrow> managed_delete_request \<Rightarrow> object_authority option \<Rightarrow> object_authority" where
  "delete_authority env now request existing =
     (let replaced = tombstone_authority now (dq_logical request) (delete_generation env request existing)
            (dq_placement request)
            (case existing of Some authority \<Rightarrow> saturating_add (oa_cas_version authority) 1 | None \<Rightarrow> 1) existing
      in case existing of
           Some authority \<Rightarrow> if oa_tombstone authority then authority else replaced
         | None \<Rightarrow> replaced)"

definition delete_request_invalid :: "managed_delete_request \<Rightarrow> bool" where
  "delete_request_invalid request \<longleftrightarrow>
     lk_tenant_id (dq_logical request) = [] \<or> lk_bucket (dq_logical request) = []
     \<or> pc_version (dq_placement request) = 0 \<or> pc_primary_backend_id (dq_placement request) = []
     \<or> dq_provider_bucket request = [] \<or> dq_rate_version request \<le> 0 \<or> dq_occurred_at_micros request < 0"

text \<open>
  The repository only fails before its commit point: every error is the
  \<open>PreCommit\<close> variant of \<open>ManagedDeleteError\<close>, which carries the error below.
\<close>

definition commit_atomic_logical_delete ::
  "managed_env \<Rightarrow> managed_delete_request \<Rightarrow> managed_state \<Rightarrow> managed_operation_commit managed_result" where
  "commit_atomic_logical_delete env request st =
     (let tenant_id = lk_tenant_id (dq_logical request);
          fence = current_fence st tenant_id;
          existing = hm_get (mr_authorities st) (dq_logical request);
          usage = usage_in (me_clock env 0) tenant_id st;
          entered = enter_usage (me_clock env 0) tenant_id st
      in if delete_request_invalid request then (st, Inl ManagedConflict)
         else if namespace_fenced st tenant_id then (st, Inl NamespaceFenced)
         else (case get_logical st (dq_operation_id request) of
                 Some operation \<Rightarrow>
                   if \<not> delete_request_matches_operation request operation \<or> lo_state operation \<noteq> LogicalCommitted
                   then (st, Inl ManagedConflict)
                   else (case committed_delete_replay_authority operation existing of
                           Inl error \<Rightarrow> (st, Inl error)
                         | Inr authority \<Rightarrow>
                             (entered, Inr \<lparr>oc_operation = operation, oc_authority = authority, oc_usage = usage\<rparr>))
               | None \<Rightarrow>
                   if wu_active_operation_id usage \<noteq> None then (entered, Inl MutationInProgress)
                   else (case checked_sub (wu_visible_logical_bytes usage) (prior_size existing) of
                           None \<Rightarrow> (entered, Inl ManagedConflict)
                         | Some visible \<Rightarrow>
                             let now = me_clock env 1;
                                 authority = delete_authority env now request existing;
                                 st = entered\<lparr>mr_authorities := hm_insert (dq_logical request) authority (mr_authorities entered)\<rparr>;
                                 st = schedule_cleanup env (rf_namespace_epoch fence) existing st;
                                 usage = touch_usage now ((usage_in (me_clock env 60) tenant_id st)
                                   \<lparr>wu_visible_logical_bytes := visible\<rparr>);
                                 st = set_usage tenant_id usage st;
                                 operation = deleted_operation now request (delete_intent env request fence existing)
                                   (oa_cas_version authority)
                             in (set_logical (dq_operation_id request) operation st,
                                 Inr \<lparr>oc_operation = operation, oc_authority = authority, oc_usage = usage\<rparr>))))"

section \<open>Transitions and aborts\<close>

definition transition_logical_operation ::
  "managed_env \<Rightarrow> uuid \<Rightarrow> managed_logical_operation_state \<Rightarrow> managed_logical_operation_state \<Rightarrow> string option
     \<Rightarrow> managed_state \<Rightarrow> managed_logical_operation managed_result" where
  "transition_logical_operation env operation_id from to error_class st =
     (if \<not> valid_logical_transition from to then (st, Inl (InvalidLogicalTransition from to))
      else case get_logical st operation_id of
             None \<Rightarrow> (st, Inl ManagedConflict)
           | Some operation \<Rightarrow>
               if lo_state operation \<noteq> from then (st, Inl ManagedConflict)
               else let operation = operation\<lparr>lo_state := to,
                          lo_last_error_class := map_option (take 128) error_class,
                          lo_updated_at_ms := me_clock env 0\<rparr>
                    in (set_logical operation_id operation st, Inr operation))"

definition record_logical_usage_and_begin_completion ::
  "managed_env \<Rightarrow> uuid \<Rightarrow> managed_usage_evidence \<Rightarrow> managed_state \<Rightarrow> managed_logical_operation managed_result" where
  "record_logical_usage_and_begin_completion env operation_id evidence st =
     (if evidence_inconsistent evidence then (st, Inl ManagedConflict)
      else case get_logical st operation_id of
             None \<Rightarrow> (st, Inl ManagedConflict)
           | Some operation \<Rightarrow>
               if (if lo_evidence operation = Some evidence then lo_state operation \<noteq> LogicalOpen
                   else lo_evidence operation \<noteq> None \<or> lo_state operation \<noteq> LogicalOpen
                        \<or> evidence_unfit (lo_intent operation) evidence)
               then (st, Inl ManagedConflict)
               else let operation = operation\<lparr>lo_evidence := Some evidence, lo_state := LogicalCompleting,
                          lo_last_error_class := None, lo_updated_at_ms := me_clock env 0\<rparr>
                    in (set_logical operation_id operation st, Inr operation))"

definition proven_allocation ::
  "managed_logical_operation \<Rightarrow> managed_proven_physical_allocation option \<Rightarrow> u64 \<Rightarrow> managed_error + u64" where
  "proven_allocation operation physical child_version_count =
     (case physical of
        None \<Rightarrow> if child_version_count \<noteq> 0 then Inl ManagedConflict else Inr 0
      | Some physical \<Rightarrow>
          and_then (ok_or ManagedConflict (lo_evidence operation)) (\<lambda>evidence.
          and_then (physical_allocation (oa_size (pa_authority physical)) child_version_count) (\<lambda>derived.
          if child_version_count = 0
             \<or> oa_logical (pa_authority physical) \<noteq> li_logical (lo_intent operation)
             \<or> oa_generation (pa_authority physical) \<noteq> li_generation (lo_intent operation)
             \<or> oa_primary_backend_id (pa_authority physical) \<noteq> li_backend_id (lo_intent operation)
             \<or> oa_tombstone (pa_authority physical)
             \<or> ue_expected_output_size evidence \<noteq> oa_size (pa_authority physical)
             \<or> ue_expected_output_digest evidence \<noteq> Some (oa_digest (pa_authority physical))
             \<or> pa_allocated_bytes physical \<noteq> derived
             \<or> lo_reserved_physical_bytes operation < derived
          then Inl ManagedConflict
          else Inr derived)))"

definition schedule_abort_cleanup ::
  "managed_env \<Rightarrow> managed_logical_operation_intent \<Rightarrow> managed_proven_physical_allocation option \<Rightarrow> managed_state
     \<Rightarrow> managed_state" where
  "schedule_abort_cleanup env intent physical st =
     (case physical of
        Some physical \<Rightarrow> insert_cleanups (readings env 50) (rf_namespace_epoch (li_fence intent))
          (cleanup_repairs env 40 (pa_authority physical)) st
      | None \<Rightarrow> st)"

definition prove_logical_abort ::
  "managed_env \<Rightarrow> uuid \<Rightarrow> string \<Rightarrow> managed_proven_physical_allocation option \<Rightarrow> managed_state
     \<Rightarrow> managed_logical_operation managed_result" where
  "prove_logical_abort env operation_id error_class physical st =
     (case get_logical st operation_id of
        None \<Rightarrow> (st, Inl ManagedConflict)
      | Some operation \<Rightarrow>
          let intent = lo_intent operation; tenant_id = lk_tenant_id (li_logical intent)
          in if lo_state operation = LogicalProvenAborted then (st, Inr operation)
             else if lo_state operation = LogicalCommitted
             then (st, Inl (InvalidLogicalTransition (lo_state operation) LogicalProvenAborted))
             else if namespace_epoch st tenant_id \<noteq> rf_namespace_epoch (li_fence intent) then (st, Inl ManagedConflict)
             else (case proven_allocation operation physical
                          (of_nat (length (filter (child_version intent) (mr_versions st)))) of
                     Inl error \<Rightarrow> (st, Inl error)
                   | Inr allocated \<Rightarrow>
                       let st = schedule_abort_cleanup env intent physical st;
                           usage = usage_in (me_clock env 60) tenant_id st;
                           st = enter_usage (me_clock env 60) tenant_id st
                       in if lo_state operation \<noteq> LogicalIntent \<and> wu_active_operation_id usage \<noteq> Some operation_id
                          then (st, Inl ManagedConflict)
                          else (case checked_sub (wu_reserved_bytes usage) (lo_reserved_physical_bytes operation) of
                                  None \<Rightarrow> (st, Inl ManagedConflict)
                                | Some reserved \<Rightarrow>
                                    let usage = usage\<lparr>wu_reserved_bytes := reserved\<rparr>;
                                        st = set_usage tenant_id usage st
                                    in case checked_add (wu_physical_allocated_bytes usage) allocated of
                                         None \<Rightarrow> (st, Inl ManagedQuotaExceeded)
                                       | Some allocated_total \<Rightarrow>
                                           let now = me_clock env 61;
                                               usage = touch_usage now (usage\<lparr>wu_physical_allocated_bytes := allocated_total,
                                                 wu_active_operation_id :=
                                                   (if wu_active_operation_id usage = Some operation_id then None
                                                    else wu_active_operation_id usage)\<rparr>);
                                               operation = operation\<lparr>lo_state := LogicalProvenAborted,
                                                 lo_committed_physical_bytes := allocated,
                                                 lo_settlement_state := Released,
                                                 lo_last_error_class := Some (take 128 error_class),
                                                 lo_updated_at_ms := now, lo_aborted_at_ms := Some now\<rparr>
                                           in (set_logical operation_id operation (set_usage tenant_id usage st),
                                               Inr operation))))"

definition abort_proof_accepted ::
  "managed_state \<Rightarrow> i64 \<Rightarrow> managed_logical_operation \<Rightarrow> logical_abort_proof \<Rightarrow> physical_write_lease option \<Rightarrow> bool" where
  "abort_proof_accepted st now operation proof physical_lease \<longleftrightarrow>
     (let child = li_primary_child_operation_id (lo_intent operation)
      in case (physical_lease, hm_get (mr_write_intents st) child) of
           (None, None) \<Rightarrow> proof = NoChildStarted \<and> lo_state operation \<in> {LogicalIntent, LogicalOpen}
         | (Some lease, Some intent) \<Rightarrow>
             wl_intent_id lease = child \<and> wi_lease_owner intent = wl_owner lease \<and> lease_held st now lease
         | _ \<Rightarrow> False)"

definition abort_logical_put ::
  "managed_env \<Rightarrow> uuid \<Rightarrow> physical_write_lease option \<Rightarrow> logical_abort_proof \<Rightarrow> string
     \<Rightarrow> managed_recovery_claim option \<Rightarrow> managed_state \<Rightarrow> managed_logical_operation managed_result" where
  "abort_logical_put env operation_id physical_lease proof error_class recovery_claim st =
     (case get_logical st operation_id of
        None \<Rightarrow> (st, Inl ManagedConflict)
      | Some operation \<Rightarrow>
          let intent = lo_intent operation; tenant_id = lk_tenant_id (li_logical intent); now = me_clock env 0
          in if lo_state operation = LogicalProvenAborted then (st, Inr operation)
             else (case validate_recovery_authority operation recovery_claim now of
                     Inl error \<Rightarrow> (st, Inl error)
                   | Inr _ \<Rightarrow>
                       if li_kind intent \<noteq> PutMutation \<or> lo_state operation = LogicalCommitted
                       then (st, Inl ManagedConflict)
                       else if namespace_epoch st tenant_id \<noteq> rf_namespace_epoch (li_fence intent)
                       then (st, Inl (RecoveryBlocked ''namespace_fence_changed''))
                       else if list_ex (\<lambda>target. vt_write_operation_id target = li_primary_child_operation_id intent)
                                 (mr_versions st)
                       then (st, Inl ManagedConflict)
                       else if \<not> abort_proof_accepted st now operation proof physical_lease
                       then (st, Inl ManagedConflict)
                       else let usage = usage_in (me_clock env 1) tenant_id st;
                                st = enter_usage (me_clock env 1) tenant_id st
                            in if lo_state operation \<noteq> LogicalIntent \<and> wu_active_operation_id usage \<noteq> Some operation_id
                               then (st, Inl ManagedConflict)
                               else (case checked_sub (wu_reserved_bytes usage) (lo_reserved_physical_bytes operation) of
                                       None \<Rightarrow> (st, Inl ManagedConflict)
                                     | Some reserved \<Rightarrow>
                                         let usage = touch_usage now (usage\<lparr>wu_reserved_bytes := reserved,
                                               wu_active_operation_id :=
                                                 (if wu_active_operation_id usage = Some operation_id then None
                                                  else wu_active_operation_id usage)\<rparr>);
                                             operation = (clear_recovery operation)
                                               \<lparr>lo_state := LogicalProvenAborted, lo_settlement_state := Released,
                                                lo_last_error_class := Some (take 128 error_class),
                                                lo_updated_at_ms := now, lo_aborted_at_ms := Some now\<rparr>
                                         in (drop_write_intent (li_primary_child_operation_id intent)
                                               (set_logical operation_id operation (set_usage tenant_id usage st)),
                                             Inr operation))))"

definition workspace_usage :: "string \<Rightarrow> managed_state \<Rightarrow> managed_workspace_usage option" where
  "workspace_usage tenant_id st = hm_get (mr_workspace_usage st) tenant_id"

end
