(* ===== verification/Managed_Objects.thy ===== *)
theory Managed_Objects
  imports Managed_State Ordered_Map
begin

text \<open>
  Objects of the in-memory managed repository (\<open>managed/memory.rs\<close>, lines 68 to
  161 and 1732 to 2497): the listings, the list cursors, the registration of
  multipart activity, direct publication and placement, and the repair queue.
\<close>

section \<open>Listings\<close>

definition authority_listed :: "authority_list_query \<Rightarrow> object_authority \<Rightarrow> bool" where
  "authority_listed query authority \<longleftrightarrow>
     lk_tenant_id (oa_logical authority) = aq_tenant_id query
     \<and> lk_bucket (oa_logical authority) = aq_bucket query
     \<and> \<not> oa_tombstone authority
     \<and> take (length (aq_prefix query)) (lk_key (oa_logical authority)) = aq_prefix query
     \<and> (case aq_after query of None \<Rightarrow> True | Some after \<Rightarrow> after < lk_key (oa_logical authority))"

definition listed_objects :: "authority_list_query \<Rightarrow> managed_state \<Rightarrow> object_authority list" where
  "listed_objects query st =
     sort_key (\<lambda>authority. lk_key (oa_logical authority))
       (filter (authority_listed query) (hm_values (mr_authorities st)))"

definition list_authority :: "authority_list_query \<Rightarrow> managed_state \<Rightarrow> managed_error + authority_list_page" where
  "list_authority query st =
     (if MANAGED_AUTHORITY_LIST_MAX_KEYS < aq_max_keys query then Inl ManagedConflict
      else if aq_max_keys query = 0 then Inr \<lparr>ap_objects = [], ap_next_after = None\<rparr>
      else if namespace_fenced st (aq_tenant_id query) then Inl NamespaceFenced
      else let objects = listed_objects query st; max_keys = unat (aq_max_keys query)
           in Inr \<lparr>ap_objects = take max_keys objects,
                   ap_next_after = (if max_keys < length objects
                      then Some (lk_key (oa_logical (objects ! (max_keys - 1)))) else None)\<rparr>)"

definition placement_key :: "object_authority \<Rightarrow> string \<times> string \<times> string" where
  "placement_key authority =
     (lk_tenant_id (oa_logical authority), lk_bucket (oa_logical authority), lk_key (oa_logical authority))"

definition authority_behind :: "authority_placement_page_query \<Rightarrow> object_authority \<Rightarrow> bool" where
  "authority_behind query authority \<longleftrightarrow>
     \<not> oa_tombstone authority
     \<and> oa_placement_version authority < ag_target_placement_version query
     \<and> (case ag_after query of None \<Rightarrow> True
        | Some after \<Rightarrow> (ax_tenant_id after, ax_bucket after, ax_key after) < placement_key authority)"

definition list_authority_below_placement_version ::
  "authority_placement_page_query \<Rightarrow> managed_state \<Rightarrow> managed_error + authority_placement_page" where
  "list_authority_below_placement_version query st =
     (if MANAGED_AUTHORITY_LIST_MAX_KEYS < ag_limit query \<or> ag_target_placement_version query = 0
      then Inl ManagedConflict
      else if ag_limit query = 0 then Inr \<lparr>an_objects = [], an_next_after = None\<rparr>
      else let objects = sort_key placement_key (filter (authority_behind query) (hm_values (mr_authorities st)));
               limit = unat (ag_limit query)
           in Inr \<lparr>an_objects = take limit objects,
                   an_next_after = (if limit < length objects
                      then let logical = oa_logical (objects ! (limit - 1))
                           in Some \<lparr>ax_tenant_id = lk_tenant_id logical, ax_bucket = lk_bucket logical,
                                   ax_key = lk_key logical\<rparr>
                      else None)\<rparr>)"

definition placement_stats :: "u32 \<Rightarrow> managed_state \<Rightarrow> managed_error + authority_placement_stats" where
  "placement_stats target_placement_version st =
     (if target_placement_version = 0 then Inl ManagedConflict
      else Inr (foldl (\<lambda>stats authority.
          if \<not> oa_tombstone authority \<and> oa_placement_version authority < target_placement_version
          then \<lparr>as_remaining = saturating_add (as_remaining stats) 1,
                as_oldest_updated_at_ms = Some (case as_oldest_updated_at_ms stats of
                    None \<Rightarrow> oa_updated_at_ms authority | Some oldest \<Rightarrow> min oldest (oa_updated_at_ms authority))\<rparr>
          else stats)
        \<lparr>as_remaining = 0, as_oldest_updated_at_ms = None\<rparr> (hm_values (mr_authorities st))))"

section \<open>List cursors\<close>

definition live_cursors :: "i64 \<Rightarrow> managed_state \<Rightarrow> managed_list_cursor list" where
  "live_cursors now_ms st = filter (\<lambda>cursor. now_ms < mc_expires_at_ms cursor) (hm_values (mr_list_cursors st))"

definition cursors_of :: "string \<Rightarrow> managed_list_cursor list \<Rightarrow> managed_list_cursor list" where
  "cursors_of tenant_id = filter (\<lambda>cursor. cb_tenant_id (mc_binding cursor) = tenant_id)"

definition cursor_bytes :: "managed_list_cursor list \<Rightarrow> managed_error + u64" where
  "cursor_bytes cursors =
     try_fold (\<lambda>sum cursor. ok_or CursorLimitExceeded (checked_add sum (mc_response_state_bytes cursor))) 0 cursors"

definition exceeds :: "u64 \<Rightarrow> u64 \<Rightarrow> u64 \<Rightarrow> bool" where
  "exceeds limit a b \<longleftrightarrow> (case checked_add a b of None \<Rightarrow> True | Some bytes \<Rightarrow> limit < bytes)"

definition create_list_cursor_in_state ::
  "managed_env \<Rightarrow> managed_list_cursor_request \<Rightarrow> i64 \<Rightarrow> managed_state \<Rightarrow> managed_list_cursor managed_result" where
  "create_list_cursor_in_state env request now_ms st =
     (let tenant_id = cb_tenant_id (cw_binding request);
          live = live_cursors now_ms st
      in case and_then (serialize_cursor_response_state env (cw_response_state request)) (\<lambda>serialized.
                if namespace_fenced st tenant_id then Inl NamespaceFenced
                else and_then (cursor_bytes (cursors_of tenant_id live)) (\<lambda>workspace_bytes.
                     and_then (cursor_bytes live) (\<lambda>global_bytes.
                     if MANAGED_LIST_CURSOR_WORKSPACE_LIMIT \<le> length (cursors_of tenant_id live)
                        \<or> MANAGED_LIST_CURSOR_GLOBAL_LIMIT \<le> length live
                        \<or> exceeds MANAGED_LIST_CURSOR_WORKSPACE_MAX_BYTES workspace_bytes (of_nat (length serialized))
                        \<or> exceeds MANAGED_LIST_CURSOR_GLOBAL_MAX_BYTES global_bytes (of_nat (length serialized))
                     then Inl CursorLimitExceeded else Inr (of_nat (length serialized))))) of
           Inl error \<Rightarrow> (st, Inl error)
         | Inr response_state_bytes \<Rightarrow>
             let st = enter_epochs tenant_id st;
                 cursor = \<lparr> mc_id = me_fresh env 0, mc_binding = cw_binding request,
                   mc_fence = current_fence st tenant_id, mc_position = cw_position request,
                   mc_response_state = cw_response_state request,
                   mc_response_state_bytes = response_state_bytes, mc_final_page = cw_final_page request,
                   mc_state = CursorActive, mc_created_at_ms = now_ms,
                   mc_expires_at_ms = i64_saturating_add now_ms MANAGED_LIST_CURSOR_TTL_MS,
                   mc_first_used_at_ms = None \<rparr>
             in (st\<lparr>mr_list_cursors := hm_insert (mc_id cursor) cursor (mr_list_cursors st)\<rparr>, Inr cursor))"

lemma hm_remove_shorter: "hm_get m k = Some v \<Longrightarrow> length (hm_remove k m) < length m"
proof (induction m)
  case (Cons x m)
  have "length (hm_remove k m) \<le> length m"
    unfolding hm_remove_def by (simp add: AList.delete_eq)
  with Cons show ?case by (cases x) (auto simp: hm_remove_def hm_get_def split: if_splits)
qed simp

text \<open>A cursor goes together with the chain of its successors.\<close>

function remove_list_cursor :: "managed_state \<Rightarrow> uuid \<Rightarrow> managed_state" where
  "remove_list_cursor st cursor_id =
     (let st = (case hm_get (mr_list_cursor_successors st) cursor_id of
          Some successor_id \<Rightarrow> remove_list_cursor
            (st\<lparr>mr_list_cursor_successors := hm_remove cursor_id (mr_list_cursor_successors st)\<rparr>) successor_id
        | None \<Rightarrow> st)
      in st\<lparr>mr_list_cursor_successors :=
              hm_retain (\<lambda>_ successor_id. successor_id \<noteq> cursor_id) (mr_list_cursor_successors st),
            mr_list_cursors := hm_remove cursor_id (mr_list_cursors st)\<rparr>)"
  by pat_completeness auto
termination
  by (relation "measure (\<lambda>(st, _). length (mr_list_cursor_successors st))") (auto simp: hm_remove_shorter)

declare remove_list_cursor.simps [simp del]

definition create_list_cursor ::
  "managed_env \<Rightarrow> managed_list_cursor_request \<Rightarrow> i64 \<Rightarrow> managed_state \<Rightarrow> managed_list_cursor managed_result" where
  "create_list_cursor = create_list_cursor_in_state"

definition create_list_cursor_successor ::
  "managed_env \<Rightarrow> uuid \<Rightarrow> managed_list_cursor_request \<Rightarrow> i64 \<Rightarrow> managed_state \<Rightarrow> managed_list_cursor managed_result" where
  "create_list_cursor_successor env predecessor_cursor_id request now_ms st =
     (case hm_get (mr_list_cursor_successors st) predecessor_cursor_id of
        Some successor_id \<Rightarrow>
          (st, and_then (ok_or (ManagedCorrupt ''managed cursor successor is missing'')
                 (hm_get (mr_list_cursors st) successor_id)) (\<lambda>cursor.
               if mc_expires_at_ms cursor \<le> now_ms
                  \<or> mc_fence cursor \<noteq> current_fence st (cb_tenant_id (mc_binding cursor))
               then Inl CursorExpired
               else if cursor_matches_request cursor request then Inr cursor else Inl ManagedConflict))
      | None \<Rightarrow>
          (case create_list_cursor_in_state env request now_ms st of
             (st, Inl error) \<Rightarrow> (st, Inl error)
           | (st, Inr cursor) \<Rightarrow>
               (st\<lparr>mr_list_cursor_successors :=
                     hm_insert predecessor_cursor_id (mc_id cursor) (mr_list_cursor_successors st)\<rparr>,
                Inr cursor)))"

definition use_list_cursor ::
  "uuid \<Rightarrow> managed_list_cursor_binding \<Rightarrow> i64 \<Rightarrow> managed_state \<Rightarrow> managed_list_cursor managed_result" where
  "use_list_cursor cursor_id binding now_ms st =
     (if namespace_fenced st (cb_tenant_id binding) then (st, Inl NamespaceFenced)
      else case hm_get (mr_list_cursors st) cursor_id of
             None \<Rightarrow> (st, Inl CursorExpired)
           | Some cursor \<Rightarrow>
               if mc_expires_at_ms cursor \<le> now_ms
               then (remove_list_cursor st cursor_id, Inl CursorExpired)
               else if mc_binding cursor \<noteq> binding then (st, Inl CursorQueryMismatch)
               else if mc_fence cursor \<noteq> current_fence st (cb_tenant_id (mc_binding cursor))
               then (remove_list_cursor st cursor_id, Inl CursorExpired)
               else let cursor = (if mc_state cursor = CursorActive
                          then cursor\<lparr>mc_state := CursorUsed, mc_first_used_at_ms := Some now_ms\<rparr> else cursor)
                    in (st\<lparr>mr_list_cursors := hm_insert cursor_id cursor (mr_list_cursors st)\<rparr>, Inr cursor))"

definition delete_list_cursor :: "uuid \<Rightarrow> managed_state \<Rightarrow> unit managed_result" where
  "delete_list_cursor cursor_id st = (remove_list_cursor st cursor_id, Inr ())"

definition cleanup_expired_list_cursors :: "i64 \<Rightarrow> u64 \<Rightarrow> managed_state \<Rightarrow> u64 managed_result" where
  "cleanup_expired_list_cursors now_ms limit st =
     (let expired = take (unat limit) (sort_key fst (sort_key snd
            (map (\<lambda>cursor. (mc_expires_at_ms cursor, mc_id cursor))
               (filter (\<lambda>cursor. mc_expires_at_ms cursor \<le> now_ms) (hm_values (mr_list_cursors st))))))
      in (foldl (\<lambda>st (_, cursor_id). remove_list_cursor st cursor_id) st expired, Inr (of_nat (length expired))))"

section \<open>Multipart activity\<close>

definition begin_multipart_activity :: "managed_env \<Rightarrow> string \<Rightarrow> string \<Rightarrow> managed_state \<Rightarrow> u64 managed_result" where
  "begin_multipart_activity env upload_id tenant_id st =
     (if namespace_fenced st tenant_id then (st, Inl NamespaceFenced)
      else let st = enter_namespace_epoch tenant_id st;
               epoch = namespace_epoch st tenant_id
           in (st\<lparr>mr_multipart_activities := hm_insert upload_id (tenant_id, epoch) (mr_multipart_activities st),
                  mr_multipart_registration_expiry := hm_insert upload_id
                    (i64_saturating_add (me_clock env 0) (10 * 60 * 1000)) (mr_multipart_registration_expiry st)\<rparr>,
               Inr epoch))"

definition assert_multipart_activity :: "string \<Rightarrow> string \<Rightarrow> u64 \<Rightarrow> bool \<Rightarrow> managed_state \<Rightarrow> managed_error + unit" where
  "assert_multipart_activity upload_id tenant_id epoch allow_purging st =
     (if namespace_epoch st tenant_id \<noteq> epoch
         \<or> (namespace_fenced st tenant_id \<and> \<not> allow_purging)
         \<or> hm_get (mr_multipart_activities st) upload_id \<noteq> Some (tenant_id, epoch)
         \<or> upload_id \<notin> set (mr_confirmed_multipart_activities st)
      then Inl NamespaceFenced else Inr ())"

definition confirm_multipart_activity :: "string \<Rightarrow> string \<Rightarrow> u64 \<Rightarrow> managed_state \<Rightarrow> unit managed_result" where
  "confirm_multipart_activity upload_id tenant_id epoch st =
     (if namespace_fenced st tenant_id
         \<or> hm_get (mr_multipart_activities st) upload_id \<noteq> Some (tenant_id, epoch)
      then (st, Inl NamespaceFenced)
      else (st\<lparr>mr_confirmed_multipart_activities := List.insert upload_id (mr_confirmed_multipart_activities st),
               mr_multipart_registration_expiry := hm_remove upload_id (mr_multipart_registration_expiry st)\<rparr>,
            Inr ()))"

definition reconcile_multipart_activities :: "managed_env \<Rightarrow> u64 \<Rightarrow> managed_state \<Rightarrow> u64 managed_result" where
  "reconcile_multipart_activities env limit st =
     (let now = me_clock env 0;
          expired = map fst (take (unat limit)
            (filter (\<lambda>(_, expires). expires \<le> now) (mr_multipart_registration_expiry st)))
      in (foldl (\<lambda>st upload_id.
             st\<lparr>mr_multipart_registration_expiry := hm_remove upload_id (mr_multipart_registration_expiry st),
                mr_multipart_activities := hm_remove upload_id (mr_multipart_activities st)\<rparr>) st expired,
          Inr (of_nat (length expired))))"

definition finish_multipart_activity :: "string \<Rightarrow> string \<Rightarrow> u64 \<Rightarrow> managed_state \<Rightarrow> unit managed_result" where
  "finish_multipart_activity upload_id tenant_id epoch st =
     (if hm_get (mr_multipart_activities st) upload_id = Some (tenant_id, epoch)
      then (st\<lparr>mr_multipart_activities := hm_remove upload_id (mr_multipart_activities st),
               mr_confirmed_multipart_activities := removeAll upload_id (mr_confirmed_multipart_activities st),
               mr_multipart_registration_expiry := hm_remove upload_id (mr_multipart_registration_expiry st)\<rparr>, Inr ())
      else (st, Inr ()))"

section \<open>Authorities\<close>

definition any_authority :: "managed_state \<Rightarrow> bool" where
  "any_authority st \<longleftrightarrow> mr_authorities st \<noteq> []"

definition get_authority :: "logical_object_key \<Rightarrow> managed_state \<Rightarrow> managed_error + object_authority option" where
  "get_authority logical st =
     (if namespace_fenced st (lk_tenant_id logical) then Inl NamespaceFenced
      else Inr (hm_get (mr_authorities st) logical))"

definition publish ::
  "managed_env \<Rightarrow> object_authority \<Rightarrow> u64 option \<Rightarrow> managed_state \<Rightarrow> object_authority managed_result" where
  "publish env authority expected_cas st =
     (let tenant_id = lk_tenant_id (oa_logical authority);
          existing = hm_get (mr_authorities st) (oa_logical authority)
      in if namespace_fenced st tenant_id then (st, Inl NamespaceFenced)
         else if map_option oa_cas_version existing \<noteq> expected_cas then (st, Inl ManagedConflict)
         else let now = me_clock env 0;
                  authority = authority
                    \<lparr>oa_cas_version := saturating_add (case expected_cas of Some cas \<Rightarrow> cas | None \<Rightarrow> 0) 1,
                     oa_created_at_ms := (case existing of Some a \<Rightarrow> oa_created_at_ms a | None \<Rightarrow> now),
                     oa_updated_at_ms := now\<rparr>;
                  st = enter_namespace_epoch tenant_id st;
                  epoch = namespace_epoch st tenant_id;
                  st = st\<lparr>mr_authorities := hm_insert (oa_logical authority) authority (mr_authorities st)\<rparr>
              in (schedule_publication env epoch existing authority st, Inr authority))"

definition record_placement_policy :: "managed_placement_policy \<Rightarrow> managed_state \<Rightarrow> bool managed_result" where
  "record_placement_policy policy st =
     (case hm_get (mr_placement_policy_fingerprints st) (pp_version policy) of
        Some existing \<Rightarrow> (st, Inr (existing = pp_fingerprint policy))
      | None \<Rightarrow>
          (st\<lparr>mr_placement_policy_fingerprints :=
                hm_insert (pp_version policy) (pp_fingerprint policy) (mr_placement_policy_fingerprints st)\<rparr>,
           Inr True))"

definition locations_match :: "object_authority \<Rightarrow> placement \<Rightarrow> bool" where
  "locations_match authority placement \<longleftrightarrow>
     oa_primary_backend_id authority = pc_primary_backend_id placement
     \<and> oa_primary_status authority = Ready
     \<and> (case pc_replica_backend_id placement of
          Some replica \<Rightarrow> oa_replica_backend_id authority = Some replica \<and> oa_replica_status authority = Ready
        | None \<Rightarrow> oa_replica_backend_id authority = None \<and> oa_replica_status authority = Absent)"

definition advance_placement_version ::
  "managed_env \<Rightarrow> logical_object_key \<Rightarrow> u64 \<Rightarrow> placement \<Rightarrow> managed_state \<Rightarrow> object_authority managed_result" where
  "advance_placement_version env logical expected_cas placement st =
     (if namespace_fenced st (lk_tenant_id logical) then (st, Inl NamespaceFenced)
      else case hm_get (mr_authorities st) logical of
             None \<Rightarrow> (st, Inl ManagedConflict)
           | Some authority \<Rightarrow>
               if oa_tombstone authority \<or> oa_cas_version authority \<noteq> expected_cas
                  \<or> pc_version placement \<le> oa_placement_version authority
                  \<or> \<not> locations_match authority placement
               then (st, Inl ManagedConflict)
               else let authority = authority\<lparr>oa_placement_version := pc_version placement,
                          oa_cas_version := saturating_add (oa_cas_version authority) 1,
                          oa_updated_at_ms := me_clock env 0\<rparr>
                    in (st\<lparr>mr_authorities := hm_insert logical authority (mr_authorities st)\<rparr>, Inr authority))"

definition tombstone ::
  "managed_env \<Rightarrow> managed_env \<Rightarrow> logical_object_key \<Rightarrow> u64 option \<Rightarrow> placement \<Rightarrow> managed_state
     \<Rightarrow> object_authority managed_result" where
  "tombstone env env' logical expected_cas placement st =
     (let now = me_clock env 0
      in publish env'
           \<lparr> oa_logical = logical, oa_generation = me_fresh env 0, oa_digest = [], oa_size = 0, oa_metadata = [],
             oa_placement_version = pc_version placement, oa_primary_backend_id = pc_primary_backend_id placement,
             oa_primary_version_id = None, oa_replica_backend_id = pc_replica_backend_id placement,
             oa_primary_status = Absent, oa_replica_status = Absent, oa_tombstone = True, oa_cas_version = 0,
             oa_created_at_ms = now, oa_updated_at_ms = now \<rparr>
           expected_cas st)"

section \<open>Repairs\<close>

definition enqueue :: "managed_env \<Rightarrow> repair_record \<Rightarrow> managed_state \<Rightarrow> unit managed_result" where
  "enqueue env repair st =
     (let tenant_id = lk_tenant_id (rr_logical repair)
      in if namespace_fenced st tenant_id then (st, Inl NamespaceFenced)
         else let st = enter_namespace_epoch tenant_id st;
                  current_epoch = namespace_epoch st tenant_id;
                  targets = filter (\<lambda>target. vt_tenant_id target = tenant_id
                      \<and> vt_backend_id target = rr_target_backend_id repair
                      \<and> vt_physical_key target = rr_physical_key repair) (mr_versions st);
                  inserted = insert_memory_repair (me_clock env 0) (repair\<lparr>rr_namespace_epoch := current_epoch\<rparr>) st
              in if rr_kind repair = DeleteGeneration
                 then if targets = [] then (st, Inr ())
                      else if list_ex (\<lambda>target. vt_namespace_epoch target \<noteq> current_epoch) targets
                      then (st, Inl ManagedConflict) else (inserted, Inr ())
                 else (case hm_get (mr_authorities st) (rr_logical repair) of
                         None \<Rightarrow> (st, Inl ManagedConflict)
                       | Some authority \<Rightarrow>
                           if oa_generation authority \<noteq> rr_generation repair
                              \<or> oa_cas_version authority \<noteq> rr_authority_cas_version repair
                           then (st, Inl ManagedConflict) else (inserted, Inr ())))"

definition repair_claimable :: "i64 \<Rightarrow> managed_state \<Rightarrow> repair_record \<times> string \<Rightarrow> bool" where
  "repair_claimable now st entry \<longleftrightarrow>
     (let (repair, status) = entry
      in \<not> namespace_fenced st (lk_tenant_id (rr_logical repair))
         \<and> namespace_epoch st (lk_tenant_id (rr_logical repair)) = rr_namespace_epoch repair
         \<and> (status = ''PENDING''
            \<or> (status = ''LEASED''
               \<and> (case rr_lease_expires_at_ms repair of Some expiry \<Rightarrow> expiry \<le> now | None \<Rightarrow> False)))
         \<and> rr_not_before_ms repair \<le> now
         \<and> \<not> (rr_kind repair = DeleteGeneration
              \<and> (case hm_get (mr_authorities st) (rr_logical repair) of
                   Some authority \<Rightarrow> repair_target_is_authoritative authority repair | None \<Rightarrow> False)))"

definition lease_repair :: "i64 \<Rightarrow> string \<Rightarrow> i64 \<Rightarrow> uuid \<Rightarrow> repair_record \<Rightarrow> repair_record" where
  "lease_repair now owner lease_until_ms lease_token repair =
     repair\<lparr>rr_id := lease_token, rr_lease_owner := Some owner, rr_lease_token := Some lease_token,
       rr_lease_expires_at_ms := Some lease_until_ms, rr_updated_at_ms := now\<rparr>"

fun lease_repairs ::
  "(nat \<Rightarrow> uuid) \<Rightarrow> i64 \<Rightarrow> string \<Rightarrow> i64 \<Rightarrow> (uuid \<times> repair_record \<times> string) list \<Rightarrow> managed_state
     \<Rightarrow> managed_state \<times> repair_record list" where
  "lease_repairs tokens now owner lease_until_ms [] st = (st, [])"
| "lease_repairs tokens now owner lease_until_ms ((k, repair, _) # candidates) st =
     (let repair = lease_repair now owner lease_until_ms (tokens 0) repair;
          rest = lease_repairs (\<lambda>i. tokens (Suc i)) now owner lease_until_ms candidates
            (st\<lparr>mr_repairs := hm_insert k (repair, ''LEASED'') (mr_repairs st)\<rparr>)
      in (fst rest, repair # snd rest))"

definition claim_repairs ::
  "managed_env \<Rightarrow> string \<Rightarrow> i64 \<Rightarrow> u64 \<Rightarrow> managed_state \<Rightarrow> repair_record list managed_result" where
  "claim_repairs env owner lease_until_ms limit st =
     (let now = me_clock env 0;
          candidates = sort_key (\<lambda>(_, repair, _). rr_updated_at_ms repair)
            (filter (\<lambda>(_, entry). repair_claimable now st entry) (mr_repairs st));
          claimed = lease_repairs (me_fresh env) now owner lease_until_ms (take (unat limit) candidates) st
      in (fst claimed, Inr (snd claimed)))"

definition find_lease :: "uuid \<Rightarrow> managed_state \<Rightarrow> (uuid \<times> repair_record \<times> string) option" where
  "find_lease lease_token st = find (\<lambda>(_, repair, _). rr_lease_token repair = Some lease_token) (mr_repairs st)"

definition repair_lease_lapsed :: "i64 \<Rightarrow> repair_record \<Rightarrow> string \<Rightarrow> bool" where
  "repair_lease_lapsed now repair status \<longleftrightarrow>
     status \<noteq> ''LEASED''
     \<or> (case rr_lease_expires_at_ms repair of None \<Rightarrow> True | Some expiry \<Rightarrow> expiry \<le> now)"

definition renew_repair :: "managed_env \<Rightarrow> uuid \<Rightarrow> i64 \<Rightarrow> managed_state \<Rightarrow> unit managed_result" where
  "renew_repair env lease_token lease_until_ms st =
     (let now = me_clock env 0
      in case find_lease lease_token st of
           None \<Rightarrow> (st, Inl ManagedConflict)
         | Some (k, repair, status) \<Rightarrow>
             if repair_lease_lapsed now repair status then (st, Inl ManagedConflict)
             else (st\<lparr>mr_repairs := hm_insert k
                        (repair\<lparr>rr_lease_expires_at_ms := Some lease_until_ms, rr_updated_at_ms := now\<rparr>, status)
                        (mr_repairs st)\<rparr>, Inr ()))"

definition fail_repair :: "managed_env \<Rightarrow> uuid \<Rightarrow> managed_state \<Rightarrow> unit managed_result" where
  "fail_repair env lease_token st =
     (let now = me_clock env 0
      in case find_lease lease_token st of
           None \<Rightarrow> (st, Inl ManagedConflict)
         | Some (k, repair, status) \<Rightarrow>
             if repair_lease_lapsed now repair status then (st, Inl ManagedConflict)
             else let attempts = saturating_add (rr_attempts repair) 1;
                      repair = repair\<lparr>rr_attempts := attempts, rr_lease_owner := None, rr_lease_token := None,
                        rr_lease_expires_at_ms := None, rr_updated_at_ms := now\<rparr>
                  in (st\<lparr>mr_repairs := hm_insert k
                       (if MAX_REPAIR_ATTEMPTS \<le> attempts then (repair\<lparr>rr_not_before_ms := 0\<rparr>, ''DEAD'')
                        else (repair\<lparr>rr_not_before_ms := i64_saturating_add now (repair_backoff_ms attempts)\<rparr>, ''PENDING''))
                       (mr_repairs st)\<rparr>, Inr ()))"

definition cleanup_in_progress :: "repair_record \<Rightarrow> managed_state \<Rightarrow> bool" where
  "cleanup_in_progress repair st \<longleftrightarrow>
     list_ex (\<lambda>(cleanup, status). rr_kind cleanup = DeleteGeneration \<and> rr_logical cleanup = rr_logical repair
         \<and> rr_generation cleanup = rr_generation repair
         \<and> rr_target_backend_id cleanup = rr_target_backend_id repair \<and> status = ''LEASED'')
       (hm_values (mr_repairs st))"

fun insert_waiting_cleanups :: "repair_record list \<Rightarrow> managed_state \<Rightarrow> managed_state" where
  "insert_waiting_cleanups [] st = st"
| "insert_waiting_cleanups (cleanup # cleanups) st =
     insert_waiting_cleanups cleanups (insert_memory_waiting_placement_cleanup cleanup st)"

definition activate_cleanups :: "repair_record \<Rightarrow> managed_state \<Rightarrow> managed_state" where
  "activate_cleanups repair st =
     st\<lparr>mr_repairs := map (\<lambda>(k, cleanup, status). (k, cleanup,
         if status = ''WAITING_CUTOVER'' \<and> rr_logical cleanup = rr_logical repair
            \<and> rr_generation cleanup = rr_generation repair
            \<and> rr_placement_version cleanup = rr_placement_version repair
         then ''PENDING'' else status)) (mr_repairs st)\<rparr>"

text \<open>The authority that a completed copy still applies to.\<close>

definition repairable_authority :: "repair_record \<Rightarrow> managed_state \<Rightarrow> object_authority option" where
  "repairable_authority repair st =
     (case hm_get (mr_authorities st) (rr_logical repair) of
        Some authority \<Rightarrow>
          if rr_kind repair \<noteq> DeleteGeneration \<and> \<not> cleanup_in_progress repair st
             \<and> oa_generation authority = rr_generation repair
             \<and> oa_cas_version authority = rr_authority_cas_version repair \<and> \<not> oa_tombstone authority
          then Some authority else None
      | None \<Rightarrow> None)"

definition apply_completed_repair ::
  "managed_env \<Rightarrow> repair_record \<Rightarrow> managed_state \<Rightarrow> bool managed_result" where
  "apply_completed_repair env repair st =
     (case repairable_authority repair st of
        None \<Rightarrow> (st, Inr False)
      | Some previous \<Rightarrow>
          (case apply_repair_to_authority previous repair of
             Inl error \<Rightarrow> (st, Inl error)
           | Inr None \<Rightarrow> (st, Inr False)
           | Inr (Some authority) \<Rightarrow>
               let authority = authority\<lparr>oa_cas_version := saturating_add (oa_cas_version authority) 1,
                     oa_updated_at_ms := me_clock env 1\<rparr>;
                   st = st\<lparr>mr_authorities := hm_insert (rr_logical repair) authority (mr_authorities st)\<rparr>;
                   st = (if rr_kind repair = PlacementRepair
                         then insert_waiting_cleanups
                           (map (\<lambda>cleanup. cleanup\<lparr>rr_namespace_epoch := rr_namespace_epoch repair,
                                rr_placement_version := rr_placement_version repair\<rparr>)
                              (placement_cleanup_repairs env 2 previous authority)) st
                         else st)
               in (if rr_kind repair = PlacementRepair \<and> oa_placement_version authority = rr_placement_version repair
                   then activate_cleanups repair st else st, Inr True)))"

text \<open>A copy that found no authority to join is cleaned up again.\<close>

definition queue_stale_cleanup :: "managed_env \<Rightarrow> repair_record \<Rightarrow> bool managed_result \<Rightarrow> bool managed_result" where
  "queue_stale_cleanup env repair applied =
     (let st = fst applied
      in if snd applied = Inr False \<and> rr_kind repair \<noteq> DeleteGeneration
            \<and> (case hm_get (mr_authorities st) (rr_logical repair) of
                 None \<Rightarrow> True
               | Some authority \<Rightarrow> \<not> repair_target_is_authoritative authority repair)
            \<and> repair_has_target st repair
         then (insert_memory_repair (me_clock env 10) (stale_repair_cleanup env 9 repair) st, Inr False)
         else applied)"

definition complete_repair :: "managed_env \<Rightarrow> repair_record \<Rightarrow> managed_state \<Rightarrow> bool managed_result" where
  "complete_repair env repair st =
     (let now = me_clock env 0; tenant_id = lk_tenant_id (rr_logical repair)
      in if rr_lease_token repair \<noteq> Some (rr_id repair)
            \<or> namespace_epoch st tenant_id \<noteq> rr_namespace_epoch repair
         then (st, Inl ManagedConflict)
         else case hm_get (mr_repairs st) (rr_repair_id repair) of
                None \<Rightarrow> (st, Inl ManagedConflict)
              | Some (stored, status) \<Rightarrow>
                  if rr_lease_token stored \<noteq> Some (rr_id repair) \<or> repair_lease_lapsed now stored status
                  then (st, Inl ManagedConflict)
                  else let stored = stored\<lparr>rr_lease_owner := None, rr_lease_token := None,
                             rr_lease_expires_at_ms := None, rr_updated_at_ms := now\<rparr>
                       in if rr_kind repair = DeleteGeneration \<and> repair_has_target st repair
                          then (st\<lparr>mr_repairs := hm_insert (rr_repair_id repair) (stored, ''PENDING'') (mr_repairs st)\<rparr>,
                                Inr False)
                          else queue_stale_cleanup env repair (apply_completed_repair env repair
                            (st\<lparr>mr_repairs := hm_insert (rr_repair_id repair) (stored, ''DONE'') (mr_repairs st)\<rparr>)))"

definition count_repair :: "repair_state_counts \<Rightarrow> repair_record \<times> string \<Rightarrow> repair_state_counts" where
  "count_repair counts entry =
     (if snd entry = ''LEASED'' then counts\<lparr>rs_leased := saturating_add (rs_leased counts) 1\<rparr>
      else if snd entry = ''DEAD'' then counts\<lparr>rs_dead := saturating_add (rs_dead counts) 1\<rparr>
      else counts\<lparr>rs_pending := saturating_add (rs_pending counts) 1\<rparr>)"

definition count_repairs :: "managed_state \<Rightarrow> repair_state_counts" where
  "count_repairs st =
     foldl count_repair \<lparr>rs_pending = 0, rs_leased = 0, rs_dead = 0\<rparr> (hm_values (mr_repairs st))"

end
