(* ===== verification/Managed_Physical.thy ===== *)
theory Managed_Physical
  imports Managed_State
begin

text \<open>
  Physical writes and the purge of a namespace in the in-memory managed
  repository (\<open>managed/memory.rs\<close>, lines 163 to 266 and 2499 to 3100): leased
  write intents, the ledger of the versions they produced, and the purge that
  fences a namespace until nothing physical of it is left.
\<close>

section \<open>Write intents\<close>

definition parent_refuses ::
  "managed_state \<Rightarrow> managed_route_fence \<Rightarrow> physical_write_intent \<Rightarrow> managed_logical_operation \<Rightarrow> bool" where
  "parent_refuses st fence intent parent \<longleftrightarrow>
     lo_state parent \<noteq> LogicalOpen
     \<or> (case li_publication_recipe (lo_intent parent) of
          None \<Rightarrow> True
        | Some recipe \<Rightarrow>
            pr_version recipe \<noteq> MANAGED_PUBLICATION_RECIPE_VERSION
            \<or> pr_placement_version recipe = 0
            \<or> pr_primary_backend_id recipe \<noteq> li_backend_id (lo_intent parent)
            \<or> \<not> recipe_statuses_ok recipe)
     \<or> (case hm_get (mr_workspace_usage st) (wi_tenant_id intent) of
          None \<Rightarrow> True
        | Some usage \<Rightarrow> wu_active_operation_id usage \<noteq> Some (li_operation_id (lo_intent parent)))
     \<or> lk_tenant_id (li_logical (lo_intent parent)) \<noteq> wi_tenant_id intent
     \<or> li_backend_id (lo_intent parent) \<noteq> wi_backend_id intent
     \<or> li_provider_bucket (lo_intent parent) \<noteq> wi_provider_bucket intent
     \<or> li_physical_key (lo_intent parent) \<noteq> wi_physical_key intent
     \<or> \<not> physical_intent_supports_exact_history intent
     \<or> fence \<noteq> li_fence (lo_intent parent)"

definition begin_physical_write ::
  "managed_env \<Rightarrow> physical_write_intent \<Rightarrow> managed_state \<Rightarrow> physical_write_lease managed_result" where
  "begin_physical_write env intent st =
     (let tenant_id = wi_tenant_id intent; intent_id = wi_intent_id intent
      in case validate_physical_intent intent of
           Inl error \<Rightarrow> (st, Inl error)
         | Inr _ \<Rightarrow>
             if namespace_fenced st tenant_id then (st, Inl NamespaceFenced)
             else
               let st = enter_epochs tenant_id st;
                   fence = current_fence st tenant_id;
                   epoch = rf_namespace_epoch fence
               in if (case find (\<lambda>operation. li_primary_child_operation_id (lo_intent operation) = intent_id)
                             (hm_values (mr_logical_operations st)) of
                        Some parent \<Rightarrow> parent_refuses st fence intent parent | None \<Rightarrow> False)
                  then (st, Inl ManagedConflict)
                  else (case hm_get (mr_write_intents st) intent_id of
                          Some existing \<Rightarrow>
                            if existing \<noteq> intent \<or> hm_get (mr_write_epochs st) intent_id \<noteq> Some epoch
                            then (st, Inl (RecoveryBlocked ''physical_intent_mismatch''))
                            else (st, and_then (ok_or ManagedConflict (hm_get (mr_write_tokens st) intent_id)) (\<lambda>token.
                                   Inr \<lparr>wl_intent_id = intent_id, wl_namespace_epoch = epoch,
                                        wl_owner = wi_lease_owner existing, wl_token = token\<rparr>))
                        | None \<Rightarrow>
                            (st\<lparr>mr_write_intents := hm_insert intent_id intent (mr_write_intents st),
                                mr_write_leases := hm_insert intent_id
                                  (i64_saturating_add (me_clock env 0) PHYSICAL_WRITE_LEASE_MS) (mr_write_leases st),
                                mr_write_tokens := hm_insert intent_id (me_fresh env 0) (mr_write_tokens st),
                                mr_write_epochs := hm_insert intent_id epoch (mr_write_epochs st)\<rparr>,
                             Inr \<lparr>wl_intent_id = intent_id, wl_namespace_epoch = epoch,
                                  wl_owner = wi_lease_owner intent, wl_token = me_fresh env 0\<rparr>)))"

definition durable_intent :: "managed_state \<Rightarrow> uuid \<Rightarrow> physical_write_intent \<Rightarrow> durable_physical_write_intent" where
  "durable_intent st intent_id intent =
     (let epoch = (case hm_get (mr_write_epochs st) intent_id of Some epoch \<Rightarrow> epoch | None \<Rightarrow> 1)
      in \<lparr> dw_intent = intent, dw_namespace_epoch = epoch,
           dw_blocked_reason = hm_get (mr_blocked_write_intents st) intent_id,
           dw_lease_expires_at_ms = (case hm_get (mr_write_leases st) intent_id of Some expiry \<Rightarrow> expiry | None \<Rightarrow> 0),
           dw_lease = \<lparr> wl_intent_id = intent_id, wl_namespace_epoch = epoch, wl_owner = wi_lease_owner intent,
             wl_token = (case hm_get (mr_write_tokens st) intent_id of Some token \<Rightarrow> token | None \<Rightarrow> 0) \<rparr> \<rparr>)"

definition pending_physical_write_intents :: "u64 \<Rightarrow> managed_state \<Rightarrow> durable_physical_write_intent list" where
  "pending_physical_write_intents limit st =
     map (\<lambda>intent. durable_intent st (wi_intent_id intent) intent)
       (take (unat limit) (filter (\<lambda>intent. \<not> unresolved_child st (wi_intent_id intent)) (hm_values (mr_write_intents st))))"

definition get_physical_write_intent :: "uuid \<Rightarrow> managed_state \<Rightarrow> durable_physical_write_intent option" where
  "get_physical_write_intent intent_id st = map_option (durable_intent st intent_id) (hm_get (mr_write_intents st) intent_id)"

definition renew_physical_write_intent ::
  "managed_env \<Rightarrow> physical_write_lease \<Rightarrow> i64 \<Rightarrow> managed_state \<Rightarrow> unit managed_result" where
  "renew_physical_write_intent env lease lease_expires_at_ms st =
     (if \<not> owns_intent st lease \<or> \<not> lease_held st (me_clock env 0) lease then (st, Inl ManagedConflict)
      else (st\<lparr>mr_write_leases := hm_insert (wl_intent_id lease) lease_expires_at_ms (mr_write_leases st)\<rparr>, Inr ()))"

definition lease_expired :: "managed_state \<Rightarrow> i64 \<Rightarrow> uuid \<Rightarrow> bool" where
  "lease_expired st now intent_id \<longleftrightarrow>
     (case hm_get (mr_write_leases st) intent_id of None \<Rightarrow> False | Some expires \<Rightarrow> expires \<le> now)"

definition take_over_intent ::
  "uuid \<Rightarrow> string \<Rightarrow> uuid \<Rightarrow> i64 \<Rightarrow> physical_write_intent \<Rightarrow> managed_state \<Rightarrow> managed_state" where
  "take_over_intent intent_id owner token lease_expires_at_ms intent st =
     st\<lparr>mr_write_intents := hm_insert intent_id (intent\<lparr>wi_lease_owner := owner\<rparr>) (mr_write_intents st),
        mr_write_tokens := hm_insert intent_id token (mr_write_tokens st),
        mr_write_leases := hm_insert intent_id lease_expires_at_ms (mr_write_leases st)\<rparr>"

definition claim_expired_physical_write_intent ::
  "managed_env \<Rightarrow> uuid \<Rightarrow> string \<Rightarrow> i64 \<Rightarrow> managed_state \<Rightarrow> physical_write_lease option managed_result" where
  "claim_expired_physical_write_intent env intent_id owner lease_expires_at_ms st =
     (if unresolved_child st intent_id \<or> \<not> lease_expired st (me_clock env 0) intent_id then (st, Inr None)
      else case hm_get (mr_write_epochs st) intent_id of
             None \<Rightarrow> (st, Inl ManagedConflict)
           | Some epoch \<Rightarrow>
               (case hm_get (mr_write_intents st) intent_id of
                  None \<Rightarrow> (st, Inl ManagedConflict)
                | Some intent \<Rightarrow>
                    (take_over_intent intent_id owner (me_fresh env 0) lease_expires_at_ms intent st,
                     Inr (Some \<lparr>wl_intent_id = intent_id, wl_namespace_epoch = epoch, wl_owner = owner,
                                wl_token = me_fresh env 0\<rparr>))))"

definition claim_logical_physical_write_intent ::
  "managed_env \<Rightarrow> managed_recovery_claim \<Rightarrow> i64 \<Rightarrow> managed_state \<Rightarrow> physical_write_lease option managed_result" where
  "claim_logical_physical_write_intent env claim lease_expires_at_ms st =
     (let now = me_clock env 0
      in if lease_expires_at_ms \<le> now then (st, Inl ManagedConflict)
         else case and_then (ok_or ManagedConflict (get_logical st (li_operation_id (lo_intent (rc_operation claim)))))
                     (\<lambda>operation. and_then (validate_recovery_authority operation (Some claim) now) (\<lambda>_. Inr operation)) of
                Inl error \<Rightarrow> (st, Inl error)
              | Inr operation \<Rightarrow>
                  let intent_id = li_primary_child_operation_id (lo_intent operation)
                  in if \<not> lease_expired st now intent_id then (st, Inr None)
                     else case hm_get (mr_write_intents st) intent_id of
                            None \<Rightarrow> (st, Inl ManagedConflict)
                          | Some intent \<Rightarrow>
                              (take_over_intent intent_id (rc_claim_owner claim) (me_fresh env 0) lease_expires_at_ms intent st,
                               Inr (Some \<lparr>wl_intent_id = intent_id,
                                  wl_namespace_epoch = rf_namespace_epoch (li_fence (lo_intent operation)),
                                  wl_owner = rc_claim_owner claim, wl_token = me_fresh env 0\<rparr>)))"

definition commit_physical_write ::
  "managed_env \<Rightarrow> physical_write_lease \<Rightarrow> string list \<Rightarrow> string option \<Rightarrow> managed_state \<Rightarrow> unit managed_result" where
  "commit_physical_write env lease superseded_version_ids version_id st =
     (let intent_id = wl_intent_id lease
      in if [] \<in> set superseded_version_ids \<or> version_id = Some [] then (st, Inl ManagedConflict)
         else if unresolved_child st intent_id then (st, Inl ManagedConflict)
         else if \<not> lease_held st (me_clock env 0) lease then (st, Inl ManagedConflict)
         else (case hm_get (mr_write_intents st) intent_id of
                 None \<Rightarrow> (st, Inl ManagedConflict)
               | Some intent \<Rightarrow>
                   if wi_lease_owner intent \<noteq> wl_owner lease then (st, Inl ManagedConflict)
                   else let st = drop_write_intent intent_id st
                        in (st\<lparr>mr_versions := ledger_versions
                              (map (version_target intent (wl_namespace_epoch lease) intent_id)
                                 (map Some superseded_version_ids @ [version_id])) (mr_versions st)\<rparr>, Inr ())))"

definition abort_physical_write ::
  "managed_env \<Rightarrow> physical_write_lease \<Rightarrow> managed_state \<Rightarrow> unit managed_result" where
  "abort_physical_write env lease st =
     (if unresolved_child st (wl_intent_id lease) \<or> \<not> lease_held st (me_clock env 0) lease then (st, Inl ManagedConflict)
      else (drop_write_intent (wl_intent_id lease) st, Inr ()))"

definition block_physical_write ::
  "managed_env \<Rightarrow> physical_write_lease \<Rightarrow> string \<Rightarrow> managed_state \<Rightarrow> unit managed_result" where
  "block_physical_write env lease reason st =
     (if \<not> lease_held st (me_clock env 0) lease then (st, Inl ManagedConflict)
      else (st\<lparr>mr_blocked_write_intents := hm_insert (wl_intent_id lease) reason (mr_blocked_write_intents st)\<rparr>, Inr ()))"

section \<open>The version ledger\<close>

definition physical_versions :: "string \<Rightarrow> string \<Rightarrow> string \<Rightarrow> string \<Rightarrow> managed_state \<Rightarrow> physical_version_target list" where
  "physical_versions tenant_id backend_id provider_bucket physical_key st =
     filter (\<lambda>target. vt_tenant_id target = tenant_id \<and> vt_backend_id target = backend_id
       \<and> vt_provider_bucket target = provider_bucket \<and> vt_physical_key target = physical_key) (mr_versions st)"

definition forget_physical_version ::
  "managed_env \<Rightarrow> physical_version_target \<Rightarrow> managed_state \<Rightarrow> unit managed_result" where
  "forget_physical_version env target st =
     (let previous = mr_versions st;
          versions = filter (\<lambda>candidate. candidate \<noteq> target) previous;
          st = st\<lparr>mr_versions := versions\<rparr>
      in if length versions = length previous
            \<or> list_ex (\<lambda>candidate. vt_write_operation_id candidate = vt_write_operation_id target) versions
         then (st, Inr ())
         else (case find (\<lambda>(_, operation). li_primary_child_operation_id (lo_intent operation) = vt_write_operation_id target)
                      (mr_logical_operations st) of
                 None \<Rightarrow> (st, Inr ())
               | Some (operation_id, operation) \<Rightarrow>
                   let tenant_id = lk_tenant_id (li_logical (lo_intent operation));
                       committed = lo_committed_physical_bytes operation
                   in case checked_sub committed (lo_released_physical_bytes operation) of
                        None \<Rightarrow> (st, Inl (ManagedCorrupt ''managed operation released bytes exceed committed bytes''))
                      | Some released \<Rightarrow>
                          if released = 0 then (st, Inr ())
                          else let usage = usage_in (me_clock env 0) tenant_id st;
                                   st = enter_usage (me_clock env 0) tenant_id st
                               in case checked_sub (wu_physical_allocated_bytes usage) released of
                                    None \<Rightarrow> (st, Inl (ManagedCorrupt ''managed physical usage is below the child allocation''))
                                  | Some allocated \<Rightarrow>
                                      let now = me_clock env 1;
                                          usage = touch_usage now (usage\<lparr>wu_physical_allocated_bytes := allocated\<rparr>);
                                          operation = operation\<lparr>lo_released_physical_bytes := committed,
                                            lo_updated_at_ms := now\<rparr>
                                      in (set_logical operation_id operation (set_usage tenant_id usage st), Inr ())))"

section \<open>Purging a namespace\<close>

definition set_purge_status :: "uuid \<Rightarrow> namespace_purge_status \<Rightarrow> managed_state \<Rightarrow> managed_state" where
  "set_purge_status operation_id status st =
     (case hm_get (mr_purges st) operation_id of
        Some purge \<Rightarrow> st\<lparr>mr_purges := hm_insert operation_id (purge\<lparr>mp_status := status\<rparr>) (mr_purges st)\<rparr>
      | None \<Rightarrow> st)"

definition blocked_reason_of :: "string \<Rightarrow> managed_state \<Rightarrow> string option" where
  "blocked_reason_of tenant_id st =
     map_option snd (find (\<lambda>(intent_id, _). case hm_get (mr_write_intents st) intent_id of
         Some intent \<Rightarrow> wi_tenant_id intent = tenant_id | None \<Rightarrow> False) (mr_blocked_write_intents st))"

definition physical_residue :: "string \<Rightarrow> managed_state \<Rightarrow> bool" where
  "physical_residue tenant_id st \<longleftrightarrow>
     list_ex (\<lambda>intent. wi_tenant_id intent = tenant_id) (hm_values (mr_write_intents st))
     \<or> list_ex (\<lambda>target. vt_tenant_id target = tenant_id) (mr_versions st)
     \<or> list_ex (\<lambda>(tenant, _). tenant = tenant_id) (hm_values (mr_multipart_activities st))"

definition erase_namespace :: "i64 \<Rightarrow> string \<Rightarrow> managed_state \<Rightarrow> managed_state" where
  "erase_namespace now tenant_id st =
     (let cursors = hm_retain (\<lambda>_ cursor. cb_tenant_id (mc_binding cursor) \<noteq> tenant_id) (mr_list_cursors st);
          live_cursor_ids = map fst cursors
      in st\<lparr> mr_authorities := hm_retain (\<lambda>logical _. lk_tenant_id logical \<noteq> tenant_id) (mr_authorities st),
             mr_repairs := hm_retain (\<lambda>_ (repair, _). lk_tenant_id (rr_logical repair) \<noteq> tenant_id) (mr_repairs st),
             mr_logical_operations := map (\<lambda>(k, operation). (k,
               if lk_tenant_id (li_logical (lo_intent operation)) = tenant_id
               then operation\<lparr>lo_released_physical_bytes := lo_committed_physical_bytes operation,
                      lo_updated_at_ms := now\<rparr>
               else operation)) (mr_logical_operations st),
             mr_workspace_usage := (case hm_get (mr_workspace_usage st) tenant_id of
               Some usage \<Rightarrow> hm_insert tenant_id
                 (touch_usage now (usage\<lparr>wu_visible_logical_bytes := 0, wu_physical_allocated_bytes := 0,
                    wu_reserved_bytes := 0, wu_active_operation_id := None\<rparr>)) (mr_workspace_usage st)
             | None \<Rightarrow> mr_workspace_usage st),
             mr_list_cursors := cursors,
             mr_list_cursor_successors := hm_retain (\<lambda>predecessor successor.
               predecessor \<in> set live_cursor_ids \<and> successor \<in> set live_cursor_ids) (mr_list_cursor_successors st),
             mr_fenced_namespaces := hm_remove tenant_id (mr_fenced_namespaces st),
             mr_namespace_epochs := hm_insert tenant_id (namespace_epoch st tenant_id + 1) (mr_namespace_epochs st),
             mr_routing_epochs := hm_insert tenant_id (routing_epoch st tenant_id + 1) (mr_routing_epochs st) \<rparr>)"

definition finish_purge :: "managed_env \<Rightarrow> uuid \<Rightarrow> managed_state \<Rightarrow> managed_state \<times> namespace_purge_status" where
  "finish_purge env operation_id st =
     (case hm_get (mr_purges st) operation_id of
        None \<Rightarrow> (st, PurgeBlocked ''managed namespace purge operation was not found'')
      | Some purge \<Rightarrow>
          let tenant_id = mp_tenant_id purge
          in case mp_status purge of
               PurgeComplete deleted \<Rightarrow> (st, PurgeComplete deleted)
             | _ \<Rightarrow>
                 (case blocked_reason_of tenant_id st of
                    Some reason \<Rightarrow> (set_purge_status operation_id (PurgeBlocked reason) st, PurgeBlocked reason)
                  | None \<Rightarrow>
                      if list_ex (\<lambda>operation. lk_tenant_id (li_logical (lo_intent operation)) = tenant_id
                              \<and> \<not> logical_terminal (lo_state operation)) (hm_values (mr_logical_operations st))
                      then let blocked = PurgeBlocked ''managed namespace has unresolved logical operations''
                           in (set_purge_status operation_id blocked st, blocked)
                      else if physical_residue tenant_id st then (st, mp_status purge)
                      else let complete = PurgeComplete (mp_deleted_versions purge)
                           in (set_purge_status operation_id complete (erase_namespace (me_clock env 0) tenant_id st),
                               complete)))"

definition unledgered_backend :: "managed_env \<Rightarrow> string \<Rightarrow> managed_state \<Rightarrow> string option" where
  "unledgered_backend env tenant_id st =
     find (\<lambda>_. True) (concat (map (\<lambda>authority.
         filter (\<lambda>backend_id. \<not> list_ex (\<lambda>target. vt_tenant_id target = tenant_id \<and> vt_backend_id target = backend_id
               \<and> vt_physical_key target
                 = generation_physical_key env (oa_logical authority) (oa_generation authority)) (mr_versions st))
           (oa_primary_backend_id authority
            # (case oa_replica_backend_id authority of
                 Some replica \<Rightarrow> if oa_replica_status authority = Ready then [replica] else []
               | None \<Rightarrow> [])))
       (filter (\<lambda>authority. lk_tenant_id (oa_logical authority) = tenant_id \<and> \<not> oa_tombstone authority)
          (hm_values (mr_authorities st)))))"

definition purge_namespace ::
  "managed_env \<Rightarrow> namespace_purge_request \<Rightarrow> managed_state \<Rightarrow> managed_state \<times> namespace_purge_status" where
  "purge_namespace env request st =
     (let tenant_id = np_tenant_id request; operation_id = np_operation_id request
      in case hm_get (mr_purges st) operation_id of
           Some purge \<Rightarrow>
             if mp_tenant_id purge \<noteq> tenant_id
             then (st, PurgeBlocked ''purge operation belongs to another namespace'')
             else finish_purge env operation_id st
         | None \<Rightarrow>
             if namespace_fenced st tenant_id
             then (st, PurgeBlocked ''another managed namespace purge is already running'')
             else (case unledgered_backend env tenant_id st of
                     Some backend_id \<Rightarrow>
                       (st, PurgeBlocked (''managed authority references unledgered physical versions on backend '' @ backend_id))
                   | None \<Rightarrow>
                       finish_purge env operation_id
                         (st\<lparr>mr_fenced_namespaces := hm_insert tenant_id operation_id (mr_fenced_namespaces st),
                             mr_purges := hm_insert operation_id
                               \<lparr>mp_tenant_id = tenant_id, mp_status = PurgeRunning, mp_deleted_versions = 0\<rparr>
                               (mr_purges st)\<rparr>)))"

definition get_purge_status ::
  "managed_env \<Rightarrow> namespace_purge_request \<Rightarrow> managed_state \<Rightarrow> managed_state \<times> namespace_purge_status" where
  "get_purge_status env request st = finish_purge env (np_operation_id request) st"

definition purge_targets ::
  "namespace_purge_request \<Rightarrow> u64 \<Rightarrow> managed_state \<Rightarrow> managed_error + physical_version_target list" where
  "purge_targets request limit st =
     (case hm_get (mr_purges st) (np_operation_id request) of
        None \<Rightarrow> Inl ManagedConflict
      | Some purge \<Rightarrow>
          if mp_tenant_id purge \<noteq> np_tenant_id request then Inl ManagedConflict
          else Inr (take (unat limit) (filter (\<lambda>target. vt_tenant_id target = np_tenant_id request) (mr_versions st))))"

definition mark_purge_target_deleted ::
  "namespace_purge_request \<Rightarrow> physical_version_target \<Rightarrow> managed_state \<Rightarrow> managed_state" where
  "mark_purge_target_deleted request target st =
     (let before = mr_versions st;
          versions = filter (\<lambda>candidate. candidate \<noteq> target) before;
          st = st\<lparr>mr_versions := versions\<rparr>
      in if length versions = length before then st
         else case hm_get (mr_purges st) (np_operation_id request) of
                None \<Rightarrow> st
              | Some purge \<Rightarrow>
                  st\<lparr>mr_purges := hm_insert (np_operation_id request)
                       (purge\<lparr>mp_deleted_versions := saturating_add (mp_deleted_versions purge) 1,
                          mp_status := PurgeRunning\<rparr>) (mr_purges st)\<rparr>)"

definition mark_purge_target_blocked :: "namespace_purge_request \<Rightarrow> string \<Rightarrow> managed_state \<Rightarrow> managed_state" where
  "mark_purge_target_blocked request reason st =
     set_purge_status (np_operation_id request) (PurgeBlocked reason) st"

end
