(* ===== verification/Managed_Machine.thy ===== *)
theory Managed_Machine
  imports Managed_Logical Managed_Objects Managed_Physical
begin

text \<open>
  The in-memory managed repository as a state machine: one call under the
  lock is one step, and the states reachable from the empty repository are
  those that any interleaving of callers can produce. The theory also collects
  what each operation leaves alone (\<open>managed_frame\<close>), which the invariants
  of the later theories start from.
\<close>

named_theorems managed_frame \<open>parts of the repository that a helper leaves alone\<close>

datatype logical_call =
    RouteFence string
  | AdvanceRoutingEpoch string u64
  | InsertLogicalOperation managed_logical_operation_intent
  | MarkLogicalOperationSettled uuid uuid
  | DeferDeleteSettlement uuid uuid
  | ClaimStaleLogicalOperations string i64 i64 u64
  | MarkLogicalRecoveryBlocked managed_recovery_claim string
  | RenewLogicalRecoveryClaim managed_recovery_claim i64
  | ReserveLogicalOperation uuid u64
  | ReadAvailableCapacity string
  | RecordLogicalUsage uuid managed_usage_evidence
  | FinalizeLogicalPut uuid physical_write_lease exact_physical_commit "managed_recovery_claim option"
  | CommitLogicalDelete uuid placement
  | CommitAtomicLogicalDelete managed_delete_request
  | TransitionLogicalOperation uuid managed_logical_operation_state managed_logical_operation_state "string option"
  | RecordLogicalUsageAndBeginCompletion uuid managed_usage_evidence
  | ProveLogicalAbort uuid string "managed_proven_physical_allocation option"
  | AbortLogicalPut uuid "physical_write_lease option" logical_abort_proof string "managed_recovery_claim option"

datatype object_call =
    CreateListCursor managed_list_cursor_request i64
  | CreateListCursorSuccessor uuid managed_list_cursor_request i64
  | UseListCursor uuid managed_list_cursor_binding i64
  | DeleteListCursor uuid
  | CleanupExpiredListCursors i64 u64
  | BeginMultipartActivity string string
  | ConfirmMultipartActivity string string u64
  | ReconcileMultipartActivities u64
  | FinishMultipartActivity string string u64
  | Publish object_authority "u64 option"
  | RecordPlacementPolicy managed_placement_policy
  | AdvancePlacementVersion logical_object_key u64 placement
  | Enqueue repair_record
  | ClaimRepairs string i64 u64
  | RenewRepair uuid i64
  | CompleteRepair repair_record
  | FailRepair uuid

datatype physical_call =
    BeginPhysicalWrite physical_write_intent
  | RenewPhysicalWriteIntent physical_write_lease i64
  | ClaimExpiredPhysicalWriteIntent uuid string i64
  | ClaimLogicalPhysicalWriteIntent managed_recovery_claim i64
  | CommitPhysicalWrite physical_write_lease "string list" "string option"
  | AbortPhysicalWrite physical_write_lease
  | BlockPhysicalWrite physical_write_lease string
  | ForgetPhysicalVersion physical_version_target
  | PurgeNamespace namespace_purge_request
  | NamespacePurgeStatus namespace_purge_request
  | MarkPurgeTargetDeleted namespace_purge_request physical_version_target
  | MarkPurgeTargetBlocked namespace_purge_request string

datatype managed_call = LogicalCall logical_call | ObjectCall object_call | PhysicalCall physical_call

text \<open>
  \<open>ReadAvailableCapacity\<close> is the middle section of \<open>admit_logical_operation\<close>,
  whose other two sections are the insertion and the reservation; a tombstone
  is the publication of its authority. Calls that only read are not listed.
\<close>

fun logical_step :: "managed_env \<Rightarrow> logical_call \<Rightarrow> managed_state \<Rightarrow> managed_state" where
  "logical_step env (RouteFence t) st = fst (route_fence t st)"
| "logical_step env (AdvanceRoutingEpoch t e) st = fst (advance_routing_epoch t e st)"
| "logical_step env (InsertLogicalOperation i) st = fst (insert_logical_operation env i st)"
| "logical_step env (MarkLogicalOperationSettled i r) st = fst (mark_logical_operation_settled env i r st)"
| "logical_step env (DeferDeleteSettlement i r) st = fst (defer_delete_settlement env i r st)"
| "logical_step env (ClaimStaleLogicalOperations w s e l) st = fst (claim_stale_logical_operations env w s e l st)"
| "logical_step env (MarkLogicalRecoveryBlocked c r) st = fst (mark_logical_recovery_blocked env c r st)"
| "logical_step env (RenewLogicalRecoveryClaim c e) st = fst (renew_logical_recovery_claim env c e st)"
| "logical_step env (ReserveLogicalOperation i b) st = fst (reserve_logical_operation env i b st)"
| "logical_step env (ReadAvailableCapacity t) st = enter_usage (me_clock env 0) t st"
| "logical_step env (RecordLogicalUsage i e) st = fst (record_logical_usage env i e st)"
| "logical_step env (FinalizeLogicalPut i l r c) st = fst (finalize_logical_put env i l r c st)"
| "logical_step env (CommitLogicalDelete i p) st = fst (commit_logical_delete env i p st)"
| "logical_step env (CommitAtomicLogicalDelete q) st = fst (commit_atomic_logical_delete env q st)"
| "logical_step env (TransitionLogicalOperation i f t e) st = fst (transition_logical_operation env i f t e st)"
| "logical_step env (RecordLogicalUsageAndBeginCompletion i e) st = fst (record_logical_usage_and_begin_completion env i e st)"
| "logical_step env (ProveLogicalAbort i e p) st = fst (prove_logical_abort env i e p st)"
| "logical_step env (AbortLogicalPut i l p e c) st = fst (abort_logical_put env i l p e c st)"

fun object_step :: "managed_env \<Rightarrow> object_call \<Rightarrow> managed_state \<Rightarrow> managed_state" where
  "object_step env (CreateListCursor q n) st = fst (create_list_cursor env q n st)"
| "object_step env (CreateListCursorSuccessor i q n) st = fst (create_list_cursor_successor env i q n st)"
| "object_step env (UseListCursor i b n) st = fst (use_list_cursor i b n st)"
| "object_step env (DeleteListCursor i) st = fst (delete_list_cursor i st)"
| "object_step env (CleanupExpiredListCursors n l) st = fst (cleanup_expired_list_cursors n l st)"
| "object_step env (BeginMultipartActivity u t) st = fst (begin_multipart_activity env u t st)"
| "object_step env (ConfirmMultipartActivity u t e) st = fst (confirm_multipart_activity u t e st)"
| "object_step env (ReconcileMultipartActivities l) st = fst (reconcile_multipart_activities env l st)"
| "object_step env (FinishMultipartActivity u t e) st = fst (finish_multipart_activity u t e st)"
| "object_step env (Publish a c) st = fst (publish env a c st)"
| "object_step env (RecordPlacementPolicy p) st = fst (record_placement_policy p st)"
| "object_step env (AdvancePlacementVersion k c p) st = fst (advance_placement_version env k c p st)"
| "object_step env (Enqueue r) st = fst (enqueue env r st)"
| "object_step env (ClaimRepairs w u l) st = fst (claim_repairs env w u l st)"
| "object_step env (RenewRepair t u) st = fst (renew_repair env t u st)"
| "object_step env (CompleteRepair r) st = fst (complete_repair env r st)"
| "object_step env (FailRepair t) st = fst (fail_repair env t st)"

fun physical_step :: "managed_env \<Rightarrow> physical_call \<Rightarrow> managed_state \<Rightarrow> managed_state" where
  "physical_step env (BeginPhysicalWrite i) st = fst (begin_physical_write env i st)"
| "physical_step env (RenewPhysicalWriteIntent l e) st = fst (renew_physical_write_intent env l e st)"
| "physical_step env (ClaimExpiredPhysicalWriteIntent i w e) st = fst (claim_expired_physical_write_intent env i w e st)"
| "physical_step env (ClaimLogicalPhysicalWriteIntent c e) st = fst (claim_logical_physical_write_intent env c e st)"
| "physical_step env (CommitPhysicalWrite l s v) st = fst (commit_physical_write env l s v st)"
| "physical_step env (AbortPhysicalWrite l) st = fst (abort_physical_write env l st)"
| "physical_step env (BlockPhysicalWrite l r) st = fst (block_physical_write env l r st)"
| "physical_step env (ForgetPhysicalVersion t) st = fst (forget_physical_version env t st)"
| "physical_step env (PurgeNamespace q) st = fst (purge_namespace env q st)"
| "physical_step env (NamespacePurgeStatus q) st = fst (get_purge_status env q st)"
| "physical_step env (MarkPurgeTargetDeleted q t) st = mark_purge_target_deleted q t st"
| "physical_step env (MarkPurgeTargetBlocked q r) st = mark_purge_target_blocked q r st"

fun managed_step :: "managed_env \<Rightarrow> managed_call \<Rightarrow> managed_state \<Rightarrow> managed_state" where
  "managed_step env (LogicalCall call) st = logical_step env call st"
| "managed_step env (ObjectCall call) st = object_step env call st"
| "managed_step env (PhysicalCall call) st = physical_step env call st"

inductive managed_reachable :: "(managed_call \<Rightarrow> bool) \<Rightarrow> managed_state \<Rightarrow> bool" for admitted where
  initial: "managed_reachable admitted managed_state_default"
| step: "managed_reachable admitted st \<Longrightarrow> admitted call \<Longrightarrow> managed_reachable admitted (managed_step env call st)"

section \<open>What the helpers leave alone\<close>

text \<open>The accounts: operations, usage rows and authorities.\<close>

definition same_books :: "managed_state \<Rightarrow> managed_state \<Rightarrow> bool" where
  "same_books st st' \<longleftrightarrow>
     mr_logical_operations st' = mr_logical_operations st \<and> mr_workspace_usage st' = mr_workspace_usage st"

lemma same_books_refl [simp]: "same_books st st"
  by (simp add: same_books_def)

lemma same_books_trans: "same_books st st' \<Longrightarrow> same_books st' st'' \<Longrightarrow> same_books st st''"
  by (simp add: same_books_def)

lemma insert_memory_repair_frame [managed_frame]:
  "mr_logical_operations (insert_memory_repair n r st) = mr_logical_operations st"
  "mr_workspace_usage (insert_memory_repair n r st) = mr_workspace_usage st"
  "mr_authorities (insert_memory_repair n r st) = mr_authorities st"
  "mr_versions (insert_memory_repair n r st) = mr_versions st"
  "mr_fenced_namespaces (insert_memory_repair n r st) = mr_fenced_namespaces st"
  "mr_namespace_epochs (insert_memory_repair n r st) = mr_namespace_epochs st"
  "mr_routing_epochs (insert_memory_repair n r st) = mr_routing_epochs st"
  "mr_write_intents (insert_memory_repair n r st) = mr_write_intents st"
  "mr_write_leases (insert_memory_repair n r st) = mr_write_leases st"
  "mr_write_tokens (insert_memory_repair n r st) = mr_write_tokens st"
  "mr_write_epochs (insert_memory_repair n r st) = mr_write_epochs st"
  by (simp_all add: insert_memory_repair_def Let_def split: option.split prod.split)

lemma insert_repairs_frame [managed_frame]:
  "mr_logical_operations (insert_repairs c rs st) = mr_logical_operations st"
  "mr_workspace_usage (insert_repairs c rs st) = mr_workspace_usage st"
  "mr_authorities (insert_repairs c rs st) = mr_authorities st"
  "mr_versions (insert_repairs c rs st) = mr_versions st"
  "mr_fenced_namespaces (insert_repairs c rs st) = mr_fenced_namespaces st"
  "mr_namespace_epochs (insert_repairs c rs st) = mr_namespace_epochs st"
  "mr_routing_epochs (insert_repairs c rs st) = mr_routing_epochs st"
  "mr_write_intents (insert_repairs c rs st) = mr_write_intents st"
  "mr_write_leases (insert_repairs c rs st) = mr_write_leases st"
  "mr_write_tokens (insert_repairs c rs st) = mr_write_tokens st"
  "mr_write_epochs (insert_repairs c rs st) = mr_write_epochs st"
  by (induction c rs st rule: insert_repairs.induct) (simp_all add: managed_frame)

lemma insert_cleanups_frame [managed_frame]:
  "mr_logical_operations (insert_cleanups c e rs st) = mr_logical_operations st"
  "mr_workspace_usage (insert_cleanups c e rs st) = mr_workspace_usage st"
  "mr_authorities (insert_cleanups c e rs st) = mr_authorities st"
  "mr_versions (insert_cleanups c e rs st) = mr_versions st"
  "mr_fenced_namespaces (insert_cleanups c e rs st) = mr_fenced_namespaces st"
  "mr_namespace_epochs (insert_cleanups c e rs st) = mr_namespace_epochs st"
  "mr_routing_epochs (insert_cleanups c e rs st) = mr_routing_epochs st"
  "mr_write_intents (insert_cleanups c e rs st) = mr_write_intents st"
  "mr_write_leases (insert_cleanups c e rs st) = mr_write_leases st"
  "mr_write_tokens (insert_cleanups c e rs st) = mr_write_tokens st"
  "mr_write_epochs (insert_cleanups c e rs st) = mr_write_epochs st"
  by (induction c e rs st rule: insert_cleanups.induct) (simp_all add: managed_frame)

lemma schedule_cleanup_frame [managed_frame]:
  "mr_logical_operations (schedule_cleanup env e x st) = mr_logical_operations st"
  "mr_workspace_usage (schedule_cleanup env e x st) = mr_workspace_usage st"
  "mr_authorities (schedule_cleanup env e x st) = mr_authorities st"
  "mr_versions (schedule_cleanup env e x st) = mr_versions st"
  "mr_fenced_namespaces (schedule_cleanup env e x st) = mr_fenced_namespaces st"
  "mr_namespace_epochs (schedule_cleanup env e x st) = mr_namespace_epochs st"
  "mr_routing_epochs (schedule_cleanup env e x st) = mr_routing_epochs st"
  "mr_write_intents (schedule_cleanup env e x st) = mr_write_intents st"
  "mr_write_leases (schedule_cleanup env e x st) = mr_write_leases st"
  "mr_write_tokens (schedule_cleanup env e x st) = mr_write_tokens st"
  "mr_write_epochs (schedule_cleanup env e x st) = mr_write_epochs st"
  by (simp_all add: schedule_cleanup_def managed_frame split: option.split)

lemma schedule_publication_frame [managed_frame]:
  "mr_logical_operations (schedule_publication env e x a st) = mr_logical_operations st"
  "mr_workspace_usage (schedule_publication env e x a st) = mr_workspace_usage st"
  "mr_authorities (schedule_publication env e x a st) = mr_authorities st"
  "mr_versions (schedule_publication env e x a st) = mr_versions st"
  "mr_fenced_namespaces (schedule_publication env e x a st) = mr_fenced_namespaces st"
  "mr_namespace_epochs (schedule_publication env e x a st) = mr_namespace_epochs st"
  "mr_routing_epochs (schedule_publication env e x a st) = mr_routing_epochs st"
  "mr_write_intents (schedule_publication env e x a st) = mr_write_intents st"
  "mr_write_leases (schedule_publication env e x a st) = mr_write_leases st"
  "mr_write_tokens (schedule_publication env e x a st) = mr_write_tokens st"
  "mr_write_epochs (schedule_publication env e x a st) = mr_write_epochs st"
  by (simp_all add: schedule_publication_def managed_frame)

lemma insert_waiting_cleanups_frame [managed_frame]:
  "mr_logical_operations (insert_waiting_cleanups rs st) = mr_logical_operations st"
  "mr_workspace_usage (insert_waiting_cleanups rs st) = mr_workspace_usage st"
  "mr_authorities (insert_waiting_cleanups rs st) = mr_authorities st"
  by (induction rs st rule: insert_waiting_cleanups.induct)
     (simp_all add: insert_memory_waiting_placement_cleanup_def)

lemma lease_repairs_frame [managed_frame]:
  "mr_logical_operations (fst (lease_repairs ts n w u cs st)) = mr_logical_operations st"
  "mr_workspace_usage (fst (lease_repairs ts n w u cs st)) = mr_workspace_usage st"
  "mr_authorities (fst (lease_repairs ts n w u cs st)) = mr_authorities st"
  by (induction ts n w u cs st rule: lease_repairs.induct) (simp_all add: Let_def)

lemma remove_list_cursor_frame [managed_frame]:
  "mr_logical_operations (remove_list_cursor st i) = mr_logical_operations st"
  "mr_workspace_usage (remove_list_cursor st i) = mr_workspace_usage st"
  "mr_authorities (remove_list_cursor st i) = mr_authorities st"
  "mr_repairs (remove_list_cursor st i) = mr_repairs st"
  by (induction st i rule: remove_list_cursor.induct;
      simp add: remove_list_cursor.simps Let_def split: option.split)+

lemma remove_list_cursors_frame [managed_frame]:
  "mr_logical_operations (foldl (\<lambda>st (_, i). remove_list_cursor st i) st xs) = mr_logical_operations st"
  "mr_workspace_usage (foldl (\<lambda>st (_, i). remove_list_cursor st i) st xs) = mr_workspace_usage st"
  "mr_authorities (foldl (\<lambda>st (_, i). remove_list_cursor st i) st xs) = mr_authorities st"
  "mr_repairs (foldl (\<lambda>st (_, i). remove_list_cursor st i) st xs) = mr_repairs st"
  by (induction xs arbitrary: st) (auto simp: managed_frame)

lemma foldl_frame: "(\<And>s x. f (h s x) = f s) \<Longrightarrow> f (foldl h s xs) = f s"
  by (induction xs arbitrary: s) simp_all

lemma epochs_frame [managed_frame]:
  "mr_logical_operations (enter_epochs t st) = mr_logical_operations st"
  "mr_workspace_usage (enter_epochs t st) = mr_workspace_usage st"
  "mr_authorities (enter_epochs t st) = mr_authorities st"
  "mr_repairs (enter_epochs t st) = mr_repairs st"
  "mr_versions (enter_epochs t st) = mr_versions st"
  "mr_logical_operations (enter_namespace_epoch t st) = mr_logical_operations st"
  "mr_workspace_usage (enter_namespace_epoch t st) = mr_workspace_usage st"
  "mr_authorities (enter_namespace_epoch t st) = mr_authorities st"
  "mr_repairs (enter_namespace_epoch t st) = mr_repairs st"
  "mr_versions (enter_namespace_epoch t st) = mr_versions st"
  by (simp_all add: enter_epochs_def enter_namespace_epoch_def)

lemma create_cursor_frame [managed_frame]:
  "mr_logical_operations (fst (create_list_cursor_in_state env q n st)) = mr_logical_operations st"
  "mr_workspace_usage (fst (create_list_cursor_in_state env q n st)) = mr_workspace_usage st"
  "mr_authorities (fst (create_list_cursor_in_state env q n st)) = mr_authorities st"
  "mr_repairs (fst (create_list_cursor_in_state env q n st)) = mr_repairs st"
  by (simp_all add: create_list_cursor_in_state_def Let_def managed_frame split: sum.split)

lemma create_successor_frame [managed_frame]:
  "mr_logical_operations (fst (create_list_cursor_successor env i q n st)) = mr_logical_operations st"
  "mr_workspace_usage (fst (create_list_cursor_successor env i q n st)) = mr_workspace_usage st"
  "mr_authorities (fst (create_list_cursor_successor env i q n st)) = mr_authorities st"
  "mr_repairs (fst (create_list_cursor_successor env i q n st)) = mr_repairs st"
  using create_cursor_frame [of env q n st]
  by (auto simp: create_list_cursor_successor_def split: option.split prod.split sum.split)

lemma multipart_reconcile_frame [managed_frame]:
  "mr_logical_operations (fst (reconcile_multipart_activities env l st)) = mr_logical_operations st"
  "mr_workspace_usage (fst (reconcile_multipart_activities env l st)) = mr_workspace_usage st"
  "mr_authorities (fst (reconcile_multipart_activities env l st)) = mr_authorities st"
  "mr_repairs (fst (reconcile_multipart_activities env l st)) = mr_repairs st"
  unfolding reconcile_multipart_activities_def Let_def fst_conv
  by (rule foldl_frame, simp)+

lemma apply_completed_frame [managed_frame]:
  "mr_logical_operations (fst (apply_completed_repair env r st)) = mr_logical_operations st"
  "mr_workspace_usage (fst (apply_completed_repair env r st)) = mr_workspace_usage st"
  by (simp_all add: apply_completed_repair_def Let_def activate_cleanups_def managed_frame split: option.split sum.split)

lemma queue_stale_frame [managed_frame]:
  "mr_logical_operations (fst (queue_stale_cleanup env r p)) = mr_logical_operations (fst p)"
  "mr_workspace_usage (fst (queue_stale_cleanup env r p)) = mr_workspace_usage (fst p)"
  "mr_authorities (fst (queue_stale_cleanup env r p)) = mr_authorities (fst p)"
  by (simp_all add: queue_stale_cleanup_def Let_def managed_frame)

lemma complete_repair_frame [managed_frame]:
  "mr_logical_operations (fst (complete_repair env r st)) = mr_logical_operations st"
  "mr_workspace_usage (fst (complete_repair env r st)) = mr_workspace_usage st"
  by (simp_all add: complete_repair_def Let_def managed_frame split: option.split prod.split)

lemma object_step_books: "same_books st (object_step env call st)"
  unfolding same_books_def
  by (cases call)
     (simp_all add: managed_frame Let_def create_list_cursor_def use_list_cursor_def delete_list_cursor_def
        cleanup_expired_list_cursors_def begin_multipart_activity_def confirm_multipart_activity_def
        finish_multipart_activity_def publish_def record_placement_policy_def advance_placement_version_def
        enqueue_def claim_repairs_def renew_repair_def fail_repair_def split: option.split prod.split)

fun settles_books :: "physical_call \<Rightarrow> bool" where
  "settles_books (ForgetPhysicalVersion _) = True"
| "settles_books (PurgeNamespace _) = True"
| "settles_books (NamespacePurgeStatus _) = True"
| "settles_books _ = False"

lemma physical_step_books:
  assumes "\<not> settles_books call"
  shows "same_books st (physical_step env call st)"
  unfolding same_books_def using assms
  by (cases call)
     (simp_all add: managed_frame Let_def begin_physical_write_def renew_physical_write_intent_def
        claim_expired_physical_write_intent_def claim_logical_physical_write_intent_def take_over_intent_def
        commit_physical_write_def abort_physical_write_def block_physical_write_def drop_write_intent_def
        mark_purge_target_deleted_def mark_purge_target_blocked_def set_purge_status_def
        split: option.split sum.split)

end
