(* ===== verification/Managed_Books.thy ===== *)
theory Managed_Books
  imports Managed_Machine
begin

text \<open>
  The accounts of the managed repository. In every reachable state the usage
  row of a workspace charges exactly the physical bytes that its operations
  committed and did not release, holds the reservation of the one admitted
  operation and nothing else, and stays within the visible limit and its
  replacement headroom.
\<close>

section \<open>The accounts of a workspace\<close>

abbreviation operation_tenant :: "managed_logical_operation \<Rightarrow> string" where
  "operation_tenant operation \<equiv> lk_tenant_id (li_logical (lo_intent operation))"

definition held_physical :: "string \<Rightarrow> managed_logical_operation \<Rightarrow> nat" where
  "held_physical t operation =
     (if operation_tenant operation = t
      then unat (lo_committed_physical_bytes operation) - unat (lo_released_physical_bytes operation) else 0)"

text \<open>The usage row of a workspace, with the defaults of a row not yet created.\<close>

definition row :: "managed_state \<Rightarrow> string \<Rightarrow> managed_workspace_usage" where
  "row st t = usage_in 0 t st"

definition capacity :: nat where
  "capacity = unat MANAGED_VISIBLE_LIMIT_BYTES + unat MANAGED_REPLACEMENT_HEADROOM_BYTES"

text \<open>
  An operation that is neither waiting nor settled is the one its workspace has
  admitted (\<open>mine\<close>); a blocked one may instead hold no bytes (\<open>free\<close>).
\<close>

fun slot_ok :: "managed_logical_operation_state \<Rightarrow> bool \<Rightarrow> bool \<Rightarrow> bool" where
  "slot_ok LogicalIntent mine free = free"
| "slot_ok LogicalRecoveryBlocked mine free = (mine \<or> free)"
| "slot_ok LogicalCommitted mine free = True"
| "slot_ok LogicalProvenAborted mine free = True"
| "slot_ok _ mine free = mine"

fun slot_edge :: "managed_logical_operation_state \<Rightarrow> managed_logical_operation_state \<Rightarrow> bool" where
  "slot_edge s LogicalRecoveryBlocked = (\<not> logical_terminal s)"
| "slot_edge LogicalOpen LogicalCompleting = True"
| "slot_edge LogicalOpen LogicalCommitUnknown = True"
| "slot_edge LogicalCompleting LogicalCommitUnknown = True"
| "slot_edge LogicalCommitUnknown LogicalCompleting = True"
| "slot_edge s s' = (s = s')"

lemma slot_edge_ok: "slot_edge s s' \<Longrightarrow> slot_ok s mine free \<Longrightarrow> slot_ok s' mine free"
  by (cases s; cases s') (auto simp: logical_terminal_def)

lemma slot_edge_live:
  "slot_edge s s' \<Longrightarrow> logical_terminal s' = logical_terminal s"
  "slot_edge s s' \<Longrightarrow> s \<noteq> LogicalIntent \<Longrightarrow> s' \<noteq> LogicalIntent"
  by (cases s; cases s'; simp add: logical_terminal_def)+

lemma slot_ok_mono: "slot_ok s False free \<Longrightarrow> slot_ok s mine free"
  by (cases s) auto

lemma slot_edge_refl [simp]: "slot_edge s s"
  by (cases s) (auto simp: logical_terminal_def)

definition operation_booked :: "managed_state \<Rightarrow> uuid \<Rightarrow> managed_logical_operation \<Rightarrow> bool" where
  "operation_booked st i operation \<longleftrightarrow>
     li_operation_id (lo_intent operation) = i
     \<and> unat (lo_released_physical_bytes operation) \<le> unat (lo_committed_physical_bytes operation)
     \<and> (\<not> logical_terminal (lo_state operation) \<longrightarrow> lo_committed_physical_bytes operation = 0)
     \<and> slot_ok (lo_state operation)
          (wu_active_operation_id (row st (operation_tenant operation)) = Some i)
          (lo_reserved_physical_bytes operation = 0)"

definition row_booked :: "managed_state \<Rightarrow> string \<Rightarrow> bool" where
  "row_booked st t \<longleftrightarrow>
     wu_visible_limit_bytes (row st t) = MANAGED_VISIBLE_LIMIT_BYTES
     \<and> wu_replacement_headroom_bytes (row st t) = MANAGED_REPLACEMENT_HEADROOM_BYTES
     \<and> unat (wu_physical_allocated_bytes (row st t)) = hm_sum (held_physical t) (mr_logical_operations st)
     \<and> unat (wu_physical_allocated_bytes (row st t)) + unat (wu_reserved_bytes (row st t)) \<le> capacity
     \<and> unat (wu_visible_logical_bytes (row st t)) \<le> unat MANAGED_VISIBLE_LIMIT_BYTES
     \<and> (wu_active_operation_id (row st t) = None \<longrightarrow> wu_reserved_bytes (row st t) = 0)
     \<and> (\<forall>i. wu_active_operation_id (row st t) = Some i \<longrightarrow>
          (\<exists>operation. get_logical st i = Some operation \<and> operation_tenant operation = t
            \<and> lo_state operation \<noteq> LogicalIntent \<and> \<not> logical_terminal (lo_state operation)
            \<and> wu_reserved_bytes (row st t) = lo_reserved_physical_bytes operation))"

definition books_ok :: "managed_state \<Rightarrow> bool" where
  "books_ok st \<longleftrightarrow>
     hm_wf (mr_logical_operations st)
     \<and> (\<forall>i operation. get_logical st i = Some operation \<longrightarrow> operation_booked st i operation)
     \<and> (\<forall>t. row_booked st t)"

lemma books_same:
  assumes "same_books st st'"
  shows "books_ok st' = books_ok st"
proof -
  have "get_logical st' = get_logical st" "row st' = row st"
    "mr_logical_operations st' = mr_logical_operations st"
    using assms by (simp_all add: same_books_def get_logical_def row_def usage_in_def fun_eq_iff)
  then show ?thesis by (simp only: books_ok_def operation_booked_def row_booked_def)
qed

lemma row_set [simp]:
  "row (set_usage t' u st) t = (if t = t' then u else row st t)"
  "row (set_logical i op st) t = row st t"
  by (simp_all add: row_def usage_in_def set_usage_def set_logical_def map_laws)

lemma get_logical_set [simp]:
  "get_logical (set_logical i op st) j = (if j = i then Some op else get_logical st j)"
  "get_logical (set_usage t u st) j = get_logical st j"
  "get_logical (enter_usage n t st) j = get_logical st j"
  by (simp_all add: get_logical_def set_logical_def set_usage_def enter_usage_def map_laws)

text \<open>Creating a row keeps every account: the fields that differ by the clock are not accounts.\<close>

lemma enter_usage_row:
  "wu_visible_limit_bytes (row (enter_usage n t st) s) = wu_visible_limit_bytes (row st s)"
  "wu_replacement_headroom_bytes (row (enter_usage n t st) s) = wu_replacement_headroom_bytes (row st s)"
  "wu_physical_allocated_bytes (row (enter_usage n t st) s) = wu_physical_allocated_bytes (row st s)"
  "wu_reserved_bytes (row (enter_usage n t st) s) = wu_reserved_bytes (row st s)"
  "wu_visible_logical_bytes (row (enter_usage n t st) s) = wu_visible_logical_bytes (row st s)"
  "wu_active_operation_id (row (enter_usage n t st) s) = wu_active_operation_id (row st s)"
  by (auto simp: enter_usage_def row_def usage_in_def map_laws usage_default_def split: option.splits)

lemma usage_in_row:
  "wu_visible_limit_bytes (usage_in n t st) = wu_visible_limit_bytes (row st t)"
  "wu_replacement_headroom_bytes (usage_in n t st) = wu_replacement_headroom_bytes (row st t)"
  "wu_physical_allocated_bytes (usage_in n t st) = wu_physical_allocated_bytes (row st t)"
  "wu_reserved_bytes (usage_in n t st) = wu_reserved_bytes (row st t)"
  "wu_visible_logical_bytes (usage_in n t st) = wu_visible_logical_bytes (row st t)"
  "wu_active_operation_id (usage_in n t st) = wu_active_operation_id (row st t)"
  by (simp_all add: row_def usage_in_def usage_default_def split: option.split)

lemma enter_usage_ops [simp]: "mr_logical_operations (enter_usage n t st) = mr_logical_operations st"
  by (simp add: enter_usage_def)

lemma set_usage_ops [simp]: "mr_logical_operations (set_usage t u st) = mr_logical_operations st"
  by (simp add: set_usage_def)

lemma set_logical_ops [simp]:
  "mr_logical_operations (set_logical i op st) = hm_insert i op (mr_logical_operations st)"
  by (simp add: set_logical_def)

lemma books_enter: "books_ok (enter_usage n t st) = books_ok st"
  by (simp add: books_ok_def operation_booked_def row_booked_def enter_usage_row)

lemma books_operation:
  "books_ok st \<Longrightarrow> get_logical st i = Some op \<Longrightarrow> operation_booked st i op"
  by (simp add: books_ok_def)

lemma books_row: "books_ok st \<Longrightarrow> row_booked st t"
  by (simp add: books_ok_def)

text \<open>Rewriting an operation without touching its accounts.\<close>

definition same_accounts :: "managed_logical_operation \<Rightarrow> managed_logical_operation \<Rightarrow> bool" where
  "same_accounts op op' \<longleftrightarrow>
     lo_intent op' = lo_intent op
     \<and> lo_reserved_physical_bytes op' = lo_reserved_physical_bytes op
     \<and> lo_committed_physical_bytes op' = lo_committed_physical_bytes op
     \<and> lo_released_physical_bytes op' = lo_released_physical_bytes op
     \<and> slot_edge (lo_state op) (lo_state op')"

lemma books_touch:
  assumes ok: "books_ok st" and op: "get_logical st i = Some op" and same: "same_accounts op op'"
  shows "books_ok (set_logical i op' st)"
proof -
  have held: "held_physical t op' = held_physical t op" for t
    using same by (simp add: held_physical_def same_accounts_def)
  have sum: "hm_sum (held_physical t) (hm_insert i op' (mr_logical_operations st))
      = hm_sum (held_physical t) (mr_logical_operations st)" for t
    using op held by (simp add: hm_sum_insert_same get_logical_def)
  have booked: "operation_booked st i op" using ok op by (rule books_operation)
  have "operation_booked st i op'"
    using booked same slot_edge_ok slot_edge_live(1)
    unfolding operation_booked_def same_accounts_def by auto
  then have "operation_booked (set_logical i op' st) j x"
    if "get_logical (set_logical i op' st) j = Some x" for j x
    using that ok by (auto simp: operation_booked_def books_ok_def split: if_splits)
  moreover have "row_booked (set_logical i op' st) t" for t
    using books_row [OF ok, of t] op same sum slot_edge_live [of "lo_state op" "lo_state op'"]
    by (auto simp: row_booked_def same_accounts_def)
  moreover have "hm_wf (mr_logical_operations (set_logical i op' st))"
    using ok by (auto simp: books_ok_def)
  ultimately show ?thesis by (simp add: books_ok_def)
qed

text \<open>A new operation brings no bytes of its own.\<close>

lemma books_new:
  assumes ok: "books_ok st" and fresh: "get_logical st i = None"
    and op: "li_operation_id (lo_intent op) = i" "lo_reserved_physical_bytes op = 0"
      "lo_committed_physical_bytes op = 0" "lo_released_physical_bytes op = 0"
      "lo_state op = LogicalIntent \<or> lo_state op = LogicalCommitted"
  shows "books_ok (set_logical i op st)"
proof -
  have sum: "hm_sum (held_physical t) (hm_insert i op (mr_logical_operations st))
      = hm_sum (held_physical t) (mr_logical_operations st)" for t
    using fresh op by (simp add: hm_sum_insert_fresh get_logical_def held_physical_def)
  have "operation_booked (set_logical i op st) j x"
    if "get_logical (set_logical i op st) j = Some x" for j x
    using that ok op by (auto simp: operation_booked_def books_ok_def logical_terminal_def split: if_splits)
  moreover have "row_booked (set_logical i op st) t" for t
    using books_row [OF ok, of t] fresh sum by (auto simp: row_booked_def)
  moreover have "hm_wf (mr_logical_operations (set_logical i op st))"
    using ok by (auto simp: books_ok_def)
  ultimately show ?thesis by (simp add: books_ok_def)
qed

text \<open>Settling an operation or admitting it moves its row along with it.\<close>

definition slot_moves ::
  "uuid \<Rightarrow> managed_workspace_usage \<Rightarrow> managed_workspace_usage \<Rightarrow> managed_logical_operation \<Rightarrow> bool" where
  "slot_moves i u u' op' \<longleftrightarrow>
     wu_active_operation_id u' = None \<and> wu_reserved_bytes u' = 0
       \<and> (wu_active_operation_id u = None \<or> wu_active_operation_id u = Some i)
     \<or> wu_active_operation_id u' = wu_active_operation_id u \<and> wu_active_operation_id u \<noteq> Some i
       \<and> wu_reserved_bytes u' = wu_reserved_bytes u
     \<or> wu_active_operation_id u' = Some i
       \<and> (wu_active_operation_id u = None \<or> wu_active_operation_id u = Some i)
       \<and> wu_reserved_bytes u' = lo_reserved_physical_bytes op'
       \<and> lo_state op' \<noteq> LogicalIntent \<and> \<not> logical_terminal (lo_state op')"

lemma books_move:
  assumes ok: "books_ok st" and op: "get_logical st i = Some op" and t: "t = operation_tenant op"
    and intent: "lo_intent op' = lo_intent op"
    and limits: "wu_visible_limit_bytes u' = wu_visible_limit_bytes (row st t)"
      "wu_replacement_headroom_bytes u' = wu_replacement_headroom_bytes (row st t)"
    and held: "unat (wu_physical_allocated_bytes u') + held_physical t op
      = unat (wu_physical_allocated_bytes (row st t)) + held_physical t op'"
    and fits: "unat (wu_physical_allocated_bytes u') + unat (wu_reserved_bytes u') \<le> capacity"
      "unat (wu_visible_logical_bytes u') \<le> unat MANAGED_VISIBLE_LIMIT_BYTES"
    and bytes: "unat (lo_released_physical_bytes op') \<le> unat (lo_committed_physical_bytes op')"
      "\<not> logical_terminal (lo_state op') \<longrightarrow> lo_committed_physical_bytes op' = 0"
    and slot: "slot_ok (lo_state op') (wu_active_operation_id u' = Some i) (lo_reserved_physical_bytes op' = 0)"
    and moves: "slot_moves i (row st t) u' op'"
  shows "books_ok (set_logical i op' (set_usage t u' st))"
proof -
  let ?st = "set_logical i op' (set_usage t u' st)"
  have booked: "operation_booked st i op" and rowb: "row_booked st s" for s
    using books_operation [OF ok op] books_row [OF ok] by simp_all
  have sum: "hm_sum (held_physical s) (hm_insert i op' (mr_logical_operations st)) + held_physical s op
      = hm_sum (held_physical s) (mr_logical_operations st) + held_physical s op'" for s
    using hm_sum_insert [of "held_physical s" i op' "mr_logical_operations st"] op by (simp add: get_logical_def)
  have other: "held_physical s op' = 0 \<and> held_physical s op = 0" if "s \<noteq> t" for s
    using that t intent by (simp add: held_physical_def)
  have "operation_booked ?st j x" if x: "get_logical ?st j = Some x" for j x
  proof (cases "j = i")
    case True
    with x have "x = op'" by simp
    with True booked intent bytes slot t show ?thesis by (simp add: operation_booked_def)
  next
    case False
    with x ok have "operation_booked st j x" by (simp add: books_ok_def)
    moreover have "slot_ok (lo_state x) (wu_active_operation_id u' = Some j) (lo_reserved_physical_bytes x = 0)"
      if "slot_ok (lo_state x) (wu_active_operation_id (row st t) = Some j) (lo_reserved_physical_bytes x = 0)"
      using that moves False slot_ok_mono unfolding slot_moves_def by auto
    ultimately show ?thesis by (auto simp: operation_booked_def)
  qed
  moreover have "row_booked ?st s" for s
  proof (cases "s = t")
    case True
    have "unat (wu_physical_allocated_bytes u') = hm_sum (held_physical t) (hm_insert i op' (mr_logical_operations st))"
      using held sum [of t] rowb [of t] by (simp add: row_booked_def)
    moreover have "\<exists>x. get_logical ?st j = Some x \<and> operation_tenant x = t \<and> lo_state x \<noteq> LogicalIntent
        \<and> \<not> logical_terminal (lo_state x) \<and> wu_reserved_bytes u' = lo_reserved_physical_bytes x"
      if "wu_active_operation_id u' = Some j" for j
      using that moves rowb [of t] intent t unfolding slot_moves_def row_booked_def by auto
    moreover have "wu_active_operation_id u' = None \<longrightarrow> wu_reserved_bytes u' = 0"
      using moves rowb [of t] unfolding slot_moves_def row_booked_def by auto
    ultimately show ?thesis using True limits fits rowb [of t] by (simp add: row_booked_def)
  next
    case False
    then have "hm_sum (held_physical s) (hm_insert i op' (mr_logical_operations st))
        = hm_sum (held_physical s) (mr_logical_operations st)"
      using sum [of s] other [of s] by simp
    with False rowb [of s] op t show ?thesis unfolding row_booked_def by auto
  qed
  moreover have "hm_wf (mr_logical_operations ?st)" using ok by (auto simp: books_ok_def)
  ultimately show ?thesis by (simp add: books_ok_def)
qed

text \<open>Only the visible bytes of a row change.\<close>

lemma books_visible:
  assumes ok: "books_ok st"
    and same: "wu_visible_limit_bytes u' = wu_visible_limit_bytes (row st t)"
      "wu_replacement_headroom_bytes u' = wu_replacement_headroom_bytes (row st t)"
      "wu_physical_allocated_bytes u' = wu_physical_allocated_bytes (row st t)"
      "wu_reserved_bytes u' = wu_reserved_bytes (row st t)"
      "wu_active_operation_id u' = wu_active_operation_id (row st t)"
    and fits: "unat (wu_visible_logical_bytes u') \<le> unat MANAGED_VISIBLE_LIMIT_BYTES"
  shows "books_ok (set_usage t u' st)"
proof -
  have "operation_booked (set_usage t u' st) i op = operation_booked st i op" for i op
    using same by (auto simp: operation_booked_def)
  moreover have "row_booked (set_usage t u' st) s" for s
    using books_row [OF ok, of s] same fits by (auto simp: row_booked_def)
  ultimately show ?thesis using ok by (simp add: books_ok_def)
qed

lemma books_fences:
  assumes "books_ok st"
  shows "books_ok (fst (route_fence t st))" "books_ok (fst (advance_routing_epoch t e st))"
proof -
  have "same_books st (fst (route_fence t st))" "same_books st (fst (advance_routing_epoch t e st))"
    by (simp_all add: same_books_def route_fence_def advance_routing_epoch_def Let_def managed_frame split: option.split)
  then show "books_ok (fst (route_fence t st))" "books_ok (fst (advance_routing_epoch t e st))"
    using assms books_same by blast+
qed

lemma enter_epochs_books [simp]: "books_ok (enter_epochs t st) = books_ok st"
  by (rule books_same) (simp add: same_books_def managed_frame)

lemma get_logical_epochs [simp]: "get_logical (enter_epochs t st) i = get_logical st i"
  by (simp add: get_logical_def managed_frame)

lemma books_insert:
  assumes "books_ok st"
  shows "books_ok (fst (insert_logical_operation env intent st))"
  using assms
  by (auto simp: insert_logical_operation_def Let_def fresh_operation_def intro!: books_new
      split: sum.split option.split)

lemma books_touches:
  assumes "books_ok st"
  shows "books_ok (fst (mark_logical_operation_settled env i r st))"
    "books_ok (fst (defer_delete_settlement env i r st))"
    "books_ok (fst (mark_logical_recovery_blocked env c reason st))"
    "books_ok (fst (renew_logical_recovery_claim env c e st))"
    "books_ok (fst (record_logical_usage env i ev st))"
    "books_ok (fst (transition_logical_operation env i from to err st))"
    "books_ok (fst (record_logical_usage_and_begin_completion env i ev st))"
proof -
  note touch = books_touch [OF assms]
  show "books_ok (fst (mark_logical_operation_settled env i r st))"
    using assms by (auto simp: mark_logical_operation_settled_def same_accounts_def intro!: touch split: option.split)
  show "books_ok (fst (defer_delete_settlement env i r st))"
    using assms by (auto simp: defer_delete_settlement_def same_accounts_def intro!: touch split: option.split)
  show "books_ok (fst (mark_logical_recovery_blocked env c reason st))"
    using assms by (auto simp: mark_logical_recovery_blocked_def Let_def claim_current_def clear_recovery_def
        same_accounts_def intro!: touch split: option.split)
  show "books_ok (fst (renew_logical_recovery_claim env c e st))"
    using assms by (auto simp: renew_logical_recovery_claim_def Let_def same_accounts_def intro!: touch split: option.split)
  show "books_ok (fst (record_logical_usage env i ev st))"
    using assms by (auto simp: record_logical_usage_def Let_def same_accounts_def intro!: touch split: option.split)
  show "books_ok (fst (transition_logical_operation env i from to err st))"
    using assms by (auto simp: transition_logical_operation_def Let_def valid_logical_transition_def same_accounts_def
        intro!: touch split: option.split)
  show "books_ok (fst (record_logical_usage_and_begin_completion env i ev st))"
    using assms by (auto simp: record_logical_usage_and_begin_completion_def Let_def same_accounts_def
        intro!: touch split: option.split if_splits)
qed

lemma books_claim_operations:
  "books_ok st \<Longrightarrow> books_ok (fst (claim_operations env w e k ids st))"
proof (induction ids arbitrary: k st)
  case (Cons i ids)
  show ?case
  proof (cases "get_logical st i")
    case None
    with Cons show ?thesis by simp
  next
    case (Some op)
    have "books_ok (set_logical i (op\<lparr>lo_recovery_owner := Some w, lo_recovery_token := Some (me_fresh env k),
        lo_recovery_expires_at_ms := Some e\<rparr>) st)"
      by (rule books_touch [OF Cons.prems Some]) (simp add: same_accounts_def)
    with Cons.IH Some show ?thesis by (simp add: Let_def)
  qed
qed simp

lemma books_claim: "books_ok st \<Longrightarrow> books_ok (fst (claim_stale_logical_operations env w s e l st))"
  by (simp add: claim_stale_logical_operations_def Let_def books_claim_operations)

lemma bound_value: "checked_add MANAGED_VISIBLE_LIMIT_BYTES MANAGED_REPLACEMENT_HEADROOM_BYTES = Some b \<Longrightarrow> unat b = capacity"
  by (auto simp: checked_add_Some capacity_def)

lemma books_reserve_row:
  assumes ok: "books_ok st" and op: "get_logical st i = Some op" and t: "t = operation_tenant op"
    and state: "lo_state op = LogicalIntent" and idle: "wu_active_operation_id (row st t) = None"
    and r: "reservation (row st t) b = Some r"
    and u: "wu_visible_limit_bytes u = wu_visible_limit_bytes (row st t)"
      "wu_replacement_headroom_bytes u = wu_replacement_headroom_bytes (row st t)"
      "wu_physical_allocated_bytes u = wu_physical_allocated_bytes (row st t)"
      "wu_visible_logical_bytes u = wu_visible_logical_bytes (row st t)"
      "wu_reserved_bytes u = r" "wu_active_operation_id u = Some i"
  shows "books_ok (set_logical i (op\<lparr>lo_reserved_physical_bytes := b, lo_state := LogicalOpen, lo_updated_at_ms := n\<rparr>)
    (set_usage t u st))"
proof -
  obtain bound all where
    bound: "checked_add (wu_visible_limit_bytes (row st t)) (wu_replacement_headroom_bytes (row st t)) = Some bound"
    and reserved: "checked_add (wu_reserved_bytes (row st t)) b = Some r"
    and all: "checked_add (wu_physical_allocated_bytes (row st t)) r = Some all" "\<not> bound < all"
    using r by (auto simp: reservation_def bind_eq_Some_conv split: if_splits)
  have row: "row_booked st t" using ok by (rule books_row)
  have booked: "operation_booked st i op" using ok op by (rule books_operation)
  have committed: "lo_committed_physical_bytes op = 0"
    using booked state by (simp add: operation_booked_def logical_terminal_def)
  have "wu_reserved_bytes (row st t) = 0" using row idle by (simp add: row_booked_def)
  with reserved have rb: "r = b" by (simp add: checked_add_Some)
  have limit: "unat bound = capacity" using bound row by (auto simp: row_booked_def intro: bound_value)
  have fits: "unat (wu_physical_allocated_bytes u) + unat (wu_reserved_bytes u) \<le> capacity"
    using all limit u by (auto simp: checked_add_Some not_less word_le_nat_alt)
  show ?thesis
    by (rule books_move [OF ok op t])
       (use u row committed fits idle rb booked in
         \<open>simp_all add: held_physical_def row_booked_def slot_moves_def logical_terminal_def operation_booked_def\<close>)
qed

lemma books_reserve:
  assumes ok: "books_ok st"
  shows "books_ok (fst (reserve_logical_operation env i b st))"
proof (cases "get_logical st i")
  case None
  with ok show ?thesis by (simp add: reserve_logical_operation_def)
next
  case (Some op)
  let ?t = "operation_tenant op"
  let ?s = "enter_usage (me_clock env 0) ?t st"
  let ?u = "usage_in (me_clock env 0) ?t st" and ?n = "me_clock env 1"
  have ok': "books_ok ?s" using ok by (simp add: books_enter)
  have op': "get_logical ?s i = Some op" using Some by simp
  have same: "reservation ?u b = reservation (row ?s ?t) b"
    by (simp add: reservation_def usage_in_row enter_usage_row)
  have main: "books_ok (set_logical i (op\<lparr>lo_reserved_physical_bytes := b, lo_state := LogicalOpen, lo_updated_at_ms := ?n\<rparr>)
      (set_usage ?t (touch_usage ?n (?u\<lparr>wu_reserved_bytes := r, wu_active_operation_id := Some i\<rparr>)) ?s))"
    if "lo_state op = LogicalIntent" "wu_active_operation_id (row st ?t) = None" "reservation ?u b = Some r" for r
    by (rule books_reserve_row [OF ok' op' refl that(1)])
       (use that(2,3) same in \<open>simp_all add: usage_in_row enter_usage_row touch_usage_def\<close>)
  show ?thesis
    using Some ok ok' main
    by (auto simp: reserve_logical_operation_def Let_def usage_in_row split: option.split)
qed

lemma set_usage_twice [simp]: "set_usage t u (set_usage t v st) = set_usage t u st"
  by (simp add: set_usage_def hm_insert_twice)

lemma checked_add_unat: "checked_add a b = Some c \<Longrightarrow> unat c = unat a + unat b"
  by (auto simp: checked_add_Some)

lemma checked_sub_unat: "checked_sub a b = Some c \<Longrightarrow> unat c = unat a - unat b"
  by (auto simp: checked_sub_Some)

lemma capacity_fits: "n \<le> capacity \<Longrightarrow> n < 2 ^ 64"
  by (simp add: capacity_def MANAGED_VISIBLE_LIMIT_BYTES_def MANAGED_REPLACEMENT_HEADROOM_BYTES_def)

lemma books_drop [simp]: "books_ok (drop_write_intent i st) = books_ok st"
  by (rule books_same) (simp add: same_books_def drop_write_intent_def)

lemma active_operation:
  assumes "books_ok st" "get_logical st i = Some op"
    "wu_active_operation_id (row st t) = Some i"
  shows "operation_tenant op = t" "wu_reserved_bytes (row st t) = lo_reserved_physical_bytes op"
    "lo_state op \<noteq> LogicalIntent" "\<not> logical_terminal (lo_state op)"
  using books_row [OF assms(1), of t] assms(2,3) by (auto simp: row_booked_def)

lemma books_capacity:
  "books_ok st \<Longrightarrow> unat (wu_physical_allocated_bytes (row st t)) + unat (wu_reserved_bytes (row st t)) \<le> capacity"
  using books_row [of st t] by (simp add: row_booked_def)

lemma books_visible_limit:
  "books_ok st \<Longrightarrow> unat (wu_visible_logical_bytes (row st t)) \<le> unat MANAGED_VISIBLE_LIMIT_BYTES"
  "books_ok st \<Longrightarrow> wu_visible_limit_bytes (row st t) = MANAGED_VISIBLE_LIMIT_BYTES"
  using books_row [of st t] by (simp_all add: row_booked_def)

text \<open>The active operation settles: its reservation is returned, what it committed is charged.\<close>

lemma books_settle:
  assumes ok: "books_ok st" and op: "get_logical st i = Some op" and t: "t = operation_tenant op"
    and mine: "wu_active_operation_id (row st t) = Some i \<or> lo_state op = LogicalIntent"
    and c: "unat c \<le> unat (lo_reserved_physical_bytes op)"
    and op': "lo_intent op' = lo_intent op" "logical_terminal (lo_state op')"
      "lo_committed_physical_bytes op' = c" "lo_released_physical_bytes op' = lo_released_physical_bytes op"
    and u': "wu_visible_limit_bytes u' = wu_visible_limit_bytes (row st t)"
      "wu_replacement_headroom_bytes u' = wu_replacement_headroom_bytes (row st t)"
      "unat (wu_physical_allocated_bytes u') = unat (wu_physical_allocated_bytes (row st t)) + unat c"
      "unat (wu_reserved_bytes u') = unat (wu_reserved_bytes (row st t)) - unat (lo_reserved_physical_bytes op)"
      "wu_active_operation_id u' =
         (if wu_active_operation_id (row st t) = Some i then None else wu_active_operation_id (row st t))"
      "unat (wu_visible_logical_bytes u') \<le> unat MANAGED_VISIBLE_LIMIT_BYTES"
    and live: "\<not> logical_terminal (lo_state op)"
  shows "books_ok (set_logical i op' (set_usage t u' st))"
proof -
  have row: "row_booked st t" and booked: "operation_booked st i op"
    using books_row [OF ok] books_operation [OF ok op] by simp_all
  have zero: "lo_committed_physical_bytes op = 0" "lo_released_physical_bytes op = 0"
    using booked live by (auto simp: operation_booked_def unsigned_eq_0_iff)
  have enough: "unat (lo_reserved_physical_bytes op) \<le> unat (wu_reserved_bytes (row st t))"
    using mine active_operation [OF ok op] booked by (auto simp: operation_booked_def)
  show ?thesis
  proof (rule books_move [OF ok op t op'(1) u'(1,2) _ _ u'(6)])
    show "unat (wu_physical_allocated_bytes u') + held_physical t op
        = unat (wu_physical_allocated_bytes (row st t)) + held_physical t op'"
      using u'(3) op' zero t by (simp add: held_physical_def)
    show "unat (wu_physical_allocated_bytes u') + unat (wu_reserved_bytes u') \<le> capacity"
      using u'(3,4) c enough books_capacity [OF ok, of t] by linarith
    show "slot_ok (lo_state op') (wu_active_operation_id u' = Some i) (lo_reserved_physical_bytes op' = 0)"
      using op'(2) by (cases "lo_state op'") (simp_all add: logical_terminal_def)
    show "slot_moves i (row st t) u' op'"
    proof (cases "wu_active_operation_id (row st t) = Some i")
      case True
      with u'(4) active_operation(2) [OF ok op True] have "unat (wu_reserved_bytes u') = 0" by simp
      then have "wu_reserved_bytes u' = 0" by (simp add: unat_eq_0)
      with True u'(5) show ?thesis by (simp add: slot_moves_def)
    next
      case False
      with mine booked have "lo_reserved_physical_bytes op = 0" by (simp add: operation_booked_def)
      with u'(4) have "unat (wu_reserved_bytes u') = unat (wu_reserved_bytes (row st t))" by simp
      then have "wu_reserved_bytes u' = wu_reserved_bytes (row st t)" by (rule unsigned_word_eqI)
      with False u'(5) show ?thesis by (simp add: slot_moves_def)
    qed
  qed (use op' zero in simp_all)
qed

lemma usage_in_frame:
  "mr_workspace_usage st' = mr_workspace_usage st \<Longrightarrow> usage_in n t st' = usage_in n t st"
  by (simp add: usage_in_def)

lemma books_publish_put:
  assumes ok: "books_ok st" and op: "get_logical st i = Some op"
    and mine: "wu_active_operation_id (row st (operation_tenant op)) = Some i"
    and c: "c \<le> lo_reserved_physical_bytes op" and visible: "unat visible \<le> unat MANAGED_VISIBLE_LIMIT_BYTES"
  shows "books_ok (fst (publish_put env i op visible c existing authority intent_id st))"
proof -
  let ?t = "operation_tenant op" and ?n = "me_clock env 0"
  let ?st = "schedule_publication env (rf_namespace_epoch (li_fence (lo_intent op))) existing authority
    (st\<lparr>mr_authorities := hm_insert (oa_logical authority) authority (mr_authorities st)\<rparr>)"
  have same: "same_books st ?st" by (simp add: same_books_def managed_frame)
  then have ok': "books_ok ?st" using ok books_same by blast
  have op': "get_logical ?st i = Some op" using op by (simp add: get_logical_def managed_frame)
  have rows: "row ?st = row st" "usage_in m s ?st = usage_in m s st" for m s
    using same by (simp_all add: same_books_def row_def usage_in_def fun_eq_iff)
  let ?u = "usage_in (me_clock env 60) ?t st"
  have reserved: "wu_reserved_bytes (row st ?t) = lo_reserved_physical_bytes op"
    using active_operation(2) [OF ok op mine] .
  have "unat (wu_physical_allocated_bytes (row st ?t)) + unat c \<le> capacity"
    using books_capacity [OF ok, of ?t] c reserved by (simp add: word_le_nat_alt)
  then obtain allocated where allocated: "checked_add (wu_physical_allocated_bytes ?u) c = Some allocated"
    by (cases "checked_add (wu_physical_allocated_bytes ?u) c")
       (auto simp: checked_add_None usage_in_row dest: capacity_fits)
  have given: "checked_sub (wu_reserved_bytes ?u) (lo_reserved_physical_bytes op) = Some 0"
    using reserved by (simp add: checked_sub_def usage_in_row)
  have "books_ok (set_logical i ((clear_recovery op)\<lparr>lo_state := LogicalCommitted, lo_committed_physical_bytes := c,
        lo_committed_authority_version := Some (oa_cas_version authority), lo_updated_at_ms := ?n, lo_committed_at_ms := Some ?n\<rparr>)
      (set_usage ?t (touch_usage ?n (?u\<lparr>wu_visible_logical_bytes := visible, wu_physical_allocated_bytes := allocated,
         wu_reserved_bytes := 0, wu_active_operation_id := None\<rparr>)) ?st))"
    by (rule books_settle [OF ok' op' refl])
       (use mine c checked_add_unat [OF allocated] visible reserved active_operation(4) [OF ok op mine] in
         \<open>simp_all add: rows usage_in_row touch_usage_def clear_recovery_def logical_terminal_def
            word_le_nat_alt\<close>)
  then show ?thesis
    using allocated given by (simp add: publish_put_def Let_def rows)
qed

lemma row_versions [simp]:
  "row (st\<lparr>mr_versions := vs\<rparr>) t = row st t" "get_logical (st\<lparr>mr_versions := vs\<rparr>) i = get_logical st i"
  by (simp_all add: row_def usage_in_def get_logical_def)

lemma books_versions [simp]: "books_ok (st\<lparr>mr_versions := vs\<rparr>) = books_ok st"
  by (rule books_same) (simp add: same_books_def)

lemma books_settle_put:
  assumes ok: "books_ok st" and op: "get_logical st i = Some op"
  shows "books_ok (fst (settle_put env i op evidence recipe targets result intent_id st))"
proof -
  let ?t = "operation_tenant op"
  let ?s = "enter_usage (me_clock env 2) ?t st"
  have ok': "books_ok ?s" using ok by (simp add: books_enter)
  have op': "get_logical ?s i = Some op" using op by simp
  have publish: "books_ok (fst (publish_put env i op visible c existing authority intent_id ?s))"
    if "wu_active_operation_id (row st ?t) = Some i" "\<not> lo_reserved_physical_bytes op < c"
      "\<not> wu_visible_limit_bytes (row st ?t) < visible" for visible c existing authority
    by (rule books_publish_put [OF ok' op'])
       (use that books_visible_limit(2) [OF ok, of ?t] in \<open>simp_all add: enter_usage_row not_less word_le_nat_alt\<close>)
  show ?thesis
    using ok ok' publish
    by (auto simp: settle_put_def Let_def usage_in_row split: sum.split option.split)
qed

lemma books_finalize:
  assumes ok: "books_ok st"
  shows "books_ok (fst (finalize_logical_put env i lease result claim st))"
proof (cases "and_then (validate_exact_physical_commit result) (\<lambda>_. ok_or ManagedConflict (get_logical st i))")
  case (Inl e)
  then show ?thesis using ok by (simp add: finalize_logical_put_def)
next
  case (Inr op)
  then have op: "get_logical st i = Some op" by (simp add: result_simps)
  have settle: "books_ok (fst (settle_put env i op ev rec ts result w (st\<lparr>mr_versions := vs\<rparr>)))" for ev rec ts w vs
    by (rule books_settle_put) (use ok op in simp_all)
  have replay: "books_ok (enter_usage n t st)" for n t using ok by (simp add: books_enter)
  show ?thesis
    unfolding finalize_logical_put_def Inr sum.case
    using ok settle replay by (auto simp: Let_def split: sum.split prod.split)
qed

lemma books_cleanup_frame [simp]:
  "books_ok (schedule_cleanup env e x st) = books_ok st"
  "row (schedule_cleanup env e x st) = row st"
  "get_logical (schedule_cleanup env e x st) = get_logical st"
  "books_ok (insert_cleanups c e rs st) = books_ok st"
  "row (insert_cleanups c e rs st) = row st"
  "get_logical (insert_cleanups c e rs st) = get_logical st"
  "books_ok (st\<lparr>mr_authorities := a\<rparr>) = books_ok st"
  "row (st\<lparr>mr_authorities := a\<rparr>) = row st"
  "get_logical (st\<lparr>mr_authorities := a\<rparr>) = get_logical st"
  by (rule books_same | simp add: same_books_def managed_frame row_def usage_in_def get_logical_def fun_eq_iff)+

lemma books_commit_delete:
  assumes ok: "books_ok st"
  shows "books_ok (fst (commit_logical_delete env i placement st))"
proof (cases "get_logical st i")
  case None
  with ok show ?thesis by (simp add: commit_logical_delete_def)
next
  case (Some op)
  let ?t = "operation_tenant op"
  let ?s = "enter_usage (me_clock env 0) ?t st"
  have ok': "books_ok ?s" using ok by (simp add: books_enter)
  have settle: "books_ok (set_logical i (op\<lparr>lo_state := LogicalCommitted, lo_committed_authority_version := v,
        lo_updated_at_ms := n, lo_committed_at_ms := Some n\<rparr>)
      (set_usage ?t (touch_usage n ((usage_in m ?t (schedule_cleanup env e x (?s\<lparr>mr_authorities := a\<rparr>)))
         \<lparr>wu_visible_logical_bytes := visible, wu_active_operation_id := None\<rparr>))
       (schedule_cleanup env e x (?s\<lparr>mr_authorities := a\<rparr>))))"
    if mine: "wu_active_operation_id (row st ?t) = Some i" and free: "lo_reserved_physical_bytes op = 0"
      and sub: "checked_sub (wu_visible_logical_bytes (row st ?t)) p = Some visible" for v n m e x a visible p
  proof (rule books_settle)
    show "get_logical (schedule_cleanup env e x (?s\<lparr>mr_authorities := a\<rparr>)) i = Some op" using Some by simp
    have zero: "lo_committed_physical_bytes op = 0"
      using books_operation [OF ok Some] active_operation(4) [OF ok Some mine] by (simp add: operation_booked_def)
    then show "lo_committed_physical_bytes (op\<lparr>lo_state := LogicalCommitted, lo_committed_authority_version := v,
        lo_updated_at_ms := n, lo_committed_at_ms := Some n\<rparr>) = 0" by simp
  qed (use ok' mine free checked_sub_unat [OF sub] books_visible_limit(1) [OF ok, of ?t] active_operation(4) [OF ok Some mine]
      in \<open>simp_all add: usage_in_row enter_usage_row touch_usage_def logical_terminal_def\<close>)
  show ?thesis
    using Some ok ok' settle
    by (auto simp: commit_logical_delete_def Let_def usage_in_row split: option.split)
qed

lemma books_atomic_delete:
  assumes ok: "books_ok st"
  shows "books_ok (fst (commit_atomic_logical_delete env request st))"
proof -
  let ?t = "lk_tenant_id (dq_logical request)" and ?i = "dq_operation_id request"
  let ?s = "enter_usage (me_clock env 0) ?t st"
  have ok': "books_ok ?s" using ok by (simp add: books_enter)
  have new: "books_ok (set_logical ?i (deleted_operation n request (delete_intent env request fence existing) v)
      (set_usage ?t (touch_usage n ((usage_in m ?t (schedule_cleanup env e x (?s\<lparr>mr_authorities := a\<rparr>)))
         \<lparr>wu_visible_logical_bytes := visible\<rparr>)) (schedule_cleanup env e x (?s\<lparr>mr_authorities := a\<rparr>))))"
    if fresh: "get_logical st ?i = None" and sub: "checked_sub (wu_visible_logical_bytes (row st ?t)) p = Some visible"
    for n fence existing v m e x a visible p
  proof (rule books_new)
    show "books_ok (set_usage ?t (touch_usage n ((usage_in m ?t (schedule_cleanup env e x (?s\<lparr>mr_authorities := a\<rparr>)))
         \<lparr>wu_visible_logical_bytes := visible\<rparr>)) (schedule_cleanup env e x (?s\<lparr>mr_authorities := a\<rparr>)))"
      by (rule books_visible)
         (use ok' checked_sub_unat [OF sub] books_visible_limit(1) [OF ok, of ?t] in
           \<open>simp_all add: touch_usage_def usage_in_row enter_usage_row\<close>)
  qed (use fresh in \<open>simp_all add: deleted_operation_def fresh_operation_def delete_intent_def\<close>)
  show ?thesis
    using ok ok' new
    by (auto simp: commit_atomic_logical_delete_def Let_def usage_in_row split: option.split sum.split)
qed

lemma books_abort_put:
  assumes ok: "books_ok st"
  shows "books_ok (fst (abort_logical_put env i lease proof error_class claim st))"
proof (cases "get_logical st i")
  case None
  with ok show ?thesis by (simp add: abort_logical_put_def)
next
  case (Some op)
  let ?t = "operation_tenant op" and ?n = "me_clock env 0"
  let ?s = "enter_usage (me_clock env 1) ?t st"
  have ok': "books_ok ?s" using ok by (simp add: books_enter)
  have settle: "books_ok (set_logical i ((clear_recovery op)\<lparr>lo_state := LogicalProvenAborted,
        lo_settlement_state := Released, lo_last_error_class := ec, lo_updated_at_ms := ?n, lo_aborted_at_ms := Some ?n\<rparr>)
      (set_usage ?t (touch_usage ?n ((usage_in m ?t st)\<lparr>wu_reserved_bytes := r, wu_active_operation_id := act\<rparr>)) ?s))"
    if mine: "lo_state op = LogicalIntent \<or> wu_active_operation_id (row st ?t) = Some i"
      and live: "lo_state op \<noteq> LogicalProvenAborted" "lo_state op \<noteq> LogicalCommitted"
      and act: "act = (if wu_active_operation_id (row st ?t) = Some i then None else wu_active_operation_id (row st ?t))"
      and sub: "checked_sub (wu_reserved_bytes (row st ?t)) (lo_reserved_physical_bytes op) = Some r" for ec m r act
  proof (rule books_settle)
    show "get_logical ?s i = Some op" using Some by simp
    have "lo_committed_physical_bytes op = 0"
      using books_operation [OF ok Some] live by (simp add: operation_booked_def logical_terminal_def)
    then show "lo_committed_physical_bytes ((clear_recovery op)\<lparr>lo_state := LogicalProvenAborted,
        lo_settlement_state := Released, lo_last_error_class := ec, lo_updated_at_ms := ?n, lo_aborted_at_ms := Some ?n\<rparr>) = 0"
      by (simp add: clear_recovery_def)
  qed (use ok' mine live act checked_sub_unat [OF sub] books_visible_limit(1) [OF ok, of ?t]
      in \<open>auto simp: usage_in_row enter_usage_row touch_usage_def logical_terminal_def clear_recovery_def\<close>)
  show ?thesis
    using Some ok ok' settle
    by (auto simp: abort_logical_put_def Let_def usage_in_row split: option.split sum.split)
qed

lemma proven_allocation_bound:
  "proven_allocation op physical n = Inr c \<Longrightarrow> unat c \<le> unat (lo_reserved_physical_bytes op)"
  by (cases physical) (auto simp: proven_allocation_def result_simps word_le_nat_alt not_less split: if_splits)

lemma books_prove_abort:
  assumes ok: "books_ok st"
  shows "books_ok (fst (prove_logical_abort env i error_class physical st))"
proof (cases "get_logical st i")
  case None
  with ok show ?thesis by (simp add: prove_logical_abort_def)
next
  case (Some op)
  let ?t = "operation_tenant op" and ?n = "me_clock env 61" and ?m = "me_clock env 60"
  let ?q = "schedule_abort_cleanup env (lo_intent op) physical st"
  let ?s = "enter_usage ?m ?t ?q"
  have q: "books_ok ?q" "row ?q = row st" "get_logical ?q i = Some op" using ok Some
    by (simp_all add: schedule_abort_cleanup_def split: option.split)
  have ok': "books_ok ?s" using q by (simp add: books_enter)
  have fits: "checked_add (wu_physical_allocated_bytes (row st ?t)) c \<noteq> None"
    if "unat c \<le> unat (lo_reserved_physical_bytes op)"
      "checked_sub (wu_reserved_bytes (row st ?t)) (lo_reserved_physical_bytes op) = Some r" for c r
    using that books_capacity [OF ok, of ?t] capacity_fits [of "unat (wu_physical_allocated_bytes (row st ?t)) + unat c"]
    by (auto simp: checked_add_None checked_sub_Some word_le_nat_alt)
  have settle: "books_ok (set_logical i (op\<lparr>lo_state := LogicalProvenAborted, lo_committed_physical_bytes := c,
        lo_settlement_state := Released, lo_last_error_class := ec, lo_updated_at_ms := ?n, lo_aborted_at_ms := Some ?n\<rparr>)
      (set_usage ?t (touch_usage ?n ((usage_in ?m ?t ?q)\<lparr>wu_reserved_bytes := r, wu_physical_allocated_bytes := a,
         wu_active_operation_id := act\<rparr>)) ?s))"
    if mine: "lo_state op = LogicalIntent \<or> wu_active_operation_id (row st ?t) = Some i"
      and live: "lo_state op \<noteq> LogicalProvenAborted" "lo_state op \<noteq> LogicalCommitted"
      and c: "unat c \<le> unat (lo_reserved_physical_bytes op)"
      and act: "act = (if wu_active_operation_id (row st ?t) = Some i then None else wu_active_operation_id (row st ?t))"
      and sub: "checked_sub (wu_reserved_bytes (row st ?t)) (lo_reserved_physical_bytes op) = Some r"
      and add: "checked_add (wu_physical_allocated_bytes (row st ?t)) c = Some a" for ec r a c act
  proof (rule books_settle)
    show "get_logical ?s i = Some op" using q by simp
    show "unat c \<le> unat (lo_reserved_physical_bytes op)" by (rule c)
  qed (use ok' q(2) mine live act checked_sub_unat [OF sub] checked_add_unat [OF add] books_visible_limit(1) [OF ok, of ?t]
      in \<open>auto simp: usage_in_row enter_usage_row touch_usage_def logical_terminal_def\<close>)
  show ?thesis
  proof (cases "proven_allocation op physical (of_nat (length (filter (child_version (lo_intent op)) (mr_versions st))))")
    case (Inl e)
    with Some ok show ?thesis by (simp add: prove_logical_abort_def Let_def)
  next
    case (Inr c)
    note c = proven_allocation_bound [OF this]
    show ?thesis
      using Some ok q(2) ok' settle [OF _ _ _ c] fits [OF c] Inr
      by (auto simp: prove_logical_abort_def Let_def usage_in_row split: option.split)
  qed
qed

lemma books_logical_step: "books_ok st \<Longrightarrow> books_ok (logical_step env call st)"
  by (cases call)
     (simp_all add: books_fences books_insert books_touches books_claim books_reserve books_enter books_finalize
        books_commit_delete books_atomic_delete books_prove_abort books_abort_put)

lemma find_entry:
  assumes "find P (mr_logical_operations st) = Some (i, op)" "books_ok st"
  shows "get_logical st i = Some op"
  using assms by (auto simp: find_Some_iff get_logical_def books_ok_def intro: hm_get_mem nth_mem dest: nth_mem)

lemma books_forget:
  assumes ok: "books_ok st"
  shows "books_ok (fst (forget_physical_version env target st))"
proof -
  let ?st = "st\<lparr>mr_versions := filter (\<lambda>candidate. candidate \<noteq> target) (mr_versions st)\<rparr>"
  have ok1: "books_ok ?st" using ok by simp
  have release: "books_ok (set_logical i (op\<lparr>lo_released_physical_bytes := lo_committed_physical_bytes op, lo_updated_at_ms := n\<rparr>)
      (set_usage (operation_tenant op) (touch_usage n ((usage_in m (operation_tenant op) ?st)\<lparr>wu_physical_allocated_bytes := a\<rparr>))
         (enter_usage m (operation_tenant op) ?st)))"
    if op: "get_logical st i = Some op"
      and held: "checked_sub (lo_committed_physical_bytes op) (lo_released_physical_bytes op) = Some r" "r \<noteq> 0"
      and sub: "checked_sub (wu_physical_allocated_bytes (row st (operation_tenant op))) r = Some a" for i op r a n m
  proof -
    let ?t = "operation_tenant op"
    let ?s = "enter_usage m ?t ?st"
    let ?op = "op\<lparr>lo_released_physical_bytes := lo_committed_physical_bytes op, lo_updated_at_ms := n\<rparr>"
    have booked: "operation_booked st i op" and row: "row_booked st ?t"
      using books_operation [OF ok op] books_row [OF ok] by simp_all
    have "lo_committed_physical_bytes op \<noteq> 0" using held by (auto simp: checked_sub_Some)
    then have terminal: "logical_terminal (lo_state op)" using booked by (auto simp: operation_booked_def)
    then have idle: "wu_active_operation_id (row st ?t) \<noteq> Some i"
      using active_operation(4) [OF ok op] by blast
    have bytes: "unat (lo_committed_physical_bytes op) - unat (lo_released_physical_bytes op) = unat r"
      "unat a = unat (wu_physical_allocated_bytes (row st ?t)) - unat r"
      "unat r \<le> unat (wu_physical_allocated_bytes (row st ?t))"
      using checked_sub_unat [OF held(1)] checked_sub_unat [OF sub] sub by (auto simp: checked_sub_Some word_le_nat_alt)
    have slot: "slot_ok (lo_state op) mine free" for mine free
      using terminal by (cases "lo_state op") (simp_all add: logical_terminal_def)
    show ?thesis
      by (rule books_move [of ?s i op ?t ?op])
         (use ok1 op idle bytes slot terminal books_capacity [OF ok, of ?t] books_visible_limit(1) [OF ok, of ?t] in
           \<open>auto simp: books_enter enter_usage_row usage_in_row touch_usage_def held_physical_def slot_moves_def\<close>)
  qed
  show ?thesis
  proof (cases "find (\<lambda>(_, op). li_primary_child_operation_id (lo_intent op) = vt_write_operation_id target)
      (mr_logical_operations st)")
    case None
    then show ?thesis using ok1 by (simp add: forget_physical_version_def Let_def)
  next
    case (Some p)
    obtain i op where p: "p = (i, op)" by (cases p)
    have op: "get_logical st i = Some op" using find_entry ok Some p by blast
    show ?thesis
      using Some p ok1 release [OF op]
      by (auto simp: forget_physical_version_def Let_def usage_in_row books_enter split: option.split)
  qed
qed

lemma erase_logical:
  "get_logical (erase_namespace n t st) i = map_option (\<lambda>op. if operation_tenant op = t
     then op\<lparr>lo_released_physical_bytes := lo_committed_physical_bytes op, lo_updated_at_ms := n\<rparr> else op) (get_logical st i)"
  by (simp add: erase_namespace_def Let_def get_logical_def hm_get_map)

lemma erase_logical_other:
  "get_logical st i = Some op \<Longrightarrow> operation_tenant op \<noteq> t \<Longrightarrow> get_logical (erase_namespace n t st) i = Some op"
  by (simp add: erase_logical)

lemma erase_row:
  "s \<noteq> t \<Longrightarrow> row (erase_namespace n t st) s = row st s"
  "wu_visible_limit_bytes (row (erase_namespace n t st) t) = wu_visible_limit_bytes (row st t)"
  "wu_replacement_headroom_bytes (row (erase_namespace n t st) t) = wu_replacement_headroom_bytes (row st t)"
  "wu_physical_allocated_bytes (row (erase_namespace n t st) t) = 0"
  "wu_reserved_bytes (row (erase_namespace n t st) t) = 0"
  "wu_visible_logical_bytes (row (erase_namespace n t st) t) = 0"
  "wu_active_operation_id (row (erase_namespace n t st) t) = None"
  by (simp_all add: erase_namespace_def Let_def row_def usage_in_def touch_usage_def usage_default_def map_laws
      split: option.split)

lemma erase_sum:
  "hm_sum (held_physical s) (mr_logical_operations (erase_namespace n t st)) =
     (if s = t then 0 else hm_sum (held_physical s) (mr_logical_operations st))"
proof -
  have each: "held_physical s (if operation_tenant op = t
      then op\<lparr>lo_released_physical_bytes := lo_committed_physical_bytes op, lo_updated_at_ms := n\<rparr> else op)
    = (if s = t then 0 else held_physical s op)" for op
    by (simp add: held_physical_def)
  have "hm_sum (held_physical s) (map (\<lambda>(k, op). (k, if operation_tenant op = t
      then op\<lparr>lo_released_physical_bytes := lo_committed_physical_bytes op, lo_updated_at_ms := n\<rparr> else op)) m)
    = (if s = t then 0 else hm_sum (held_physical s) m)" for m :: "(uuid \<times> managed_logical_operation) list"
    by (induction m) (auto simp add: each split_beta hm_sum_def simp del: if_split)
  then show ?thesis by (simp add: erase_namespace_def Let_def)
qed

lemma books_erase:
  assumes ok: "books_ok st"
    and settled: "\<And>i op. get_logical st i = Some op \<Longrightarrow> operation_tenant op = t \<Longrightarrow> logical_terminal (lo_state op)"
  shows "books_ok (erase_namespace n t st)"
proof -
  have slot: "slot_ok s mine free" if "logical_terminal s" for s mine free
    using that by (cases s) (simp_all add: logical_terminal_def)
  have "operation_booked (erase_namespace n t st) i x" if x: "get_logical (erase_namespace n t st) i = Some x" for i x
  proof -
    obtain op where op: "get_logical st i = Some op" using x by (cases "get_logical st i") (simp_all add: erase_logical)
    have booked: "operation_booked st i op" using ok op by (rule books_operation)
    show ?thesis
      using x op booked settled [OF op] slot
      by (cases "operation_tenant op = t") (auto simp: erase_logical operation_booked_def erase_row(1))
  qed
  moreover have "row_booked (erase_namespace n t st) s" for s
  proof (cases "s = t")
    case True
    then show ?thesis using books_row [OF ok, of t] by (simp add: row_booked_def erase_row erase_sum)
  next
    case False
    then show ?thesis using books_row [OF ok, of s] by (auto simp: row_booked_def erase_row erase_sum intro: erase_logical_other)
  qed
  moreover have "hm_wf (mr_logical_operations (erase_namespace n t st))"
    using ok by (simp add: books_ok_def erase_namespace_def Let_def hm_wf_map)
  ultimately show ?thesis by (simp add: books_ok_def)
qed

lemma books_purge_status [simp]: "books_ok (set_purge_status i s st) = books_ok st"
  by (rule books_same) (simp add: same_books_def set_purge_status_def split: option.split)

lemma books_finish_purge:
  assumes ok: "books_ok st"
  shows "books_ok (fst (finish_purge env i st))"
proof -
  have erase: "books_ok (erase_namespace n t st)"
    if "\<not> list_ex (\<lambda>op. operation_tenant op = t \<and> \<not> logical_terminal (lo_state op)) (hm_values (mr_logical_operations st))"
    for n t
    by (rule books_erase [OF ok])
       (use that ok in \<open>auto simp: list_ex_iff hm_values_get books_ok_def get_logical_def\<close>)
  show ?thesis
    using ok erase
    by (auto simp: finish_purge_def Let_def split: option.split namespace_purge_status.split)
qed

lemma books_physical_step:
  assumes ok: "books_ok st"
  shows "books_ok (physical_step env call st)"
proof (cases "settles_books call")
  case False
  then show ?thesis using physical_step_books books_same ok by blast
next
  case True
  have begun: "books_ok (st\<lparr>mr_fenced_namespaces := f, mr_purges := p\<rparr>)" for f p
    using ok books_same [of st "st\<lparr>mr_fenced_namespaces := f, mr_purges := p\<rparr>"] by (simp add: same_books_def)
  show ?thesis
    using True ok
    by (cases call)
       (auto simp: books_forget get_purge_status_def purge_namespace_def Let_def books_finish_purge begun split: option.split)
qed

lemma books_initial: "books_ok managed_state_default"
  by (simp add: books_ok_def row_booked_def get_logical_def managed_state_default_def row_def usage_in_def
      usage_default_def)

lemma books_reachable: "managed_reachable P st \<Longrightarrow> books_ok st"
proof (induction rule: managed_reachable.induct)
  case (step st call env)
  then show ?case
    using books_logical_step books_physical_step books_same [OF object_step_books]
    by (cases call) simp_all
qed (rule books_initial)

end
