(* ===== verification/Managed_Visible.thy ===== *)
theory Managed_Visible
  imports Managed_Books
begin

text \<open>
  The visible bytes of a workspace and the content of its objects. Puts and
  deletes move the visible bytes by the difference of the sizes, repairs and
  placement changes keep the content of every object, and a purge clears the
  workspace. So long as authorities are written through operations, the visible
  bytes are the sizes of the live objects.
\<close>

section \<open>Visible bytes\<close>

text \<open>What an object counts for in its workspace.\<close>

definition live_bytes :: "string \<Rightarrow> object_authority \<Rightarrow> nat" where
  "live_bytes t authority =
     (if lk_tenant_id (oa_logical authority) = t \<and> \<not> oa_tombstone authority then unat (oa_size authority) else 0)"

abbreviation visible :: "managed_state \<Rightarrow> string \<Rightarrow> u64" where
  "visible st t \<equiv> wu_visible_logical_bytes (row st t)"

definition keyed :: "managed_state \<Rightarrow> bool" where
  "keyed st \<longleftrightarrow> hm_wf (mr_authorities st)
     \<and> (\<forall>k authority. hm_get (mr_authorities st) k = Some authority \<longrightarrow> oa_logical authority = k)"

definition visible_ok :: "managed_state \<Rightarrow> bool" where
  "visible_ok st \<longleftrightarrow> keyed st \<and> (\<forall>t. unat (visible st t) = hm_sum (live_bytes t) (mr_authorities st))"

definition same_visible :: "managed_state \<Rightarrow> managed_state \<Rightarrow> bool" where
  "same_visible st st' \<longleftrightarrow> mr_authorities st' = mr_authorities st \<and> (\<forall>t. visible st' t = visible st t)"

lemma visible_same: "same_visible st st' \<Longrightarrow> visible_ok st' = visible_ok st"
  by (simp add: same_visible_def visible_ok_def keyed_def)

lemma same_visible_refl [simp]: "same_visible st st"
  by (simp add: same_visible_def)

lemma authorities_frame [managed_frame]:
  "mr_authorities (set_logical i op st) = mr_authorities st"
  "mr_authorities (set_usage t u st) = mr_authorities st"
  "mr_authorities (enter_usage n t st) = mr_authorities st"
  "mr_authorities (drop_write_intent j st) = mr_authorities st"
  "mr_authorities (set_purge_status j s st) = mr_authorities st"
  by (simp_all add: set_logical_def set_usage_def enter_usage_def drop_write_intent_def set_purge_status_def split: option.split)

lemma row_frame [simp]:
  "row (drop_write_intent j st) t = row st t"
  "row (enter_epochs s st) t = row st t"
  "row (set_purge_status j x st) t = row st t"
  "row (st\<lparr>mr_routing_epochs := e\<rparr>) t = row st t"
  by (simp_all add: row_def usage_in_def drop_write_intent_def enter_epochs_def set_purge_status_def split: option.split)

lemma same_visible_claims: "same_visible st (fst (claim_operations env w e k ids st))"
proof (induction ids arbitrary: k st)
  case (Cons i ids)
  show ?case
  proof (cases "get_logical st i")
    case (Some op)
    then show ?thesis
      using Cons.IH [of "set_logical i (op\<lparr>lo_recovery_owner := Some w, lo_recovery_token := Some (me_fresh env k),
        lo_recovery_expires_at_ms := Some e\<rparr>) st" "Suc k"]
      by (simp add: Let_def same_visible_def managed_frame)
  qed (use Cons in simp)
qed simp

fun settles_visible :: "logical_call \<Rightarrow> bool" where
  "settles_visible (FinalizeLogicalPut _ _ _ _) = True"
| "settles_visible (CommitLogicalDelete _ _) = True"
| "settles_visible (CommitAtomicLogicalDelete _) = True"
| "settles_visible _ = False"

lemma schedule_abort_cleanup_frame [managed_frame]:
  "mr_authorities (schedule_abort_cleanup env i p st) = mr_authorities st"
  "row (schedule_abort_cleanup env i p st) = row st"
  by (simp_all add: schedule_abort_cleanup_def managed_frame split: option.split)

lemma logical_step_visible:
  assumes "\<not> settles_visible call"
  shows "same_visible st (logical_step env call st)"
proof (cases call)
  case (ClaimStaleLogicalOperations w s e l)
  then show ?thesis using same_visible_claims by (simp add: claim_stale_logical_operations_def Let_def)
next
  case (ReserveLogicalOperation i b)
  then show ?thesis
    by (auto simp: same_visible_def reserve_logical_operation_def Let_def managed_frame enter_usage_row usage_in_row
        touch_usage_def split: option.split)
next
  case (ProveLogicalAbort i e p)
  then show ?thesis
    by (auto simp: same_visible_def prove_logical_abort_def Let_def managed_frame enter_usage_row usage_in_row
        touch_usage_def split: option.split sum.split)
next
  case (AbortLogicalPut i l p e c)
  then show ?thesis
    by (auto simp: same_visible_def abort_logical_put_def Let_def managed_frame enter_usage_row usage_in_row
        touch_usage_def split: option.split sum.split)
qed (use assms in \<open>simp_all add: same_visible_def Let_def managed_frame enter_usage_row route_fence_def
    advance_routing_epoch_def insert_logical_operation_def mark_logical_operation_settled_def
    defer_delete_settlement_def mark_logical_recovery_blocked_def renew_logical_recovery_claim_def
    record_logical_usage_def transition_logical_operation_def record_logical_usage_and_begin_completion_def
    split: option.split sum.split\<close>)

text \<open>Replacing an authority moves the visible bytes by the difference of the sizes.\<close>

lemma visible_replace:
  assumes ok: "visible_ok st" and key: "oa_logical authority = k" and t: "lk_tenant_id k = t"
    and frame: "mr_authorities st' = hm_insert k authority (mr_authorities st)"
    and others: "\<And>s. s \<noteq> t \<Longrightarrow> visible st' s = visible st s"
    and bytes: "unat (visible st' t) + unat (prior_size (hm_get (mr_authorities st) k))
      = unat (visible st t) + (if oa_tombstone authority then 0 else unat (oa_size authority))"
  shows "visible_ok st'"
proof -
  have keyed: "keyed st" using ok by (simp add: visible_ok_def)
  then have "keyed st'"
    using key by (auto simp: keyed_def frame map_laws)
  moreover have "unat (visible st' s) = hm_sum (live_bytes s) (hm_insert k authority (mr_authorities st))" for s
  proof -
    have old: "(case hm_get (mr_authorities st) k of None \<Rightarrow> 0 | Some a \<Rightarrow> live_bytes s a)
        = (if s = t then unat (prior_size (hm_get (mr_authorities st) k)) else 0)"
      using keyed t by (auto simp: keyed_def live_bytes_def prior_size_def split: option.split)
    have new: "live_bytes s authority = (if s = t \<and> \<not> oa_tombstone authority then unat (oa_size authority) else 0)"
      using key t by (auto simp: live_bytes_def)
    have "unat (visible st s) = hm_sum (live_bytes s) (mr_authorities st)" using ok by (simp add: visible_ok_def)
    then show ?thesis
      using hm_sum_insert [of "live_bytes s" k authority "mr_authorities st"] old new bytes others [of s]
      by (cases "s = t") (auto split: if_splits)
  qed
  ultimately show ?thesis by (simp add: visible_ok_def frame)
qed

lemma visible_enter [simp]: "visible_ok (enter_usage n t st) = visible_ok st"
  by (rule visible_same) (simp add: same_visible_def managed_frame enter_usage_row)

lemma visible_versions [simp]: "visible_ok (st\<lparr>mr_versions := vs\<rparr>) = visible_ok st"
  by (rule visible_same) (simp add: same_visible_def)

lemma row_publication [simp]:
  "row (schedule_publication env e x a st) = row st"
  by (simp add: row_def usage_in_def managed_frame fun_eq_iff)

lemma visible_publish_put:
  assumes ok: "visible_ok st"
    and existing: "existing = hm_get (mr_authorities st) (li_logical (lo_intent op))"
    and authority: "oa_logical authority = li_logical (lo_intent op)" "\<not> oa_tombstone authority"
    and bytes: "unat v + unat (prior_size existing) = unat (visible st (operation_tenant op)) + unat (oa_size authority)"
  shows "visible_ok (fst (publish_put env i op v c existing authority intent_id st))"
proof -
  let ?r = "fst (publish_put env i op v c existing authority intent_id st)"
  show ?thesis
  proof (rule visible_replace [OF ok authority(1) refl])
    show "mr_authorities ?r = hm_insert (li_logical (lo_intent op)) authority (mr_authorities st)"
      by (simp add: publish_put_def Let_def managed_frame authority split: option.split)
    show "visible ?r s = visible st s" if "s \<noteq> operation_tenant op" for s
      using that by (simp add: publish_put_def Let_def managed_frame split: option.split)
    have "visible ?r (operation_tenant op) = v"
      by (simp add: publish_put_def Let_def managed_frame touch_usage_def split: option.split)
    then show "unat (visible ?r (operation_tenant op)) + unat (prior_size (hm_get (mr_authorities st) (li_logical (lo_intent op))))
        = unat (visible st (operation_tenant op)) + (if oa_tombstone authority then 0 else unat (oa_size authority))"
      using bytes authority existing by simp
  qed
qed

lemma visible_difference:
  assumes "Option.bind (checked_sub a p) (\<lambda>value. checked_add value n) = Some v"
  shows "unat v + unat p = unat a + unat n"
  using assms checked_add_unat checked_sub_unat
  by (fastforce simp: bind_eq_Some_conv checked_sub_Some word_le_nat_alt)

lemma visible_settle_put:
  assumes ok: "visible_ok st"
  shows "visible_ok (fst (settle_put env i op evidence recipe targets result intent_id st))"
proof -
  let ?t = "operation_tenant op" and ?k = "li_logical (lo_intent op)"
  let ?s = "enter_usage (me_clock env 2) ?t st"
  have publish: "visible_ok (fst (publish_put env i op v c (hm_get (mr_authorities st) ?k)
      (put_authority n (lo_intent op) evidence recipe digest result (hm_get (mr_authorities st) ?k)) intent_id ?s))"
    if moved: "\<not> authority_moved (lo_intent op) (hm_get (mr_authorities st) ?k)"
      and v: "Option.bind (checked_sub (visible st ?t) (li_prior_logical_size (lo_intent op)))
        (\<lambda>value. checked_add value (ue_expected_output_size evidence)) = Some v" for v c n digest
    by (rule visible_publish_put)
       (use ok moved visible_difference [OF v] in
         \<open>simp_all add: managed_frame put_authority_def authority_moved_def enter_usage_row\<close>)
  show ?thesis
    using ok publish by (auto simp: settle_put_def Let_def usage_in_row split: sum.split option.split)
qed

lemma visible_finalize:
  assumes ok: "visible_ok st"
  shows "visible_ok (fst (finalize_logical_put env i lease result claim st))"
proof (cases "and_then (validate_exact_physical_commit result) (\<lambda>_. ok_or ManagedConflict (get_logical st i))")
  case (Inl e)
  then show ?thesis using ok by (simp add: finalize_logical_put_def)
next
  case (Inr op)
  have settle: "visible_ok (fst (settle_put env i op ev rec ts result w (st\<lparr>mr_versions := vs\<rparr>)))" for ev rec ts w vs
    by (rule visible_settle_put) (use ok in simp)
  show ?thesis
    unfolding finalize_logical_put_def Inr sum.case
    using ok settle by (auto simp: Let_def split: sum.split prod.split)
qed

lemma visible_commit_delete:
  assumes ok: "visible_ok st"
  shows "visible_ok (fst (commit_logical_delete env i placement st))"
proof (cases "get_logical st i")
  case None
  with ok show ?thesis by (simp add: commit_logical_delete_def)
next
  case (Some op)
  let ?t = "operation_tenant op" and ?k = "li_logical (lo_intent op)"
  let ?s = "enter_usage (me_clock env 0) ?t st" and ?x = "hm_get (mr_authorities st) ?k"
  have commit: "visible_ok (set_logical i op'
      (set_usage ?t (touch_usage n ((usage_in m ?t (schedule_cleanup env e ?x (?s\<lparr>mr_authorities := hm_insert ?k a (mr_authorities ?s)\<rparr>)))
         \<lparr>wu_visible_logical_bytes := v, wu_active_operation_id := None\<rparr>))
       (schedule_cleanup env e ?x (?s\<lparr>mr_authorities := hm_insert ?k a (mr_authorities ?s)\<rparr>))))"
    if moved: "\<not> authority_moved (lo_intent op) ?x"
      and v: "checked_sub (visible st ?t) (li_prior_logical_size (lo_intent op)) = Some v"
      and a: "oa_logical a = ?k" "oa_tombstone a" for op' n m e a v
    by (rule visible_replace [of ?s a ?k ?t])
       (use ok moved v checked_sub_unat [OF v] a in
         \<open>simp_all add: managed_frame touch_usage_def authority_moved_def enter_usage_row checked_sub_Some word_le_nat_alt\<close>)
  have logical: "oa_logical (tombstone_authority n ?k g p c x) = ?k" "oa_tombstone (tombstone_authority n ?k g p c x)" for n g p c x
    by (simp_all add: tombstone_authority_def)
  show ?thesis
    using Some ok commit [OF _ _ logical]
    by (auto simp: commit_logical_delete_def Let_def usage_in_row logical split: option.split)
qed

lemma visible_atomic_delete:
  assumes ok: "visible_ok st"
  shows "visible_ok (fst (commit_atomic_logical_delete env request st))"
proof -
  let ?k = "dq_logical request" and ?i = "dq_operation_id request"
  let ?t = "lk_tenant_id ?k" and ?x = "hm_get (mr_authorities st) ?k"
  let ?s = "enter_usage (me_clock env 0) ?t st"
  have key: "?x = Some a \<Longrightarrow> oa_logical a = ?k" for a using ok by (simp add: visible_ok_def keyed_def)
  have commit: "visible_ok (set_logical j op'
      (set_usage ?t (touch_usage n ((usage_in m ?t (schedule_cleanup env e ?x (?s\<lparr>mr_authorities := hm_insert ?k a (mr_authorities ?s)\<rparr>)))
         \<lparr>wu_visible_logical_bytes := v\<rparr>)) (schedule_cleanup env e ?x (?s\<lparr>mr_authorities := hm_insert ?k a (mr_authorities ?s)\<rparr>))))"
    if v: "checked_sub (visible st ?t) (prior_size ?x) = Some v"
      and a: "oa_logical a = ?k" "oa_tombstone a" for j op' n m e a v
    by (rule visible_replace [of ?s a ?k ?t])
       (use ok v checked_sub_unat [OF v] a in
         \<open>simp_all add: managed_frame touch_usage_def enter_usage_row checked_sub_Some word_le_nat_alt\<close>)
  have a: "oa_logical (delete_authority env n request ?x) = ?k \<and> oa_tombstone (delete_authority env n request ?x)" for n
  proof (cases ?x)
    case None
    then show ?thesis by (simp add: delete_authority_def tombstone_authority_def)
  next
    case (Some b)
    then show ?thesis using key [OF Some] by (simp add: delete_authority_def tombstone_authority_def Let_def)
  qed
  show ?thesis
    using ok commit [OF _ conjunct1 [OF a] conjunct2 [OF a]]
    by (auto simp: commit_atomic_logical_delete_def Let_def usage_in_row split: option.split sum.split)
qed

lemma visible_logical_step: "visible_ok st \<Longrightarrow> visible_ok (logical_step env call st)"
proof (cases "settles_visible call")
  case False
  then show "visible_ok st \<Longrightarrow> ?thesis" using visible_same [OF logical_step_visible] by blast
next
  case True
  then show "visible_ok st \<Longrightarrow> ?thesis"
    by (cases call) (simp_all add: visible_finalize visible_commit_delete visible_atomic_delete)
qed

text \<open>Repairs and placement changes keep the size of an object.\<close>

lemma visible_resize:
  assumes ok: "visible_ok st" and old: "hm_get (mr_authorities st) k = Some a"
    and same: "oa_logical a' = oa_logical a" "oa_size a' = oa_size a" "oa_tombstone a' = oa_tombstone a"
    and frame: "mr_authorities st' = hm_insert k a' (mr_authorities st)" "mr_workspace_usage st' = mr_workspace_usage st"
  shows "visible_ok st'"
proof -
  have "row st' = row st" using frame(2) by (simp add: row_def usage_in_def fun_eq_iff)
  moreover have "oa_logical a' = k" using ok old same by (simp add: visible_ok_def keyed_def)
  moreover have "prior_size (hm_get (mr_authorities st) k) = (if oa_tombstone a then 0 else oa_size a)"
    using old by (simp add: prior_size_def)
  ultimately show ?thesis
    using same frame(1) by (intro visible_replace [OF ok _ refl, of a' k]) simp_all
qed

definition content_kept :: "object_authority \<Rightarrow> object_authority \<Rightarrow> bool" where
  "content_kept a a' \<longleftrightarrow>
     oa_logical a' = oa_logical a \<and> oa_generation a' = oa_generation a \<and> oa_digest a' = oa_digest a
     \<and> oa_size a' = oa_size a \<and> oa_metadata a' = oa_metadata a \<and> oa_tombstone a' = oa_tombstone a
     \<and> oa_cas_version a' = saturating_add (oa_cas_version a) 1"

definition relocated :: "logical_object_key \<Rightarrow> managed_state \<Rightarrow> managed_state \<Rightarrow> bool" where
  "relocated k st st' \<longleftrightarrow>
     mr_authorities st' = mr_authorities st
     \<or> (\<exists>a a'. hm_get (mr_authorities st) k = Some a \<and> content_kept a a'
          \<and> mr_authorities st' = hm_insert k a' (mr_authorities st))"

lemma apply_completed_relocates: "relocated (rr_logical repair) st (fst (apply_completed_repair env repair st))"
proof (cases "repairable_authority repair st")
  case None
  then show ?thesis by (simp add: apply_completed_repair_def relocated_def)
next
  case (Some a)
  then have a: "hm_get (mr_authorities st) (rr_logical repair) = Some a"
    by (simp add: repairable_authority_def split: option.splits if_splits)
  show ?thesis
  proof (cases "apply_repair_to_authority a repair")
    case (Inl e)
    with Some show ?thesis by (simp add: apply_completed_repair_def relocated_def)
  next
    case (Inr r)
    show ?thesis
    proof (cases r)
      case None
      with Some Inr show ?thesis by (simp add: apply_completed_repair_def relocated_def)
    next
      case new: (Some a')
      let ?a = "a'\<lparr>oa_cas_version := saturating_add (oa_cas_version a') 1, oa_updated_at_ms := me_clock env 1\<rparr>"
      have "content_kept a ?a"
        using apply_repair_keeps_content [of a repair a'] Inr new by (simp add: content_kept_def)
      moreover have "mr_authorities (fst (apply_completed_repair env repair st)) = hm_insert (rr_logical repair) ?a (mr_authorities st)"
        using Some Inr new by (simp add: apply_completed_repair_def Let_def activate_cleanups_def managed_frame)
      ultimately show ?thesis using a unfolding relocated_def by blast
    qed
  qed
qed

lemma complete_repair_relocates: "relocated (rr_logical repair) st (fst (complete_repair env repair st))"
proof -
  have "relocated (rr_logical repair) st (fst (apply_completed_repair env repair (st\<lparr>mr_repairs := q\<rparr>)))" for q
    using apply_completed_relocates [of repair "st\<lparr>mr_repairs := q\<rparr>" env] by (simp add: relocated_def)
  moreover have "relocated k st st" "relocated k st (st\<lparr>mr_repairs := q\<rparr>)" for k q by (simp_all add: relocated_def)
  moreover have "relocated k st (fst (queue_stale_cleanup env repair p)) = relocated k st (fst p)" for k p
    by (simp add: relocated_def managed_frame)
  ultimately show ?thesis by (simp add: complete_repair_def Let_def split: option.split prod.split)
qed

lemma advance_placement_relocates: "relocated k st (fst (advance_placement_version env k c p st))"
proof (cases "hm_get (mr_authorities st) k")
  case (Some a)
  have "content_kept a (a\<lparr>oa_placement_version := v, oa_cas_version := saturating_add (oa_cas_version a) 1, oa_updated_at_ms := n\<rparr>)"
    for v n by (simp add: content_kept_def)
  with Some show ?thesis by (auto simp: advance_placement_version_def Let_def relocated_def)
qed (simp add: advance_placement_version_def relocated_def)

fun publishes :: "managed_call \<Rightarrow> bool" where
  "publishes (ObjectCall (Publish _ _)) = True"
| "publishes _ = False"

lemma object_step_relocates:
  assumes "\<not> publishes (ObjectCall call)"
  shows "\<exists>k. relocated k st (object_step env call st)"
proof (cases call)
  case (AdvancePlacementVersion k c p)
  then show ?thesis using advance_placement_relocates [of k st env c p] by (simp only: object_step.simps) blast
next
  case (CompleteRepair r)
  then show ?thesis using complete_repair_relocates [of r st env] by (simp only: object_step.simps) blast
qed (use assms in \<open>simp_all add: relocated_def managed_frame Let_def create_list_cursor_def use_list_cursor_def
      delete_list_cursor_def cleanup_expired_list_cursors_def begin_multipart_activity_def
      confirm_multipart_activity_def finish_multipart_activity_def record_placement_policy_def
      enqueue_def claim_repairs_def renew_repair_def fail_repair_def split: option.split prod.split\<close>)

lemma visible_object_step:
  assumes ok: "visible_ok st" and call: "\<not> publishes (ObjectCall call)"
  shows "visible_ok (object_step env call st)"
proof -
  have rows: "mr_workspace_usage (object_step env call st) = mr_workspace_usage st"
    using object_step_books [of st env call] by (simp add: same_books_def)
  obtain k where "relocated k st (object_step env call st)" using object_step_relocates [OF call] by blast
  then consider (same) "mr_authorities (object_step env call st) = mr_authorities st"
    | (changed) a a' where "hm_get (mr_authorities st) k = Some a" "content_kept a a'"
      "mr_authorities (object_step env call st) = hm_insert k a' (mr_authorities st)"
    unfolding relocated_def by blast
  then show ?thesis
  proof cases
    case same
    then have "same_visible st (object_step env call st)" using rows by (simp add: same_visible_def row_def usage_in_def)
    then show ?thesis using ok visible_same by blast
  next
    case changed
    show ?thesis
      by (rule visible_resize [OF ok changed(1) _ _ _ changed(3) rows]) (use changed(2) in \<open>simp_all add: content_kept_def\<close>)
  qed
qed

text \<open>A purge drops the authorities of its workspace and clears its row.\<close>

lemma sum_retain_other:
  assumes "\<forall>(k, a) \<in> set m. oa_logical a = k"
  shows "hm_sum (live_bytes s) (hm_retain (\<lambda>k _. lk_tenant_id k \<noteq> t) m) = (if s = t then 0 else hm_sum (live_bytes s) m)"
  using assms
proof (induction m)
  case (Cons p m)
  obtain k a where p: "p = (k, a)" by (cases p)
  have k: "oa_logical a = k" and m: "\<forall>(k, a) \<in> set m. oa_logical a = k" using Cons.prems p by simp_all
  have "live_bytes s a = 0" if "lk_tenant_id k \<noteq> s" using that k by (simp add: live_bytes_def)
  then show ?case
    using Cons.IH [OF m] unfolding p by (cases "lk_tenant_id k = t") (auto simp: hm_retain_def)
qed (simp add: hm_retain_def)

lemma visible_erase:
  assumes ok: "visible_ok st"
  shows "visible_ok (erase_namespace n t st)"
proof -
  have keyed: "keyed st" using ok by (simp add: visible_ok_def)
  have mem: "\<forall>(k, a) \<in> set (mr_authorities st). oa_logical a = k"
  proof (rule ballI, clarify)
    fix k a assume "(k, a) \<in> set (mr_authorities st)"
    then have "hm_get (mr_authorities st) k = Some a" using keyed hm_get_mem [of "mr_authorities st" k a] by (simp add: keyed_def)
    then show "oa_logical a = k" using keyed by (simp add: keyed_def)
  qed
  have auth: "mr_authorities (erase_namespace n t st) = hm_retain (\<lambda>k _. lk_tenant_id k \<noteq> t) (mr_authorities st)"
    by (simp add: erase_namespace_def Let_def)
  have bytes: "unat (visible st s) = hm_sum (live_bytes s) (mr_authorities st)" for s
    using ok unfolding visible_ok_def by blast
  have wf: "hm_wf (mr_authorities st)" using keyed by (simp add: keyed_def)
  have kept: "hm_get (mr_authorities st) k = Some a"
    if "hm_get (hm_retain (\<lambda>k _. lk_tenant_id k \<noteq> t) (mr_authorities st)) k = Some a" for k a
    using that unfolding hm_get_retain [OF wf] by (simp split: option.splits if_splits)
  have "keyed (erase_namespace n t st)"
    using keyed kept hm_wf_retain [OF wf] unfolding keyed_def auth by blast
  moreover have "unat (visible (erase_namespace n t st) s) = hm_sum (live_bytes s) (mr_authorities (erase_namespace n t st))" for s
    unfolding auth sum_retain_other [OF mem] using bytes [of s] by (cases "s = t") (simp_all add: erase_row)
  ultimately show ?thesis by (simp add: visible_ok_def)
qed

lemma visible_finish_purge:
  assumes ok: "visible_ok st"
  shows "visible_ok (fst (finish_purge env i st))"
proof -
  have status: "visible_ok (set_purge_status j s st') = visible_ok st'" for j s st'
    by (rule visible_same) (simp add: same_visible_def managed_frame)
  show ?thesis
    using ok visible_erase [OF ok]
    by (auto simp: finish_purge_def Let_def status split: option.split namespace_purge_status.split)
qed

lemma visible_physical_step:
  assumes ok: "visible_ok st"
  shows "visible_ok (physical_step env call st)"
proof (cases "settles_books call")
  case False
  have "mr_authorities (physical_step env call st) = mr_authorities st"
    using False
    by (cases call)
       (simp_all add: managed_frame Let_def begin_physical_write_def renew_physical_write_intent_def
        claim_expired_physical_write_intent_def claim_logical_physical_write_intent_def take_over_intent_def
        commit_physical_write_def abort_physical_write_def block_physical_write_def
        mark_purge_target_deleted_def mark_purge_target_blocked_def split: option.split sum.split)
  then have "same_visible st (physical_step env call st)"
    using physical_step_books [OF False, of st env] by (simp add: same_visible_def same_books_def row_def usage_in_def)
  then show ?thesis using ok visible_same by blast
next
  case True
  have begun: "visible_ok (st\<lparr>mr_fenced_namespaces := f, mr_purges := p\<rparr>)" for f p
    using ok visible_same [of st "st\<lparr>mr_fenced_namespaces := f, mr_purges := p\<rparr>"]
    by (simp add: same_visible_def row_def usage_in_def)
  have forget: "visible_ok (fst (forget_physical_version env target st))" for target
  proof -
    have "same_visible st (fst (forget_physical_version env target st))"
      by (auto simp: same_visible_def forget_physical_version_def Let_def managed_frame enter_usage_row usage_in_row
          touch_usage_def split: option.split)
    then show ?thesis using ok visible_same by blast
  qed
  show ?thesis
    using True ok
    by (cases call)
       (auto simp: forget get_purge_status_def purge_namespace_def Let_def visible_finish_purge begun split: option.split)
qed

lemma visible_initial: "visible_ok managed_state_default"
  by (simp add: visible_ok_def keyed_def managed_state_default_def row_def usage_in_def usage_default_def)

lemma visible_reachable:
  "managed_reachable (\<lambda>call. \<not> publishes call) st \<Longrightarrow> visible_ok st"
proof (induction rule: managed_reachable.induct)
  case (step st call env)
  then show ?case
    using visible_logical_step visible_physical_step visible_object_step
    by (cases call) simp_all
qed (rule visible_initial)

end
