(* ===== verification/Managed_Runs.thy ===== *)
theory Managed_Runs
  imports Managed_Visible
begin

text \<open>
  Runs of the managed repository: what every call keeps of an operation, how
  the versions of an authority move, what the end of a purge leaves behind, and
  what a writer can still do whose lease was taken over.
\<close>

section \<open>Operations along a run\<close>

text \<open>
  What no call undoes: the intent of an operation, evidence once recorded, that
  it left the intent state, and everything about its outcome.
\<close>

definition operation_follows :: "managed_logical_operation \<Rightarrow> managed_logical_operation \<Rightarrow> bool" where
  "operation_follows op op' \<longleftrightarrow>
     lo_intent op' = lo_intent op
     \<and> (lo_evidence op \<noteq> None \<longrightarrow> lo_evidence op' = lo_evidence op)
     \<and> (lo_state op \<noteq> LogicalIntent \<longrightarrow> lo_state op' \<noteq> LogicalIntent)
     \<and> (logical_terminal (lo_state op) \<longrightarrow>
          lo_state op' = lo_state op
          \<and> lo_committed_physical_bytes op' = lo_committed_physical_bytes op
          \<and> lo_committed_authority_version op' = lo_committed_authority_version op
          \<and> lo_committed_at_ms op' = lo_committed_at_ms op \<and> lo_aborted_at_ms op' = lo_aborted_at_ms op)"

definition operations_follow :: "managed_state \<Rightarrow> managed_state \<Rightarrow> bool" where
  "operations_follow st st' \<longleftrightarrow>
     (\<forall>i op. get_logical st i = Some op \<longrightarrow> (\<exists>op'. get_logical st' i = Some op' \<and> operation_follows op op'))"

lemma operation_follows_refl [simp]: "operation_follows op op"
  by (simp add: operation_follows_def)

lemma operation_follows_trans: "operation_follows a b \<Longrightarrow> operation_follows b c \<Longrightarrow> operation_follows a c"
  by (auto simp: operation_follows_def)

lemma operations_follow_same:
  "mr_logical_operations st' = mr_logical_operations st \<Longrightarrow> operations_follow st st'"
  by (simp add: operations_follow_def get_logical_def)

lemma operations_follow_refl [simp]: "operations_follow st st"
  by (rule operations_follow_same) simp

lemma operations_follow_trans:
  assumes "operations_follow a b" "operations_follow b c"
  shows "operations_follow a c"
  using assms operation_follows_trans unfolding operations_follow_def by metis

lemma operations_follow_set:
  assumes "mr_logical_operations s = mr_logical_operations st"
    and "\<And>op. get_logical st i = Some op \<Longrightarrow> operation_follows op op'"
  shows "operations_follow st (set_logical i op' s)"
  using assms unfolding operations_follow_def
  by (simp add: get_logical_def set_logical_def map_laws)

lemma operations_follow_enter [simp]: "operations_follow st (enter_usage n t st)"
  by (rule operations_follow_same) (simp add: enter_usage_def)

lemma usage_operations [simp]:
  "mr_logical_operations (enter_usage n t st) = mr_logical_operations st"
  "mr_logical_operations (set_usage t u st) = mr_logical_operations st"
  "mr_logical_operations (schedule_abort_cleanup env i p st) = mr_logical_operations st"
  by (simp_all add: enter_usage_def set_usage_def schedule_abort_cleanup_def managed_frame split: option.split)

lemma operations_follow_drop:
  "operations_follow st s \<Longrightarrow> operations_follow st (drop_write_intent i s)"
  by (simp add: operations_follow_def get_logical_def drop_write_intent_def)

lemmas follows_simps = operation_follows_def logical_terminal_def clear_recovery_def

lemma follow_touches:
  "operations_follow st (fst (mark_logical_operation_settled env i r st))"
  "operations_follow st (fst (defer_delete_settlement env i r st))"
  "operations_follow st (fst (mark_logical_recovery_blocked env c reason st))"
  "operations_follow st (fst (renew_logical_recovery_claim env c e st))"
  "operations_follow st (fst (record_logical_usage env i ev st))"
  "operations_follow st (fst (transition_logical_operation env i from to err st))"
  "operations_follow st (fst (record_logical_usage_and_begin_completion env i ev st))"
  "operations_follow st (fst (reserve_logical_operation env i b st))"
proof -
  note set = operations_follow_set [OF refl]
  show "operations_follow st (fst (mark_logical_operation_settled env i r st))"
    by (auto simp: mark_logical_operation_settled_def follows_simps intro!: set split: option.split)
  show "operations_follow st (fst (defer_delete_settlement env i r st))"
    by (auto simp: defer_delete_settlement_def follows_simps intro!: set split: option.split)
  show "operations_follow st (fst (mark_logical_recovery_blocked env c reason st))"
    by (auto simp: mark_logical_recovery_blocked_def Let_def claim_current_def follows_simps intro!: set split: option.split)
  show "operations_follow st (fst (renew_logical_recovery_claim env c e st))"
    by (auto simp: renew_logical_recovery_claim_def Let_def follows_simps intro!: set split: option.split)
  show "operations_follow st (fst (record_logical_usage env i ev st))"
    by (auto simp: record_logical_usage_def Let_def follows_simps intro!: set split: option.split)
  show "operations_follow st (fst (transition_logical_operation env i from to err st))"
    by (auto simp: transition_logical_operation_def Let_def valid_logical_transition_def follows_simps
        intro!: set split: option.split)
  show "operations_follow st (fst (record_logical_usage_and_begin_completion env i ev st))"
    by (auto simp: record_logical_usage_and_begin_completion_def Let_def follows_simps
        intro!: set split: option.split if_splits)
  show "operations_follow st (fst (reserve_logical_operation env i b st))"
    by (auto simp: reserve_logical_operation_def Let_def follows_simps 
        intro!: operations_follow_set split: option.split)
qed

lemma follow_claims: "operations_follow st (fst (claim_operations env w e k ids st))"
proof (induction ids arbitrary: k st)
  case (Cons i ids)
  show ?case
  proof (cases "get_logical st i")
    case (Some op)
    have "operations_follow st (set_logical i (op\<lparr>lo_recovery_owner := Some w, lo_recovery_token := Some (me_fresh env k),
        lo_recovery_expires_at_ms := Some e\<rparr>) st)"
      by (rule operations_follow_set [OF refl]) (use Some in \<open>simp add: follows_simps\<close>)
    then show ?thesis using operations_follow_trans [OF _ Cons.IH] Some by (simp add: Let_def)
  qed (use Cons in simp)
qed simp

lemma follow_insert: "operations_follow st (fst (insert_logical_operation env intent st))"
proof -
  have "operations_follow st (enter_epochs t st)" for t by (rule operations_follow_same) (simp add: managed_frame)
  moreover have "operations_follow st (set_logical i op (enter_epochs t st))"
    if "get_logical (enter_epochs t st) i = None" for i op t
    by (rule operations_follow_set) (use that in \<open>simp_all add: get_logical_def managed_frame\<close>)
  ultimately show ?thesis
    by (auto simp: insert_logical_operation_def Let_def split: sum.split option.split)
qed

lemma follow_publish_put:
  assumes op: "get_logical st i = Some op" and live: "\<not> logical_terminal (lo_state op)"
  shows "operations_follow st (fst (publish_put env i op v c existing authority w st))"
proof -
  let ?s = "schedule_publication env (rf_namespace_epoch (li_fence (lo_intent op))) existing authority
    (st\<lparr>mr_authorities := hm_insert (oa_logical authority) authority (mr_authorities st)\<rparr>)"
  have "operations_follow st (set_usage t u ?s)" "operations_follow st (set_usage t u (set_usage t u' ?s))" for t u u'
    by (rule operations_follow_same, simp add: managed_frame)+
  moreover have "operations_follow st (drop_write_intent w (set_logical i
      ((clear_recovery op)\<lparr>lo_state := LogicalCommitted, lo_committed_physical_bytes := c,
         lo_committed_authority_version := Some (oa_cas_version authority),
         lo_updated_at_ms := n, lo_committed_at_ms := Some n\<rparr>) (set_usage t u (set_usage t u' (set_usage t u'' ?s)))))" for n t u u' u''
    by (intro operations_follow_drop operations_follow_set)
       (use op live in \<open>simp_all add: managed_frame follows_simps\<close>)
  ultimately show ?thesis by (simp add: publish_put_def Let_def split: option.split)
qed

lemma follow_settle_put:
  assumes op: "get_logical st i = Some op" and live: "\<not> logical_terminal (lo_state op)"
  shows "operations_follow st (fst (settle_put env i op evidence recipe targets result w st))"
proof -
  let ?s = "enter_usage (me_clock env 2) (operation_tenant op) st"
  have "operations_follow st (fst (publish_put env i op v c existing authority w ?s))" for v c existing authority
  proof (rule operations_follow_trans [OF operations_follow_enter])
    show "operations_follow ?s (fst (publish_put env i op v c existing authority w ?s))"
      by (rule follow_publish_put) (use op live in simp_all)
  qed
  then show ?thesis by (simp add: settle_put_def Let_def split: sum.split option.split)
qed

lemma follow_finalize: "operations_follow st (fst (finalize_logical_put env i lease result claim st))"
proof (cases "and_then (validate_exact_physical_commit result) (\<lambda>_. ok_or ManagedConflict (get_logical st i))")
  case (Inl e)
  then show ?thesis by (simp add: finalize_logical_put_def)
next
  case (Inr op)
  then have op: "get_logical st i = Some op" by (simp add: result_simps)
  have settle: "operations_follow st (fst (settle_put env i op ev rec ts result w (st\<lparr>mr_versions := vs\<rparr>)))"
    if "lo_state op \<in> {LogicalCompleting, LogicalCommitUnknown, LogicalRecoveryBlocked}" for ev rec ts w vs
  proof (rule operations_follow_trans)
    show "operations_follow st (st\<lparr>mr_versions := vs\<rparr>)" by (rule operations_follow_same) simp
    show "operations_follow (st\<lparr>mr_versions := vs\<rparr>) (fst (settle_put env i op ev rec ts result w (st\<lparr>mr_versions := vs\<rparr>)))"
      by (rule follow_settle_put) (use op that in \<open>auto simp: logical_terminal_def\<close>)
  qed
  show ?thesis
    unfolding finalize_logical_put_def Inr sum.case
    using settle by (auto simp: Let_def and_then_Inr split: sum.split prod.split if_splits)
qed

lemma follow_commit_delete: "operations_follow st (fst (commit_logical_delete env i placement st))"
proof (cases "get_logical st i")
  case None
  then show ?thesis by (simp add: commit_logical_delete_def)
next
  case (Some op)
  have "operations_follow st (set_logical i (op\<lparr>lo_state := LogicalCommitted, lo_committed_authority_version := v,
      lo_updated_at_ms := n, lo_committed_at_ms := m\<rparr>)
      (set_usage t u (schedule_cleanup env e x (enter_usage l t' st\<lparr>mr_authorities := au\<rparr>))))"
    if "lo_state op \<in> {LogicalCompleting, LogicalCommitUnknown}" for v n m t u e x l t' au
    by (rule operations_follow_set) (use Some that in \<open>auto simp: managed_frame follows_simps\<close>)
  with Some show ?thesis by (auto simp: commit_logical_delete_def Let_def split: option.split)
qed

lemma follow_atomic_delete: "operations_follow st (fst (commit_atomic_logical_delete env request st))"
proof -
  have "operations_follow st (set_logical i op' (set_usage t u (schedule_cleanup env e x (enter_usage l t' st\<lparr>mr_authorities := au\<rparr>))))"
    if "get_logical st i = None" for i op' t u e x l t' au
    by (rule operations_follow_set) (use that in \<open>simp_all add: managed_frame\<close>)
  then show ?thesis by (auto simp: commit_atomic_logical_delete_def Let_def split: option.split sum.split)
qed

lemma follow_prove_abort: "operations_follow st (fst (prove_logical_abort env i e p st))"
proof (cases "get_logical st i")
  case None
  then show ?thesis by (simp add: prove_logical_abort_def)
next
  case (Some op)
  let ?s = "schedule_abort_cleanup env (lo_intent op) p st"
  have same: "operations_follow st (enter_usage n t ?s)" "operations_follow st (set_usage t' u (enter_usage n t ?s))" for n t t' u
    by (rule operations_follow_same, simp)+
  have "operations_follow st (set_logical i (op\<lparr>lo_state := LogicalProvenAborted, lo_committed_physical_bytes := c,
      lo_settlement_state := Released, lo_last_error_class := x, lo_updated_at_ms := m, lo_aborted_at_ms := k\<rparr>)
      (set_usage t u (set_usage t u' (enter_usage n t ?s))))"
    if "lo_state op \<noteq> LogicalProvenAborted" "lo_state op \<noteq> LogicalCommitted" for c x m k t u u' n
    by (rule operations_follow_set) (use Some that in \<open>simp_all add: follows_simps\<close>)
  with same Some show ?thesis
    by (simp add: prove_logical_abort_def Let_def split: option.split sum.split)
qed

lemma follow_abort_put: "operations_follow st (fst (abort_logical_put env i l p e c st))"
proof (cases "get_logical st i")
  case None
  then show ?thesis by (simp add: abort_logical_put_def)
next
  case (Some op)
  have "operations_follow st (drop_write_intent j (set_logical i
      ((clear_recovery op)\<lparr>lo_state := LogicalProvenAborted, lo_settlement_state := Released, lo_last_error_class := x,
         lo_updated_at_ms := m, lo_aborted_at_ms := k\<rparr>) (set_usage t u (enter_usage n t st))))"
    if "lo_state op \<noteq> LogicalProvenAborted" "lo_state op \<noteq> LogicalCommitted" for j x m k t u n
    by (intro operations_follow_drop operations_follow_set) (use Some that in \<open>simp_all add: follows_simps\<close>)
  with Some show ?thesis
    by (simp add: abort_logical_put_def Let_def split: option.split sum.split)
qed

lemma follow_logical_step: "operations_follow st (logical_step env call st)"
proof (cases call)
  case (ClaimStaleLogicalOperations w s e l)
  then show ?thesis using follow_claims by (simp add: claim_stale_logical_operations_def Let_def)
next
  case (RouteFence t)
  then show ?thesis by (intro operations_follow_same) (simp add: route_fence_def Let_def managed_frame)
next
  case (AdvanceRoutingEpoch t e)
  then show ?thesis
    by (intro operations_follow_same) (simp add: advance_routing_epoch_def Let_def managed_frame split: option.split)
qed (simp_all add: follow_touches follow_insert follow_finalize follow_commit_delete follow_atomic_delete
      follow_prove_abort follow_abort_put)

lemma follow_forget:
  assumes wf: "hm_wf (mr_logical_operations st)"
  shows "operations_follow st (fst (forget_physical_version env target st))"
proof -
  have same: "operations_follow st (st\<lparr>mr_versions := vs\<rparr>)" "operations_follow st (enter_usage n t (st\<lparr>mr_versions := vs\<rparr>))" for n t vs
    by (rule operations_follow_same, simp)+
  have "operations_follow st (set_logical i (op\<lparr>lo_released_physical_bytes := b, lo_updated_at_ms := m\<rparr>)
      (set_usage t u (enter_usage n t (st\<lparr>mr_versions := vs\<rparr>))))"
    if found: "find (\<lambda>(_, op). P op) (mr_logical_operations st) = Some (i, op)" for P i op b m t u n vs
  proof -
    have "(i, op) \<in> set (mr_logical_operations st)" using found by (auto simp: find_Some_iff in_set_conv_nth)
    then have "get_logical st i = Some op" using hm_get_mem [OF wf] by (simp add: get_logical_def)
    then show ?thesis by (intro operations_follow_set) (simp_all add: follows_simps)
  qed
  with same show ?thesis
    by (auto simp: forget_physical_version_def Let_def split: option.split)
qed

lemma follow_erase: "operations_follow st (erase_namespace n t st)"
  unfolding operations_follow_def erase_logical by (simp add: follows_simps)

lemma follow_finish_purge: "operations_follow st (fst (finish_purge env i st))"
proof -
  have status: "mr_logical_operations (set_purge_status j s st') = mr_logical_operations st'" for j s st'
    by (simp add: set_purge_status_def split: option.split)
  have "operations_follow st (set_purge_status j s st)" for j s by (rule operations_follow_same) (rule status)
  moreover have "operations_follow st (set_purge_status j s (erase_namespace n t st))" for j s n t
    using follow_erase by (rule operations_follow_trans) (rule operations_follow_same, rule status)
  ultimately show ?thesis
    by (auto simp: finish_purge_def Let_def split: option.split namespace_purge_status.split)
qed

lemma follow_step:
  assumes wf: "hm_wf (mr_logical_operations st)"
  shows "operations_follow st (managed_step env call st)"
proof (cases call)
  case (LogicalCall c)
  then show ?thesis by (simp add: follow_logical_step)
next
  case (ObjectCall c)
  then show ?thesis using object_step_books operations_follow_same by (simp add: same_books_def)
next
  case (PhysicalCall c)
  show ?thesis
  proof (cases "settles_books c")
    case False
    then show ?thesis using physical_step_books operations_follow_same PhysicalCall by (simp add: same_books_def)
  next
    case True
    have begun: "operations_follow st (fst (finish_purge env i (st\<lparr>mr_fenced_namespaces := f, mr_purges := p\<rparr>)))" for i f p
      using operations_follow_trans [OF operations_follow_same follow_finish_purge] by simp
    show ?thesis using True PhysicalCall
      by (cases c) (auto simp: follow_forget [OF wf] follow_finish_purge begun get_purge_status_def purge_namespace_def Let_def
          split: option.split)
  qed
qed

section \<open>Runs\<close>

inductive managed_run :: "(managed_call \<Rightarrow> bool) \<Rightarrow> managed_state \<Rightarrow> managed_state \<Rightarrow> bool" for admitted st where
  refl: "managed_run admitted st st"
| step: "managed_run admitted st st' \<Longrightarrow> admitted call \<Longrightarrow> managed_run admitted st (managed_step env call st')"

lemma run_reachable:
  "managed_run admitted st st' \<Longrightarrow> managed_reachable P st \<Longrightarrow> managed_reachable (\<lambda>call. P call \<or> admitted call) st'"
proof (induction rule: managed_run.induct)
  case refl
  then show ?case by (induction rule: managed_reachable.induct) (auto intro: managed_reachable.intros)
next
  case (step st' call env)
  then show ?case by (auto intro: managed_reachable.step)
qed

lemma follow_run:
  assumes "managed_run admitted st st'" "managed_reachable P st"
  shows "operations_follow st st'"
  using assms
proof (induction rule: managed_run.induct)
  case (step st' call env)
  have "hm_wf (mr_logical_operations st')"
    using books_reachable [OF run_reachable [OF step.hyps(1) step.prems]] by (simp add: books_ok_def)
  then show ?case using step operations_follow_trans follow_step by blast
qed simp

section \<open>Authority versions\<close>

definition stored_version :: "managed_state \<Rightarrow> logical_object_key \<Rightarrow> u64" where
  "stored_version st k = (case hm_get (mr_authorities st) k of Some a \<Rightarrow> oa_cas_version a | None \<Rightarrow> 0)"

text \<open>A call writes at most one authority, and a changed one carries the next version.\<close>

definition authority_step :: "managed_state \<Rightarrow> managed_state \<Rightarrow> bool" where
  "authority_step st st' \<longleftrightarrow>
     mr_authorities st' = mr_authorities st
     \<or> (\<exists>k a. mr_authorities st' = hm_insert k a (mr_authorities st)
          \<and> (hm_get (mr_authorities st) k = Some a \<or> oa_cas_version a = saturating_add (stored_version st k) 1))"

lemma authority_step_refl [simp]: "authority_step st st"
  by (simp add: authority_step_def)

lemma authority_step_same: "mr_authorities st' = mr_authorities st \<Longrightarrow> authority_step st st'"
  by (simp add: authority_step_def)

lemma authority_step_write:
  assumes "mr_authorities st' = hm_insert k a (mr_authorities st)"
    and "hm_get (mr_authorities st) k = Some a \<or> oa_cas_version a = saturating_add (stored_version st k) 1"
  shows "authority_step st st'"
  using assms unfolding authority_step_def by blast

lemma expected_version:
  assumes "\<not> authority_moved intent (hm_get (mr_authorities st) (li_logical intent))"
  shows "next_cas intent = saturating_add (stored_version st (li_logical intent)) 1"
proof -
  have "map_option oa_cas_version (hm_get (mr_authorities st) (li_logical intent)) = li_expected_authority_cas intent"
    using assms by (simp add: authority_moved_def)
  then show ?thesis
    by (cases "hm_get (mr_authorities st) (li_logical intent)") (auto simp: next_cas_def stored_version_def dest: sym)
qed

lemma publish_put_authorities:
  "mr_authorities (fst (publish_put env i op v c existing a w st)) = hm_insert (oa_logical a) a (mr_authorities st)"
  by (simp add: publish_put_def Let_def managed_frame split: option.split)

lemma version_settle_put: "authority_step st (fst (settle_put env i op evidence recipe targets result w st))"
proof -
  let ?s = "enter_usage (me_clock env 2) (operation_tenant op) st"
  have "authority_step st (fst (publish_put env i op v c x (put_authority n (lo_intent op) evidence recipe digest result x) w ?s))"
    if "\<not> authority_moved (lo_intent op) (hm_get (mr_authorities st) (li_logical (lo_intent op)))" for v c n digest x
    by (rule authority_step_write [of _ "li_logical (lo_intent op)" "put_authority n (lo_intent op) evidence recipe digest result x"])
       (use expected_version [OF that] in \<open>simp_all add: publish_put_authorities put_authority_def managed_frame\<close>)
  moreover have "authority_step st ?s" by (rule authority_step_same) (simp add: managed_frame)
  ultimately show ?thesis by (simp add: settle_put_def Let_def split: sum.split option.split)
qed

lemma version_finalize: "authority_step st (fst (finalize_logical_put env i lease result claim st))"
proof -
  have "authority_step st (fst (settle_put env i op ev rec ts result w (st\<lparr>mr_versions := vs\<rparr>)))" for op ev rec ts w vs
    using version_settle_put [of "st\<lparr>mr_versions := vs\<rparr>" env i op ev rec ts result w]
    by (simp add: authority_step_def stored_version_def)
  moreover have "authority_step st (enter_usage n t st)" for n t by (rule authority_step_same) (simp add: managed_frame)
  ultimately show ?thesis by (simp add: finalize_logical_put_def Let_def split: sum.split prod.split)
qed

lemma version_commit_delete: "authority_step st (fst (commit_logical_delete env i placement st))"
proof (cases "get_logical st i")
  case None
  then show ?thesis by (simp add: commit_logical_delete_def)
next
  case (Some op)
  let ?k = "li_logical (lo_intent op)"
  have entered: "authority_step st (enter_usage n t st)" for n t by (rule authority_step_same) (simp add: managed_frame)
  have "authority_step st (set_logical i op' (set_usage t u (schedule_cleanup env e x
      (enter_usage n t st\<lparr>mr_authorities := hm_insert (oa_logical (tombstone_authority m ?k g p (next_cas (lo_intent op)) y))
        (tombstone_authority m ?k g p (next_cas (lo_intent op)) y) (mr_authorities (enter_usage n t st))\<rparr>))))"
    if "\<not> authority_moved (lo_intent op) (hm_get (mr_authorities st) ?k)" for op' t u e x n m g p y
    by (rule authority_step_write [of _ ?k "tombstone_authority m ?k g p (next_cas (lo_intent op)) y"])
       (use expected_version [OF that] in \<open>simp_all add: tombstone_authority_def managed_frame\<close>)
  with Some entered show ?thesis by (simp add: commit_logical_delete_def Let_def split: option.split)
qed

lemma version_atomic_delete: "authority_step st (fst (commit_atomic_logical_delete env request st))"
proof -
  let ?k = "dq_logical request"
  have entered: "authority_step st (enter_usage n t st)" for n t by (rule authority_step_same) (simp add: managed_frame)
  have "authority_step st (set_logical i op' (set_usage t u (schedule_cleanup env e x
      (enter_usage n t st\<lparr>mr_authorities := hm_insert ?k (delete_authority env m request (hm_get (mr_authorities st) ?k))
        (mr_authorities (enter_usage n t st))\<rparr>))))" for i op' t u e x n m
    by (rule authority_step_write [of _ ?k "delete_authority env m request (hm_get (mr_authorities st) ?k)"])
       (auto simp: delete_authority_def Let_def tombstone_authority_def managed_frame stored_version_def saturating_add_def
          checked_add_def split: option.split)
  with entered show ?thesis
    by (simp add: commit_atomic_logical_delete_def Let_def split: option.split sum.split)
qed

lemma version_object_step: "authority_step st (object_step env call st)"
proof (cases "publishes (ObjectCall call)")
  case True
  then obtain a c where call: "call = Publish a c" by (cases call) simp_all
  have "authority_step st (fst (publish env a c st))"
  proof (cases "namespace_fenced st (lk_tenant_id (oa_logical a)) \<or>
      map_option oa_cas_version (hm_get (mr_authorities st) (oa_logical a)) \<noteq> c")
    case True
    then show ?thesis by (auto simp: publish_def Let_def)
  next
    case False
    then have "saturating_add (case c of Some cas \<Rightarrow> cas | None \<Rightarrow> 0) 1 = saturating_add (stored_version st (oa_logical a)) 1"
      by (auto simp: stored_version_def split: option.split)
    with False show ?thesis
      by (intro authority_step_write [of _ "oa_logical a" "a\<lparr>oa_cas_version := saturating_add (case c of Some cas \<Rightarrow> cas | None \<Rightarrow> 0) 1,
          oa_created_at_ms := (case hm_get (mr_authorities st) (oa_logical a) of Some b \<Rightarrow> oa_created_at_ms b | None \<Rightarrow> me_clock env 0),
          oa_updated_at_ms := me_clock env 0\<rparr>"]) (simp_all add: publish_def Let_def managed_frame)
  qed
  with call show ?thesis by simp
next
  case False
  then obtain k where "relocated k st (object_step env call st)" using object_step_relocates by blast
  then consider "mr_authorities (object_step env call st) = mr_authorities st"
    | a a' where "hm_get (mr_authorities st) k = Some a" "content_kept a a'"
      "mr_authorities (object_step env call st) = hm_insert k a' (mr_authorities st)"
    unfolding relocated_def by blast
  then show ?thesis
  proof cases
    case 1
    then show ?thesis by (rule authority_step_same)
  next
    case (2 a a')
    then show ?thesis by (intro authority_step_write [of _ k a']) (simp_all add: content_kept_def stored_version_def)
  qed
qed

lemma version_logical_step: "authority_step st (logical_step env call st)"
proof (cases "settles_visible call")
  case False
  then show ?thesis using logical_step_visible [OF False] by (intro authority_step_same) (simp add: same_visible_def)
next
  case True
  then show ?thesis
    by (cases call) (simp_all add: version_finalize version_commit_delete version_atomic_delete)
qed

text \<open>Only the end of a purge removes authorities.\<close>

fun purges :: "managed_call \<Rightarrow> bool" where
  "purges (PhysicalCall (PurgeNamespace _)) = True"
| "purges (PhysicalCall (NamespacePurgeStatus _)) = True"
| "purges _ = False"

lemma version_physical_step:
  assumes "\<not> purges (PhysicalCall call)"
  shows "authority_step st (physical_step env call st)"
  using assms
  by (intro authority_step_same; cases call)
     (simp_all add: managed_frame Let_def begin_physical_write_def renew_physical_write_intent_def
        claim_expired_physical_write_intent_def claim_logical_physical_write_intent_def take_over_intent_def
        commit_physical_write_def abort_physical_write_def block_physical_write_def forget_physical_version_def
        mark_purge_target_deleted_def mark_purge_target_blocked_def split: option.split sum.split)

lemma version_step: "\<not> purges call \<Longrightarrow> authority_step st (managed_step env call st)"
  by (cases call) (simp_all add: version_logical_step version_object_step version_physical_step)

definition version_follows :: "object_authority \<Rightarrow> object_authority \<Rightarrow> bool" where
  "version_follows a a' \<longleftrightarrow>
     a' = a \<or> oa_cas_version a < oa_cas_version a' \<or> oa_cas_version a = - 1 \<and> oa_cas_version a' = - 1"

lemma version_follows_refl [simp]: "version_follows a a"
  by (simp add: version_follows_def)

lemma saturating_next: "saturating_add v 1 = v \<and> v = - 1 \<or> (v::u64) < saturating_add v 1"
proof (cases "checked_add v 1")
  case None
  then have "unat v + 1 \<ge> 2 ^ 64" by (simp add: checked_add_None)
  moreover have "unat v < 2 ^ 64" using unsigned_less [of v] by simp
  ultimately have "unat v = unat (- 1 :: u64)" by (simp add: unsigned_minus_1_eq_mask mask_eq_exp_minus_1)
  then have "v = - 1" by (simp only: word_unat_eq_iff)
  with None show ?thesis by (simp add: saturating_add_def)
next
  case (Some w)
  then show ?thesis using checked_add_unat [OF Some] by (simp add: saturating_add_def word_less_nat_alt)
qed

lemma version_kept:
  assumes "authority_step st st'" "hm_get (mr_authorities st) k = Some a"
  obtains a' where "hm_get (mr_authorities st') k = Some a'" "version_follows a a'"
proof -
  have next_version: "version_follows a b" if "oa_cas_version b = saturating_add (oa_cas_version a) 1" for b
    using that saturating_next [of "oa_cas_version a"] by (auto simp: version_follows_def)
  have "\<exists>a'. hm_get (mr_authorities st') k = Some a' \<and> version_follows a a'"
    using assms next_version version_follows_refl unfolding authority_step_def stored_version_def
    by (auto simp: map_laws split: if_splits)
  then show thesis using that by blast
qed

lemma version_follows_trans: "version_follows a b \<Longrightarrow> version_follows b c \<Longrightarrow> version_follows a c"
  by (auto simp: version_follows_def)

lemma version_run:
  assumes "managed_run (\<lambda>call. \<not> purges call) st st'" "hm_get (mr_authorities st) k = Some a"
  shows "\<exists>a'. hm_get (mr_authorities st') k = Some a' \<and> version_follows a a'"
  using assms
proof (induction rule: managed_run.induct)
  case (step st' call env)
  then obtain b where b: "hm_get (mr_authorities st') k = Some b" "version_follows a b" by blast
  obtain c where "hm_get (mr_authorities (managed_step env call st')) k = Some c" "version_follows b c"
    using version_kept [OF version_step [OF step.hyps(2)] b(1)] by blast
  then show ?case using version_follows_trans [OF b(2)] by blast
qed (simp add: version_follows_def)

section \<open>Purges\<close>

lemma erase_authorities:
  "mr_authorities (erase_namespace n t st) = hm_retain (\<lambda>k _. lk_tenant_id k \<noteq> t) (mr_authorities st)"
  by (simp add: erase_namespace_def Let_def)

lemma set_purge_status_frame [simp]:
  "mr_authorities (set_purge_status i s st) = mr_authorities st"
  "mr_repairs (set_purge_status i s st) = mr_repairs st"
  "mr_list_cursors (set_purge_status i s st) = mr_list_cursors st"
  "mr_workspace_usage (set_purge_status i s st) = mr_workspace_usage st"
  "mr_logical_operations (set_purge_status i s st) = mr_logical_operations st"
  "mr_write_intents (set_purge_status i s st) = mr_write_intents st"
  "mr_versions (set_purge_status i s st) = mr_versions st"
  "mr_multipart_activities (set_purge_status i s st) = mr_multipart_activities st"
  "mr_fenced_namespaces (set_purge_status i s st) = mr_fenced_namespaces st"
  "mr_namespace_epochs (set_purge_status i s st) = mr_namespace_epochs st"
  "mr_routing_epochs (set_purge_status i s st) = mr_routing_epochs st"
  by (simp_all add: set_purge_status_def split: option.split)

lemma authorities_wf_step:
  assumes wf: "hm_wf (mr_authorities st)"
  shows "hm_wf (mr_authorities (managed_step env call st))"
proof (cases "purges call")
  case False
  then show ?thesis using version_step [OF False, of st env] wf unfolding authority_step_def by (auto simp: map_laws)
next
  case True
  have finish: "hm_wf (mr_authorities (fst (finish_purge env i s)))" if "mr_authorities s = mr_authorities st" for i s
    using that wf
    by (simp add: finish_purge_def Let_def erase_authorities hm_wf_retain split: option.split namespace_purge_status.split)
  from True show ?thesis
    by (cases call rule: purges.cases) (simp_all add: finish wf get_purge_status_def purge_namespace_def Let_def split: option.split)
qed

lemma authorities_wf: "managed_reachable P st \<Longrightarrow> hm_wf (mr_authorities st)"
proof (induction rule: managed_reachable.induct)
  case initial
  show ?case by (simp add: managed_state_default_def)
qed (rule authorities_wf_step)

lemma finish_purge_completes:
  assumes "hm_get (mr_purges st) i = Some purge" "\<And>d. mp_status purge \<noteq> PurgeComplete d"
    and "snd (finish_purge env i st) = PurgeComplete d"
  shows "d = mp_deleted_versions purge"
    "fst (finish_purge env i st) = set_purge_status i (PurgeComplete d) (erase_namespace (me_clock env 0) (mp_tenant_id purge) st)"
    "\<not> physical_residue (mp_tenant_id purge) st"
    "\<not> list_ex (\<lambda>op. operation_tenant op = mp_tenant_id purge \<and> \<not> logical_terminal (lo_state op))
       (hm_values (mr_logical_operations st))"
  using assms
  by (auto simp: finish_purge_def Let_def split: option.splits namespace_purge_status.splits if_splits)

text \<open>What a workspace leaves behind in a clean state: its settled operations, and nothing they still charge.\<close>

definition workspace_clean :: "string \<Rightarrow> managed_state \<Rightarrow> bool" where
  "workspace_clean t st \<longleftrightarrow>
     (\<forall>k. lk_tenant_id k = t \<longrightarrow> hm_get (mr_authorities st) k = None)
     \<and> \<not> physical_residue t st
     \<and> \<not> list_ex (\<lambda>(repair, _). lk_tenant_id (rr_logical repair) = t) (hm_values (mr_repairs st))
     \<and> \<not> list_ex (\<lambda>cursor. cb_tenant_id (mc_binding cursor) = t) (hm_values (mr_list_cursors st))
     \<and> (\<forall>i op. get_logical st i = Some op \<longrightarrow> operation_tenant op = t \<longrightarrow>
          logical_terminal (lo_state op) \<and> lo_released_physical_bytes op = lo_committed_physical_bytes op)
     \<and> (\<forall>usage. workspace_usage t st = Some usage \<longrightarrow>
          wu_visible_logical_bytes usage = 0 \<and> wu_physical_allocated_bytes usage = 0
          \<and> wu_reserved_bytes usage = 0 \<and> wu_active_operation_id usage = None)
     \<and> \<not> namespace_fenced st t"

lemma erase_clean:
  assumes wf: "hm_wf (mr_authorities st)" "hm_wf (mr_logical_operations st)"
    and residue: "\<not> physical_residue t st"
    and settled: "\<not> list_ex (\<lambda>op. operation_tenant op = t \<and> \<not> logical_terminal (lo_state op)) (hm_values (mr_logical_operations st))"
  shows "workspace_clean t (set_purge_status i s (erase_namespace n t st))"
proof -
  let ?s = "set_purge_status i s (erase_namespace n t st)"
  have "hm_get (mr_authorities ?s) k = None" if "lk_tenant_id k = t" for k
    using that by (simp add: erase_authorities hm_get_retain [OF wf(1)] split: option.split)
  moreover have "\<not> physical_residue t ?s"
    using residue by (simp add: physical_residue_def erase_namespace_def Let_def)
  moreover have "\<not> list_ex (\<lambda>(repair, _). lk_tenant_id (rr_logical repair) = t) (hm_values (mr_repairs ?s))"
    by (auto simp: erase_namespace_def Let_def list_ex_iff hm_values_def hm_retain_def)
  moreover have "\<not> list_ex (\<lambda>cursor. cb_tenant_id (mc_binding cursor) = t) (hm_values (mr_list_cursors ?s))"
    by (auto simp: erase_namespace_def Let_def list_ex_iff hm_values_def hm_retain_def)
  moreover have "logical_terminal (lo_state op) \<and> lo_released_physical_bytes op = lo_committed_physical_bytes op"
    if "get_logical ?s j = Some op" "operation_tenant op = t" for j op
  proof -
    have "get_logical (erase_namespace n t st) j = Some op" using that(1) by (simp add: get_logical_def)
    then obtain op0 where op0: "get_logical st j = Some op0"
      and op: "op = (if operation_tenant op0 = t
        then op0\<lparr>lo_released_physical_bytes := lo_committed_physical_bytes op0, lo_updated_at_ms := n\<rparr> else op0)"
      by (auto simp: erase_logical)
    have t: "operation_tenant op0 = t" using op that(2) by (simp split: if_splits)
    have "op0 \<in> set (hm_values (mr_logical_operations st))"
      using op0 hm_values_get [OF wf(2)] by (auto simp: get_logical_def)
    then have "logical_terminal (lo_state op0)" using settled t by (auto simp: list_ex_iff)
    then show ?thesis using op t by simp
  qed
  moreover have "wu_visible_logical_bytes u = 0 \<and> wu_physical_allocated_bytes u = 0
      \<and> wu_reserved_bytes u = 0 \<and> wu_active_operation_id u = None" if "workspace_usage t ?s = Some u" for u
    using that by (auto simp: workspace_usage_def erase_namespace_def Let_def map_laws touch_usage_def split: option.splits)
  moreover have "\<not> namespace_fenced ?s t"
    by (simp add: namespace_fenced_def erase_namespace_def Let_def map_laws)
  ultimately show ?thesis unfolding workspace_clean_def by blast
qed

lemma erase_fence:
  assumes "lk_tenant_id (li_logical intent) = t" "li_fence intent = current_fence st t"
  shows "admitted_fence_lost (set_purge_status i s (erase_namespace n t st)) intent"
  using assms
  by (simp add: admitted_fence_lost_def Let_def current_fence_def erase_namespace_def epoch_or_1_def map_laws)

lemma erase_others:
  assumes wf: "hm_wf (mr_authorities st)" and other: "s \<noteq> t"
  shows "lk_tenant_id k = s \<Longrightarrow> hm_get (mr_authorities (set_purge_status i p (erase_namespace n t st))) k = hm_get (mr_authorities st) k"
    "workspace_usage s (set_purge_status i p (erase_namespace n t st)) = workspace_usage s st"
    "get_logical st j = Some op \<Longrightarrow> operation_tenant op = s
       \<Longrightarrow> get_logical (set_purge_status i p (erase_namespace n t st)) j = Some op"
    "current_fence (set_purge_status i p (erase_namespace n t st)) s = current_fence st s"
proof -
  show "lk_tenant_id k = s \<Longrightarrow> hm_get (mr_authorities (set_purge_status i p (erase_namespace n t st))) k = hm_get (mr_authorities st) k"
    using other by (simp add: erase_authorities hm_get_retain [OF wf] split: option.split)
  show "workspace_usage s (set_purge_status i p (erase_namespace n t st)) = workspace_usage s st"
    using other by (simp add: workspace_usage_def erase_namespace_def Let_def map_laws split: option.split)
  show "get_logical st j = Some op \<Longrightarrow> operation_tenant op = s
       \<Longrightarrow> get_logical (set_purge_status i p (erase_namespace n t st)) j = Some op"
    using other erase_logical_other [of st j op t n] by (simp add: get_logical_def)
  show "current_fence (set_purge_status i p (erase_namespace n t st)) s = current_fence st s"
    using other by (simp add: current_fence_def erase_namespace_def Let_def epoch_or_1_def map_laws)
qed

section \<open>Write leases\<close>

definition superseded :: "physical_write_lease \<Rightarrow> managed_state \<Rightarrow> bool" where
  "superseded lease st \<longleftrightarrow> hm_get (mr_write_tokens st) (wl_intent_id lease) \<noteq> Some (wl_token lease)"

lemma superseded_refused:
  assumes "superseded lease st"
  shows "\<not> lease_held st now lease"
    "renew_physical_write_intent env lease expires st = (st, Inl ManagedConflict)"
    "commit_physical_write env lease superseded_ids version st = (st, Inl ManagedConflict)"
    "abort_physical_write env lease st = (st, Inl ManagedConflict)"
    "block_physical_write env lease reason st = (st, Inl ManagedConflict)"
  using assms
  by (simp_all add: superseded_def lease_held_def renew_physical_write_intent_def commit_physical_write_def Let_def
      abort_physical_write_def block_physical_write_def)

lemma superseded_cannot_finalize:
  assumes lease: "superseded lease st" and op: "get_logical st i = Some op" "lo_state op \<noteq> LogicalCommitted"
  shows "\<exists>e. finalize_logical_put env i lease result claim st = (st, Inl e)"
proof -
  have unfit: "lease_unfit st n op lease w" for n w
    using superseded_refused(1) [OF lease] by (simp add: lease_unfit_def Let_def)
  show ?thesis
    using op unfit by (auto simp: finalize_logical_put_def result_simps split: sum.split)
qed

end
