(* ===== verification/Managed_Properties.thy ===== *)
theory Managed_Properties
  imports Managed_Runs
begin

text \<open>
  Properties of the managed repository: its accounts, the finality of an
  operation, the versions of its authorities, purges and write leases. The
  sample run admits one put of ten bytes, starts its physical write and commits
  it.
\<close>

section \<open>A sample run\<close>

definition run_calls :: "managed_env \<Rightarrow> managed_call list \<Rightarrow> managed_state \<Rightarrow> managed_state" where
  "run_calls env calls st = foldl (\<lambda>st call. managed_step env call st) st calls"

lemma reachable_calls:
  "list_all admitted calls \<Longrightarrow> managed_reachable admitted st \<Longrightarrow> managed_reachable admitted (run_calls env calls st)"
  by (induction calls arbitrary: st) (simp_all add: run_calls_def managed_reachable.step)

lemma run_calls_run: "list_all admitted calls \<Longrightarrow> managed_run admitted st (run_calls env calls st)"
proof (induction calls rule: rev_induct)
  case (snoc call calls)
  then show ?case by (simp add: run_calls_def managed_run.step)
qed (simp add: run_calls_def managed_run.refl)

definition sample_env :: managed_env where
  "sample_env = \<lparr> me_clock = (\<lambda>_. 1000), me_fresh = (\<lambda>k. 90 + of_nat k), me_sha256 = id, me_hex = (\<lambda>_. ''d''),
     me_uuid_text = (\<lambda>_. ''g''), me_uuid_v5 = (\<lambda>_ _. 77), me_to_vec = (\<lambda>_. Inr []) \<rparr>"

definition sample_key :: logical_object_key where
  "sample_key = \<lparr> lk_tenant_id = ''t'', lk_bucket = ''b'', lk_key = ''k'' \<rparr>"

definition sample_intent :: managed_logical_operation_intent where
  "sample_intent = \<lparr> li_operation_id = 1, li_receipt_id = 2, li_logical = sample_key, li_kind = PutMutation,
     li_generation = 3, li_fence = \<lparr>rf_namespace_epoch = 1, rf_routing_epoch = 1\<rparr>,
     li_expected_authority_cas = None, li_prior_logical_size = 0, li_primary_child_operation_id = 4,
     li_backend_id = ''p'', li_provider_bucket = ''s'', li_physical_key = generation_physical_key sample_env sample_key 3, li_occurred_at_ms = 1,
     li_rate_version = 1, li_route = PutObject, li_request_kind = WriteRequest, li_max_processed_bytes = 100,
     li_publication_recipe = Some \<lparr> pr_version = 1, pr_placement_version = 1, pr_primary_backend_id = ''p'',
       pr_replica_backend_id = None, pr_metadata = [], pr_primary_status = Ready, pr_replica_status = Absent \<rparr> \<rparr>"

definition sample_write :: physical_write_intent where
  "sample_write = \<lparr> wi_intent_id = 4, wi_tenant_id = ''t'', wi_backend_id = ''p'',
     wi_storage_identity = \<lparr> si_provider_kind = ''a'', si_provider_instance_id = ''a'', si_provider_account_id = ''a'',
       si_canonical_endpoint = ''a'', si_region = ''a'' \<rparr>, wi_credential_epoch = 1, wi_provider_bucket = ''s'',
     wi_physical_key = generation_physical_key sample_env sample_key 3, wi_versioning_mode = VersioningEnabled, wi_versioning_capability = VersioningRequired,
     wi_lease_owner = ''w'' \<rparr>"

definition sample_evidence :: managed_usage_evidence where
  "sample_evidence = \<lparr> ue_expected_output_digest = Some ''h'', ue_expected_output_size = 10, ue_source_bytes = 12,
     ue_processed_bytes = 12, ue_payload = JNull \<rparr>"

definition sample_lease :: physical_write_lease where
  "sample_lease = \<lparr> wl_intent_id = 4, wl_namespace_epoch = 1, wl_owner = ''w'', wl_token = 90 \<rparr>"

definition admitted_calls :: "managed_call list" where
  "admitted_calls =
     [LogicalCall (InsertLogicalOperation sample_intent), LogicalCall (ReserveLogicalOperation 1 50),
      PhysicalCall (BeginPhysicalWrite sample_write)]"

definition put_calls :: "managed_call list" where
  "put_calls =
     [LogicalCall (RecordLogicalUsageAndBeginCompletion 1 sample_evidence),
      LogicalCall (FinalizeLogicalPut 1 sample_lease
        \<lparr> ec_selected_version_id = Some ''v'', ec_superseded_version_ids = [], ec_version_history_complete = True \<rparr> None)]"

definition open_state :: managed_state where
  "open_state = run_calls sample_env admitted_calls managed_state_default"

definition put_state :: managed_state where
  "put_state = run_calls sample_env put_calls open_state"

lemma open_reachable: "managed_reachable (\<lambda>call. \<not> publishes call) open_state"
  unfolding open_state_def
  by (rule reachable_calls [OF _ managed_reachable.initial]) (simp add: admitted_calls_def)

lemma put_reachable: "managed_reachable (\<lambda>call. \<not> publishes call) put_state"
  unfolding put_state_def
  by (rule reachable_calls [OF _ open_reachable]) (simp add: put_calls_def)

section \<open>Accounts\<close>

text \<open>
  C6: In every reachable state of the managed repository the physical bytes
  charged to a workspace are exactly those its operations committed and did not
  release, charged and reserved bytes together stay within the visible limit
  plus its headroom, the visible bytes stay within the limit, an operation
  between admission and outcome is the one active operation of its workspace,
  and the reserved bytes are those of the active operation and nothing else.
\<close>

theorem managed_accounts_balance:
  assumes "managed_reachable admitted st" and "workspace_usage t st = Some usage"
  shows "unat (wu_physical_allocated_bytes usage) = hm_sum (held_physical t) (mr_logical_operations st)
    \<and> unat (wu_physical_allocated_bytes usage) + unat (wu_reserved_bytes usage)
        \<le> unat MANAGED_VISIBLE_LIMIT_BYTES + unat MANAGED_REPLACEMENT_HEADROOM_BYTES
    \<and> unat (wu_visible_logical_bytes usage) \<le> unat MANAGED_VISIBLE_LIMIT_BYTES
    \<and> (\<forall>i op. get_logical st i = Some op \<longrightarrow> operation_tenant op = t
        \<longrightarrow> lo_state op \<in> {LogicalOpen, LogicalCompleting, LogicalCommitUnknown}
        \<longrightarrow> wu_active_operation_id usage = Some i)
    \<and> (case wu_active_operation_id usage of
         None \<Rightarrow> wu_reserved_bytes usage = 0
       | Some i \<Rightarrow> \<exists>op. get_logical st i = Some op \<and> operation_tenant op = t
           \<and> \<not> logical_terminal (lo_state op) \<and> wu_reserved_bytes usage = lo_reserved_physical_bytes op)"
proof -
  have ok: "books_ok st" using assms(1) by (rule books_reachable)
  have row: "row st t = usage" using assms(2) by (simp add: row_def usage_in_def workspace_usage_def)
  note booked = books_row [OF ok, of t, unfolded row_booked_def row capacity_def]
  have "wu_active_operation_id usage = Some i"
    if "get_logical st i = Some op" "operation_tenant op = t"
      "lo_state op \<in> {LogicalOpen, LogicalCompleting, LogicalCommitUnknown}" for i op
    using books_operation [OF ok that(1)] that row by (auto simp: operation_booked_def)
  with booked show ?thesis by (auto split: option.split)
qed

theorem managed_accounts_balance_witness:
  "\<exists>usage. workspace_usage ''t'' put_state = Some usage \<and> wu_physical_allocated_bytes usage = 10
     \<and> hm_sum (held_physical ''t'') (mr_logical_operations put_state) = 10"
proof -
  have used: "map_option wu_physical_allocated_bytes (workspace_usage ''t'' put_state) = Some 10" by code_simp
  then obtain usage where usage: "workspace_usage ''t'' put_state = Some usage" "wu_physical_allocated_bytes usage = 10"
    by auto
  show ?thesis
    using managed_accounts_balance [OF put_reachable usage(1)] usage by auto
qed

text \<open>
  C7: As long as objects are written through operations, the visible bytes of a
  workspace are exactly the sizes of its objects that are not deleted, through
  all puts, deletes, aborts, repairs, placement changes and purges.
\<close>

theorem visible_bytes_are_live_sizes:
  assumes "managed_reachable (\<lambda>call. \<not> publishes call) st" and "workspace_usage t st = Some usage"
  shows "unat (wu_visible_logical_bytes usage) = hm_sum (live_bytes t) (mr_authorities st)"
proof -
  have "row st t = usage" using assms(2) by (simp add: row_def usage_in_def workspace_usage_def)
  then show ?thesis using visible_reachable [OF assms(1)] by (auto simp: visible_ok_def)
qed

theorem visible_bytes_are_live_sizes_witness:
  "\<exists>usage. workspace_usage ''t'' put_state = Some usage \<and> wu_visible_logical_bytes usage = 10
     \<and> hm_sum (live_bytes ''t'') (mr_authorities put_state) = 10"
proof -
  have used: "map_option wu_visible_logical_bytes (workspace_usage ''t'' put_state) = Some 10" by code_simp
  then obtain usage where usage: "workspace_usage ''t'' put_state = Some usage" "wu_visible_logical_bytes usage = 10"
    by auto
  show ?thesis
    using visible_bytes_are_live_sizes [OF put_reachable usage(1)] usage by auto
qed

section \<open>Operations and authorities\<close>

text \<open>
  C9: Through every later call an operation is kept with its intent and its
  recorded evidence, never returns to the intent state, and once it is
  committed or proven aborted its state, committed bytes, committed authority
  version and time of outcome are final.
\<close>

theorem operation_outcome_is_final:
  assumes "managed_reachable P st" and "managed_run admitted st st'" and "logical_operation i st = Some op"
  shows "\<exists>op'. logical_operation i st' = Some op' \<and> lo_intent op' = lo_intent op
    \<and> (lo_evidence op \<noteq> None \<longrightarrow> lo_evidence op' = lo_evidence op)
    \<and> (lo_state op \<noteq> LogicalIntent \<longrightarrow> lo_state op' \<noteq> LogicalIntent)
    \<and> (logical_terminal (lo_state op) \<longrightarrow>
         lo_state op' = lo_state op
         \<and> lo_committed_physical_bytes op' = lo_committed_physical_bytes op
         \<and> lo_committed_authority_version op' = lo_committed_authority_version op
         \<and> lo_committed_at_ms op' = lo_committed_at_ms op \<and> lo_aborted_at_ms op' = lo_aborted_at_ms op)"
  using follow_run [OF assms(2,1)] assms(3)
  unfolding operations_follow_def operation_follows_def logical_operation_def by blast

theorem operation_outcome_is_final_witness:
  "\<exists>op op'. logical_operation 1 open_state = Some op \<and> lo_state op = LogicalOpen
     \<and> logical_operation 1 put_state = Some op' \<and> lo_intent op' = lo_intent op \<and> lo_state op' = LogicalCommitted"
proof -
  have "map_option lo_state (logical_operation 1 open_state) = Some LogicalOpen" by code_simp
  then obtain op where op: "logical_operation 1 open_state = Some op" "lo_state op = LogicalOpen" by auto
  have state: "map_option lo_state (logical_operation 1 put_state) = Some LogicalCommitted" by code_simp
  have run: "managed_run (\<lambda>_. True) open_state put_state"
    unfolding put_state_def by (rule run_calls_run) (simp add: put_calls_def)
  show ?thesis
    using operation_outcome_is_final [OF open_reachable run op(1)] op state by auto
qed

text \<open>
  C8: Between two observations of an object with no purge of a namespace in
  between, its version never goes back, and while the version has not reached
  the largest value an unchanged version means an unchanged authority: whatever
  changed the object raised its version.
\<close>

theorem authority_version_identifies_content:
  assumes "managed_run (\<lambda>call. \<not> purges call) st st'" and "hm_get (mr_authorities st) k = Some a"
  shows "\<exists>a'. hm_get (mr_authorities st') k = Some a' \<and> oa_cas_version a \<le> oa_cas_version a'
    \<and> (oa_cas_version a' = oa_cas_version a \<longrightarrow> oa_cas_version a \<noteq> - 1 \<longrightarrow> a' = a)"
  using version_run [OF assms] by (auto simp: version_follows_def)

definition delete_calls :: "managed_call list" where
  "delete_calls =
     [LogicalCall (CommitAtomicLogicalDelete
        \<lparr> dq_operation_id = 5, dq_receipt_id = 6, dq_logical = sample_key,
          dq_placement = \<lparr> pc_version = 1, pc_primary_backend_id = ''p'', pc_replica_backend_id = None \<rparr>,
          dq_provider_bucket = ''s'', dq_occurred_at_micros = 7000, dq_rate_version = 1, dq_max_processed_bytes = 0 \<rparr>)]"

theorem authority_version_identifies_content_witness:
  "\<exists>a a'. hm_get (mr_authorities put_state) sample_key = Some a \<and> oa_cas_version a = 1 \<and> \<not> oa_tombstone a
     \<and> hm_get (mr_authorities (run_calls sample_env delete_calls put_state)) sample_key = Some a'
     \<and> oa_cas_version a \<le> oa_cas_version a' \<and> oa_tombstone a'"
proof -
  let ?st = "run_calls sample_env delete_calls put_state"
  have "map_option (\<lambda>a. (oa_cas_version a, oa_tombstone a)) (hm_get (mr_authorities put_state) sample_key) = Some (1, False)"
    by code_simp
  then obtain a where a: "hm_get (mr_authorities put_state) sample_key = Some a" "oa_cas_version a = 1" "\<not> oa_tombstone a"
    by auto
  have deleted: "map_option oa_tombstone (hm_get (mr_authorities ?st) sample_key) = Some True" by code_simp
  have run: "managed_run (\<lambda>call. \<not> purges call) put_state ?st"
    by (rule run_calls_run) (simp add: delete_calls_def)
  show ?thesis using authority_version_identifies_content [OF run a(1)] a deleted by auto
qed

section \<open>Purges and leases\<close>


definition purge_request :: namespace_purge_request where
  "purge_request = \<lparr> np_tenant_id = ''t'', np_operation_id = 50 \<rparr>"

definition purged_state :: managed_state where
  "purged_state = run_calls sample_env
     [PhysicalCall (PurgeNamespace purge_request),
      PhysicalCall (MarkPurgeTargetDeleted purge_request (hd (mr_versions put_state)))] put_state"


text \<open>
  C11: An expired write intent that is taken over has expired, and afterwards
  the former holder, whose token differs, can neither renew, commit, abort or
  block the write nor finalise an operation that is not committed: every such
  call is refused and changes nothing.
\<close>

theorem former_lease_holder_is_fenced:
  assumes "(st', Inr (Some lease)) = claim_expired_physical_write_intent env i owner expires st
      \<or> (st', Inr (Some lease)) = claim_logical_physical_write_intent env claim expires st"
    and "wl_intent_id old = wl_intent_id lease" and "wl_token old \<noteq> me_fresh env 0"
  shows "lease_expired st (me_clock env 0) (wl_intent_id lease)
    \<and> renew_physical_write_intent env' old until st' = (st', Inl ManagedConflict)
    \<and> commit_physical_write env' old superseded_ids version st' = (st', Inl ManagedConflict)
    \<and> abort_physical_write env' old st' = (st', Inl ManagedConflict)
    \<and> block_physical_write env' old reason st' = (st', Inl ManagedConflict)
    \<and> (\<forall>j op result c. get_logical st' j = Some op \<longrightarrow> lo_state op \<noteq> LogicalCommitted \<longrightarrow>
        (\<exists>e. finalize_logical_put env' j old result c st' = (st', Inl e)))"
proof -
  have "lease_expired st (me_clock env 0) (wl_intent_id lease)
      \<and> hm_get (mr_write_tokens st') (wl_intent_id lease) = Some (me_fresh env 0)"
    using assms(1)
    by (auto simp: claim_expired_physical_write_intent_def claim_logical_physical_write_intent_def take_over_intent_def
        Let_def map_laws split: if_splits option.splits sum.splits)
  moreover from this have "superseded old st'" using assms(2,3) by (simp add: superseded_def)
  ultimately show ?thesis by (simp add: superseded_refused superseded_cannot_finalize)
qed

definition late_env :: managed_env where
  "late_env = sample_env\<lparr>me_clock := (\<lambda>_. 100000000), me_fresh := (\<lambda>_. 200)\<rparr>"

definition writing_state :: managed_state where
  "writing_state = run_calls sample_env [PhysicalCall (BeginPhysicalWrite sample_write)] managed_state_default"

theorem former_lease_holder_is_fenced_witness:
  "commit_physical_write late_env sample_lease [] (Some ''v'')
       (fst (claim_expired_physical_write_intent late_env 4 ''n'' 200000000 writing_state))
     = (fst (claim_expired_physical_write_intent late_env 4 ''n'' 200000000 writing_state), Inl ManagedConflict)"
proof -
  let ?r = "claim_expired_physical_write_intent late_env 4 ''n'' 200000000 writing_state"
  let ?lease = "\<lparr> wl_intent_id = 4, wl_namespace_epoch = 1, wl_owner = ''n'', wl_token = 200 \<rparr>"
  have "snd ?r = Inr (Some ?lease)" by code_simp
  then have claim: "(fst ?r, Inr (Some ?lease)) = ?r" by (simp add: prod_eq_iff)
  have "wl_intent_id sample_lease = wl_intent_id ?lease" "wl_token sample_lease \<noteq> me_fresh late_env 0"
    by (simp_all add: sample_lease_def late_env_def)
  from former_lease_holder_is_fenced [OF disjI1 [OF claim] this] show ?thesis by blast
qed

end
