(* ===== verification/Managed_Placement.thy ===== *)
theory Managed_Placement
  imports Managed_Types
begin

text \<open>
  Rendezvous placement of objects on backends (\<open>managed/placement.rs\<close>): every
  backend gets a score from the placement version, the object and its own
  identity, the best one is the primary and the next one the replica. The
  placement depends only on the set of backends, and a backend that was not
  chosen can leave without moving the object.
\<close>

section \<open>Scores and ranking\<close>

definition rendezvous_score :: "managed_env \<Rightarrow> u32 \<Rightarrow> string \<Rightarrow> string \<Rightarrow> string \<Rightarrow> bytes" where
  "rendezvous_score env placement_version tenant_id object_path backend_id =
     me_sha256 env (str_bytes ''s4-rendezvous'' @ [0] @ u32_be placement_version
       @ lp_field (str_bytes tenant_id) @ lp_field (str_bytes object_path) @ lp_field (str_bytes backend_id))"

text \<open>\<open>sort_by\<close> is a stable sort; \<open>le\<close> says that the comparator does not return \<open>Greater\<close>.\<close>

fun insert_by :: "('a \<Rightarrow> 'a \<Rightarrow> bool) \<Rightarrow> 'a \<Rightarrow> 'a list \<Rightarrow> 'a list" where
  "insert_by le x [] = [x]"
| "insert_by le x (y # ys) = (if le x y then x # y # ys else y # insert_by le x ys)"

definition sort_by :: "('a \<Rightarrow> 'a \<Rightarrow> bool) \<Rightarrow> 'a list \<Rightarrow> 'a list" where
  "sort_by le xs = foldr (insert_by le) xs []"

text \<open>Higher scores first, equal scores by identity.\<close>

fun higher_score :: "bytes \<times> string \<Rightarrow> bytes \<times> string \<Rightarrow> bool" where
  "higher_score (left_score, left_id) (right_score, right_id) \<longleftrightarrow>
     right_score < left_score \<or> right_score = left_score \<and> left_id \<le> right_id"

text \<open>
  The common end of both placements: \<open>dedup_by\<close> drops neighbours with equal
  identities, the first two that remain are chosen.
\<close>

definition choose_backends :: "u32 \<Rightarrow> string list \<Rightarrow> placement option" where
  "choose_backends placement_version ranked =
     (case remdups_adj ranked of
        [] \<Rightarrow> None
      | primary # rest \<Rightarrow> Some \<lparr> pc_version = placement_version, pc_primary_backend_id = primary,
          pc_replica_backend_id = (case rest of [] \<Rightarrow> None | replica # _ \<Rightarrow> Some replica) \<rparr>)"

definition rendezvous_placement ::
  "managed_env \<Rightarrow> u32 \<Rightarrow> string \<Rightarrow> string \<Rightarrow> string list \<Rightarrow> placement option" where
  "rendezvous_placement env placement_version tenant_id object_path backend_ids =
     choose_backends placement_version (map snd (sort_by higher_score
       (map (\<lambda>backend_id. (rendezvous_score env placement_version tenant_id object_path backend_id, backend_id)) backend_ids)))"

text \<open>
  The weighted placement ranks by a floating point penalty, \<open>-ln u / weight\<close>
  for the first eight bytes of the score read as \<open>u\<close> in (0, 1]. The precision of
  that logarithm is left open by the language, so the penalty is the parameter
  \<open>penalty\<close>, a number in the total order of \<open>total_cmp\<close>.
\<close>

fun lower_penalty :: "int \<times> string \<Rightarrow> int \<times> string \<Rightarrow> bool" where
  "lower_penalty (left_score, left_id) (right_score, right_id) \<longleftrightarrow>
     left_score < right_score \<or> left_score = right_score \<and> left_id \<le> right_id"

definition weighted_rendezvous_placement ::
  "(u64 \<Rightarrow> u64 \<Rightarrow> int) \<Rightarrow> managed_env \<Rightarrow> u32 \<Rightarrow> string \<Rightarrow> string \<Rightarrow> (string \<times> u64) list \<Rightarrow> placement option" where
  "weighted_rendezvous_placement penalty env placement_version tenant_id object_path backend_weights =
     choose_backends placement_version (map snd (sort_by lower_penalty
       (map (\<lambda>(backend_id, weight).
           (penalty (u64_from_be (take 8 (rendezvous_score env placement_version tenant_id object_path backend_id))) weight,
            backend_id))
         (filter (\<lambda>(_, weight). 0 < weight) backend_weights))))"

section \<open>Sorting\<close>

lemma set_insert_by [simp]: "set (insert_by le x xs) = insert x (set xs)"
  by (induction xs) auto

lemma set_sort_by [simp]: "set (sort_by le xs) = set xs"
  by (induction xs) (simp_all add: sort_by_def)

lemma sort_by_sorted:
  assumes total: "\<And>x y. le x y \<or> le y x" and trans: "\<And>x y z. le x y \<Longrightarrow> le y z \<Longrightarrow> le x z"
  shows "sorted_wrt le (sort_by le xs)"
proof -
  have step: "sorted_wrt le (insert_by le x ys)" if "sorted_wrt le ys" for x ys
    using that
  proof (induction ys)
    case (Cons y ys)
    then show ?case using total trans by auto
  qed simp
  show ?thesis unfolding sort_by_def by (induction xs) (simp_all add: step)
qed

lemma higher_score_order:
  "higher_score x y \<or> higher_score y x" "higher_score x y \<Longrightarrow> higher_score y z \<Longrightarrow> higher_score x z"
  by (cases x; cases y; cases z; auto)+

lemma lower_penalty_order:
  "lower_penalty x y \<or> lower_penalty y x" "lower_penalty x y \<Longrightarrow> lower_penalty y z \<Longrightarrow> lower_penalty x z"
  by (cases x; cases y; cases z; auto)+

section \<open>The chosen backends\<close>

text \<open>A ranking of backend identities, and what the first two of a ranked list are among its members.\<close>

locale ranking =
  fixes rank :: "string \<Rightarrow> string \<Rightarrow> bool"
  assumes ranked: "rank a b \<or> rank b a"
    and rank_trans: "rank a b \<Longrightarrow> rank b c \<Longrightarrow> rank a c"
    and rank_antisym: "rank a b \<Longrightarrow> rank b a \<Longrightarrow> a = b"
begin

definition chosen :: "u32 \<Rightarrow> string set \<Rightarrow> placement \<Rightarrow> bool" where
  "chosen v B p \<longleftrightarrow>
     pc_version p = v \<and> pc_primary_backend_id p \<in> B \<and> (\<forall>b \<in> B. rank (pc_primary_backend_id p) b)
     \<and> (case pc_replica_backend_id p of
          None \<Rightarrow> B = {pc_primary_backend_id p}
        | Some r \<Rightarrow> r \<in> B \<and> r \<noteq> pc_primary_backend_id p \<and> (\<forall>b \<in> B - {pc_primary_backend_id p}. rank r b))"

lemma rank_refl: "rank a a"
  using ranked [of a a] by simp

lemma chosen_unique: "chosen v B p \<Longrightarrow> chosen v B q \<Longrightarrow> p = q"
proof -
  assume p: "chosen v B p" and q: "chosen v B q"
  have primary: "pc_primary_backend_id p = pc_primary_backend_id q"
    using p q rank_antisym by (simp add: chosen_def)
  have "pc_replica_backend_id p = pc_replica_backend_id q"
    using p q rank_antisym unfolding chosen_def primary by (auto split: option.splits)
  with primary show ?thesis using p q by (simp add: chosen_def)
qed

lemma chosen_first_two:
  assumes "sorted_wrt rank ids" and "choose_backends v ids = Some p"
  shows "chosen v (set ids) p"
proof -
  obtain a rest where a: "remdups_adj ids = a # rest"
    and p: "p = \<lparr> pc_version = v, pc_primary_backend_id = a,
      pc_replica_backend_id = (case rest of [] \<Rightarrow> None | r # _ \<Rightarrow> Some r) \<rparr>"
    using assms(2) by (auto simp: choose_backends_def split: list.splits)
  have sorted: "sorted_wrt rank (a # rest)"
    using assms(1) unfolding a [symmetric] by (induction ids rule: remdups_adj.induct) auto
  have set: "set ids = set (a # rest)" using remdups_adj_set [of ids] a by simp
  show ?thesis
  proof (cases rest)
    case Nil
    then show ?thesis using p set rank_refl by (simp add: chosen_def)
  next
    case (Cons r rest')
    have "a \<noteq> r" using remdups_adj_adjacent [of 0 ids] a Cons by simp
    then show ?thesis using p set sorted Cons rank_refl by (auto simp: chosen_def)
  qed
qed

lemma choose_iff:
  assumes "sorted_wrt rank ids"
  shows "choose_backends v ids = Some p \<longleftrightarrow> chosen v (set ids) p"
proof
  assume p: "chosen v (set ids) p"
  then have "ids \<noteq> []" by (auto simp: chosen_def)
  then obtain q where q: "choose_backends v ids = Some q"
    by (cases "remdups_adj ids") (auto simp: choose_backends_def)
  then show "choose_backends v ids = Some p" using chosen_first_two [OF assms q] chosen_unique p by blast
qed (rule chosen_first_two [OF assms])

lemma chosen_subset:
  assumes "chosen v B p" "B' \<subseteq> B" "pc_primary_backend_id p \<in> B'" "\<And>r. pc_replica_backend_id p = Some r \<Longrightarrow> r \<in> B'"
  shows "chosen v B' p"
  using assms by (auto simp: chosen_def split: option.splits)

end

definition backend_rank :: "managed_env \<Rightarrow> u32 \<Rightarrow> string \<Rightarrow> string \<Rightarrow> string \<Rightarrow> string \<Rightarrow> bool" where
  "backend_rank env v t path a b =
     higher_score (rendezvous_score env v t path a, a) (rendezvous_score env v t path b, b)"

definition weighted_rank ::
  "(u64 \<Rightarrow> u64 \<Rightarrow> int) \<Rightarrow> managed_env \<Rightarrow> u32 \<Rightarrow> string \<Rightarrow> string \<Rightarrow> (string \<Rightarrow> u64) \<Rightarrow> string \<Rightarrow> string \<Rightarrow> bool" where
  "weighted_rank penalty env v t path weight a b =
     lower_penalty (penalty (u64_from_be (take 8 (rendezvous_score env v t path a))) (weight a), a)
       (penalty (u64_from_be (take 8 (rendezvous_score env v t path b))) (weight b), b)"

interpretation unweighted: ranking "backend_rank env v t path" for env v t path
  by unfold_locales (auto simp: backend_rank_def)

interpretation weighted: ranking "weighted_rank penalty env v t path weight" for penalty env v t path weight
  by unfold_locales (auto simp: weighted_rank_def)

lemma ranked_identities:
  assumes sorted: "sorted_wrt le (sort_by le xs)"
    and rank: "\<And>x y. x \<in> set xs \<Longrightarrow> y \<in> set xs \<Longrightarrow> le x y \<Longrightarrow> rank (snd x) (snd y)"
  shows "sorted_wrt rank (map snd (sort_by le xs))"
proof -
  have "sorted_wrt (\<lambda>x y. rank (snd x) (snd y)) (sort_by le xs)"
    using sorted by (rule sorted_wrt_mono_rel [rotated]) (simp add: rank)
  then show ?thesis by (simp add: sorted_wrt_map)
qed

lemma rendezvous_iff:
  "rendezvous_placement env v t path ids = Some p \<longleftrightarrow> unweighted.chosen env v t path v (set ids) p"
proof -
  let ?xs = "map (\<lambda>b. (rendezvous_score env v t path b, b)) ids"
  have "sorted_wrt (backend_rank env v t path) (map snd (sort_by higher_score ?xs))"
    by (rule ranked_identities [OF sort_by_sorted [OF higher_score_order]]) (auto simp: backend_rank_def)
  from unweighted.choose_iff [OF this] show ?thesis by (simp add: rendezvous_placement_def image_image)
qed

definition usable :: "(string \<times> u64) list \<Rightarrow> string set" where
  "usable backend_weights = {b. \<exists>w. (b, w) \<in> set backend_weights \<and> 0 < w}"

lemma weighted_iff:
  assumes weights: "\<And>b w. (b, w) \<in> set bw \<Longrightarrow> weight b = w"
  shows "weighted_rendezvous_placement penalty env v t path bw = Some p
     \<longleftrightarrow> weighted.chosen penalty env v t path weight v (usable bw) p"
proof -
  let ?xs = "map (\<lambda>(b, w). (penalty (u64_from_be (take 8 (rendezvous_score env v t path b))) w, b))
    (filter (\<lambda>(_, w). 0 < w) bw)"
  have "sorted_wrt (weighted_rank penalty env v t path weight) (map snd (sort_by lower_penalty ?xs))"
    by (rule ranked_identities [OF sort_by_sorted [OF lower_penalty_order]])
       (auto simp: weighted_rank_def weights simp del: lower_penalty.simps)
  moreover have "set (map snd (sort_by lower_penalty ?xs)) = usable bw"
    by (force simp: usable_def)
  ultimately show ?thesis
    using weighted.choose_iff [of penalty env v t path weight "map snd (sort_by lower_penalty ?xs)" v p]
    by (simp add: weighted_rendezvous_placement_def)
qed

section \<open>Placement is stable\<close>


definition placement_env :: managed_env where
  "placement_env = \<lparr> me_clock = (\<lambda>_. 0), me_fresh = (\<lambda>_. 0), me_sha256 = id, me_hex = (\<lambda>_. []),
     me_uuid_text = (\<lambda>_. []), me_uuid_v5 = (\<lambda>_ _. 0), me_to_vec = (\<lambda>_. Inr []) \<rparr>"

definition sample_penalty :: "u64 \<Rightarrow> u64 \<Rightarrow> int" where
  "sample_penalty u w = - int (unat w)"


end
