(* ===== verification/Spec2Isabelle.thy ===== *)
theory Spec2Isabelle
  imports Reducer_Protocol Memory_Properties Reconciler_Properties Pii_Properties Record_Streams
    Managed_Properties Managed_Placement
begin

text \<open>
  Verification of the storage gateway: the code that decides what becomes of an
  uploaded object, how that decision survives crashes, retries and competing
  workers, and what the data filters do to the bytes. Paths below are relative
  to \<open>src/crates/gateway/src\<close> unless they start with \<open>crates\<close> or \<open>plugins\<close>.

  \<^bold>\<open>How the parts fit together.\<close> A request passes the policy gate, which freezes
  a verdict. A multipart upload is staged part by part in a repository and
  completed under a lease. A write to the destination is an operation in a
  journal, and a reconciler later resolves the operations whose outcome is
  unknown. Where the gateway manages the storage itself, a repository of
  authorities, operations, physical versions and repairs accounts for every
  byte. Repositories and journals on the filesystem keep an event log with
  snapshots. Objects that are read or written are decoded into records and run
  through filters.

  \<^bold>\<open>Foundations.\<close> \<open>Prelude\<close> has machine integers with their checked, saturating
  and wrapping arithmetic, results and their sequencing, hash maps as association
  lists with distinct keys, sums over maps and JSON values; \<open>Ordered_Map\<close> has
  ordered maps and the contract of a paged listing (\<open>cursor_listing\<close>);
  \<open>Byte_Codec\<close> has big-endian integers and length-prefixed fields with their
  round trips.

  \<^bold>\<open>Persistence\<close> (\<open>filesystem_persistence.rs\<close>). \<open>Event_Log\<close> models frames,
  snapshots, the log parser, opening, appending and compaction over files that
  remember which prefix is on disk. It shows that the parser accepts exactly the
  canonical encodings, that an append survives a crash at any point, and when an
  interrupted compaction can be opened again.

  \<^bold>\<open>Policy\<close> (\<open>policy_gate.rs\<close>, parts of \<open>plugin_registry.rs\<close>, \<open>backend.rs\<close> and
  \<open>crates/pipeline-config\<close>). \<open>Policy_Gate\<close> models the consumption of fresh and
  frozen verdicts and the narrowing of session limits.

  \<^bold>\<open>Multipart uploads.\<close> \<open>Staging_Types\<close> and \<open>Multipart_Listing\<close>
  (\<open>multipart_staging/types.rs\<close>, \<open>listing.rs\<close>) have the vocabulary and the listing,
  whose traversal is complete and finite. \<open>Upload_Lifecycle\<close> is the contract of
  one upload as a locale: the lifecycle, the frozen fields and the finality of a
  recorded commit. \<open>Multipart_Reducer\<close> (\<open>file_multipart_repository/reducer.rs\<close>,
  \<open>types.rs\<close>) is the event reducer of the file repository; \<open>Reducer_Invariants\<close>,
  \<open>Reducer_Runs\<close> and \<open>Reducer_Protocol\<close> show its exact accounting, fencing,
  exclusive leases, idempotent redelivery, transparent compaction and quota
  reconstruction. \<open>Multipart_Memory\<close> (\<open>multipart_staging/memory.rs\<close>) has every
  method of the in-memory repository; \<open>Memory_Invariants\<close> and
  \<open>Memory_Properties\<close> show accounting, lifecycle, isolation and two error paths
  that leave a change behind. Both repositories interpret \<open>Upload_Lifecycle\<close>.

  \<^bold>\<open>Operations\<close> (\<open>transaction\<close>). \<open>Operation_Types\<close> and \<open>Operation_Lifecycle\<close> have
  the state machine, the records and the contract of a journal. \<open>Memory_Journal\<close>
  and \<open>File_Journal\<close> model both journals, \<open>File_Journal_Recovery\<close> and
  \<open>File_Journal_Properties\<close> relate the memory of the file journal to its
  directory after every outcome of a write. \<open>Operation_Reconciler\<close> is the
  reconciler over any journal and backend, \<open>Reconciler_Contracts\<close> the locale
  under which its conclusions are proved, and \<open>Reconciler_Properties\<close> its
  interpretations for both journals.

  \<^bold>\<open>Managed storage\<close> (\<open>managed\<close>). \<open>Managed_Types\<close>, \<open>Managed_Repair\<close> and
  \<open>Managed_State\<close> have the records and validators of \<open>types.rs\<close>, \<open>constants.rs\<close>,
  \<open>physical.rs\<close>, \<open>operations.rs\<close> and \<open>listing.rs\<close>, the repairs of \<open>repair.rs\<close> and
  the state of \<open>memory.rs\<close>. The methods of the in-memory repository are in
  \<open>Managed_Logical\<close> (operations from admission to commit or proven abort),
  \<open>Managed_Objects\<close> (listings, cursors, publication, placement changes, repairs)
  and \<open>Managed_Physical\<close> (write leases, the version ledger, purges). Each call is
  one step of \<open>Managed_Machine\<close>, since the code holds one lock during a call;
  \<open>admit_logical_operation\<close>, which takes the lock three times, is three steps.
  \<open>Managed_Books\<close> proves the accounts of a workspace in every reachable state,
  \<open>Managed_Visible\<close> the visible bytes, \<open>Managed_Runs\<close> what holds along runs, and
  \<open>Managed_Properties\<close> states the results. \<open>Managed_Placement\<close> (\<open>placement.rs\<close>)
  has the rendezvous placement, ranked through the locale \<open>ranking\<close>.

  \<^bold>\<open>Data.\<close> \<open>Pii_Redaction\<close>, \<open>Pii_Runs\<close> and \<open>Pii_Properties\<close>
  (\<open>plugins/shared/pii/src/lib.rs\<close>) show that each filter rewrites exactly the runs
  it judges to be personal data, and where that judgement fails. \<open>Record_Decoder\<close>
  and \<open>Record_Streams\<close> (\<open>record.rs\<close>) show that decoding does not depend on the
  framing of line formats and loses no byte.

  \<^bold>\<open>Conventions.\<close> \<open>u64\<close>, \<open>u32\<close> and identifiers are words of their width, \<open>i64\<close> is
  an integer with its range written into the operations, \<open>usize\<close> is a natural
  number. A fallible function returns a sum whose left side is the error. A
  stateful one returns the state after the call together with its result, so an
  early return shows what it leaves behind. Clock readings, fresh identifiers,
  hashes, JSON and CSV codecs, the answers of the operating system and of a
  backend are arguments. The iteration order of a hash map, which the language
  leaves open, is the order of the association list.

  \<^bold>\<open>Loops.\<close> Every loop of the model terminates: by structural recursion, by a
  measure (the scans of a text, the chain of cursor successors), or by a bound
  that a theorem shows to be enough (the pages of a listing).

  \<^bold>\<open>Not modelled.\<close> The repositories and journals in Postgres, whose behaviour is
  that of a database; HTTP handling, authentication, object and key encryption,
  table formats, the WebAssembly runtime, telemetry, the command line and the
  administration code, which are I/O or calls of external libraries; the floating
  point logarithm of the weighted placement, whose precision the language leaves
  open and which is an argument; the asynchronous scheduling inside one call.
\<close>

end
